(* ===== verification/Prelude.thy ===== *)
theory Prelude
  imports Main "HOL-Library.Word"
begin

text \<open>
  Shared vocabulary of the SyncOS development: the machine integer types of the C sources
  (\<open>uint8_t\<close> ... \<open>uint64_t\<close>, with \<open>uintptr_t\<close> and \<open>size_t\<close> 64 bits wide on x86-64), bit masks,
  the scan for the first entry of a fixed-size table that satisfies a condition (the loop
  \<open>for (i = 0; i < N; i++) if (c(t[i])) { ...; break; }\<close> that occurs in almost every component),
  and the word and list lemmas the component theories share.
\<close>

unbundle bit_operations_syntax

type_synonym u8 = "8 word"
type_synonym u16 = "16 word"
type_synonym u32 = "32 word"
type_synonym u64 = "64 word"

named_theorems bitmap_simps \<open>reading and writing single bits of a byte list\<close>
named_theorems slot_simps \<open>first matching entry of a table\<close>
named_theorems page_simps \<open>page alignment and page table indices\<close>

section \<open>First matching table entry\<close>

definition find_slot :: "('a \<Rightarrow> bool) \<Rightarrow> 'a list \<Rightarrow> nat option" where
  "find_slot P xs = (case filter (\<lambda>i. P (xs ! i)) [0..<length xs] of [] \<Rightarrow> None | i # _ \<Rightarrow> Some i)"

lemma find_slot_None [slot_simps]: "find_slot P xs = None \<longleftrightarrow> (\<forall>i<length xs. \<not> P (xs ! i))"
proof -
  have "find_slot P xs = None \<longleftrightarrow> filter (\<lambda>i. P (xs ! i)) [0..<length xs] = []"
    by (simp add: find_slot_def split: list.splits)
  then show ?thesis by (auto simp: filter_empty_conv)
qed

lemma upt_split_at:
  assumes "[a..<b] = us @ i # vs"
  shows "a \<le> i" and "i < b" and "set us = {a..<i}"
proof -
  have i: "i = a + length us" and l: "length us + Suc (length vs) = b - a"
    using arg_cong [OF assms, of "\<lambda>l. l ! length us"] arg_cong [OF assms, of length]
    by (auto simp: nth_append)
  then show "a \<le> i" "i < b" by auto
  have "us = take (length us) [a..<b]" by (simp add: assms)
  also have "\<dots> = [a..<i]" using i l by (simp add: take_upt)
  finally show "set us = {a..<i}" by (metis set_upt)
qed

lemma find_slot_Some [slot_simps]:
  "find_slot P xs = Some i \<longleftrightarrow> i < length xs \<and> P (xs ! i) \<and> (\<forall>j<i. \<not> P (xs ! j))"
proof
  assume "find_slot P xs = Some i"
  then obtain vs where "filter (\<lambda>i. P (xs ! i)) [0..<length xs] = i # vs"
    by (auto simp: find_slot_def split: list.splits)
  from filter_eq_ConsD [OF this] obtain us ws
    where "[0..<length xs] = us @ i # ws" "\<forall>u\<in>set us. \<not> P (xs ! u)" "P (xs ! i)" by blast
  with upt_split_at show "i < length xs \<and> P (xs ! i) \<and> (\<forall>j<i. \<not> P (xs ! j))" by fastforce
next
  assume *: "i < length xs \<and> P (xs ! i) \<and> (\<forall>j<i. \<not> P (xs ! j))"
  then have "[0..<length xs] = [0..<i] @ i # [Suc i..<length xs]"
    using upt_add_eq_append [of 0 i "length xs - i"] by (simp add: upt_conv_Cons)
  moreover have "filter (\<lambda>i. P (xs ! i)) [0..<i] = []" using * by (auto simp: filter_empty_conv)
  ultimately show "find_slot P xs = Some i" using * by (simp add: find_slot_def)
qed

lemma find_slot_lt: "find_slot P xs = Some i \<Longrightarrow> i < length xs"
  by (simp add: slot_simps)

lemma find_slot_cong:
  "length xs = length ys \<Longrightarrow> (\<And>i. i < length xs \<Longrightarrow> P (xs ! i) = Q (ys ! i)) \<Longrightarrow>
   find_slot P xs = find_slot Q ys"
  unfolding find_slot_def by (rule arg_cong [where f = "case_list _ _"]) (auto intro: filter_cong)

lemma find_slot_Cons: "find_slot P (x # xs) = (if P x then Some 0 else map_option Suc (find_slot P xs))"
proof -
  have u: "[0..<length (x # xs)] = 0 # map Suc [0..<length xs]" by (simp add: map_Suc_upt upt_conv_Cons del: upt_Suc)
  have "filter (\<lambda>i. P ((x # xs) ! i)) (map Suc [0..<length xs]) = map Suc (filter (\<lambda>i. P (xs ! i)) [0..<length xs])"
    by (simp add: filter_map comp_def)
  then show ?thesis unfolding find_slot_def u by (auto split: list.split)
qed

section \<open>Unsigned values of words\<close>

lemma of_nat_u64_0: "(of_nat n :: u64) = 0 \<Longrightarrow> n < 2 ^ 64 \<Longrightarrow> n = 0"
  using dvd_imp_le [of "2 ^ 64" n] by (auto simp: word_of_nat_eq_0_iff)

lemma unat_offset: "unat (p :: u64) + i < 2 ^ 64 \<Longrightarrow> unat (p + of_nat i) = unat p + i"
  by (simp add: unat_word_ariths unat_of_nat)

lemma unat_lt_64: "unat (w :: u64) < 2 ^ 64"
  using unsigned_less [of w] by simp

lemma unat_lt_32: "unat (w :: u32) < 2 ^ 32"
  using unsigned_less [of w] by simp

lemma unat_lt_16: "unat (w :: u16) < 2 ^ 16"
  using unsigned_less [of w] by simp

lemma unat_lt_8: "unat (w :: u8) < 2 ^ 8"
  using unsigned_less [of w] by simp

lemma page_multiple_bound: "(a::nat) mod 4096 = 0 \<Longrightarrow> a < 2 ^ 64 \<Longrightarrow> a \<le> 2 ^ 64 - 4096"
  by (auto simp: mod_eq_0_iff_dvd elim!: dvdE)

section \<open>Bits of a byte list\<close>

definition byte_mask :: "nat \<Rightarrow> u8" where
  "byte_mask i = push_bit (i mod 8) 1"

definition bitmap_test :: "u8 list \<Rightarrow> nat \<Rightarrow> bool" where
  "bitmap_test bm i \<longleftrightarrow> bm ! (i div 8) AND byte_mask i \<noteq> 0"

definition bitmap_set :: "u8 list \<Rightarrow> nat \<Rightarrow> u8 list" where
  "bitmap_set bm i = bm[i div 8 := bm ! (i div 8) OR byte_mask i]"

definition bitmap_clear :: "u8 list \<Rightarrow> nat \<Rightarrow> u8 list" where
  "bitmap_clear bm i = bm[i div 8 := bm ! (i div 8) AND NOT (byte_mask i)]"

lemma length_bitmap [simp]:
  "length (bitmap_set bm i) = length bm" "length (bitmap_clear bm i) = length bm"
  by (simp_all add: bitmap_set_def bitmap_clear_def)

lemma unat_ucast_up:
  "unat (ucast (x :: u32) :: u64) = unat x" "unat (ucast (y :: u16) :: u64) = unat y" "unat (ucast (z :: u8) :: u64) = unat z"
  "unat (ucast (y :: u16) :: u32) = unat y" "unat (ucast (z :: u8) :: u32) = unat z" "unat (ucast (z :: u8) :: u16) = unat z"
  using unat_lt_32 [of x] unat_lt_16 [of y] unat_lt_8 [of z] by (simp_all add: unsigned_ucast_eq take_bit_nat_eq_self)

lemma bit_single: "bit (2 ^ k :: 'a::len word) n \<longleftrightarrow> n = k \<and> k < LENGTH('a)"
  by (auto simp: bit_simps)

lemma clear_bit_same:
  fixes m :: "'a::len word"
  assumes "k < LENGTH('a)"
  shows "m AND NOT (2 ^ k) = m \<longleftrightarrow> \<not> bit m k"
proof
  assume "m AND NOT (2 ^ k) = m"
  then have "bit (m AND NOT (2 ^ k)) k = bit m k" by simp
  then show "\<not> bit m k" using assms by (simp add: bit_and_iff bit_not_iff bit_single)
next
  assume "\<not> bit m k"
  then show "m AND NOT (2 ^ k) = m"
    by (intro bit_eqI) (auto simp: bit_and_iff bit_not_iff bit_single dest: bit_imp_le_length)
qed

lemma set_bit_same:
  fixes m :: "'a::len word"
  assumes "k < LENGTH('a)"
  shows "m OR 2 ^ k = m \<longleftrightarrow> bit m k"
proof
  assume "m OR 2 ^ k = m"
  then have "bit (m OR 2 ^ k) k = bit m k" by simp
  then show "bit m k" using assms by (simp add: bit_or_iff bit_single)
next
  assume "bit m k"
  then show "m OR 2 ^ k = m" by (intro bit_eqI) (auto simp: bit_or_iff bit_single)
qed

lemma bit_clear_set:
  fixes m :: "'a::len word"
  shows "bit (m AND NOT (2 ^ k)) n \<longleftrightarrow> bit m n \<and> n \<noteq> k" "bit (m OR 2 ^ k) n \<longleftrightarrow> bit m n \<or> n = k \<and> k < LENGTH('a)"
  by (auto simp: bit_and_iff bit_or_iff bit_not_iff bit_single dest: bit_imp_le_length)

lemma and_single_bit:
  "w AND push_bit k 1 = (0::'a::len word) \<longleftrightarrow> \<not> bit w k"
  "w AND 2 ^ k = (0::'a::len word) \<longleftrightarrow> \<not> bit w k"
  by (auto simp: bit_eq_iff [where 'a = "'a word"] bit_simps dest: bit_imp_le_length)

lemma bitmap_test_bit: "bitmap_test bm i \<longleftrightarrow> bit (bm ! (i div 8)) (i mod 8)"
  by (simp add: bitmap_test_def byte_mask_def and_single_bit)

lemma byte_bit_eq: "i div 8 = j div 8 \<Longrightarrow> i mod 8 = j mod 8 \<longleftrightarrow> i = (j::nat)"
  by (metis div_mod_decomp)

lemma bitmap_test_set [bitmap_simps]:
  assumes "i div 8 < length bm"
  shows "bitmap_test (bitmap_set bm i) j \<longleftrightarrow> j = i \<or> bitmap_test bm j"
proof (cases "i div 8 = j div 8")
  case True
  with assms show ?thesis
    using byte_bit_eq [OF True]
    by (auto simp: bitmap_test_bit bitmap_set_def byte_mask_def bit_simps)
next
  case False
  then show ?thesis by (auto simp: bitmap_test_bit bitmap_set_def)
qed

lemma bitmap_test_clear [bitmap_simps]:
  assumes "i div 8 < length bm"
  shows "bitmap_test (bitmap_clear bm i) j \<longleftrightarrow> j \<noteq> i \<and> bitmap_test bm j"
proof (cases "i div 8 = j div 8")
  case True
  with assms show ?thesis
    using byte_bit_eq [OF True]
    by (auto simp: bitmap_test_bit bitmap_clear_def byte_mask_def bit_simps)
next
  case False
  then show ?thesis by (auto simp: bitmap_test_bit bitmap_clear_def)
qed

lemma bitmap_eqI:
  assumes "length bm = length bm'" "\<And>i. i div 8 < length bm \<Longrightarrow> bitmap_test bm i = bitmap_test bm' i"
  shows "bm = bm'"
proof (rule nth_equalityI [OF assms(1)], rule bit_word_eqI)
  fix k n assume "k < length bm" "n < LENGTH(8)"
  then have "n < 8" by simp
  then have "(8 * k + n) div 8 = k" "(8 * k + n) mod 8 = n" by auto
  then show "bit (bm ! k) n = bit (bm' ! k) n"
    using assms(2) [of "8 * k + n"] \<open>k < length bm\<close> by (simp add: bitmap_test_bit)
qed

section \<open>Printed lines\<close>

text \<open>
  What a debugging function prints: each call of \<open>printf\<close> as its format, without the newlines, and its arguments. A character array prints up to its
  first zero byte.
\<close>

datatype print_arg = Num u64 | Str string

type_synonym print_line = "string \<times> print_arg list"

definition field_string :: "u8 list \<Rightarrow> print_arg" where
  "field_string bs = Str (map (\<lambda>b. char_of (unat b)) (takeWhile (\<lambda>b. b \<noteq> 0) bs))"

end
