(* ===== verification/Machine.thy ===== *)
theory Machine
  imports Prelude
begin

text \<open>
  The part of the machine that drivers touch: port input and output (\<open>src/src/src/kstd/io.h\<close>) and
  the interrupt flag. The state keeps the log of port accesses, latest first. What a read returns
  is decided by the devices, which are not part of the program: a parameter \<open>dev\<close> maps the history of
  accesses and the port to the value read. The records of the drivers extend the record declared
  here, one file's static variables at a time.
\<close>

datatype io_event =
    Inb u16 u8 | Outb u16 u8
  | Inw u16 u16 | Outw u16 u16
  | Inl u16 u32 | Outl u16 u32
  | Wait

type_synonym device = "io_event list \<Rightarrow> u16 \<Rightarrow> u32"

record machine =
  io_log :: "io_event list"
  interrupt_flag :: bool

definition log_event :: "io_event \<Rightarrow> 'a machine_scheme \<Rightarrow> 'a machine_scheme" where
  "log_event e s = s\<lparr>io_log := e # io_log s\<rparr>"

definition inb :: "device \<Rightarrow> u16 \<Rightarrow> 'a machine_scheme \<Rightarrow> u8 \<times> 'a machine_scheme" where
  "inb dev port s = (let v = ucast (dev (io_log s) port) in (v, log_event (Inb port v) s))"

definition outb :: "u16 \<Rightarrow> u8 \<Rightarrow> 'a machine_scheme \<Rightarrow> 'a machine_scheme" where
  "outb port v s = log_event (Outb port v) s"

definition inw :: "device \<Rightarrow> u16 \<Rightarrow> 'a machine_scheme \<Rightarrow> u16 \<times> 'a machine_scheme" where
  "inw dev port s = (let v = ucast (dev (io_log s) port) in (v, log_event (Inw port v) s))"

definition outw :: "u16 \<Rightarrow> u16 \<Rightarrow> 'a machine_scheme \<Rightarrow> 'a machine_scheme" where
  "outw port v s = log_event (Outw port v) s"

definition inl :: "device \<Rightarrow> u16 \<Rightarrow> 'a machine_scheme \<Rightarrow> u32 \<times> 'a machine_scheme" where
  "inl dev port s = (let v = dev (io_log s) port in (v, log_event (Inl port v) s))"

definition outl :: "u16 \<Rightarrow> u32 \<Rightarrow> 'a machine_scheme \<Rightarrow> 'a machine_scheme" where
  "outl port v s = log_event (Outl port v) s"

text \<open>A read of port \<open>0x80\<close> whose result is dropped.\<close>

definition io_wait :: "'a machine_scheme \<Rightarrow> 'a machine_scheme" where
  "io_wait s = log_event Wait s"

lemmas port_defs = inb_def outb_def inw_def outw_def inl_def outl_def io_wait_def log_event_def

section \<open>What a device has been told\<close>

text \<open>The last byte written to a port, and the number of times a byte was written to it.\<close>

fun last_out :: "u16 \<Rightarrow> io_event list \<Rightarrow> u8 option" where
  "last_out p [] = None"
| "last_out p (Outb q v # es) = (if q = p then Some v else last_out p es)"
| "last_out p (_ # es) = last_out p es"

fun count_out :: "u16 \<Rightarrow> u8 \<Rightarrow> io_event list \<Rightarrow> nat" where
  "count_out p v [] = 0"
| "count_out p v (Outb q w # es) = (if q = p \<and> w = v then Suc (count_out p v es) else count_out p v es)"
| "count_out p v (_ # es) = count_out p v es"

end
