(* ===== verification/Idt.thy ===== *)
theory Idt
  imports Machine
begin

text \<open>
  The interrupt descriptor table, \<open>src/src/src/syncos/idt.c\<close> and \<open>idt.h\<close>. The addresses of the
  assembly stubs and of the table itself are parameters of \<open>idt_init\<close>; code addresses are \<open>u64\<close> with
  0 for a null pointer. The texts that go to the serial port and to the console are not modelled.
\<close>

section \<open>State and operations\<close>

definition IDT_ENTRIES :: nat where "IDT_ENTRIES = 256"
definition IDT_GATE_INTERRUPT :: u8 where "IDT_GATE_INTERRUPT = 0x8E"

record idt_entry_t =
  offset_low :: u16
  idt_selector :: u16
  ist :: u8
  type_attr :: u8
  offset_mid :: u16
  offset_high :: u32
  idt_reserved :: u32

record idtr_t =
  idtr_limit :: u16
  idtr_base :: u64

record idt_state = machine +
  idt :: "idt_entry_t list"
  idtr :: idtr_t
  exception_handlers :: "u64 list"
  idt_initialized :: bool
  idt_loaded :: "idtr_t option"

definition zero_gate :: idt_entry_t where
  "zero_gate = \<lparr>offset_low = 0, idt_selector = 0, ist = 0, type_attr = 0, offset_mid = 0, offset_high = 0, idt_reserved = 0\<rparr>"

definition idt_set_gate :: "u8 \<Rightarrow> u64 \<Rightarrow> u16 \<Rightarrow> u8 \<Rightarrow> u8 \<Rightarrow> 'a idt_state_scheme \<Rightarrow> 'a idt_state_scheme" where
  "idt_set_gate vector addr sel gtype gist s =
     (if IDT_ENTRIES \<le> unat vector then s
      else s\<lparr>idt := (idt s)[unat vector :=
             \<lparr>offset_low = ucast (addr AND 0xFFFF), idt_selector = sel, ist = gist, type_attr = gtype,
              offset_mid = ucast (drop_bit 16 addr AND 0xFFFF), offset_high = ucast (drop_bit 32 addr AND 0xFFFFFFFF),
              idt_reserved = 0\<rparr>]\<rparr>)"

text \<open>
  \<open>None\<close> stands for the halt after a failed check. The loop over the 32 exception vectors skips
  null stubs.
\<close>

definition set_exception_gates :: "u64 list \<Rightarrow> nat \<Rightarrow> 'a idt_state_scheme \<Rightarrow> 'a idt_state_scheme" where
  "set_exception_gates isr_stubs n s =
     fold (\<lambda>i t. if isr_stubs ! i = 0 then t
                else idt_set_gate (of_nat i) (isr_stubs ! i) 0x08 IDT_GATE_INTERRUPT 0 t) [0..<n] s"

definition idt_init :: "u64 list \<Rightarrow> u64 \<Rightarrow> 'a idt_state_scheme \<Rightarrow> 'a idt_state_scheme option" where
  "idt_init isr_stubs table s =
     (if idt_initialized s then Some s
      else let s1 = s\<lparr>idt_initialized := True, idt := replicate IDT_ENTRIES zero_gate,
                      idtr := \<lparr>idtr_limit = 16 * 256 - 1, idtr_base = table\<rparr>\<rparr>;
               s2 = set_exception_gates isr_stubs 32 s1;
               s3 = s2\<lparr>idt_loaded := Some (idtr s2)\<rparr>
           in if idtr_base (idtr s3) = 0 \<or> idtr_limit (idtr s3) = 0 then None else Some s3)"

definition idt_register_exception_handler :: "u8 \<Rightarrow> u64 \<Rightarrow> 'a idt_state_scheme \<Rightarrow> 'a idt_state_scheme" where
  "idt_register_exception_handler vector handler s =
     (if unat vector < IDT_ENTRIES then s\<lparr>exception_handlers := (exception_handlers s)[unat vector := handler]\<rparr> else s)"

text \<open>The handler is called through its pointer: \<open>call\<close> stands for that code; \<open>None\<close> is the halt.\<close>

definition handle_exception ::
  "(u64 \<Rightarrow> u64 \<Rightarrow> u64 \<Rightarrow> 'a idt_state_scheme \<Rightarrow> 'a idt_state_scheme option) \<Rightarrow> u64 \<Rightarrow> u64 \<Rightarrow> u64 \<Rightarrow>
   'a idt_state_scheme \<Rightarrow> 'a idt_state_scheme option" where
  "handle_exception call vector error_code rip s =
     (if exception_handlers s ! unat vector \<noteq> 0
      then call (exception_handlers s ! unat vector) error_code rip s else None)"

definition idt_enable_interrupts :: "'a idt_state_scheme \<Rightarrow> 'a idt_state_scheme" where
  "idt_enable_interrupts s = s\<lparr>interrupt_flag := True\<rparr>"

definition idt_disable_interrupts :: "'a idt_state_scheme \<Rightarrow> 'a idt_state_scheme" where
  "idt_disable_interrupts s = s\<lparr>interrupt_flag := False\<rparr>"

definition idt_are_interrupts_enabled :: "'a idt_state_scheme \<Rightarrow> bool" where
  "idt_are_interrupts_enabled s = interrupt_flag s"

definition idt_set_handler :: "u8 \<Rightarrow> u64 \<Rightarrow> u8 \<Rightarrow> 'a idt_state_scheme \<Rightarrow> 'a idt_state_scheme" where
  "idt_set_handler vector handler gtype s =
     (if unat vector < IDT_ENTRIES then idt_set_gate vector handler 0x08 gtype 0 s else s)"

section \<open>Gates\<close>

text \<open>The handler address that the processor reassembles from a gate.\<close>

definition gate_address :: "idt_entry_t \<Rightarrow> u64" where
  "gate_address g = ucast (offset_low g) OR push_bit 16 (ucast (offset_mid g)) OR push_bit 32 (ucast (offset_high g))"

lemma split_address:
  "ucast (ucast (a AND 0xFFFF) :: u16) OR push_bit 16 (ucast (ucast (drop_bit 16 a AND 0xFFFF) :: u16)) OR
   push_bit 32 (ucast (ucast (drop_bit 32 a AND 0xFFFFFFFF) :: u32)) = (a :: u64)"
proof -
  have m: "(0xFFFF :: u64) = mask 16" "(0xFFFFFFFF :: u64) = mask 32" by (simp_all add: mask_eq_exp_minus_1)
  show ?thesis
    unfolding m
  proof (rule bit_eqI)
    fix n :: nat
    consider "n < 16" | "16 \<le> n" "n < 32" | "32 \<le> n" by linarith
    then show "bit ((ucast (ucast (a AND mask 16) :: u16) :: u64) OR push_bit 16 (ucast (ucast (drop_bit 16 a AND mask 16) :: u16)) OR
        push_bit 32 (ucast (ucast (drop_bit 32 a AND mask 32) :: u32))) n = bit a n"
      by cases (auto simp: bit_simps dest: bit_imp_le_length)
  qed
qed

lemma idt_set_gate_get:
  assumes "length (idt s) = 256"
  shows "length (idt (idt_set_gate v a sel gt gi s)) = 256"
    and "idt (idt_set_gate v a sel gt gi s) ! j =
      (if j = unat v then \<lparr>offset_low = ucast (a AND 0xFFFF), idt_selector = sel, ist = gi, type_attr = gt,
              offset_mid = ucast (drop_bit 16 a AND 0xFFFF), offset_high = ucast (drop_bit 32 a AND 0xFFFFFFFF),
              idt_reserved = 0\<rparr> else idt s ! j)"
  using assms unat_lt_8 [of v] by (auto simp: idt_set_gate_def IDT_ENTRIES_def nth_list_update)

lemma idt_set_gate_other:
  "exception_handlers (idt_set_gate v a sel gt gi s) = exception_handlers s" "idtr (idt_set_gate v a sel gt gi s) = idtr s"
  "idt_initialized (idt_set_gate v a sel gt gi s) = idt_initialized s" "io_log (idt_set_gate v a sel gt gi s) = io_log s"
  by (simp_all add: idt_set_gate_def)

text \<open>A gate that leads to \<open>a\<close>.\<close>

definition gate_for :: "u64 \<Rightarrow> idt_entry_t \<Rightarrow> bool" where
  "gate_for a g \<longleftrightarrow> gate_address g = a \<and> idt_selector g = 0x08 \<and> type_attr g = IDT_GATE_INTERRUPT \<and> ist g = 0"

lemma init_gates:
  assumes "length (idt s) = 256" "n \<le> 256"
  shows "length (idt (set_exception_gates st n s)) = 256 \<and> idtr (set_exception_gates st n s) = idtr s \<and>
    idt_initialized (set_exception_gates st n s) = idt_initialized s \<and>
    (\<forall>j<256. if j < n \<and> st ! j \<noteq> 0 then gate_for (st ! j) (idt (set_exception_gates st n s) ! j)
       else idt (set_exception_gates st n s) ! j = idt s ! j)"
  using assms(2)
proof (induction n)
  case 0
  then show ?case using assms(1) by (simp add: set_exception_gates_def)
next
  case (Suc n)
  have u: "unat (of_nat n :: u8) = n" using Suc.prems by (simp add: unat_of_nat)
  let ?t = "set_exception_gates st n s"
  have step: "set_exception_gates st (Suc n) s =
      (if st ! n = 0 then ?t else idt_set_gate (of_nat n) (st ! n) 0x08 IDT_GATE_INTERRUPT 0 ?t)"
    by (simp add: set_exception_gates_def)
  have IH: "length (idt ?t) = 256" "idtr ?t = idtr s" "idt_initialized ?t = idt_initialized s"
    "\<forall>j<256. if j < n \<and> st ! j \<noteq> 0 then gate_for (st ! j) (idt ?t ! j) else idt ?t ! j = idt s ! j"
    using Suc by auto
  show ?case
    using IH idt_set_gate_get [OF IH(1), of "of_nat n" "st ! n" "0x08" IDT_GATE_INTERRUPT 0]
    by (auto simp: step u less_Suc_eq idt_set_gate_other gate_for_def gate_address_def split_address)
qed

text \<open>
  Initialisation of the interrupt table: unless it was done before, it loads a table of 256 gates
  in which each of the 32 exception vectors with a stub leads to that stub, at the address and with
  the attributes the processor decodes, and all other gates are empty.
\<close>

theorem idt_init_gates:
  assumes "\<not> idt_initialized s" "table \<noteq> 0"
  shows "\<exists>t. idt_init stubs table s = Some t \<and> idt_initialized t \<and> idt_loaded t = Some \<lparr>idtr_limit = 4095, idtr_base = table\<rparr> \<and>
    length (idt t) = 256 \<and>
    (\<forall>j<256. if j < 32 \<and> stubs ! j \<noteq> 0 then gate_for (stubs ! j) (idt t ! j) else idt t ! j = zero_gate)"
proof -
  let ?s1 = "s\<lparr>idt_initialized := True, idt := replicate 256 zero_gate, idtr := \<lparr>idtr_limit = 4095, idtr_base = table\<rparr>\<rparr>"
  let ?t = "set_exception_gates stubs 32 ?s1"
  have "idt_init stubs table s = Some (?t\<lparr>idt_loaded := Some (idtr ?t)\<rparr>)"
    using init_gates [of ?s1 32 stubs] assms by (simp add: idt_init_def Let_def IDT_ENTRIES_def)
  then show ?thesis using init_gates [of ?s1 32 stubs] by simp
qed

definition idt_demo :: idt_state where
  "idt_demo = \<lparr>io_log = [], interrupt_flag = False, idt = replicate 256 zero_gate, idtr = \<lparr>idtr_limit = 0, idtr_base = 0\<rparr>,
     exception_handlers = replicate 256 0, idt_initialized = False, idt_loaded = None\<rparr>"

theorem idt_init_gates_witness:
  "\<exists>t. idt_init (replicate 32 0xffffffff80001234) 0xffffffff80100000 idt_demo = Some t \<and> gate_for 0xffffffff80001234 (idt t ! 14)"
proof -
  have "\<not> idt_initialized idt_demo" "(0xffffffff80100000 :: u64) \<noteq> 0" by (simp_all add: idt_demo_def)
  from idt_init_gates [OF this, of "replicate 32 0xffffffff80001234"] show ?thesis
    by (auto dest!: spec [of _ 14])
qed

end
