(* ===== verification/Pic.thy ===== *)
theory Pic
  imports Idt
begin

text \<open>
  The driver of the two cascaded 8259 interrupt controllers, \<open>src/src/src/syncos/pic.c\<close>. It keeps a
  copy of the two mask registers and writes a register only when its copy changes, which is correct
  as long as the copies agree with what was last written to the data ports (\<open>pic_sync\<close>).
\<close>

section \<open>State and operations\<close>

record pic_state = idt_state +
  pic_master_mask :: u8
  pic_slave_mask :: u8
  pic_master_offset :: u8
  pic_slave_offset :: u8
  pic_initialized :: bool

definition PIC1_COMMAND :: u16 where "PIC1_COMMAND = 0x20"
definition PIC1_DATA :: u16 where "PIC1_DATA = 0x21"
definition PIC2_COMMAND :: u16 where "PIC2_COMMAND = 0xA0"
definition PIC2_DATA :: u16 where "PIC2_DATA = 0xA1"
definition PIC_EOI :: u8 where "PIC_EOI = 0x20"
definition PIC_READ_IRR :: u8 where "PIC_READ_IRR = 0x0A"
definition PIC_READ_ISR :: u8 where "PIC_READ_ISR = 0x0B"

lemmas pic_ports = PIC1_COMMAND_def PIC1_DATA_def PIC2_COMMAND_def PIC2_DATA_def PIC_EOI_def
  PIC_READ_IRR_def PIC_READ_ISR_def

definition pic_init :: "u8 \<Rightarrow> u8 \<Rightarrow> 'a pic_state_scheme \<Rightarrow> 'a pic_state_scheme" where
  "pic_init master_offset slave_offset s =
     (let was_initialized = pic_initialized s; s0 = s\<lparr>pic_initialized := True\<rparr>
      in if was_initialized then s0
         else let s1 = s0\<lparr>pic_master_offset := master_offset, pic_slave_offset := slave_offset\<rparr>;
                  s2 = io_wait (outb PIC2_COMMAND 0x11 (io_wait (outb PIC1_COMMAND 0x11 s1)));
                  s3 = io_wait (outb PIC2_DATA slave_offset (io_wait (outb PIC1_DATA master_offset s2)));
                  s4 = io_wait (outb PIC2_DATA 2 (io_wait (outb PIC1_DATA 4 s3)));
                  s5 = io_wait (outb PIC2_DATA 1 (io_wait (outb PIC1_DATA 1 s4)))
              in outb PIC2_DATA (pic_slave_mask s5) (outb PIC1_DATA (pic_master_mask s5) s5))"

definition pic_disable :: "'a pic_state_scheme \<Rightarrow> 'a pic_state_scheme" where
  "pic_disable s =
     (if \<not> pic_initialized s then s
      else (outb PIC2_DATA 0xFF (outb PIC1_DATA 0xFF s))\<lparr>pic_master_mask := 0xFF, pic_slave_mask := 0xFF\<rparr>)"

definition pic_enable_irq :: "u8 \<Rightarrow> 'a pic_state_scheme \<Rightarrow> 'a pic_state_scheme" where
  "pic_enable_irq irq s =
     (if 16 \<le> irq then s
      else if irq < 8
      then let mask = pic_master_mask s AND NOT (push_bit (unat irq) 1)
           in if mask \<noteq> pic_master_mask s then outb PIC1_DATA mask (s\<lparr>pic_master_mask := mask\<rparr>) else s
      else let mask = pic_slave_mask s AND NOT (push_bit (unat (irq - 8)) 1)
           in if mask \<noteq> pic_slave_mask s
              then let s1 = outb PIC2_DATA mask (s\<lparr>pic_slave_mask := mask\<rparr>)
                   in if pic_master_mask s1 AND push_bit 2 1 \<noteq> 0
                      then let m = pic_master_mask s1 AND NOT (push_bit 2 1)
                           in outb PIC1_DATA m (s1\<lparr>pic_master_mask := m\<rparr>)
                      else s1
              else s)"

definition pic_disable_irq :: "u8 \<Rightarrow> 'a pic_state_scheme \<Rightarrow> 'a pic_state_scheme" where
  "pic_disable_irq irq s =
     (if 16 \<le> irq then s
      else if irq < 8
      then let mask = pic_master_mask s OR push_bit (unat irq) 1
           in if mask \<noteq> pic_master_mask s then outb PIC1_DATA mask (s\<lparr>pic_master_mask := mask\<rparr>) else s
      else let mask = pic_slave_mask s OR push_bit (unat (irq - 8)) 1
           in if mask \<noteq> pic_slave_mask s then outb PIC2_DATA mask (s\<lparr>pic_slave_mask := mask\<rparr>) else s)"

definition pic_send_eoi :: "u8 \<Rightarrow> 'a pic_state_scheme \<Rightarrow> 'a pic_state_scheme" where
  "pic_send_eoi irq s =
     outb PIC1_COMMAND PIC_EOI (if 8 \<le> irq then outb PIC2_COMMAND PIC_EOI s else s)"

definition pic_get_register :: "device \<Rightarrow> u8 \<Rightarrow> 'a pic_state_scheme \<Rightarrow> u16 \<times> 'a pic_state_scheme" where
  "pic_get_register dev reg_command s =
     (let s1 = outb PIC2_COMMAND reg_command (outb PIC1_COMMAND reg_command s);
          (master_value, s2) = inb dev PIC1_COMMAND s1;
          (slave_value, s3) = inb dev PIC2_COMMAND (io_wait s2)
      in (push_bit 8 (ucast slave_value) OR ucast master_value, s3))"

definition pic_get_irr :: "device \<Rightarrow> 'a pic_state_scheme \<Rightarrow> u16 \<times> 'a pic_state_scheme" where
  "pic_get_irr dev s = pic_get_register dev PIC_READ_IRR s"

definition pic_get_isr :: "device \<Rightarrow> 'a pic_state_scheme \<Rightarrow> u16 \<times> 'a pic_state_scheme" where
  "pic_get_isr dev s = pic_get_register dev PIC_READ_ISR s"

definition pic_is_irq_in_service :: "device \<Rightarrow> u8 \<Rightarrow> 'a pic_state_scheme \<Rightarrow> bool \<times> 'a pic_state_scheme" where
  "pic_is_irq_in_service dev irq s =
     (if 16 \<le> irq then (False, s)
      else let (isr, s1) = pic_get_isr dev s in (isr AND push_bit (unat irq) 1 \<noteq> 0, s1))"

definition pic_is_irq_pending :: "device \<Rightarrow> u8 \<Rightarrow> 'a pic_state_scheme \<Rightarrow> bool \<times> 'a pic_state_scheme" where
  "pic_is_irq_pending dev irq s =
     (if 16 \<le> irq then (False, s)
      else let (irr, s1) = pic_get_irr dev s in (irr AND push_bit (unat irq) 1 \<noteq> 0, s1))"

text \<open>The loop ends when the device reports completion; \<open>None\<close> stands for a loop that does not end.\<close>

partial_function (option) pic_wait_loop :: "device \<Rightarrow> u8 \<Rightarrow> 'a pic_state_scheme \<Rightarrow> 'a pic_state_scheme option" where
  "pic_wait_loop dev irq s =
     (case pic_is_irq_in_service dev irq s of
        (busy, s1) \<Rightarrow> if busy then pic_wait_loop dev irq s1 else Some s1)"

definition pic_wait_for_irq_completion :: "device \<Rightarrow> u8 \<Rightarrow> 'a pic_state_scheme \<Rightarrow> 'a pic_state_scheme option" where
  "pic_wait_for_irq_completion dev irq s = (if 16 \<le> irq then Some s else pic_wait_loop dev irq s)"

section \<open>The masks in the controllers\<close>

definition pic_sync :: "'a pic_state_scheme \<Rightarrow> bool" where
  "pic_sync s \<longleftrightarrow> (pic_initialized s \<longrightarrow>
     last_out PIC1_DATA (io_log s) = Some (pic_master_mask s) \<and> last_out PIC2_DATA (io_log s) = Some (pic_slave_mask s))"

text \<open>Whether the masks, read as one 16-bit word, mask a line.\<close>

definition masked :: "u8 \<Rightarrow> u8 \<Rightarrow> nat \<Rightarrow> bool" where
  "masked m sl i = (if i < 8 then bit m i else bit sl (i - 8))"

lemma pic_sync_ops:
  "pic_sync s \<Longrightarrow> pic_sync (pic_init mo so s)" "pic_sync s \<Longrightarrow> pic_sync (pic_disable s)"
  "pic_sync s \<Longrightarrow> pic_sync (pic_enable_irq irq s)" "pic_sync s \<Longrightarrow> pic_sync (pic_disable_irq irq s)"
  "pic_sync s \<Longrightarrow> pic_sync (pic_send_eoi irq s)" "pic_sync s \<Longrightarrow> pic_sync (snd (pic_get_register dev r s))"
  unfolding pic_sync_def
  by (auto simp: pic_init_def pic_disable_def pic_enable_irq_def pic_disable_irq_def pic_send_eoi_def pic_get_register_def
      Let_def port_defs pic_ports)

lemma irq_cases:
  assumes "\<not> 16 \<le> (irq :: u8)"
  obtains (master) "irq < 8" "unat irq < 8" | (slave) "\<not> irq < 8" "unat (irq - 8) < 8" "unat irq = unat (irq - 8) + 8"
proof (cases "irq < 8")
  case True
  then show thesis by (intro master) (simp_all add: word_less_nat_alt)
next
  case False
  then have "unat (irq - 8) = unat irq - 8" by (simp add: unat_sub word_le_nat_alt word_less_nat_alt)
  moreover have "unat irq < 16" "8 \<le> unat irq" using assms False by (simp_all add: word_le_nat_alt word_less_nat_alt)
  ultimately show thesis using False by (intro slave) auto
qed

text \<open>The cascade line, bit 2 of the master mask, as the simplifier normalises it.\<close>

lemma cascade_bit:
  "bit (m AND - 5) n \<longleftrightarrow> bit m n \<and> n \<noteq> 2" "m AND 4 = 0 \<longleftrightarrow> \<not> bit m 2" for m :: u8
  using bit_clear_set(1) [of m 2 n] and_single_bit(2) [of m 2] by simp_all

lemma pic_enable_masked:
  assumes "\<not> 16 \<le> irq" "i < 16"
  shows "masked (pic_master_mask (pic_enable_irq irq s)) (pic_slave_mask (pic_enable_irq irq s)) i =
    (if i = unat irq then False
     else if i = 2 \<and> 8 \<le> irq \<and> masked (pic_master_mask s) (pic_slave_mask s) (unat irq) then False
     else masked (pic_master_mask s) (pic_slave_mask s) i)"
  using assms(1)
proof (cases rule: irq_cases)
  case master
  then show ?thesis
    using assms by (auto simp: pic_enable_irq_def Let_def port_defs masked_def clear_bit_same bit_clear_set)
next
  case slave
  then show ?thesis
    using assms by (auto simp: pic_enable_irq_def Let_def port_defs masked_def clear_bit_same bit_clear_set cascade_bit)
qed

lemma pic_disable_masked:
  assumes "\<not> 16 \<le> irq" "i < 16"
  shows "masked (pic_master_mask (pic_disable_irq irq s)) (pic_slave_mask (pic_disable_irq irq s)) i =
    (i = unat irq \<or> masked (pic_master_mask s) (pic_slave_mask s) i)"
  using assms(1)
proof (cases rule: irq_cases)
  case master
  then show ?thesis using assms by (auto simp: pic_disable_irq_def Let_def port_defs masked_def set_bit_same bit_clear_set)
next
  case slave
  then show ?thesis using assms by (auto simp: pic_disable_irq_def Let_def port_defs masked_def set_bit_same bit_clear_set)
qed

end
