(* ===== verification/Slot_Table.thy ===== *)
theory Slot_Table
  imports Prelude "HOL-Library.Multiset"
begin

text \<open>
  The contract of the fixed-size callback tables that several drivers keep: a new entry goes to the
  first slot that is not active, an entry is removed by clearing the first active slot with a given
  key. The client lemmas describe a table by the multiset of its active entries.
\<close>

definition slot_register :: "('e \<Rightarrow> bool) \<Rightarrow> 'e \<Rightarrow> 'e list \<Rightarrow> bool \<times> 'e list" where
  "slot_register active e t =
     (case find_slot (\<lambda>x. \<not> active x) t of Some i \<Rightarrow> (True, t[i := e]) | None \<Rightarrow> (False, t))"

definition slot_unregister :: "('e \<Rightarrow> bool) \<Rightarrow> ('e \<Rightarrow> 'k) \<Rightarrow> ('e \<Rightarrow> 'e) \<Rightarrow> 'k \<Rightarrow> 'e list \<Rightarrow> bool \<times> 'e list" where
  "slot_unregister active key clear k t =
     (case find_slot (\<lambda>x. active x \<and> key x = k) t of Some i \<Rightarrow> (True, t[i := clear (t ! i)]) | None \<Rightarrow> (False, t))"

definition slot_entries :: "('e \<Rightarrow> bool) \<Rightarrow> 'e list \<Rightarrow> 'e multiset" where
  "slot_entries active t = mset (filter active t)"

locale slot_table =
  fixes active :: "'e \<Rightarrow> bool" and key :: "'e \<Rightarrow> 'k" and clear :: "'e \<Rightarrow> 'e"
  assumes clear_inactive: "\<not> active (clear e)"
begin

abbreviation entries :: "'e list \<Rightarrow> 'e multiset" where
  "entries \<equiv> slot_entries active"

lemma entries_update:
  assumes "i < length t"
  shows "entries (t[i := e]) + (if active (t ! i) then {#t ! i#} else {#}) = entries t + (if active e then {#e#} else {#})"
proof -
  have "mset (t[i := e]) + {#t ! i#} = mset t + {#e#}" using assms by (simp add: mset_update)
  then have "filter_mset active (mset (t[i := e]) + {#t ! i#}) = filter_mset active (mset t + {#e#})" by simp
  then show ?thesis by (simp add: slot_entries_def mset_filter split: if_splits)
qed

lemma register_cases:
  assumes "slot_register active e t = (ok, t')" "active e"
  obtains (full) "\<not> ok" "t' = t" "\<forall>x\<in>set t. active x"
  | (added) i where "ok" "i < length t" "\<not> active (t ! i)" "t' = t[i := e]" "entries t' = add_mset e (entries t)"
proof (cases "find_slot (\<lambda>x. \<not> active x) t")
  case None
  with assms(1) show thesis by (intro full) (auto simp: slot_register_def slot_simps in_set_conv_nth)
next
  case (Some i)
  then have i: "i < length t" "\<not> active (t ! i)" by (auto simp: slot_simps)
  moreover from Some assms(1) have "ok" "t' = t[i := e]" by (auto simp: slot_register_def)
  ultimately show thesis using entries_update [OF i(1), of e] assms(2) by (intro added [of i]) auto
qed

lemma register_room:
  assumes "active e" "size (entries t) < length t"
  shows "\<exists>t'. slot_register active e t = (True, t') \<and> length t' = length t \<and> entries t' = add_mset e (entries t)"
proof -
  obtain ok t' where r: "slot_register active e t = (ok, t')" by fastforce
  from r assms(1) show ?thesis
  proof (cases rule: register_cases)
    case full
    then have "filter active t = t" by (simp add: filter_id_conv)
    with assms(2) show ?thesis by (simp add: slot_entries_def)
  next
    case added
    with r show ?thesis by auto
  qed
qed

lemma unregister_cases:
  assumes "slot_unregister active key clear k t = (ok, t')"
  obtains (absent) "\<not> ok" "t' = t" "\<forall>x\<in>#entries t. key x \<noteq> k"
  | (removed) x where "ok" "length t' = length t" "x \<in># entries t" "key x = k" "entries t = add_mset x (entries t')"
proof (cases "find_slot (\<lambda>x. active x \<and> key x = k) t")
  case None
  with assms show thesis by (intro absent) (auto simp: slot_unregister_def slot_simps slot_entries_def in_set_conv_nth)
next
  case (Some i)
  then have i: "i < length t" "active (t ! i)" "key (t ! i) = k" by (auto simp: slot_simps)
  moreover from Some assms have "ok" "t' = t[i := clear (t ! i)]" by (auto simp: slot_unregister_def)
  ultimately show thesis
    using entries_update [OF i(1), of "clear (t ! i)"] clear_inactive
    by (intro removed [of "t ! i"]) (auto simp: slot_entries_def)
qed

lemma register_unregister:
  assumes r: "slot_register active e t = (True, t1)" and e: "active e" "key e = k" and new: "\<forall>x\<in>#entries t. key x \<noteq> k"
    and u: "slot_unregister active key clear k t1 = (ok, t2)"
  shows "ok \<and> entries t2 = entries t"
  using r e(1)
proof (cases rule: register_cases)
  case (added i)
  note a = added(5)
  from u show ?thesis
  proof (cases rule: unregister_cases)
    case absent
    then show ?thesis using a e(2) by simp
  next
    case (removed x)
    have "x \<in># add_mset e (entries t)" using removed(3) a by simp
    with removed(4) new have "x = e" by auto
    with removed a show ?thesis by auto
  qed
qed simp

end

end
