(* ===== verification/Irq.thy ===== *)
theory Irq
  imports Pic Slot_Table
begin

text \<open>
  Interrupt request management, \<open>src/src/src/syncos/irq.c\<close>: per-line handler tables, dispatch with the
  detection of spurious interrupts, and the tick counter. Handlers are called through pointers: the
  parameter \<open>call\<close> stands for their code (pointer, line, context, state to result and state). The
  assembly stubs are a parameter of \<open>irq_init\<close>. Waiting for an interrupt with \<open>hlt\<close> is the
  parameter of \<open>irq_sleep_ms\<close>, which maps the state before to the state after the interrupt.
\<close>

section \<open>State and operations\<close>

definition MAX_IRQ_HANDLERS :: nat where "MAX_IRQ_HANDLERS = 8"
definition IRQ_BASE_VECTOR :: u8 where "IRQ_BASE_VECTOR = 0x20"
definition IRQ_TIMER :: u8 where "IRQ_TIMER = 0"

record irq_handler_entry_t =
  ih_handler :: u64
  ih_context :: u64
  ih_active :: bool

record irq_state = pic_state +
  irq_handlers :: "irq_handler_entry_t list list"
  irq_counts :: "u64 list"
  irq_spurious_counts :: "u64 list"
  system_ticks :: u64
  irq_system_initialized :: bool
  irq_enabled_mask :: u16
  timer_frequency_hz :: u32

type_synonym 'a irq_call = "u64 \<Rightarrow> u8 \<Rightarrow> u64 \<Rightarrow> 'a irq_state_scheme \<Rightarrow> bool \<times> 'a irq_state_scheme"

definition irq_set_all_masked :: "'a irq_state_scheme \<Rightarrow> 'a irq_state_scheme" where
  "irq_set_all_masked s = (outb PIC2_DATA 0xFF (outb PIC1_DATA 0xFF s))\<lparr>irq_enabled_mask := 0\<rparr>"

definition irq_clear_all_masked :: "'a irq_state_scheme \<Rightarrow> 'a irq_state_scheme" where
  "irq_clear_all_masked s = (outb PIC2_DATA 0x00 (outb PIC1_DATA 0x00 s))\<lparr>irq_enabled_mask := 0xFFFF\<rparr>"

definition irq_setup_isrs :: "u64 list \<Rightarrow> 'a irq_state_scheme \<Rightarrow> 'a irq_state_scheme" where
  "irq_setup_isrs stubs s =
     fold (\<lambda>i t. idt_set_handler (IRQ_BASE_VECTOR + of_nat i) (stubs ! i) IDT_GATE_INTERRUPT t) [0..<16] s"

definition irq_init :: "u64 list \<Rightarrow> 'a irq_state_scheme \<Rightarrow> 'a irq_state_scheme" where
  "irq_init stubs s =
     (if irq_system_initialized s then s
      else (irq_set_all_masked (irq_setup_isrs stubs (pic_init IRQ_BASE_VECTOR (IRQ_BASE_VECTOR + 8) s)))
             \<lparr>irq_system_initialized := True\<rparr>)"

definition irq_enable :: "u8 \<Rightarrow> 'a irq_state_scheme \<Rightarrow> 'a irq_state_scheme" where
  "irq_enable irq s =
     (if 16 \<le> irq then s
      else let s1 = pic_enable_irq irq s
           in s1\<lparr>irq_enabled_mask := irq_enabled_mask s1 OR push_bit (unat irq) 1\<rparr>)"

definition irq_disable :: "u8 \<Rightarrow> 'a irq_state_scheme \<Rightarrow> 'a irq_state_scheme" where
  "irq_disable irq s =
     (if 16 \<le> irq then s
      else let s1 = pic_disable_irq irq s
           in s1\<lparr>irq_enabled_mask := irq_enabled_mask s1 AND NOT (push_bit (unat irq) 1)\<rparr>)"

definition irq_is_enabled :: "u8 \<Rightarrow> 'a irq_state_scheme \<Rightarrow> bool" where
  "irq_is_enabled irq s = (if 16 \<le> irq then False else irq_enabled_mask s AND push_bit (unat irq) 1 \<noteq> 0)"

definition irq_register_handler :: "u8 \<Rightarrow> u64 \<Rightarrow> u64 \<Rightarrow> 'a irq_state_scheme \<Rightarrow> bool \<times> 'a irq_state_scheme" where
  "irq_register_handler irq handler context s =
     (if 16 \<le> irq \<or> handler = 0 then (False, s)
      else case find_slot (\<lambda>e. \<not> ih_active e) (irq_handlers s ! unat irq) of
             Some i \<Rightarrow>
               (let s1 = s\<lparr>irq_handlers := (irq_handlers s)[unat irq :=
                           (irq_handlers s ! unat irq)[i := \<lparr>ih_handler = handler, ih_context = context, ih_active = True\<rparr>]]\<rparr>
                in (True, if i = 0 then irq_enable irq s1 else s1))
           | None \<Rightarrow> (False, s))"

definition irq_unregister_handler :: "u8 \<Rightarrow> u64 \<Rightarrow> 'a irq_state_scheme \<Rightarrow> bool \<times> 'a irq_state_scheme" where
  "irq_unregister_handler irq handler s =
     (if 16 \<le> irq \<or> handler = 0 then (False, s)
      else let (found, s1) =
             (case find_slot (\<lambda>e. ih_active e \<and> ih_handler e = handler) (irq_handlers s ! unat irq) of
                Some i \<Rightarrow> (True, s\<lparr>irq_handlers := (irq_handlers s)[unat irq :=
                           (irq_handlers s ! unat irq)[i := \<lparr>ih_handler = 0, ih_context = 0, ih_active = False\<rparr>]]\<rparr>)
              | None \<Rightarrow> (False, s));
             any_active = list_ex ih_active (irq_handlers s1 ! unat irq)
           in (found, if \<not> any_active then irq_disable irq s1 else s1))"

definition irq_end_of_interrupt :: "u8 \<Rightarrow> 'a irq_state_scheme \<Rightarrow> 'a irq_state_scheme" where
  "irq_end_of_interrupt irq s = pic_send_eoi irq s"

definition irq_is_spurious :: "device \<Rightarrow> u8 \<Rightarrow> 'a irq_state_scheme \<Rightarrow> bool \<times> 'a irq_state_scheme" where
  "irq_is_spurious dev irq s =
     (if irq \<noteq> 7 \<and> irq \<noteq> 15 then (False, s)
      else let (isr, s1) = pic_get_isr dev s in (isr AND push_bit (unat irq) 1 = 0, s1))"

definition irq_handle_spurious :: "u8 \<Rightarrow> 'a irq_state_scheme \<Rightarrow> 'a irq_state_scheme" where
  "irq_handle_spurious irq s =
     (let s1 = s\<lparr>irq_spurious_counts := (irq_spurious_counts s)[unat irq := irq_spurious_counts s ! unat irq + 1]\<rparr>
      in if irq = 15 then outb PIC1_COMMAND PIC_EOI s1 else s1)"

text \<open>The loop over the handler slots; a handler sees and may change the state.\<close>

fun call_handlers :: "'a irq_call \<Rightarrow> u8 \<Rightarrow> nat list \<Rightarrow> bool \<Rightarrow> 'a irq_state_scheme \<Rightarrow> bool \<times> 'a irq_state_scheme" where
  "call_handlers call irq [] handled s = (handled, s)"
| "call_handlers call irq (i # is) handled s =
     (let e = irq_handlers s ! unat irq ! i
      in if ih_active e \<and> ih_handler e \<noteq> 0
         then let (result, s1) = call (ih_handler e) irq (ih_context e) s
              in call_handlers call irq is (handled \<or> result) s1
         else call_handlers call irq is handled s)"

definition irq_dispatch :: "device \<Rightarrow> 'a irq_call \<Rightarrow> u8 \<Rightarrow> 'a irq_state_scheme \<Rightarrow> 'a irq_state_scheme" where
  "irq_dispatch dev call irq s =
     (if 16 \<le> irq then s
      else let (spurious, s1) = irq_is_spurious dev irq s
           in if spurious then irq_handle_spurious irq s1
      else let s2 = s1\<lparr>irq_counts := (irq_counts s1)[unat irq := irq_counts s1 ! unat irq + 1]\<rparr>;
               s3 = (if irq = IRQ_TIMER then s2\<lparr>system_ticks := system_ticks s2 + 1\<rparr> else s2);
               (handled, s4) = call_handlers call irq [0..<MAX_IRQ_HANDLERS] False s3
           in if \<not> handled \<and> (irq = 7 \<or> irq = 15)
              then let (isr, s5) = pic_get_isr dev s4
                   in if isr AND push_bit (unat irq) 1 = 0
                      then let s6 = s5\<lparr>irq_spurious_counts := (irq_spurious_counts s5)[unat irq := irq_spurious_counts s5 ! unat irq + 1]\<rparr>
                           in if irq = 15 then outb PIC1_COMMAND PIC_EOI s6 else s6
                      else irq_end_of_interrupt irq s5
              else irq_end_of_interrupt irq s4)"

definition irq_get_ticks :: "'a irq_state_scheme \<Rightarrow> u64" where
  "irq_get_ticks s = system_ticks s"

definition irq_get_uptime_ms :: "'a irq_state_scheme \<Rightarrow> u64" where
  "irq_get_uptime_ms s = (system_ticks s * 1000) div ucast (timer_frequency_hz s)"

partial_function (option) irq_sleep_loop :: "('a irq_state_scheme \<Rightarrow> 'a irq_state_scheme) \<Rightarrow> u64 \<Rightarrow> 'a irq_state_scheme \<Rightarrow> 'a irq_state_scheme option" where
  "irq_sleep_loop hlt target s =
     (if system_ticks s < target then irq_sleep_loop hlt target (hlt s) else Some s)"

definition irq_sleep_ms :: "('a irq_state_scheme \<Rightarrow> 'a irq_state_scheme) \<Rightarrow> u32 \<Rightarrow> 'a irq_state_scheme \<Rightarrow> 'a irq_state_scheme option" where
  "irq_sleep_ms hlt milliseconds s =
     irq_sleep_loop hlt (system_ticks s + ucast ((milliseconds * timer_frequency_hz s) div 1000)) s"


section \<open>Enabled lines and the masks in the controllers\<close>

lemma pic_ops_frame [simp]:
  "irq_enabled_mask (pic_enable_irq irq s) = irq_enabled_mask s" "irq_enabled_mask (pic_disable_irq irq s) = irq_enabled_mask s"
  "pic_initialized (pic_enable_irq irq s) = pic_initialized s" "pic_initialized (pic_disable_irq irq s) = pic_initialized s"
  by (simp_all add: pic_enable_irq_def pic_disable_irq_def Let_def port_defs)

definition lines_sync :: "'a irq_state_scheme \<Rightarrow> bool" where
  "lines_sync s \<longleftrightarrow> pic_initialized s \<and> pic_sync s \<and>
     (\<forall>i<16. i \<noteq> 2 \<longrightarrow> bit (irq_enabled_mask s) i = (\<not> masked (pic_master_mask s) (pic_slave_mask s) i))"

text \<open>A change that keeps the masks, the port log apart from command ports, and the line mask.\<close>

lemma lines_sync_cong:
  assumes "lines_sync s" "pic_initialized t = pic_initialized s" "irq_enabled_mask t = irq_enabled_mask s"
    "pic_master_mask t = pic_master_mask s" "pic_slave_mask t = pic_slave_mask s"
    "last_out PIC1_DATA (io_log t) = last_out PIC1_DATA (io_log s)" "last_out PIC2_DATA (io_log t) = last_out PIC2_DATA (io_log s)"
  shows "lines_sync t"
  using assms by (simp add: lines_sync_def pic_sync_def)

lemma lines_sync_enable: "lines_sync s \<Longrightarrow> lines_sync (irq_enable irq s)"
proof (cases "16 \<le> irq")
  case False
  assume s: "lines_sync s"
  have u: "unat irq < 16" using False by (simp add: word_le_nat_alt)
  have "pic_sync (irq_enable irq s)"
    using pic_sync_ops(3) [of s irq] s False by (simp add: lines_sync_def irq_enable_def Let_def pic_sync_def)
  then show ?thesis
    using s False u by (auto simp: lines_sync_def irq_enable_def Let_def pic_enable_masked bit_clear_set)
qed (simp add: irq_enable_def)

lemma lines_sync_disable: "lines_sync s \<Longrightarrow> lines_sync (irq_disable irq s)"
proof (cases "16 \<le> irq")
  case False
  assume s: "lines_sync s"
  have u: "unat irq < 16" using False by (simp add: word_le_nat_alt)
  have "pic_sync (irq_disable irq s)"
    using pic_sync_ops(4) [of s irq] s False by (simp add: lines_sync_def irq_disable_def Let_def pic_sync_def)
  then show ?thesis
    using s False u by (auto simp: lines_sync_def irq_disable_def Let_def pic_disable_masked bit_clear_set)
qed (simp add: irq_disable_def)

lemma lines_sync_handlers [simp]: "lines_sync (s\<lparr>irq_handlers := h\<rparr>) = lines_sync s"
  by (simp add: lines_sync_def pic_sync_def)

lemma lines_sync_register: "lines_sync s \<Longrightarrow> lines_sync (snd (irq_register_handler irq h c s))"
  by (auto simp: irq_register_handler_def Let_def intro: lines_sync_enable split: option.split)

lemma lines_sync_unregister: "lines_sync s \<Longrightarrow> lines_sync (snd (irq_unregister_handler irq h s))"
  by (auto simp: irq_unregister_handler_def Let_def intro: lines_sync_disable split: option.split)

lemma lines_sync_get_isr: "lines_sync s \<Longrightarrow> lines_sync (snd (pic_get_isr dev s))"
  by (rule lines_sync_cong) (simp_all add: pic_get_isr_def pic_get_register_def Let_def port_defs pic_ports)

lemma lines_sync_command: "lines_sync s \<Longrightarrow> lines_sync (outb PIC1_COMMAND v s)" "lines_sync s \<Longrightarrow> lines_sync (outb PIC2_COMMAND v s)"
  by (rule lines_sync_cong; simp add: port_defs pic_ports)+

lemma lines_sync_counts [simp]:
  "lines_sync (s\<lparr>irq_counts := c\<rparr>) = lines_sync s" "lines_sync (s\<lparr>irq_spurious_counts := c\<rparr>) = lines_sync s"
  "lines_sync (s\<lparr>system_ticks := n\<rparr>) = lines_sync s"
  by (simp_all add: lines_sync_def pic_sync_def)

lemma call_handlers_keeps:
  assumes "\<forall>h c t. P t \<longrightarrow> P (snd (call h irq c t))" "P s"
  shows "P (snd (call_handlers call irq is b s))"
  using assms(2)
proof (induction "is" arbitrary: b s)
  case (Cons i "is")
  then show ?case using assms(1) by (auto simp: Let_def split: prod.split) (metis snd_conv)
qed simp

lemma lines_sync_dispatch:
  assumes call: "\<forall>h i c t. lines_sync t \<longrightarrow> lines_sync (snd (call h i c t))" and s: "lines_sync s"
  shows "lines_sync (irq_dispatch dev call irq s)"
proof -
  obtain sp s1 where 1: "irq_is_spurious dev irq s = (sp, s1)" by fastforce
  have s1: "lines_sync s1"
    using 1 s lines_sync_get_isr [OF s, of dev] by (auto simp: irq_is_spurious_def Let_def split: if_splits prod.splits)
  let ?s2 = "s1\<lparr>irq_counts := (irq_counts s1)[unat irq := irq_counts s1 ! unat irq + 1]\<rparr>"
  let ?s3 = "if irq = IRQ_TIMER then ?s2\<lparr>system_ticks := system_ticks ?s2 + 1\<rparr> else ?s2"
  obtain b s4 where 4: "call_handlers call irq [0..<MAX_IRQ_HANDLERS] False ?s3 = (b, s4)" by fastforce
  have "lines_sync ?s3" using s1 by simp
  with call_handlers_keeps [of lines_sync call irq ?s3 "[0..<MAX_IRQ_HANDLERS]" False] call 4 have s4: "lines_sync s4" by simp
  obtain isr s5 where 5: "pic_get_isr dev s4 = (isr, s5)" by fastforce
  have s5: "lines_sync s5" using lines_sync_get_isr [OF s4, of dev] 5 by simp
  have eoi: "lines_sync (irq_end_of_interrupt x t)" if "lines_sync t" for x t
    using that by (simp add: irq_end_of_interrupt_def pic_send_eoi_def lines_sync_command)
  show ?thesis
    using s s1 s4 s5
    by (simp add: eoi irq_dispatch_def 1 4 5 Let_def irq_handle_spurious_def lines_sync_command)
qed

text \<open>The uses of the module after initialisation, other than the functions that write all masks at once.\<close>

inductive irq_step :: "device \<Rightarrow> 'a irq_call \<Rightarrow> 'a irq_state_scheme \<Rightarrow> 'a irq_state_scheme \<Rightarrow> bool"
  for dev call where
  step_register: "irq_step dev call s (snd (irq_register_handler irq h c s))"
| step_unregister: "irq_step dev call s (snd (irq_unregister_handler irq h s))"
| step_enable: "irq_step dev call s (irq_enable irq s)"
| step_disable: "irq_step dev call s (irq_disable irq s)"
| step_dispatch: "irq_step dev call s (irq_dispatch dev call irq s)"

lemma irq_steps_sync:
  assumes "(irq_step dev call)\<^sup>*\<^sup>* s t" "lines_sync s" "\<forall>h i c u. lines_sync u \<longrightarrow> lines_sync (snd (call h i c u))"
  shows "lines_sync t"
  using assms(1,2)
proof (induction rule: rtranclp_induct)
  case (step y z)
  from step(2) show ?case
    using step(3) [OF step(4)] assms(3)
    by cases (auto intro: lines_sync_register lines_sync_unregister lines_sync_enable lines_sync_disable lines_sync_dispatch)
qed

lemma irq_setup_frame:
  "pic_initialized (irq_setup_isrs st s) = pic_initialized s" "io_log (irq_setup_isrs st s) = io_log s"
  "pic_master_mask (irq_setup_isrs st s) = pic_master_mask s" "pic_slave_mask (irq_setup_isrs st s) = pic_slave_mask s"
proof -
  have "pic_initialized (fold (\<lambda>i t. idt_set_handler (f i) (g i) x t) is s) = pic_initialized s \<and>
        io_log (fold (\<lambda>i t. idt_set_handler (f i) (g i) x t) is s) = io_log s \<and>
        pic_master_mask (fold (\<lambda>i t. idt_set_handler (f i) (g i) x t) is s) = pic_master_mask s \<and>
        pic_slave_mask (fold (\<lambda>i t. idt_set_handler (f i) (g i) x t) is s) = pic_slave_mask s"
    for f g x and "is" :: "nat list"
    by (induction "is" arbitrary: s) (auto simp: idt_set_handler_def idt_set_gate_def)
  then show "pic_initialized (irq_setup_isrs st s) = pic_initialized s" "io_log (irq_setup_isrs st s) = io_log s"
    "pic_master_mask (irq_setup_isrs st s) = pic_master_mask s" "pic_slave_mask (irq_setup_isrs st s) = pic_slave_mask s"
    by (simp_all add: irq_setup_isrs_def)
qed

lemma irq_init_sync:
  assumes "\<not> irq_system_initialized s" "\<not> pic_initialized s" "pic_master_mask s = 0xFF" "pic_slave_mask s = 0xFF"
  shows "lines_sync (irq_init stubs s)"
proof -
  have "bit (0xFF :: u8) i" if "i < 8" for i
    using that by (simp add: bit_numeral_rec numeral_eq_Suc less_Suc_eq) auto
  then have "masked 0xFF 0xFF i" if "i < 16" for i using that by (auto simp: masked_def)
  moreover have "pic_initialized (pic_init mo so s)" "pic_master_mask (pic_init mo so s) = 0xFF" "pic_slave_mask (pic_init mo so s) = 0xFF" for mo so
    using assms by (simp_all add: pic_init_def Let_def port_defs)
  ultimately show ?thesis
    using assms by (simp add: lines_sync_def irq_init_def irq_set_all_masked_def port_defs irq_setup_frame pic_sync_def pic_ports)
qed


section \<open>Properties\<close>

text \<open>The line masks as last written to the controllers.\<close>

definition hw_masked :: "'a irq_state_scheme \<Rightarrow> nat \<Rightarrow> bool" where
  "hw_masked s i =
     (case (last_out PIC1_DATA (io_log s), last_out PIC2_DATA (io_log s)) of
        (Some m, Some sl) \<Rightarrow> masked m sl i | _ \<Rightarrow> True)"

lemma lines_sync_hw:
  assumes "lines_sync s" "\<not> 16 \<le> irq" "irq \<noteq> 2"
  shows "irq_is_enabled irq s = (\<not> hw_masked s (unat irq))"
proof -
  have "unat irq < 16" using assms(2) by (simp add: word_le_nat_alt)
  moreover have "unat irq \<noteq> 2" using assms(3) by (simp add: word_unat_eq_iff)
  ultimately show ?thesis
    using assms(1,2) by (simp add: irq_is_enabled_def hw_masked_def lines_sync_def pic_sync_def and_single_bit)
qed



text \<open>Concrete states: the static initial state, and handlers that do nothing.\<close>

definition irq_demo :: irq_state where
  "irq_demo = idt_state.extend idt_demo
     \<lparr>pic_master_mask = 0xFF, pic_slave_mask = 0xFF, pic_master_offset = 0, pic_slave_offset = 0, pic_initialized = False,
      irq_handlers = replicate 16 (replicate 8 \<lparr>ih_handler = 0, ih_context = 0, ih_active = False\<rparr>),
      irq_counts = replicate 16 0, irq_spurious_counts = replicate 16 0, system_ticks = 0, irq_system_initialized = False,
      irq_enabled_mask = 0, timer_frequency_hz = 1000\<rparr>"

lemma irq_demo_fields:
  "\<not> irq_system_initialized irq_demo" "\<not> pic_initialized irq_demo" "pic_master_mask irq_demo = 0xFF" "pic_slave_mask irq_demo = 0xFF"
  by (simp_all add: irq_demo_def idt_state.defs)

definition idle_call :: "unit irq_call" where
  "idle_call h i c s = (True, s)"


text \<open>The port bookkeeping of the dispatcher.\<close>

abbreviation eois :: "u16 \<Rightarrow> 'a irq_state_scheme \<Rightarrow> nat" where
  "eois port s \<equiv> count_out port PIC_EOI (io_log s)"

lemma get_isr_frame:
  assumes "pic_get_isr dev s = (v, t)"
  shows "eois p t = eois p s" "irq_spurious_counts t = irq_spurious_counts s"
  using assms by (auto simp: pic_get_isr_def pic_get_register_def Let_def port_defs pic_ports)




lemma irq_sleep_loop_returns:
  assumes tick: "\<forall>u. system_ticks (hlt u) = system_ticks u + 1"
  shows "unat (system_ticks s) + n = unat target \<Longrightarrow> \<exists>t. irq_sleep_loop hlt target s = Some t \<and> system_ticks t = target"
proof (induction n arbitrary: s)
  case 0
  then have "system_ticks s = target" by (simp add: word_unat_eq_iff)
  then show ?case by (subst irq_sleep_loop.simps) simp
next
  case (Suc n)
  have lt: "system_ticks s < target" using Suc.prems by (simp add: word_less_nat_alt)
  have "unat (system_ticks s + 1) = Suc (unat (system_ticks s))"
    using Suc.prems unat_lt_64 [of target] by (simp add: unat_word_ariths)
  with Suc.prems tick have "unat (system_ticks (hlt s)) + n = unat target" by simp
  from Suc.IH [OF this] lt show ?case by (subst irq_sleep_loop.simps) simp
qed

text \<open>
  \<open>irq_sleep_ms\<close> returns, provided each wake-up is a timer tick, after exactly the number of ticks
  the code computes; the product of milliseconds and frequency is taken modulo \<open>2 ^ 32\<close>.
\<close>

theorem irq_sleep_ms_returns:
  assumes "\<forall>u. system_ticks (hlt u) = system_ticks u + 1"
    and "unat (system_ticks s) + (unat ms * unat (timer_frequency_hz s) mod 2 ^ 32) div 1000 < 2 ^ 64"
  shows "\<exists>t. irq_sleep_ms hlt ms s = Some t \<and>
    unat (system_ticks t) = unat (system_ticks s) + (unat ms * unat (timer_frequency_hz s) mod 2 ^ 32) div 1000"
proof -
  let ?d = "(unat ms * unat (timer_frequency_hz s) mod 2 ^ 32) div 1000"
  let ?w = "(ms * timer_frequency_hz s) div 1000"
  have "unat ?w = ?d" by (simp add: unat_div unat_word_ariths)
  then have "unat (ucast ?w :: u64) = ?d" by (simp add: unat_ucast_up)
  then have u: "unat (system_ticks s + ucast ?w) = unat (system_ticks s) + ?d"
    using assms(2) by (simp add: unat_word_ariths)
  obtain t where "irq_sleep_loop hlt (system_ticks s + ucast ?w) s = Some t" "system_ticks t = system_ticks s + ucast ?w"
    using irq_sleep_loop_returns [OF assms(1), of s ?d "system_ticks s + ucast ?w"] u by auto
  with u show ?thesis by (simp add: irq_sleep_ms_def)
qed

theorem irq_sleep_ms_returns_witness:
  "\<exists>t. irq_sleep_ms (\<lambda>u. u\<lparr>system_ticks := system_ticks u + 1\<rparr>) 5000000 irq_demo = Some t \<and> unat (system_ticks t) = 705032"
  using irq_sleep_ms_returns [of "\<lambda>u. u\<lparr>system_ticks := system_ticks u + 1\<rparr>" irq_demo 5000000]
  by (simp add: irq_demo_def idt_state.defs)

text \<open>
  The functions that write all masks at once bypass the copies kept by the controller driver:
  after unmasking everything, disabling line 3 reports it as disabled but leaves it open in the
  hardware.
\<close>

theorem irq_clear_all_then_disable:
  "let t = irq_disable 3 (irq_clear_all_masked (irq_init [] irq_demo))
   in \<not> irq_is_enabled 3 t \<and> \<not> hw_masked t 3"
proof -
  let ?i = "irq_init [] irq_demo"
  have "pic_master_mask ?i = 0xFF"
    by (simp add: irq_init_def irq_demo_fields irq_set_all_masked_def port_defs irq_setup_frame pic_init_def Let_def)
  then show ?thesis
    by (simp add: Let_def irq_disable_def irq_clear_all_masked_def pic_disable_irq_def irq_is_enabled_def hw_masked_def
        port_defs pic_ports masked_def)
qed


section \<open>Handler tables\<close>

definition clear_irq_entry :: "irq_handler_entry_t \<Rightarrow> irq_handler_entry_t" where
  "clear_irq_entry e = \<lparr>ih_handler = 0, ih_context = 0, ih_active = False\<rparr>"

interpretation irq_table: slot_table ih_active ih_handler clear_irq_entry
  by unfold_locales (simp add: clear_irq_entry_def)

lemma irq_enable_handlers [simp]: "irq_handlers (irq_enable irq s) = irq_handlers s" "irq_handlers (irq_disable irq s) = irq_handlers s"
  by (simp_all add: irq_enable_def irq_disable_def Let_def pic_enable_irq_def pic_disable_irq_def port_defs)

lemma irq_register_table:
  assumes "\<not> 16 \<le> irq" "h \<noteq> 0"
  shows "fst (irq_register_handler irq h c s) = fst (slot_register ih_active \<lparr>ih_handler = h, ih_context = c, ih_active = True\<rparr> (irq_handlers s ! unat irq))"
    and "irq_handlers (snd (irq_register_handler irq h c s)) =
      (irq_handlers s)[unat irq := snd (slot_register ih_active \<lparr>ih_handler = h, ih_context = c, ih_active = True\<rparr> (irq_handlers s ! unat irq))]"
  using assms by (auto simp: irq_register_handler_def slot_register_def Let_def split: option.split)

lemma irq_unregister_table:
  assumes "\<not> 16 \<le> irq" "h \<noteq> 0"
  shows "fst (irq_unregister_handler irq h s) = fst (slot_unregister ih_active ih_handler clear_irq_entry h (irq_handlers s ! unat irq))"
    and "irq_handlers (snd (irq_unregister_handler irq h s)) =
      (irq_handlers s)[unat irq := snd (slot_unregister ih_active ih_handler clear_irq_entry h (irq_handlers s ! unat irq))]"
  using assms by (auto simp: irq_unregister_handler_def slot_unregister_def clear_irq_entry_def Let_def split: option.split)

text \<open>
  Registering a handler succeeds exactly when its line has a free slot; unregistering it again,
  when it was not registered before, succeeds and gives the line the active entries it had before,
  and no other line is affected by either.
\<close>

theorem irq_register_unregister:
  assumes irq: "\<not> 16 \<le> irq" "h \<noteq> 0" and len: "length (irq_handlers s) = 16"
    and new: "\<forall>e\<in>#slot_entries ih_active (irq_handlers s ! unat irq). ih_handler e \<noteq> h"
    and r: "irq_register_handler irq h c s = (ok, s1)" and u: "irq_unregister_handler irq h s1 = (ok', s2)"
  shows "ok = (\<exists>e\<in>set (irq_handlers s ! unat irq). \<not> ih_active e) \<and>
    (ok \<longrightarrow> ok' \<and> slot_entries ih_active (irq_handlers s2 ! unat irq) = slot_entries ih_active (irq_handlers s ! unat irq)) \<and>
    (\<forall>j<16. j \<noteq> unat irq \<longrightarrow> irq_handlers s1 ! j = irq_handlers s ! j \<and> irq_handlers s2 ! j = irq_handlers s ! j)"
proof -
  let ?e = "\<lparr>ih_handler = h, ih_context = c, ih_active = True\<rparr>"
  have i: "unat irq < 16" using irq by (simp add: word_le_nat_alt)
  obtain b t1 where t1: "slot_register ih_active ?e (irq_handlers s ! unat irq) = (b, t1)" by fastforce
  have s1: "ok = b" "irq_handlers s1 = (irq_handlers s)[unat irq := t1]"
    using irq_register_table [OF irq, of c s] r t1 by auto
  obtain b' t2 where t2: "slot_unregister ih_active ih_handler clear_irq_entry h t1 = (b', t2)" by fastforce
  have "irq_handlers s1 ! unat irq = t1" using s1 i len by simp
  then have s2: "ok' = b'" "irq_handlers s2 = (irq_handlers s1)[unat irq := t2]"
    using irq_unregister_table [OF irq, of s1] u t2 by auto
  have "b = (\<exists>e\<in>set (irq_handlers s ! unat irq). \<not> ih_active e)"
    using t1 by (cases rule: irq_table.register_cases) (auto intro: bexI [OF _ nth_mem])
  moreover have "b \<Longrightarrow> b' \<and> slot_entries ih_active t2 = slot_entries ih_active (irq_handlers s ! unat irq)"
    using irq_table.register_unregister [of ?e "irq_handlers s ! unat irq" t1 h b' t2] t1 t2 new by simp
  ultimately show ?thesis using s1 s2 i len by simp
qed

theorem irq_register_unregister_witness:
  "slot_entries ih_active (irq_handlers (snd (irq_unregister_handler 3 0x1000 (snd (irq_register_handler 3 0x1000 0 irq_demo)))) ! 3) = {#}"
proof -
  have d: "irq_handlers irq_demo = replicate 16 (replicate 8 \<lparr>ih_handler = 0, ih_context = 0, ih_active = False\<rparr>)"
    by (simp add: irq_demo_def idt_state.defs)
  have e: "slot_entries ih_active (irq_handlers irq_demo ! 3) = {#}"
    by (simp add: d slot_entries_def)
  have "\<exists>e\<in>set (irq_handlers irq_demo ! 3). \<not> ih_active e" by (simp add: d)
  moreover have "\<not> 16 \<le> (3 :: u8)" "(0x1000 :: u64) \<noteq> 0" "length (irq_handlers irq_demo) = 16"
    "\<forall>e\<in>#slot_entries ih_active (irq_handlers irq_demo ! unat (3 :: u8)). ih_handler e \<noteq> 0x1000"
    by (simp_all add: d slot_entries_def)
  ultimately show ?thesis
    using irq_register_unregister [of 3 "0x1000" irq_demo, OF _ _ _ _ prod.collapse [symmetric] prod.collapse [symmetric], of 0] e by simp
qed

end
