(* ===== verification/Timer.thy ===== *)
theory Timer
  imports Irq
begin

text \<open>
  The programmable interval timer, \<open>src/src/src/syncos/timer.c\<close>: programming of the divisor, the table
  of periodic callbacks and the tick handler. Callbacks are called through pointers (parameter
  \<open>call\<close>). The callback lock is only ever taken and released inside one function: with nobody to
  release it a taken lock is waited for forever, which is the result \<open>None\<close>. The address of the
  tick handler, the waiting for an interrupt and the time stamp counter are parameters.
\<close>

section \<open>State and operations\<close>

definition MAX_TIMER_CALLBACKS :: nat where "MAX_TIMER_CALLBACKS = 16"
definition PIT_BASE_FREQUENCY :: u32 where "PIT_BASE_FREQUENCY = 1193182"
definition PIT_COMMAND :: u16 where "PIT_COMMAND = 0x43"
definition PIT_CHANNEL0_DATA :: u16 where "PIT_CHANNEL0_DATA = 0x40"

record timer_callback_entry_t =
  tc_callback :: u64
  tc_context :: u64
  tc_interval_ms :: u32
  tc_next_tick :: u64
  tc_active :: bool

record timer_state = irq_state +
  timer_frequency :: u32
  timer_tick_count :: u64
  timer_callbacks :: "timer_callback_entry_t list"
  timer_initialized :: bool
  timer_callbacks_lock :: bool

type_synonym 'a timer_call = "u64 \<Rightarrow> u64 \<Rightarrow> u64 \<Rightarrow> 'a timer_state_scheme \<Rightarrow> 'a timer_state_scheme"

definition timer_effective :: "u32 \<Rightarrow> u32" where
  "timer_effective frequency_hz =
     (if frequency_hz < 19 \<or> PIT_BASE_FREQUENCY < frequency_hz then 1000 else frequency_hz)"

definition timer_set_frequency :: "u32 \<Rightarrow> 'a timer_state_scheme \<Rightarrow> 'a timer_state_scheme" where
  "timer_set_frequency frequency_hz0 s =
     (let frequency_hz = timer_effective frequency_hz0;
          divisor = PIT_BASE_FREQUENCY div frequency_hz;
          interrupts_enabled = idt_are_interrupts_enabled s;
          s1 = (if interrupts_enabled then idt_disable_interrupts s else s);
          s2 = s1\<lparr>timer_frequency := frequency_hz\<rparr>;
          s3 = io_wait (outb PIT_COMMAND 0x36 s2);
          s4 = io_wait (outb PIT_CHANNEL0_DATA (ucast (divisor AND 0xFF)) s3);
          s5 = outb PIT_CHANNEL0_DATA (ucast (drop_bit 8 divisor AND 0xFF)) s4
      in if interrupts_enabled then idt_enable_interrupts s5 else s5)"

definition timer_get_frequency :: "'a timer_state_scheme \<Rightarrow> u32" where
  "timer_get_frequency s = timer_frequency s"

definition empty_callback :: timer_callback_entry_t where
  "empty_callback = \<lparr>tc_callback = 0, tc_context = 0, tc_interval_ms = 0, tc_next_tick = 0, tc_active = False\<rparr>"

text \<open>
  \<open>None\<close> is the division by zero in the last message, \<open>1000 / frequency_hz\<close>, when the caller passes
  frequency 0.
\<close>

definition timer_init :: "u64 \<Rightarrow> u32 \<Rightarrow> 'a timer_state_scheme \<Rightarrow> 'a timer_state_scheme option" where
  "timer_init timer_irq_handler_addr frequency_hz s =
     (if timer_initialized s then Some s
      else let s1 = timer_set_frequency frequency_hz (s\<lparr>timer_callbacks := replicate MAX_TIMER_CALLBACKS empty_callback\<rparr>);
               (ok, s2) = irq_register_handler IRQ_TIMER timer_irq_handler_addr 0 s1
           in if \<not> ok then Some s2
              else let s3 = (pic_enable_irq IRQ_TIMER s2)\<lparr>timer_initialized := True\<rparr>
                   in if frequency_hz = 0 then None else Some s3)"

definition tick_increment :: "u32 \<Rightarrow> u32 \<Rightarrow> u64" where
  "tick_increment interval_ms freq =
     (let n = (ucast interval_ms * ucast freq) div 1000 in if n = 0 then 1 else n)"

definition timer_register_callback :: "u64 \<Rightarrow> u64 \<Rightarrow> u32 \<Rightarrow> 'a timer_state_scheme \<Rightarrow> (bool \<times> 'a timer_state_scheme) option" where
  "timer_register_callback callback context interval_ms s =
     (if callback = 0 \<or> interval_ms = 0 \<or> \<not> timer_initialized s then Some (False, s)
      else if timer_callbacks_lock s then None
      else case find_slot (\<lambda>e. \<not> tc_active e) (timer_callbacks s) of
             Some i \<Rightarrow> Some (True, s\<lparr>timer_callbacks := (timer_callbacks s)[i :=
                 \<lparr>tc_callback = callback, tc_context = context, tc_interval_ms = interval_ms,
                  tc_next_tick = timer_tick_count s + tick_increment interval_ms (timer_frequency s), tc_active = True\<rparr>]\<rparr>)
           | None \<Rightarrow> Some (False, s))"

definition clear_callback :: "timer_callback_entry_t \<Rightarrow> timer_callback_entry_t" where
  "clear_callback e = e\<lparr>tc_active := False, tc_callback := 0, tc_context := 0\<rparr>"

definition timer_unregister_callback :: "u64 \<Rightarrow> 'a timer_state_scheme \<Rightarrow> (bool \<times> 'a timer_state_scheme) option" where
  "timer_unregister_callback callback s =
     (if callback = 0 \<or> \<not> timer_initialized s then Some (False, s)
      else if timer_callbacks_lock s then None
      else case find_slot (\<lambda>e. tc_active e \<and> tc_callback e = callback) (timer_callbacks s) of
             Some i \<Rightarrow> Some (True, s\<lparr>timer_callbacks := (timer_callbacks s)[i := clear_callback (timer_callbacks s ! i)]\<rparr>)
           | None \<Rightarrow> Some (False, s))"

text \<open>One slot of the loop in the tick handler; the callback sees and may change the state.\<close>

definition timer_slot :: "'a timer_call \<Rightarrow> nat \<Rightarrow> 'a timer_state_scheme \<Rightarrow> 'a timer_state_scheme" where
  "timer_slot call i s =
     (let e = timer_callbacks s ! i
      in if tc_active e \<and> tc_next_tick e \<le> timer_tick_count s \<and> tc_callback e \<noteq> 0
         then let s1 = call (tc_callback e) (timer_tick_count s) (tc_context e) s
              in if tc_active (timer_callbacks s1 ! i)
                 then s1\<lparr>timer_callbacks := (timer_callbacks s1)[i := (timer_callbacks s1 ! i)
                           \<lparr>tc_next_tick := timer_tick_count s1 + tick_increment (tc_interval_ms e) (timer_frequency s1)\<rparr>]\<rparr>
                 else s1
         else s)"

definition timer_irq_handler :: "'a timer_call \<Rightarrow> 'a timer_state_scheme \<Rightarrow> bool \<times> 'a timer_state_scheme" where
  "timer_irq_handler call s =
     (True, fold (timer_slot call) [0..<MAX_TIMER_CALLBACKS] (s\<lparr>timer_tick_count := timer_tick_count s + 1\<rparr>))"

definition timer_get_ticks :: "'a timer_state_scheme \<Rightarrow> u64" where
  "timer_get_ticks s = timer_tick_count s"

definition timer_get_uptime_ms :: "'a timer_state_scheme \<Rightarrow> u64" where
  "timer_get_uptime_ms s =
     (let ticks = timer_get_ticks s; freq = timer_get_frequency s
      in if freq = 0 then 0 else (ticks * 1000) div ucast freq)"

text \<open>
  \<open>timer_busy_wait_us\<close>: \<open>tsc n\<close> is the \<open>n\<close>-th reading of the time stamp counter; the result is the
  number of readings taken.
\<close>

partial_function (option) busy_wait_loop :: "(nat \<Rightarrow> u64) \<Rightarrow> u64 \<Rightarrow> u64 \<Rightarrow> nat \<Rightarrow> nat option" where
  "busy_wait_loop tsc start wait_cycles n =
     (if tsc n - start < wait_cycles then busy_wait_loop tsc start wait_cycles (n + 1) else Some (n + 1))"

definition timer_busy_wait_us :: "(nat \<Rightarrow> u64) \<Rightarrow> u32 \<Rightarrow> nat option" where
  "timer_busy_wait_us tsc microseconds = busy_wait_loop tsc (tsc 0) (ucast microseconds * 2000) 1"

partial_function (option) timer_sleep_loop :: "('a timer_state_scheme \<Rightarrow> 'a timer_state_scheme) \<Rightarrow> u64 \<Rightarrow> 'a timer_state_scheme \<Rightarrow> 'a timer_state_scheme option" where
  "timer_sleep_loop hlt target s =
     (if timer_get_ticks s < target then timer_sleep_loop hlt target (hlt (s\<lparr>interrupt_flag := True\<rparr>)) else Some s)"

definition timer_sleep_ms :: "(nat \<Rightarrow> u64) \<Rightarrow> ('a timer_state_scheme \<Rightarrow> 'a timer_state_scheme) \<Rightarrow> u32 \<Rightarrow> 'a timer_state_scheme \<Rightarrow> 'a timer_state_scheme option" where
  "timer_sleep_ms tsc hlt milliseconds s =
     (if \<not> timer_initialized s \<or> timer_frequency s = 0
      then map_option (\<lambda>_. s) (timer_busy_wait_us tsc (milliseconds * 1000))
      else timer_sleep_loop hlt (timer_get_ticks s + (ucast milliseconds * ucast (timer_frequency s)) div 1000) s)"


lemma find_slot_replicate: "P x \<Longrightarrow> 0 < n \<Longrightarrow> find_slot P (replicate n x) = Some 0"
  by (cases n) (simp_all add: slot_simps)

section \<open>Programming the divisor\<close>

lemma timer_effective_range: "19 \<le> unat (timer_effective f)" "unat (timer_effective f) \<le> 1193182"
  by (auto simp: timer_effective_def PIT_BASE_FREQUENCY_def word_less_nat_alt word_le_nat_alt split: if_splits)

lemma unat_low_byte: "unat (ucast (d AND 0xFF :: u32) :: u8) = unat d mod 256"
proof -
  have "(0xFF :: u32) = mask 8" by (simp add: mask_eq_exp_minus_1)
  then have "d AND 0xFF = take_bit 8 d" by (simp add: take_bit_eq_mask)
  then have "unat (d AND 0xFF) = take_bit 8 (unat d)" by (simp only: unsigned_take_bit_eq)
  then have "unat (d AND 0xFF) = unat d mod 256" by (simp only: take_bit_eq_mod) simp
  then show ?thesis by (simp only: unsigned_ucast_eq) (simp add: take_bit_eq_mod)
qed

lemma two_bytes: "n < 65536 \<Longrightarrow> n mod 256 + 256 * (n div 256 mod 256) = (n :: nat)"
  by (simp add: less_mult_imp_div_less)

text \<open>
  Programming the timer: the command and then the low and the high byte of the divisor go to the
  ports of channel 0, with nothing in between but delays; the divisor fits into the two bytes and is
  the base frequency divided by the effective frequency, which lies in the supported range; the
  interrupt flag is as before.
\<close>

theorem timer_set_frequency_divisor:
  "\<exists>lo hi. io_log (timer_set_frequency f s) =
      [Outb PIT_CHANNEL0_DATA hi, Wait, Outb PIT_CHANNEL0_DATA lo, Wait, Outb PIT_COMMAND 0x36] @ io_log s \<and>
    unat lo + 256 * unat hi = 1193182 div unat (timer_frequency (timer_set_frequency f s)) \<and>
    unat (timer_frequency (timer_set_frequency f s)) \<in> {19..1193182} \<and>
    interrupt_flag (timer_set_frequency f s) = interrupt_flag s"
proof -
  let ?d = "PIT_BASE_FREQUENCY div timer_effective f"
  have d: "unat ?d = 1193182 div unat (timer_effective f)" by (simp add: unat_div PIT_BASE_FREQUENCY_def)
  have "1193182 div unat (timer_effective f) \<le> 1193182 div 19" by (rule div_le_mono2) (use timer_effective_range in auto)
  then have lt: "unat ?d < 65536" by (simp add: d)
  have hi: "unat (ucast (drop_bit 8 ?d AND 0xFF) :: u8) = unat ?d div 256 mod 256"
    by (simp only: unat_low_byte unat_drop_bit_eq) (simp add: drop_bit_eq_div)
  have "unat (ucast (?d AND 0xFF) :: u8) + 256 * unat (ucast (drop_bit 8 ?d AND 0xFF) :: u8) = unat ?d"
    by (simp only: hi) (simp only: unat_low_byte two_bytes [OF lt])
  then show ?thesis
    using timer_effective_range [of f] d
    by (intro exI [of _ "ucast (?d AND 0xFF)"] exI [of _ "ucast (drop_bit 8 ?d AND 0xFF)"])
      (simp add: timer_set_frequency_def Let_def port_defs idt_are_interrupts_enabled_def idt_disable_interrupts_def
        idt_enable_interrupts_def)
qed

section \<open>Periodic callbacks\<close>

text \<open>
  Callbacks that leave the timer alone, observed by a counter \<open>cnt\<close> of the calls of \<open>c\<close> that the
  timer's own bookkeeping does not touch.
\<close>

definition quiet :: "unit timer_call \<Rightarrow> (timer_state \<Rightarrow> nat) \<Rightarrow> u64 \<Rightarrow> bool" where
  "quiet call cnt c \<longleftrightarrow>
     (\<forall>cb tk ctx s. timer_callbacks (call cb tk ctx s) = timer_callbacks s \<and> timer_tick_count (call cb tk ctx s) = timer_tick_count s \<and>
        timer_frequency (call cb tk ctx s) = timer_frequency s \<and> cnt (call cb tk ctx s) = cnt s + (if cb = c then 1 else 0)) \<and>
     (\<forall>s tab n. cnt (s\<lparr>timer_callbacks := tab\<rparr>) = cnt s \<and> cnt (s\<lparr>timer_tick_count := n\<rparr>) = cnt s)"

definition fires :: "u64 \<Rightarrow> timer_callback_entry_t \<Rightarrow> bool" where
  "fires now e \<longleftrightarrow> tc_active e \<and> tc_next_tick e \<le> now \<and> tc_callback e \<noteq> 0"

definition rescheduled :: "u64 \<Rightarrow> u32 \<Rightarrow> timer_callback_entry_t \<Rightarrow> timer_callback_entry_t" where
  "rescheduled now freq e = (if fires now e then e\<lparr>tc_next_tick := now + tick_increment (tc_interval_ms e) freq\<rparr> else e)"

lemma timer_slot_effect:
  assumes "quiet call cnt c" "j < length (timer_callbacks s)"
  shows "timer_callbacks (timer_slot call j s) =
      (timer_callbacks s)[j := rescheduled (timer_tick_count s) (timer_frequency s) (timer_callbacks s ! j)]"
    "timer_tick_count (timer_slot call j s) = timer_tick_count s" "timer_frequency (timer_slot call j s) = timer_frequency s"
    "cnt (timer_slot call j s) = cnt s + (if fires (timer_tick_count s) (timer_callbacks s ! j) \<and> tc_callback (timer_callbacks s ! j) = c then 1 else 0)"
  using assms by (auto simp: timer_slot_def quiet_def Let_def rescheduled_def fires_def)

lemma timer_slots_effect:
  assumes q: "quiet call cnt c" and "distinct js" "\<forall>j\<in>set js. j < length (timer_callbacks s)"
    and "\<forall>j\<in>set js. j \<noteq> i \<longrightarrow> tc_active (timer_callbacks s ! j) \<longrightarrow> tc_callback (timer_callbacks s ! j) \<noteq> c"
    and t: "t = fold (timer_slot call) js s"
  shows "length (timer_callbacks t) = length (timer_callbacks s) \<and> timer_tick_count t = timer_tick_count s \<and> timer_frequency t = timer_frequency s \<and>
    (\<forall>j<length (timer_callbacks s). timer_callbacks t ! j =
       (if j \<in> set js then rescheduled (timer_tick_count s) (timer_frequency s) (timer_callbacks s ! j) else timer_callbacks s ! j)) \<and>
    cnt t = cnt s + (if i \<in> set js \<and> fires (timer_tick_count s) (timer_callbacks s ! i) \<and> tc_callback (timer_callbacks s ! i) = c then 1 else 0)"
  using assms(2-5)
proof (induction js arbitrary: s)
  case (Cons j js)
  let ?u = "timer_slot call j s"
  have j: "j < length (timer_callbacks s)" "j \<notin> set js" using Cons.prems by auto
  note e = timer_slot_effect [OF q j(1)]
  have other: "timer_callbacks ?u ! k = timer_callbacks s ! k" if "k \<noteq> j" for k using that e(1) by simp
  have "\<forall>k\<in>set js. k < length (timer_callbacks ?u)" using Cons.prems(2) e(1) by simp
  moreover have "\<forall>k\<in>set js. k \<noteq> i \<longrightarrow> tc_active (timer_callbacks ?u ! k) \<longrightarrow> tc_callback (timer_callbacks ?u ! k) \<noteq> c"
    using Cons.prems(3) j(2) other by (metis list.set_intros(2))
  ultimately have IH: "length (timer_callbacks t) = length (timer_callbacks ?u) \<and> timer_tick_count t = timer_tick_count ?u \<and> timer_frequency t = timer_frequency ?u \<and>
    (\<forall>k<length (timer_callbacks ?u). timer_callbacks t ! k =
       (if k \<in> set js then rescheduled (timer_tick_count ?u) (timer_frequency ?u) (timer_callbacks ?u ! k) else timer_callbacks ?u ! k)) \<and>
    cnt t = cnt ?u + (if i \<in> set js \<and> fires (timer_tick_count ?u) (timer_callbacks ?u ! i) \<and> tc_callback (timer_callbacks ?u ! i) = c then 1 else 0)"
    using Cons.IH [of ?u] Cons.prems(1,4) by simp
  have "cnt ?u = cnt s + (if j = i \<and> fires (timer_tick_count s) (timer_callbacks s ! i) \<and> tc_callback (timer_callbacks s ! i) = c then 1 else 0)"
    using e(4) Cons.prems(3) by (auto simp: fires_def)
  with IH show ?case using e(1-3) other j by (cases "j = i") (auto simp: nth_list_update)
qed simp

definition tick :: "unit timer_call \<Rightarrow> timer_state \<Rightarrow> timer_state" where
  "tick call s = snd (timer_irq_handler call s)"

definition only_slot :: "u64 \<Rightarrow> nat \<Rightarrow> timer_state \<Rightarrow> bool" where
  "only_slot c i s \<longleftrightarrow> length (timer_callbacks s) = MAX_TIMER_CALLBACKS \<and> i < MAX_TIMER_CALLBACKS \<and>
     tc_active (timer_callbacks s ! i) \<and> tc_callback (timer_callbacks s ! i) = c \<and>
     (\<forall>j<MAX_TIMER_CALLBACKS. j \<noteq> i \<longrightarrow> tc_active (timer_callbacks s ! j) \<longrightarrow> tc_callback (timer_callbacks s ! j) \<noteq> c)"

lemma rescheduled_fields [simp]:
  "tc_active (rescheduled now f e) = tc_active e" "tc_callback (rescheduled now f e) = tc_callback e"
  "tc_interval_ms (rescheduled now f e) = tc_interval_ms e"
  "tc_next_tick (rescheduled now f e) = (if fires now e then now + tick_increment (tc_interval_ms e) f else tc_next_tick e)"
  by (simp_all add: rescheduled_def)

lemma tick_effect:
  assumes q: "quiet call cnt c" and o: "only_slot c i s" and c: "c \<noteq> 0"
  defines "now \<equiv> timer_tick_count s + 1" and "e \<equiv> timer_callbacks s ! i"
  shows "only_slot c i (tick call s)" "timer_tick_count (tick call s) = now" "timer_frequency (tick call s) = timer_frequency s"
    "tc_interval_ms (timer_callbacks (tick call s) ! i) = tc_interval_ms e"
    "tc_next_tick (timer_callbacks (tick call s) ! i) =
       (if tc_next_tick e \<le> now then now + tick_increment (tc_interval_ms e) (timer_frequency s) else tc_next_tick e)"
    "cnt (tick call s) = cnt s + (if tc_next_tick e \<le> now then 1 else 0)"
proof -
  let ?s = "s\<lparr>timer_tick_count := now\<rparr>"
  have cnt: "cnt ?s = cnt s" using q by (simp add: quiet_def)
  have t: "tick call s = fold (timer_slot call) [0..<MAX_TIMER_CALLBACKS] ?s"
    by (simp add: tick_def timer_irq_handler_def now_def)
  note all = timer_slots_effect [OF q, of "[0..<MAX_TIMER_CALLBACKS]" ?s i, OF _ _ _ t]
  have all: "length (timer_callbacks (tick call s)) = MAX_TIMER_CALLBACKS \<and> timer_tick_count (tick call s) = now \<and> timer_frequency (tick call s) = timer_frequency s \<and>
    (\<forall>j<MAX_TIMER_CALLBACKS. timer_callbacks (tick call s) ! j = rescheduled now (timer_frequency s) (timer_callbacks s ! j)) \<and>
    cnt (tick call s) = cnt s + (if fires now e \<and> tc_callback e = c then 1 else 0)"
    using all o cnt by (simp add: only_slot_def e_def)
  have f: "fires now e = (tc_next_tick e \<le> now)" using o c by (simp add: fires_def only_slot_def e_def)
  have i: "i < MAX_TIMER_CALLBACKS" using o by (simp add: only_slot_def)
  show "only_slot c i (tick call s)" using all o by (simp add: only_slot_def)
  show "timer_tick_count (tick call s) = now" "timer_frequency (tick call s) = timer_frequency s" using all by auto
  show "tc_interval_ms (timer_callbacks (tick call s) ! i) = tc_interval_ms e" using all i by (simp add: e_def)
  show "tc_next_tick (timer_callbacks (tick call s) ! i) =
       (if tc_next_tick e \<le> now then now + tick_increment (tc_interval_ms e) (timer_frequency s) else tc_next_tick e)"
    using all i f by (simp add: e_def)
  show "cnt (tick call s) = cnt s + (if tc_next_tick e \<le> now then 1 else 0)"
    using all f o by (simp add: only_slot_def e_def)
qed

lemma unat_ms_ticks: "unat ((ucast ms * ucast f :: u64) div 1000) = unat (ms :: u32) * unat (f :: u32) div 1000"
proof -
  have "unat ms \<le> 2 ^ 32 - 1" "unat f \<le> 2 ^ 32 - 1" using unsigned_less [of ms, where 'a = nat] unsigned_less [of f, where 'a = nat] by simp_all
  then have "unat ms * unat f \<le> (2 ^ 32 - 1) * (2 ^ 32 - 1)" by (rule mult_le_mono)
  then show ?thesis by (simp add: unat_div unat_word_ariths unat_ucast_up)
qed

lemma unat_tick_increment: "unat (tick_increment ms f) = max 1 (unat ms * unat f div 1000)"
  by (auto simp: tick_increment_def Let_def unat_eq_0 [symmetric] unat_ms_ticks)
lemma ticks_effect:
  assumes q: "quiet call cnt c" and o: "only_slot c i s" and c: "c \<noteq> 0"
    and inc: "inc = tick_increment (tc_interval_ms (timer_callbacks s ! i)) (timer_frequency s)"
    and n0: "tc_next_tick (timer_callbacks s ! i) = timer_tick_count s + inc"
    and bound: "unat (timer_tick_count s) + k + unat inc < 2 ^ 64"
  shows "only_slot c i ((tick call ^^ k) s) \<and> unat (timer_tick_count ((tick call ^^ k) s)) = unat (timer_tick_count s) + k \<and>
    tick_increment (tc_interval_ms (timer_callbacks ((tick call ^^ k) s) ! i)) (timer_frequency ((tick call ^^ k) s)) = inc \<and>
    unat (tc_next_tick (timer_callbacks ((tick call ^^ k) s) ! i)) = unat (timer_tick_count s) + unat inc * (k div unat inc + 1) \<and>
    cnt ((tick call ^^ k) s) = cnt s + k div unat inc"
  using bound
proof (induction k)
  case 0
  have "unat (timer_tick_count s + inc) = unat (timer_tick_count s) + unat inc" using 0 by (simp add: unat_word_ariths)
  with o inc n0 show ?case by simp
next
  case (Suc k)
  let ?u = "(tick call ^^ k) s"
  note IH = Suc.IH [OF Suc_lessD]
  have IH: "only_slot c i ?u" "unat (timer_tick_count ?u) = unat (timer_tick_count s) + k"
    "tick_increment (tc_interval_ms (timer_callbacks ?u ! i)) (timer_frequency ?u) = inc"
    "unat (tc_next_tick (timer_callbacks ?u ! i)) = unat (timer_tick_count s) + unat inc * (k div unat inc + 1)"
    "cnt ?u = cnt s + k div unat inc"
    using IH Suc.prems by auto
  note e = tick_effect [OF q IH(1) c]
  have p: "0 < unat inc" by (simp add: inc unat_tick_increment)
  have now: "unat (timer_tick_count ?u + 1) = unat (timer_tick_count s) + Suc k"
    using IH(2) Suc.prems by (simp add: unat_word_ariths)
  have due: "tc_next_tick (timer_callbacks ?u ! i) \<le> timer_tick_count ?u + 1 \<longleftrightarrow> unat inc * (k div unat inc + 1) \<le> Suc k"
    by (simp add: word_le_nat_alt now IH(4))
  also have "\<dots> \<longleftrightarrow> Suc (k mod unat inc) = unat inc"
  proof -
    have m: "k = unat inc * (k div unat inc) + k mod unat inc" "k mod unat inc < unat inc" using p by simp_all
    then have "unat inc * (k div unat inc + 1) \<le> Suc k \<longleftrightarrow> unat inc \<le> Suc (k mod unat inc)"
      by (metis (no_types, lifting) add_Suc_right add_le_cancel_left distrib_left mult.right_neutral)
    with m(2) show ?thesis by linarith
  qed
  finally have due: "tc_next_tick (timer_callbacks ?u ! i) \<le> timer_tick_count ?u + 1 \<longleftrightarrow> Suc (k mod unat inc) = unat inc" .
  have d: "Suc k div unat inc = k div unat inc + (if Suc (k mod unat inc) = unat inc then 1 else 0)" by (simp add: div_Suc mod_Suc)
  have nx: "unat (timer_tick_count ?u + 1 + inc) = unat (timer_tick_count s) + Suc k + unat inc"
    using now Suc.prems by (simp add: unat_word_ariths(1) [of "timer_tick_count ?u + 1"])
  have k: "Suc k = unat inc * (k div unat inc + 1)" if "Suc (k mod unat inc) = unat inc"
    using that by (metis Suc_eq_plus1 add.assoc distrib_left mult.right_neutral mult_div_mod_eq plus_1_eq_Suc add.commute)
  show ?case
    using e(1-6) IH now due d nx k by (auto simp: algebra_simps)
qed

text \<open>
  C11. A periodic callback is called once every \<open>interval * frequency / 1000\<close> ticks, at least one: once
  registered, and not registered before, it has been called \<open>k div period\<close> times after \<open>k\<close> ticks, as
  long as callbacks leave the timer alone and the tick counter does not wrap. The counter \<open>cnt\<close> is any
  observation that grows by one with each call of this callback.
\<close>

theorem timer_callback_period:
  assumes "timer_register_callback c ctx ms s = Some (True, s1)" "length (timer_callbacks s) = MAX_TIMER_CALLBACKS"
    and "\<forall>e\<in>set (timer_callbacks s). tc_active e \<longrightarrow> tc_callback e \<noteq> c" and q: "quiet call cnt c"
    and "unat (timer_tick_count s) + k + max 1 (unat ms * unat (timer_frequency s) div 1000) < 2 ^ 64"
  shows "cnt (((\<lambda>u. snd (timer_irq_handler call u)) ^^ k) s1) = cnt s + k div max 1 (unat ms * unat (timer_frequency s) div 1000)"
proof -
  from assms(1) have c: "c \<noteq> 0" by (auto simp: timer_register_callback_def split: if_splits)
  from assms(1) c obtain i where f: "find_slot (\<lambda>e. \<not> tc_active e) (timer_callbacks s) = Some i" and
    s1: "s1 = s\<lparr>timer_callbacks := (timer_callbacks s)[i :=
                 \<lparr>tc_callback = c, tc_context = ctx, tc_interval_ms = ms,
                  tc_next_tick = timer_tick_count s + tick_increment ms (timer_frequency s), tc_active = True\<rparr>]\<rparr>"
    by (auto simp: timer_register_callback_def split: if_splits option.splits)
  have i: "i < length (timer_callbacks s)" using f by (simp add: slot_simps)
  have "only_slot c i s1" using i assms(2,3) by (auto simp: only_slot_def s1)
  moreover have "cnt s1 = cnt s" using q by (simp add: quiet_def s1)
  ultimately show ?thesis
    using ticks_effect [OF q _ c refl, of i s1 k] i assms(5) by (simp add: s1 unat_tick_increment tick_def [abs_def])
qed

definition timer_demo :: timer_state where
  "timer_demo = irq_state.extend irq_demo
     \<lparr>timer_frequency = 100, timer_tick_count = 7, timer_callbacks = replicate 16 empty_callback, timer_initialized = True,
      timer_callbacks_lock = False\<rparr>"

definition beep :: "unit timer_call" where
  "beep cb tk ctx s = (if cb = 0x1000 then outb 0x80 0 s else s)"

lemma timer_demo_fields:
  "timer_frequency timer_demo = 100" "timer_tick_count timer_demo = 7" "timer_callbacks timer_demo = replicate 16 empty_callback"
  "timer_initialized timer_demo" "\<not> timer_callbacks_lock timer_demo" "io_log timer_demo = []"
  by (simp_all add: timer_demo_def irq_state.defs irq_demo_def idt_state.defs idt_demo_def)

lemma timer_demo_register:
  "\<exists>t. timer_register_callback 0x1000 0 50 timer_demo = Some (True, t)"
  by (simp add: timer_register_callback_def timer_demo_fields find_slot_replicate empty_callback_def)

theorem timer_callback_period_witness:
  "\<exists>s1. timer_register_callback 0x1000 0 50 timer_demo = Some (True, s1) \<and>
     length (io_log (((\<lambda>u. snd (timer_irq_handler beep u)) ^^ 1000) s1)) = 200"
proof -
  obtain s1 where r: "timer_register_callback 0x1000 0 50 timer_demo = Some (True, s1)" using timer_demo_register by blast
  have "quiet beep (\<lambda>s. length (io_log s)) 0x1000" by (simp add: quiet_def beep_def port_defs)
  with r show ?thesis
    using timer_callback_period [of "0x1000" 0 50 timer_demo s1 beep "\<lambda>s. length (io_log s)" 1000]
    by (simp add: timer_demo_fields MAX_TIMER_CALLBACKS_def empty_callback_def)
qed

section \<open>The table of callbacks\<close>

interpretation timer_table: slot_table tc_active tc_callback clear_callback
  by unfold_locales (simp add: clear_callback_def)

lemma timer_register_table:
  assumes "c \<noteq> 0" "ms \<noteq> 0" "timer_initialized s" "\<not> timer_callbacks_lock s"
  shows "timer_register_callback c ctx ms s =
    (let (ok, t) = slot_register tc_active \<lparr>tc_callback = c, tc_context = ctx, tc_interval_ms = ms,
        tc_next_tick = timer_tick_count s + tick_increment ms (timer_frequency s), tc_active = True\<rparr> (timer_callbacks s)
     in Some (ok, s\<lparr>timer_callbacks := t\<rparr>))"
  using assms by (auto simp: timer_register_callback_def slot_register_def split: option.split)

lemma timer_unregister_table:
  assumes "c \<noteq> 0" "timer_initialized s" "\<not> timer_callbacks_lock s"
  shows "timer_unregister_callback c s =
    (let (ok, t) = slot_unregister tc_active tc_callback clear_callback c (timer_callbacks s) in Some (ok, s\<lparr>timer_callbacks := t\<rparr>))"
  using assms by (auto simp: timer_unregister_callback_def slot_unregister_def split: option.split)

text \<open>
  The timer's callback table: with a callback, an interval and the lock free, a registration
  succeeds exactly when a slot is free, and then unregistering the callback, when it was not
  registered before, succeeds and gives back the active entries there were.
\<close>

theorem timer_register_unregister:
  assumes ok: "c \<noteq> 0" "ms \<noteq> 0" "timer_initialized s" "\<not> timer_callbacks_lock s"
    and new: "\<forall>e\<in>#slot_entries tc_active (timer_callbacks s). tc_callback e \<noteq> c"
  shows "\<exists>s1 s2. timer_register_callback c ctx ms s = Some (\<exists>e\<in>set (timer_callbacks s). \<not> tc_active e, s1) \<and>
    timer_unregister_callback c s1 = Some (\<exists>e\<in>set (timer_callbacks s). \<not> tc_active e, s2) \<and>
    slot_entries tc_active (timer_callbacks s2) = slot_entries tc_active (timer_callbacks s)"
proof -
  let ?e = "\<lparr>tc_callback = c, tc_context = ctx, tc_interval_ms = ms,
        tc_next_tick = timer_tick_count s + tick_increment ms (timer_frequency s), tc_active = True\<rparr>"
  obtain b t1 where t1: "slot_register tc_active ?e (timer_callbacks s) = (b, t1)" by fastforce
  obtain b' t2 where t2: "slot_unregister tc_active tc_callback clear_callback c t1 = (b', t2)" by fastforce
  have r: "timer_register_callback c ctx ms s = Some (b, s\<lparr>timer_callbacks := t1\<rparr>)"
    using timer_register_table [OF ok] t1 by simp
  have u: "timer_unregister_callback c (s\<lparr>timer_callbacks := t1\<rparr>) = Some (b', s\<lparr>timer_callbacks := t2\<rparr>)"
    using timer_unregister_table [of c "s\<lparr>timer_callbacks := t1\<rparr>"] ok t2 by simp
  have act: "tc_active ?e" by simp
  from t1 act have "b = (\<exists>e\<in>set (timer_callbacks s). \<not> tc_active e) \<and> b' = b \<and> slot_entries tc_active t2 = slot_entries tc_active (timer_callbacks s)"
  proof (cases rule: timer_table.register_cases)
    case full
    have n: "\<forall>e\<in>#slot_entries tc_active t1. tc_callback e \<noteq> c" using full(2) new by simp
    from t2 have "\<not> b' \<and> t2 = t1" by (cases rule: timer_table.unregister_cases) (use n in auto)
    with full show ?thesis by auto
  next
    case (added i)
    with t1 show ?thesis
      using timer_table.register_unregister [of ?e "timer_callbacks s" t1 c b' t2] t2 new
      by (auto intro: bexI [OF _ nth_mem])
  qed
  with r u show ?thesis by auto
qed

theorem timer_register_unregister_witness:
  "\<exists>s1 s2. timer_register_callback 0x1000 0 50 timer_demo = Some (True, s1) \<and> timer_unregister_callback 0x1000 s1 = Some (True, s2) \<and>
     slot_entries tc_active (timer_callbacks s2) = {#}"
  using timer_register_unregister [of "0x1000" 50 timer_demo 0]
  by (simp add: timer_demo_fields slot_entries_def empty_callback_def)

section \<open>Initialisation and sleeping\<close>

lemma timer_sleep_loop_returns:
  assumes "\<forall>u. timer_tick_count (hlt u) = timer_tick_count u + 1" "unat target = unat (timer_tick_count s) + n"
  shows "\<exists>t. timer_sleep_loop hlt target s = Some t \<and> timer_tick_count t = target"
  using assms(2)
proof (induction n arbitrary: s)
  case 0
  then have "timer_tick_count s = target" by (simp add: word_unat_eq_iff)
  then show ?case by (subst timer_sleep_loop.simps) (simp add: timer_get_ticks_def)
next
  case (Suc n)
  have lt: "timer_get_ticks s < target" using Suc.prems by (simp add: word_less_nat_alt timer_get_ticks_def)
  have "unat (timer_tick_count s + 1) = Suc (unat (timer_tick_count s))"
    using Suc.prems unat_lt_64 [of target] by (simp add: unat_word_ariths)
  with Suc.prems assms(1) have "unat target = unat (timer_tick_count (hlt (s\<lparr>interrupt_flag := True\<rparr>))) + n" by simp
  from Suc.IH [OF this] lt show ?case by (subst timer_sleep_loop.simps) simp
qed

text \<open>
  Sleeping with a running timer returns, provided each wake-up is a timer tick, after exactly
  \<open>milliseconds * frequency / 1000\<close> ticks; the product is computed at 64 bits and cannot overflow.
\<close>

theorem timer_sleep_ms_returns:
  assumes "timer_initialized s" "timer_frequency s \<noteq> 0" "\<forall>u. timer_tick_count (hlt u) = timer_tick_count u + 1"
    and bound: "unat (timer_tick_count s) + unat ms * unat (timer_frequency s) div 1000 < 2 ^ 64"
  shows "\<exists>t. timer_sleep_ms tsc hlt ms s = Some t \<and>
    unat (timer_tick_count t) = unat (timer_tick_count s) + unat ms * unat (timer_frequency s) div 1000"
proof -
  let ?w = "(ucast ms * ucast (timer_frequency s) :: u64) div 1000"
  have u: "unat (timer_tick_count s + ?w) = unat (timer_tick_count s) + unat ms * unat (timer_frequency s) div 1000"
    using bound by (simp add: unat_ms_ticks unat_word_ariths(1))
  from timer_sleep_loop_returns [OF assms(3) u] assms(1,2) u show ?thesis
    by (auto simp: timer_sleep_ms_def timer_get_ticks_def)
qed

theorem timer_sleep_ms_returns_witness:
  "\<exists>t. timer_sleep_ms (\<lambda>_. 0) (\<lambda>u. u\<lparr>timer_tick_count := timer_tick_count u + 1\<rparr>) 5000000 timer_demo = Some t \<and> unat (timer_tick_count t) = 500007"
  using timer_sleep_ms_returns [of timer_demo "\<lambda>u. u\<lparr>timer_tick_count := timer_tick_count u + 1\<rparr>" 5000000 "\<lambda>_. 0"]
  by (simp add: timer_demo_fields)

text \<open>
  Although an unsupported frequency is replaced when the hardware is programmed, a timer that is
  not yet initialised and asked to run at frequency 0 divides by zero whenever its handler can be
  registered; every other frequency initialises the timer.
\<close>

theorem timer_init_zero:
  assumes "\<not> timer_initialized s" "h \<noteq> 0" "\<exists>i. find_slot (\<lambda>e. \<not> ih_active e) (irq_handlers s ! 0) = Some i"
  shows "(timer_init h f s = None) = (f = 0) \<and> (f \<noteq> 0 \<longrightarrow> (\<exists>t. timer_init h f s = Some t \<and> timer_initialized t))"
  using assms by (auto simp: timer_init_def Let_def irq_register_handler_def IRQ_TIMER_def timer_set_frequency_def port_defs
    idt_disable_interrupts_def idt_enable_interrupts_def irq_enable_def split: prod.split)

theorem timer_init_zero_witness:
  "timer_init 0x2000 0 (timer_demo\<lparr>timer_initialized := False\<rparr>) = None"
proof -
  have h: "irq_handlers timer_demo = replicate 16 (replicate 8 \<lparr>ih_handler = 0, ih_context = 0, ih_active = False\<rparr>)"
    by (simp add: timer_demo_def irq_state.defs irq_demo_def idt_state.defs)
  show ?thesis
    using timer_init_zero [of "timer_demo\<lparr>timer_initialized := False\<rparr>" "0x2000" 0]
    by (simp add: h find_slot_replicate)
qed

end
