(* ===== verification/Input_Queue.thy ===== *)
theory Input_Queue
  imports Slot_Table
begin

text \<open>
  What the keyboard and the mouse driver share: a ring buffer of 256 entries with 16-bit read and
  write indices that gives up one entry to tell full from empty, and a table of eight callback
  pointers with a counter. The ring is a locale whose laws are the assignments the two drivers make;
  its client lemmas show that the ring is a bounded first-in-first-out queue.
\<close>

section \<open>The ring as a queue\<close>

definition RING_SIZE :: nat where "RING_SIZE = 256"

definition ring_contents :: "'e list \<Rightarrow> u16 \<Rightarrow> u16 \<Rightarrow> 'e list" where
  "ring_contents b r w = map (\<lambda>k. b ! ((unat r + k) mod RING_SIZE)) [0..<(unat w + RING_SIZE - unat r) mod RING_SIZE]"

definition queue_push :: "'e \<Rightarrow> 'e list \<Rightarrow> 'e list" where
  "queue_push e q = (if length q < RING_SIZE - 1 then q @ [e] else q)"

lemma unat_next: "unat ((i + 1) mod 256 :: u16) = (unat i + 1) mod 256"
proof -
  have "unat (i + 1) = (unat i + 1) mod 65536" by (simp add: unat_word_ariths)
  then show ?thesis by (simp add: unat_mod mod_mod_cancel)
qed

lemma ring_mods:
  "r < 256 \<Longrightarrow> w < 256 \<Longrightarrow> (w + 256 - r) mod 256 = (if r \<le> w then w - r else w + 256 - r :: nat)"
  "w < 256 \<Longrightarrow> Suc w mod 256 = (if w = 255 then 0 else Suc w)"
  "r < 256 \<Longrightarrow> k < 256 \<Longrightarrow> (r + k) mod 256 = (if r + k < 256 then r + k else r + k - 256 :: nat)"
  by (auto simp: mod_if)

locale ring_queue =
  fixes buf :: "'s \<Rightarrow> 'e list" and rd :: "'s \<Rightarrow> u16" and wrt :: "'s \<Rightarrow> u16"
    and push :: "'e \<Rightarrow> 's \<Rightarrow> 's" and pop :: "'s \<Rightarrow> 's"
  assumes push_full: "(wrt s + 1) mod 256 = rd s \<Longrightarrow> push e s = s"
    and push_room: "(wrt s + 1) mod 256 \<noteq> rd s \<Longrightarrow>
      buf (push e s) = (buf s)[unat (wrt s) := e] \<and> rd (push e s) = rd s \<and> wrt (push e s) = (wrt s + 1) mod 256"
    and pop_empty: "rd s = wrt s \<Longrightarrow> pop s = s"
    and pop_some: "rd s \<noteq> wrt s \<Longrightarrow> buf (pop s) = buf s \<and> rd (pop s) = (rd s + 1) mod 256 \<and> wrt (pop s) = wrt s"
begin

definition queue :: "'s \<Rightarrow> 'e list" where
  "queue s = ring_contents (buf s) (rd s) (wrt s)"

definition ring_ok :: "'s \<Rightarrow> bool" where
  "ring_ok s \<longleftrightarrow> length (buf s) = RING_SIZE \<and> unat (rd s) < RING_SIZE \<and> unat (wrt s) < RING_SIZE"

lemma length_queue: "length (queue s) = (unat (wrt s) + RING_SIZE - unat (rd s)) mod RING_SIZE"
  by (simp add: queue_def ring_contents_def)

lemma queue_bound: "length (queue s) < RING_SIZE"
  by (simp add: length_queue RING_SIZE_def)

lemma queue_full_iff:
  assumes "ring_ok s"
  shows "(wrt s + 1) mod 256 = rd s \<longleftrightarrow> length (queue s) = RING_SIZE - 1"
proof -
  have b: "unat (rd s) < 256" "unat (wrt s) < 256" using assms by (simp_all add: ring_ok_def RING_SIZE_def)
  have "(wrt s + 1) mod 256 = rd s \<longleftrightarrow> (unat (wrt s) + 1) mod 256 = unat (rd s)"
    by (simp only: word_unat_eq_iff unat_next)
  also have "\<dots> \<longleftrightarrow> (unat (wrt s) + 256 - unat (rd s)) mod 256 = 255" using b by (auto simp: ring_mods)
  finally show ?thesis by (simp add: length_queue RING_SIZE_def)
qed

lemma queue_empty_iff:
  assumes "ring_ok s"
  shows "rd s = wrt s \<longleftrightarrow> queue s = []"
proof -
  have b: "unat (rd s) < 256" "unat (wrt s) < 256" using assms by (simp_all add: ring_ok_def RING_SIZE_def)
  then have "unat (rd s) = unat (wrt s) \<longleftrightarrow> (unat (wrt s) + 256 - unat (rd s)) mod 256 = 0" by (auto simp: ring_mods)
  then show ?thesis by (simp add: word_unat_eq_iff length_queue RING_SIZE_def flip: length_0_conv)
qed

lemma push_ok: "ring_ok s \<Longrightarrow> ring_ok (push e s)"
  using push_full [of s e] push_room [of s e] by (cases "(wrt s + 1) mod 256 = rd s") (auto simp: ring_ok_def unat_next RING_SIZE_def)

lemma pop_ok: "ring_ok s \<Longrightarrow> ring_ok (pop s)"
  using pop_empty [of s] pop_some [of s] by (cases "rd s = wrt s") (auto simp: ring_ok_def unat_next RING_SIZE_def)

lemma queue_of_push:
  assumes ok: "ring_ok s"
  shows "queue (push e s) = queue_push e (queue s)"
proof (cases "(wrt s + 1) mod 256 = rd s")
  case True
  then show ?thesis using push_full [OF True] queue_full_iff [OF ok] by (simp add: queue_push_def)
next
  case False
  note p = push_room [OF False, of e]
  have b: "unat (rd s) < 256" "unat (wrt s) < 256" "length (buf s) = 256" using ok by (simp_all add: ring_ok_def RING_SIZE_def)
  let ?n = "(unat (wrt s) + 256 - unat (rd s)) mod 256"
  have n: "?n < 255" using False queue_full_iff [OF ok] queue_bound [of s] by (simp add: length_queue RING_SIZE_def)
  have n1: "((unat (wrt s) + 1) mod 256 + 256 - unat (rd s)) mod 256 = Suc ?n"
    using b n by (auto simp: ring_mods split: if_splits)
  have w: "(unat (rd s) + ?n) mod 256 = unat (wrt s)" using b by (auto simp: ring_mods)
  have other: "unat (wrt s) \<noteq> (unat (rd s) + k) mod 256" if "k < ?n" for k
    using that b n by (auto simp: ring_mods split: if_splits)
  have q: "queue s = map (\<lambda>k. buf s ! ((unat (rd s) + k) mod 256)) [0..<?n]" by (simp add: queue_def ring_contents_def RING_SIZE_def)
  have "queue (push e s) = map (\<lambda>k. (buf s)[unat (wrt s) := e] ! ((unat (rd s) + k) mod 256)) [0..<Suc ?n]"
    using p by (simp only: queue_def ring_contents_def RING_SIZE_def unat_next n1)
  also have "\<dots> = map (\<lambda>k. buf s ! ((unat (rd s) + k) mod 256)) [0..<?n] @ [e]"
    using other b by (auto simp: w nth_list_update_neq)
  finally show ?thesis using n by (simp add: q queue_push_def RING_SIZE_def)
qed

lemma queue_of_pop:
  assumes ok: "ring_ok s"
  shows "queue (pop s) = tl (queue s)" and "queue s \<noteq> [] \<Longrightarrow> hd (queue s) = buf s ! unat (rd s)"
proof -
  have b: "unat (rd s) < 256" "unat (wrt s) < 256" using ok by (simp_all add: ring_ok_def RING_SIZE_def)
  let ?n = "(unat (wrt s) + 256 - unat (rd s)) mod 256"
  have q: "queue s = map (\<lambda>k. buf s ! ((unat (rd s) + k) mod 256)) [0..<?n]" by (simp add: queue_def ring_contents_def RING_SIZE_def)
  show "hd (queue s) = buf s ! unat (rd s)" if "queue s \<noteq> []"
    using that b by (auto simp: q upt_rec [of 0 ?n] split: if_splits)
  show "queue (pop s) = tl (queue s)"
  proof (cases "rd s = wrt s")
    case True
    then show ?thesis using pop_empty [OF True] queue_empty_iff [OF ok] by simp
  next
    case False
    note p = pop_some [OF False]
    have n: "0 < ?n" using False queue_empty_iff [OF ok] by (simp add: q)
    have n1: "(unat (wrt s) + 256 - (unat (rd s) + 1) mod 256) mod 256 = ?n - 1"
      using b n by (auto simp: ring_mods split: if_splits)
    have step: "((unat (rd s) + 1) mod 256 + k) mod 256 = (unat (rd s) + Suc k) mod 256" for k by (simp add: mod_add_left_eq)
    have "queue (pop s) = map (\<lambda>k. buf s ! ((unat (rd s) + Suc k) mod 256)) [0..<?n - 1]"
      using p by (simp only: queue_def ring_contents_def RING_SIZE_def unat_next n1 step)
    also have "\<dots> = map (\<lambda>k. buf s ! ((unat (rd s) + k) mod 256)) [Suc 0..<?n]"
      using n by (intro nth_equalityI) simp_all
    also have "\<dots> = tl (queue s)" using n by (simp add: q upt_rec [of 0 ?n])
    finally show ?thesis .
  qed
qed

end

section \<open>Callback pointers\<close>

text \<open>
  A table of callback pointers, zero for an empty entry, and its counter. The loop in the interrupt
  handlers runs up to the current value of the counter; an index beyond the table, which in C reads
  foreign memory, is \<open>None\<close>.
\<close>

definition MAX_CALLBACKS :: nat where "MAX_CALLBACKS = 8"

definition callbacks_register :: "u64 \<Rightarrow> u64 list \<times> int \<Rightarrow> bool \<times> u64 list \<times> int" where
  "callbacks_register callback t =
     (if callback = 0 then (False, t)
      else case find_slot (\<lambda>c. c = 0) (fst t) of
             Some i \<Rightarrow> (True, (fst t)[i := callback], snd t + 1)
           | None \<Rightarrow> (False, t))"

definition callbacks_unregister :: "u64 \<Rightarrow> u64 list \<times> int \<Rightarrow> bool \<times> u64 list \<times> int" where
  "callbacks_unregister callback t =
     (case find_slot (\<lambda>c. c = callback) (fst t) of
        Some i \<Rightarrow> (True, (fst t)[i := 0], snd t - 1)
      | None \<Rightarrow> (False, t))"

function callback_loop :: "('s \<Rightarrow> u64 list \<times> int) \<Rightarrow> (u64 \<Rightarrow> 's \<Rightarrow> 's) \<Rightarrow> nat \<Rightarrow> 's \<Rightarrow> 's option" where
  "callback_loop table call i s =
     (if snd (table s) \<le> int i then Some s
      else if MAX_CALLBACKS \<le> i then None
      else let c = fst (table s) ! i
           in callback_loop table call (i + 1) (if c \<noteq> 0 then call c s else s))"
  by pat_completeness auto
termination by (relation "measure (\<lambda>(t, c, i, s). MAX_CALLBACKS - i)") auto

declare callback_loop.simps [simp del]

definition callbacks_ok :: "u64 list \<times> int \<Rightarrow> bool" where
  "callbacks_ok t \<longleftrightarrow> length (fst t) = MAX_CALLBACKS \<and> snd t \<le> int (size (slot_entries (\<lambda>c. c \<noteq> 0) (fst t)))"

interpretation pointer_table: slot_table "\<lambda>c :: u64. c \<noteq> 0" "\<lambda>c. c" "\<lambda>_. 0"
  by unfold_locales simp

lemma pointers_update:
  assumes "i < length (t :: u64 list)"
  shows "size (slot_entries (\<lambda>c. c \<noteq> 0) (t[i := c])) + (if t ! i = 0 then 0 else 1) = size (slot_entries (\<lambda>c. c \<noteq> 0) t) + (if c = 0 then 0 else 1)"
  using arg_cong [OF pointer_table.entries_update [OF assms, of c], of size] by (simp split: if_splits)

lemma callbacks_register_ok:
  assumes "callbacks_ok t"
  shows "callbacks_ok (snd (callbacks_register c t))"
proof (cases "find_slot (\<lambda>c. c = 0) (fst t)")
  case (Some i)
  then have "i < length (fst t)" "fst t ! i = 0" by (auto simp: slot_simps)
  with Some assms pointers_update [of i "fst t" c] show ?thesis
    by (auto simp: callbacks_register_def callbacks_ok_def)
qed (use assms in \<open>auto simp: callbacks_register_def\<close>)

lemma callbacks_unregister_ok:
  assumes "callbacks_ok t"
  shows "callbacks_ok (snd (callbacks_unregister c t))"
proof (cases "find_slot (\<lambda>x. x = c) (fst t)")
  case (Some i)
  then have "i < length (fst t)" "fst t ! i = c" by (auto simp: slot_simps)
  with Some assms pointers_update [of i "fst t" 0] show ?thesis
    by (auto simp: callbacks_unregister_def callbacks_ok_def split: if_splits)
qed (use assms in \<open>auto simp: callbacks_unregister_def\<close>)

lemma callbacks_count:
  assumes "callbacks_ok t"
  shows "snd t \<le> int MAX_CALLBACKS"
proof -
  have "size (slot_entries (\<lambda>c. c \<noteq> 0) (fst t)) \<le> length (fst t)"
    using length_filter_le [of "\<lambda>c. c \<noteq> 0" "fst t"] by (simp only: slot_entries_def size_mset)
  with assms show ?thesis by (simp add: callbacks_ok_def)
qed

text \<open>The loop stays inside the table and keeps what every callback keeps.\<close>

lemma callback_loop_keeps:
  assumes call: "\<forall>c u. Q u \<longrightarrow> Q (call c u)" and ok: "\<forall>u. Q u \<longrightarrow> callbacks_ok (table u)" and "Q s"
  shows "\<exists>t. callback_loop table call i s = Some t \<and> Q t"
  using assms(3)
proof (induction "MAX_CALLBACKS - i" arbitrary: i s rule: less_induct)
  case less
  then show ?case
  proof (cases "snd (table s) \<le> int i")
    case False
    then have i: "i < MAX_CALLBACKS" using callbacks_count [of "table s"] ok less.prems by force
    have "Q (if fst (table s) ! i \<noteq> 0 then call (fst (table s) ! i) s else s)" using call less.prems by simp
    from less.hyps [OF _ this, of "i + 1"] i False show ?thesis by (subst callback_loop.simps) (simp add: Let_def)
  qed (auto simp: callback_loop.simps)
qed

end
