(* ===== verification/Keyboard.thy ===== *)
theory Keyboard
  imports Timer Input_Queue
begin

text \<open>
  The keyboard driver, \<open>src/src/src/syncos/keyboard.c\<close>: decoding of scan codes, the modifier state,
  the ring of characters and the event callbacks. Callbacks are called through pointers (parameter
  \<open>call\<close>); \<open>None\<close> is a callback index beyond the table. The driver is shown to be a bounded queue of
  decoded characters.
\<close>

section \<open>State and operations\<close>

definition KEYBOARD_DATA_PORT :: u16 where "KEYBOARD_DATA_PORT = 0x60"
definition MODIFIER_SHIFT :: u8 where "MODIFIER_SHIFT = 0x01"
definition MODIFIER_CTRL :: u8 where "MODIFIER_CTRL = 0x02"
definition MODIFIER_ALT :: u8 where "MODIFIER_ALT = 0x04"
definition IRQ_KEYBOARD :: u8 where "IRQ_KEYBOARD = 1"

datatype keyboard_event_type_t = KEY_PRESS | KEY_RELEASE

record keyboard_event_t =
  ev_scancode :: u8
  ev_type :: keyboard_event_type_t
  ev_is_special :: bool
  ev_is_modifier :: bool

record keyboard_state = timer_state +
  kb_buffer :: "u8 list"
  kb_read_index :: u16
  kb_write_index :: u16
  kb_modifiers :: u8
  kb_callbacks :: "u64 list"
  kb_callback_count :: int

type_synonym 'a keyboard_call = "u64 \<Rightarrow> keyboard_event_t \<Rightarrow> 'a keyboard_state_scheme \<Rightarrow> 'a keyboard_state_scheme"

definition scancode_to_ascii_normal :: "char list" where
  "scancode_to_ascii_normal =
     [CHR 0x00, CHR 0x1B] @ ''1234567890-='' @ [CHR 0x08] @
     [CHR 0x09] @ ''qwertyuiop[]'' @ [CHR 0x0A, CHR 0x00] @
     ''asdfghjkl;'' @ [CHR 0x27, CHR 0x60, CHR 0x00] @
     [CHR 0x5C] @ ''zxcvbnm,./'' @ [CHR 0x00, CHR 0x2A, CHR 0x00, CHR 0x20, CHR 0x00]"

definition scancode_to_ascii_shift :: "char list" where
  "scancode_to_ascii_shift =
     [CHR 0x00, CHR 0x1B] @ ''!@#$%^&*()_+'' @ [CHR 0x08] @
     [CHR 0x09] @ ''QWERTYUIOP{}'' @ [CHR 0x0A, CHR 0x00] @
     ''ASDFGHJKL:'' @ [CHR 0x22, CHR 0x7E, CHR 0x00] @
     [CHR 0x7C] @ ''ZXCVBNM<>?'' @ [CHR 0x00, CHR 0x2A, CHR 0x00, CHR 0x20, CHR 0x00]"

definition keyboard_scancode_to_ascii :: "u8 \<Rightarrow> bool \<Rightarrow> int" where
  "keyboard_scancode_to_ascii scancode shift_pressed =
     (if scancode AND 0x80 \<noteq> 0 \<or> length scancode_to_ascii_normal \<le> unat scancode then - 1
      else of_char ((if shift_pressed then scancode_to_ascii_shift else scancode_to_ascii_normal) ! unat scancode))"

definition keyboard_has_key :: "'a keyboard_state_scheme \<Rightarrow> bool" where
  "keyboard_has_key s \<longleftrightarrow> kb_read_index s \<noteq> kb_write_index s"

definition keyboard_read_key :: "'a keyboard_state_scheme \<Rightarrow> u8 \<times> 'a keyboard_state_scheme" where
  "keyboard_read_key s =
     (if \<not> keyboard_has_key s then (0, s)
      else (kb_buffer s ! unat (kb_read_index s), s\<lparr>kb_read_index := (kb_read_index s + 1) mod 256\<rparr>))"

text \<open>The part of the handler that stores a character.\<close>

definition keyboard_store :: "u8 \<Rightarrow> 'a keyboard_state_scheme \<Rightarrow> 'a keyboard_state_scheme" where
  "keyboard_store ascii s =
     (let next_write = (kb_write_index s + 1) mod 256
      in if next_write \<noteq> kb_read_index s
         then s\<lparr>kb_buffer := (kb_buffer s)[unat (kb_write_index s) := ascii], kb_write_index := next_write\<rparr>
         else s)"

text \<open>The switch on modifier keys: the flag of the key, if it is one.\<close>

definition modifier_flag :: "u8 \<Rightarrow> u8 option" where
  "modifier_flag scancode =
     (if scancode = 0x2A \<or> scancode = 0x36 then Some MODIFIER_SHIFT
      else if scancode = 0x1D then Some MODIFIER_CTRL
      else if scancode = 0x38 then Some MODIFIER_ALT
      else None)"

definition keyboard_irq_handler :: "device \<Rightarrow> 'a keyboard_call \<Rightarrow> 'a keyboard_state_scheme \<Rightarrow> (bool \<times> 'a keyboard_state_scheme) option" where
  "keyboard_irq_handler dev call s0 =
     (let (scancode, s1) = inb dev KEYBOARD_DATA_PORT s0;
          code = scancode AND 0x7F;
          typ = (if scancode AND 0x80 \<noteq> 0 then KEY_RELEASE else KEY_PRESS);
          s2 = (case modifier_flag code of
                  None \<Rightarrow> s1
                | Some f \<Rightarrow> s1\<lparr>kb_modifiers := (if typ = KEY_PRESS then kb_modifiers s1 OR f else kb_modifiers s1 AND NOT f)\<rparr>);
          event = \<lparr>ev_scancode = code, ev_type = typ, ev_is_special = False, ev_is_modifier = (modifier_flag code \<noteq> None)\<rparr>;
          s3 = (if typ = KEY_PRESS \<and> \<not> ev_is_modifier event
                then let ascii = keyboard_scancode_to_ascii code (kb_modifiers s2 AND MODIFIER_SHIFT \<noteq> 0)
                     in if 0 < ascii then keyboard_store (word_of_int ascii) s2 else s2
                else s2)
      in map_option (\<lambda>t. (True, t))
           (callback_loop (\<lambda>u. (kb_callbacks u, kb_callback_count u)) (\<lambda>c. call c event) 0 s3))"

definition keyboard_register_callback :: "u64 \<Rightarrow> 'a keyboard_state_scheme \<Rightarrow> bool \<times> 'a keyboard_state_scheme" where
  "keyboard_register_callback callback s =
     (let (ok, cbs, n) = callbacks_register callback (kb_callbacks s, kb_callback_count s)
      in (ok, s\<lparr>kb_callbacks := cbs, kb_callback_count := n\<rparr>))"

definition keyboard_unregister_callback :: "u64 \<Rightarrow> 'a keyboard_state_scheme \<Rightarrow> bool \<times> 'a keyboard_state_scheme" where
  "keyboard_unregister_callback callback s =
     (let (ok, cbs, n) = callbacks_unregister callback (kb_callbacks s, kb_callback_count s)
      in (ok, s\<lparr>kb_callbacks := cbs, kb_callback_count := n\<rparr>))"

definition keyboard_init :: "u64 \<Rightarrow> 'a keyboard_state_scheme \<Rightarrow> 'a keyboard_state_scheme" where
  "keyboard_init keyboard_irq_handler_addr s =
     snd (irq_register_handler IRQ_KEYBOARD keyboard_irq_handler_addr 0
       (s\<lparr>kb_read_index := 0, kb_write_index := 0, kb_modifiers := 0, kb_callback_count := 0\<rparr>))"

section \<open>The ring is a queue\<close>

interpretation kb_ring: ring_queue kb_buffer kb_read_index kb_write_index keyboard_store "\<lambda>s. snd (keyboard_read_key s)"
  by unfold_locales (auto simp: keyboard_store_def keyboard_read_key_def keyboard_has_key_def Let_def)

abbreviation kb_queue :: "'a keyboard_state_scheme \<Rightarrow> u8 list" where
  "kb_queue s \<equiv> ring_contents (kb_buffer s) (kb_read_index s) (kb_write_index s)"

lemma kb_queue_eq: "kb_ring.queue s = kb_queue s"
  by (simp add: kb_ring.queue_def)

lemma keyboard_read_queue:
  assumes "kb_ring.ring_ok s"
  shows "keyboard_has_key s \<longleftrightarrow> kb_queue s \<noteq> []"
    and "fst (keyboard_read_key s) = (case kb_queue s of [] \<Rightarrow> 0 | c # _ \<Rightarrow> c)"
    and "kb_queue (snd (keyboard_read_key s)) = tl (kb_queue s)"
    and "kb_modifiers (snd (keyboard_read_key s)) = kb_modifiers s"
  using kb_ring.queue_empty_iff [OF assms] kb_ring.queue_of_pop [OF assms]
  by (auto simp: keyboard_has_key_def keyboard_read_key_def kb_queue_eq split: list.splits)

section \<open>Refinement of a queue of characters\<close>

text \<open>
  The abstract keyboard: the queue of characters not yet read and whether shift is held. A press of a
  key with a character appends it, if there is room; reading removes the front.
\<close>

definition key_char :: "u8 \<Rightarrow> bool \<Rightarrow> u8 option" where
  "key_char scancode shift =
     (if unat scancode < 59
      then let c = (if shift then scancode_to_ascii_shift else scancode_to_ascii_normal) ! unat scancode
           in if c = CHR 0x00 then None else Some (of_char c)
      else None)"

fun spec_key :: "u8 \<Rightarrow> u8 list \<times> bool \<Rightarrow> u8 list \<times> bool" where
  "spec_key scancode (q, shift) =
     (if scancode = 0x2A \<or> scancode = 0x36 then (q, True)
      else if scancode = 0xAA \<or> scancode = 0xB6 then (q, False)
      else (case key_char scancode shift of Some c \<Rightarrow> (queue_push c q, shift) | None \<Rightarrow> (q, shift)))"

datatype kb_op = Interrupt u8 | Read

fun spec_run :: "kb_op list \<Rightarrow> u8 list \<times> bool \<Rightarrow> u8 list" where
  "spec_run [] _ = []"
| "spec_run (Interrupt c # ops) a = spec_run ops (spec_key c a)"
| "spec_run (Read # ops) (q, shift) = (case q of [] \<Rightarrow> 0 | c # _ \<Rightarrow> c) # spec_run ops (tl q, shift)"

text \<open>The bytes read along a sequence of key interrupts and reads of the driver.\<close>

fun kb_run :: "'a keyboard_call \<Rightarrow> kb_op list \<Rightarrow> 'a keyboard_state_scheme \<Rightarrow> u8 list option" where
  "kb_run call [] s = Some []"
| "kb_run call (Interrupt c # ops) s =
     (case keyboard_irq_handler (\<lambda>_ _. ucast c) call s of None \<Rightarrow> None | Some (_, t) \<Rightarrow> kb_run call ops t)"
| "kb_run call (Read # ops) s = map_option ((#) (fst (keyboard_read_key s))) (kb_run call ops (snd (keyboard_read_key s)))"

definition kb_abs :: "'a keyboard_state_scheme \<Rightarrow> u8 list \<times> bool" where
  "kb_abs s = (kb_queue s, bit (kb_modifiers s) 0)"


definition kb_ok :: "'a keyboard_state_scheme \<Rightarrow> bool" where
  "kb_ok s \<longleftrightarrow> length (kb_buffer s) = RING_SIZE \<and> unat (kb_read_index s) < RING_SIZE \<and> unat (kb_write_index s) < RING_SIZE \<and>
     callbacks_ok (kb_callbacks s, kb_callback_count s)"

lemma kb_ok_ring: "kb_ok s \<longleftrightarrow> kb_ring.ring_ok s \<and> callbacks_ok (kb_callbacks s, kb_callback_count s)"
  by (simp add: kb_ok_def kb_ring.ring_ok_def)

lemma byte_low: "unat (c AND 0x7F :: u8) = unat c mod 128"
proof -
  have "c AND 0x7F = take_bit 7 c" by (simp add: take_bit_eq_mask mask_eq_exp_minus_1)
  then have "unat (c AND 0x7F) = take_bit 7 (unat c)" by (simp only: unsigned_take_bit_eq)
  then show ?thesis by (simp only: take_bit_eq_mod) simp
qed

lemma byte_high: "c AND 0x80 \<noteq> 0 \<longleftrightarrow> 128 \<le> unat (c :: u8)"
proof -
  have "unat c < 256" using unsigned_less [of c, where 'a = nat] by simp
  then have d: "unat c div 128 \<in> {0, 1}" by auto
  have "c AND 0x80 \<noteq> 0 \<longleftrightarrow> bit c 7" using and_exp_eq_0_iff_not_bit [of c 7] by simp
  also have "\<dots> \<longleftrightarrow> bit (unat c) 7" by (simp add: bit_unsigned_iff)
  also have "\<dots> \<longleftrightarrow> odd (unat c div 128)" by (simp add: bit_iff_odd)
  also have "\<dots> \<longleftrightarrow> 128 \<le> unat c" using d by auto
  finally show ?thesis .
qed

lemma byte_release:
  assumes "c AND 0x80 \<noteq> 0"
  shows "c AND 0x7F = k \<longleftrightarrow> unat (k :: u8) < 128 \<and> unat c = unat k + 128"
proof -
  have "128 \<le> unat c" "unat c < 256" using assms unsigned_less [of c, where 'a = nat] by (simp_all add: byte_high)
  then have "unat c mod 128 = unat c - 128" by (simp add: mod_if)
  then show ?thesis using \<open>128 \<le> unat c\<close> \<open>unat c < 256\<close> by (auto simp: word_unat_eq_iff byte_low)
qed

lemma byte_press: "c AND 0x80 = 0 \<Longrightarrow> c AND 0x7F = (c :: u8) \<and> unat c < 128"
  using byte_high [of c] by (auto simp: word_unat_eq_iff byte_low)

lemma shift_bit: "m AND MODIFIER_SHIFT \<noteq> 0 \<longleftrightarrow> bit (m :: u8) 0"
  by (simp add: MODIFIER_SHIFT_def and_one_eq odd_iff_mod_2_eq_one bit_0)

lemma modifier_bits:
  "bit (m OR MODIFIER_SHIFT :: u8) 0" "\<not> bit (m AND NOT MODIFIER_SHIFT :: u8) 0"
  "bit (m OR MODIFIER_CTRL :: u8) 0 = bit m 0" "bit (m AND NOT MODIFIER_CTRL :: u8) 0 = bit m 0"
  "bit (m OR MODIFIER_ALT :: u8) 0 = bit m 0" "bit (m AND NOT MODIFIER_ALT :: u8) 0 = bit m 0"
  by (simp_all add: MODIFIER_SHIFT_def MODIFIER_CTRL_def MODIFIER_ALT_def bit_simps)

lemma table_lengths: "length scancode_to_ascii_normal = 59" "length scancode_to_ascii_shift = 59"
  by (simp_all add: scancode_to_ascii_normal_def scancode_to_ascii_shift_def)

lemma ascii_key_char:
  assumes "c AND 0x80 = 0"
  shows "key_char c sh = (if 0 < keyboard_scancode_to_ascii c sh then Some (word_of_int (keyboard_scancode_to_ascii c sh)) else None)"
proof (cases "unat c < 59")
  case True
  define ch where "ch = (if sh then scancode_to_ascii_shift else scancode_to_ascii_normal) ! unat c"
  have k: "keyboard_scancode_to_ascii c sh = of_char ch" using assms True by (simp add: keyboard_scancode_to_ascii_def table_lengths ch_def)
  have "(of_char ch :: int) = 0 \<longleftrightarrow> ch = CHR 0x00" using of_char_eq_iff [of ch "CHR 0x00", where 'a = int] by simp
  moreover have "(0 :: int) \<le> of_char ch" by (simp add: of_char_def)
  ultimately have "0 < (of_char ch :: int) \<longleftrightarrow> ch \<noteq> CHR 0x00" by linarith
  moreover have "(word_of_int (of_char ch) :: u8) = of_char ch" by (simp add: of_char_def)
  ultimately show ?thesis using True by (simp add: k key_char_def Let_def flip: ch_def)
qed (simp add: keyboard_scancode_to_ascii_def table_lengths key_char_def assms)

lemma modifier_key_char: "c \<in> {0x1D, 0x38} \<Longrightarrow> key_char c sh = None"
  by (auto simp: key_char_def scancode_to_ascii_normal_def scancode_to_ascii_shift_def nth_append)

lemma kb_store_refines:
  assumes "kb_ok s"
  shows "kb_ok (keyboard_store ch s)" "kb_queue (keyboard_store ch s) = queue_push ch (kb_queue s)"
    "kb_modifiers (keyboard_store ch s) = kb_modifiers s"
  using kb_ring.push_ok [of s ch] kb_ring.queue_of_push [of s ch] assms
  by (auto simp: kb_ok_ring kb_queue_eq keyboard_store_def Let_def)

text \<open>The handler up to the callbacks.\<close>

definition key_effect :: "u8 \<Rightarrow> 'a keyboard_state_scheme \<Rightarrow> 'a keyboard_state_scheme" where
  "key_effect scancode s =
     (case modifier_flag (scancode AND 0x7F) of
        Some f \<Rightarrow> s\<lparr>kb_modifiers := (if scancode AND 0x80 = 0 then kb_modifiers s OR f else kb_modifiers s AND NOT f)\<rparr>
      | None \<Rightarrow> if scancode AND 0x80 = 0
                then case key_char scancode (bit (kb_modifiers s) 0) of Some ch \<Rightarrow> keyboard_store ch s | None \<Rightarrow> s
                else s)"

lemma keyboard_irq_handler_unfold:
  "\<exists>ev. keyboard_irq_handler dev call s = map_option (\<lambda>t. (True, t))
     (callback_loop (\<lambda>u. (kb_callbacks u, kb_callback_count u)) (\<lambda>c. call c ev) 0
        (key_effect (fst (inb dev KEYBOARD_DATA_PORT s)) (snd (inb dev KEYBOARD_DATA_PORT s))))"
  using byte_press [of "fst (inb dev KEYBOARD_DATA_PORT s)"]
  by (cases "inb dev KEYBOARD_DATA_PORT s")
    (auto simp: keyboard_irq_handler_def Let_def key_effect_def shift_bit ascii_key_char intro!: exI split: option.split)

lemma key_effect_refines:
  assumes ok: "kb_ok s"
  shows "kb_ok (key_effect c s) \<and> kb_abs (key_effect c s) = spec_key c (kb_abs s)"
proof (cases "c AND 0x80 = 0")
  case True
  then have c: "c AND 0x7F = c" "unat c < 128" using byte_press by auto
  then have "c \<noteq> 0xAA" "c \<noteq> 0xB6" by auto
  then show ?thesis
    using ok kb_store_refines [OF ok] True
    by (auto simp: key_effect_def c(1) modifier_flag_def modifier_key_char modifier_bits kb_abs_def kb_ok_def split: option.split)
next
  case False
  have u: "128 \<le> unat c" using False by (simp add: byte_high)
  then have k: "key_char c sh = None" "c \<noteq> 0x2A" "c \<noteq> 0x36" for sh by (auto simp: key_char_def)
  have r: "c AND 0x7F = 0x2A \<longleftrightarrow> c = 0xAA" "c AND 0x7F = 0x36 \<longleftrightarrow> c = 0xB6" 
    by (simp_all only: byte_release [OF False]) (simp_all add: word_unat_eq_iff)
  show ?thesis
    using ok False k by (auto simp: key_effect_def modifier_flag_def r modifier_bits kb_abs_def kb_ok_def)
qed

lemma ucast_up_down: "ucast (ucast c :: u32) = (c :: u8)"
  by (rule bit_word_eqI) (simp add: bit_simps)

lemma keyboard_irq_refines:
  assumes call: "\<forall>c ev u. kb_ok u \<longrightarrow> kb_ok (call c ev u) \<and> kb_abs (call c ev u) = kb_abs u" and ok: "kb_ok s"
  shows "\<exists>t. keyboard_irq_handler (\<lambda>_ _. ucast c) call s = Some (True, t) \<and> kb_ok t \<and> kb_abs t = spec_key c (kb_abs s)"
proof -
  let ?dev = "\<lambda>_ _. ucast c"
  obtain s1 where s1: "inb ?dev KEYBOARD_DATA_PORT s = (c, s1)" "kb_ok s1" "kb_abs s1 = kb_abs s"
    using ok by (auto simp: port_defs Let_def kb_ok_def kb_abs_def ucast_up_down)
  obtain ev where h: "keyboard_irq_handler ?dev call s = map_option (\<lambda>t. (True, t))
     (callback_loop (\<lambda>u. (kb_callbacks u, kb_callback_count u)) (\<lambda>c. call c ev) 0 (key_effect c s1))"
    using keyboard_irq_handler_unfold [of ?dev call s] s1(1) by auto
  let ?Q = "\<lambda>u. kb_ok u \<and> kb_abs u = spec_key c (kb_abs s)"
  have "\<exists>t. callback_loop (\<lambda>u. (kb_callbacks u, kb_callback_count u)) (\<lambda>c. call c ev) 0 (key_effect c s1) = Some t \<and> ?Q t"
    by (rule callback_loop_keeps) (use call key_effect_refines [OF s1(2), of c] s1(3) in \<open>auto simp: kb_ok_def\<close>)
  with h show ?thesis by auto
qed

text \<open>
  C12. The keyboard driver is a bounded queue: along every sequence of key interrupts and reads the
  handler runs to its end, inside the callback table, and the bytes read are those of the abstract
  keyboard, which decodes each key press with the shift state at that moment, keeps at most 255
  unread characters in order, and reads 0 when there is none. Callbacks may do anything but change
  the queue and the shift state.
\<close>

theorem keyboard_refines_queue:
  assumes "\<forall>c ev u. kb_ok u \<longrightarrow> kb_ok (call c ev u) \<and> kb_abs (call c ev u) = kb_abs u" and "kb_ok s"
  shows "kb_run call ops s = Some (spec_run ops (kb_abs s))"
  using assms(2)
proof (induction ops arbitrary: s)
  case (Cons op ops)
  show ?case
  proof (cases op)
    case (Interrupt c)
    from keyboard_irq_refines [OF assms(1) Cons.prems, of c] obtain t where
      "keyboard_irq_handler (\<lambda>_ _. ucast c) call s = Some (True, t)" "kb_ok t" "kb_abs t = spec_key c (kb_abs s)" by blast
    with Cons.IH [of t] Interrupt show ?thesis by simp
  next
    case Read
    have r: "kb_ring.ring_ok s" using Cons.prems by (simp add: kb_ok_ring)
    have "kb_ok (snd (keyboard_read_key s))"
      using Cons.prems kb_ring.pop_ok [OF r] by (auto simp: kb_ok_ring keyboard_read_key_def)
    with Cons.IH keyboard_read_queue [OF r] Read show ?thesis by (simp add: kb_abs_def)
  qed
qed simp

definition keyboard_demo :: keyboard_state where
  "keyboard_demo = timer_state.extend timer_demo
     \<lparr>kb_buffer = replicate 256 0, kb_read_index = 250, kb_write_index = 250, kb_modifiers = 0, kb_callbacks = replicate 8 0, kb_callback_count = 0\<rparr>"

lemma keyboard_demo_ok: "kb_ok keyboard_demo" "kb_abs keyboard_demo = ([], False)"
  by (simp_all add: keyboard_demo_def timer_state.defs kb_ok_def RING_SIZE_def callbacks_ok_def MAX_CALLBACKS_def kb_abs_def ring_contents_def)

text \<open>Typing shift-h, then i, with the ring wrapping around at its end.\<close>

theorem keyboard_refines_queue_witness:
  "kb_run (\<lambda>_ _ u. u) [Interrupt 0x2A, Interrupt 0x23, Interrupt 0xAA, Interrupt 0x17, Read, Read, Read] keyboard_demo = Some [0x48, 0x69, 0]"
  using keyboard_refines_queue [of "\<lambda>_ _ u. u", OF _ keyboard_demo_ok(1)]
  by (simp add: keyboard_demo_ok key_char_def scancode_to_ascii_normal_def scancode_to_ascii_shift_def nth_append Let_def queue_push_def
      RING_SIZE_def of_char_def)

section \<open>Callbacks\<close>

text \<open>
  Unregistering a callback leaves a hole in the table but lowers the counter the handler runs up to:
  after registering two callbacks and unregistering the first, the second is still in the table but
  is not called any more.
\<close>

lemma keyboard_two_callbacks:
  assumes "kb_callbacks s = replicate 8 0" "kb_callback_count s = 0" "a \<noteq> 0" "b \<noteq> 0" "a \<noteq> b"
  defines "t \<equiv> snd (keyboard_unregister_callback a (snd (keyboard_register_callback b (snd (keyboard_register_callback a s)))))"
  shows "kb_callbacks t = 0 # b # replicate 6 0 \<and> kb_callback_count t = 1"
proof -
  have "find_slot (\<lambda>c. c = 0) (replicate 8 (0 :: u64)) = Some 0" by (simp add: find_slot_replicate)
  then have 1: "callbacks_register a (kb_callbacks s, kb_callback_count s) = (True, a # replicate 7 0, 1)"
    using assms by (simp add: callbacks_register_def numeral_eq_Suc)
  have "find_slot (\<lambda>c. c = 0) (a # replicate 7 (0 :: u64)) = Some 1" using assms by (simp add: slot_simps nth_Cons')
  then have 2: "callbacks_register b (a # replicate 7 0, 1) = (True, a # b # replicate 6 0, 2)"
    using assms by (simp add: callbacks_register_def numeral_eq_Suc)
  have "find_slot (\<lambda>c. c = a) (a # b # replicate 6 (0 :: u64)) = Some 0" by (simp add: slot_simps)
  then have 3: "callbacks_unregister a (a # b # replicate 6 0, 2) = (True, 0 # b # replicate 6 0, 1)"
    by (simp add: callbacks_unregister_def)
  show ?thesis by (simp add: t_def keyboard_unregister_callback_def keyboard_register_callback_def 1 2 3)
qed

lemma key_effect_callbacks [simp]:
  "kb_callbacks (key_effect c s) = kb_callbacks s" "kb_callback_count (key_effect c s) = kb_callback_count s"
  by (simp_all add: key_effect_def keyboard_store_def Let_def split: option.split)

text \<open>
  Unregistering a callback silences another one: after registering two callbacks and unregistering
  the first, the second is still in the table, but the handler does its own work only and calls
  nobody.
\<close>

theorem keyboard_unregister_hides:
  assumes "kb_callbacks s = replicate 8 0" "kb_callback_count s = 0" "a \<noteq> 0" "b \<noteq> 0" "a \<noteq> b"
    and "t = snd (keyboard_unregister_callback a (snd (keyboard_register_callback b (snd (keyboard_register_callback a s)))))"
  shows "b \<in> set (kb_callbacks t) \<and>
    keyboard_irq_handler dev call t = Some (True, key_effect (fst (inb dev KEYBOARD_DATA_PORT t)) (snd (inb dev KEYBOARD_DATA_PORT t)))"
proof -
  have t: "kb_callbacks t = 0 # b # replicate 6 0" "kb_callback_count t = 1"
    using keyboard_two_callbacks [OF assms(1-5)] assms(6) by auto
  obtain c s1 where s1: "inb dev KEYBOARD_DATA_PORT t = (c, s1)" "kb_callbacks s1 = kb_callbacks t" "kb_callback_count s1 = kb_callback_count t"
    by (auto simp: port_defs Let_def)
  have "callback_loop (\<lambda>u. (kb_callbacks u, kb_callback_count u)) cl 0 (key_effect c s1) = Some (key_effect c s1)" for cl
    using t s1 by (subst callback_loop.simps, subst callback_loop.simps) (simp add: MAX_CALLBACKS_def)
  with t s1 keyboard_irq_handler_unfold [of dev call t] show ?thesis by auto
qed

theorem keyboard_unregister_hides_witness:
  "0x2000 \<in> set (kb_callbacks (snd (keyboard_unregister_callback 0x1000 (snd (keyboard_register_callback 0x2000 (snd (keyboard_register_callback 0x1000 keyboard_demo)))))))"
proof -
  have "kb_callbacks keyboard_demo = replicate 8 0" "kb_callback_count keyboard_demo = 0" by (simp_all add: keyboard_demo_def timer_state.defs)
  from keyboard_unregister_hides [OF this _ _ _ refl, of "0x1000" "0x2000"] show ?thesis by simp
qed

end
