(* ===== verification/Mouse.thy ===== *)
theory Mouse
  imports Keyboard
begin

text \<open>
  The PS/2 mouse driver, \<open>src/src/src/syncos/mouse.c\<close>: the handshake with the controller, the assembly
  of three-byte packets and the ring of packets. The movements are the 8-bit two's complement fields
  of the packet. The driver is shown to be a bounded queue behind a packet decoder.
\<close>

section \<open>State and operations\<close>

definition MOUSE_DATA_PORT :: u16 where "MOUSE_DATA_PORT = 0x60"
definition MOUSE_STATUS_PORT :: u16 where "MOUSE_STATUS_PORT = 0x64"
definition MOUSE_COMMAND_PORT :: u16 where "MOUSE_COMMAND_PORT = 0x64"
definition IRQ_PS2_MOUSE :: u8 where "IRQ_PS2_MOUSE = 12"

record mouse_packet_t =
  x_movement :: u8
  y_movement :: u8
  button_state :: u8

record mouse_state = keyboard_state +
  packet_bytes :: "u8 list"
  packet_stage :: u8
  have_first_byte :: bool
  ms_buffer :: "mouse_packet_t list"
  ms_read_index :: u16
  ms_write_index :: u16
  ms_callbacks :: "u64 list"
  ms_callback_count :: int

type_synonym 'a mouse_call = "u64 \<Rightarrow> mouse_packet_t \<Rightarrow> 'a mouse_state_scheme \<Rightarrow> 'a mouse_state_scheme"

text \<open>The wait loop reads the status port until it is ready, at most \<open>timeout\<close> times.\<close>

fun mouse_wait_loop :: "device \<Rightarrow> (u8 \<Rightarrow> bool) \<Rightarrow> nat \<Rightarrow> 'a machine_scheme \<Rightarrow> 'a machine_scheme" where
  "mouse_wait_loop dev busy 0 s = s"
| "mouse_wait_loop dev busy (Suc timeout) s =
     (let (v, s1) = inb dev MOUSE_STATUS_PORT s in if busy v then mouse_wait_loop dev busy timeout s1 else s1)"

definition mouse_wait :: "device \<Rightarrow> bool \<Rightarrow> 'a machine_scheme \<Rightarrow> 'a machine_scheme" where
  "mouse_wait dev is_write s =
     (if is_write then mouse_wait_loop dev (\<lambda>v. v AND 0x2 \<noteq> 0) 100000 s
      else mouse_wait_loop dev (\<lambda>v. \<not> (v AND 0x1 \<noteq> 0)) 100000 s)"

definition mouse_send_command :: "device \<Rightarrow> u8 \<Rightarrow> 'a machine_scheme \<Rightarrow> 'a machine_scheme" where
  "mouse_send_command dev cmd s =
     (let s1 = mouse_wait dev True s;
          s2 = outb MOUSE_COMMAND_PORT 0xD4 s1;
          s3 = mouse_wait dev True s2
      in outb MOUSE_DATA_PORT cmd s3)"

definition mouse_read :: "device \<Rightarrow> 'a machine_scheme \<Rightarrow> u8 \<times> 'a machine_scheme" where
  "mouse_read dev s = inb dev MOUSE_DATA_PORT (mouse_wait dev False s)"

definition mouse_init :: "device \<Rightarrow> u64 \<Rightarrow> 'a mouse_state_scheme \<Rightarrow> 'a mouse_state_scheme" where
  "mouse_init dev mouse_irq_handler_addr s =
     (let s1 = s\<lparr>interrupt_flag := False, ms_read_index := 0, ms_write_index := 0, packet_stage := 0,
                  have_first_byte := False, ms_callback_count := 0\<rparr>;
          s2 = outb MOUSE_COMMAND_PORT 0xA8 (mouse_wait dev True s1);
          s3 = outb MOUSE_COMMAND_PORT 0x20 (mouse_wait dev True s2);
          (status, s4) = inb dev MOUSE_DATA_PORT (mouse_wait dev False s3);
          s5 = outb MOUSE_COMMAND_PORT 0x60 (mouse_wait dev True s4);
          s6 = outb MOUSE_DATA_PORT (status OR 0x2) (mouse_wait dev True s5);
          s7 = mouse_send_command dev 0xF6 s6;
          (_, s8) = mouse_read dev s7;
          s9 = mouse_send_command dev 0xF4 s8;
          (_, s10) = mouse_read dev s9
      in snd (irq_register_handler IRQ_PS2_MOUSE mouse_irq_handler_addr 0 (s10\<lparr>interrupt_flag := True\<rparr>)))"

text \<open>The packet: the movements pass through \<open>int\<close>, where the sign masks are applied.\<close>

definition mouse_packet :: "u8 list \<Rightarrow> mouse_packet_t" where
  "mouse_packet b =
     (let x = b ! 1;
          x = (if b ! 0 AND 0x10 \<noteq> 0 then ucast ((scast x :: u32) OR 0xFFFFFF00) else x);
          y = ucast (- (scast (b ! 2) :: u32));
          y = (if b ! 0 AND 0x20 \<noteq> 0 then ucast ((scast y :: u32) OR 0xFFFFFF00) else y)
      in \<lparr>x_movement = x, y_movement = y, button_state = b ! 0 AND 0x07\<rparr>)"

definition mouse_store :: "mouse_packet_t \<Rightarrow> 'a mouse_state_scheme \<Rightarrow> 'a mouse_state_scheme" where
  "mouse_store packet s =
     (let next_write = (ms_write_index s + 1) mod 256
      in if next_write \<noteq> ms_read_index s
         then s\<lparr>ms_buffer := (ms_buffer s)[unat (ms_write_index s) := packet], ms_write_index := next_write\<rparr>
         else s)"

definition mouse_irq_handler :: "device \<Rightarrow> 'a mouse_call \<Rightarrow> 'a mouse_state_scheme \<Rightarrow> (bool \<times> 'a mouse_state_scheme) option" where
  "mouse_irq_handler dev call s0 =
     (let (mouse_byte, s) = inb dev MOUSE_DATA_PORT s0
      in if packet_stage s = 0 then
           (if mouse_byte AND 0x08 = 0 then Some (False, s)
            else Some (True, s\<lparr>packet_bytes := (packet_bytes s)[0 := mouse_byte], packet_stage := 1, have_first_byte := True\<rparr>))
         else if packet_stage s = 1 then
           Some (True, s\<lparr>packet_bytes := (packet_bytes s)[1 := mouse_byte], packet_stage := 2\<rparr>)
         else if packet_stage s = 2 then
           (let s1 = s\<lparr>packet_bytes := (packet_bytes s)[2 := mouse_byte]\<rparr>;
                packet = mouse_packet (packet_bytes s1);
                s2 = mouse_store packet s1
            in map_option (\<lambda>t. (True, t\<lparr>packet_stage := 0, have_first_byte := False\<rparr>))
                 (callback_loop (\<lambda>u. (ms_callbacks u, ms_callback_count u)) (\<lambda>c. call c packet) 0 s2))
         else Some (True, s))"

definition mouse_has_event :: "'a mouse_state_scheme \<Rightarrow> bool" where
  "mouse_has_event s \<longleftrightarrow> ms_read_index s \<noteq> ms_write_index s"

definition mouse_read_event :: "'a mouse_state_scheme \<Rightarrow> mouse_packet_t \<times> 'a mouse_state_scheme" where
  "mouse_read_event s =
     (if \<not> mouse_has_event s then (\<lparr>x_movement = 0, y_movement = 0, button_state = 0\<rparr>, s)
      else (ms_buffer s ! unat (ms_read_index s), s\<lparr>ms_read_index := (ms_read_index s + 1) mod 256\<rparr>))"

definition mouse_register_callback :: "u64 \<Rightarrow> 'a mouse_state_scheme \<Rightarrow> bool \<times> 'a mouse_state_scheme" where
  "mouse_register_callback callback s =
     (let (ok, cbs, n) = callbacks_register callback (ms_callbacks s, ms_callback_count s)
      in (ok, s\<lparr>ms_callbacks := cbs, ms_callback_count := n\<rparr>))"

definition mouse_unregister_callback :: "u64 \<Rightarrow> 'a mouse_state_scheme \<Rightarrow> bool \<times> 'a mouse_state_scheme" where
  "mouse_unregister_callback callback s =
     (let (ok, cbs, n) = callbacks_unregister callback (ms_callbacks s, ms_callback_count s)
      in (ok, s\<lparr>ms_callbacks := cbs, ms_callback_count := n\<rparr>))"

section \<open>Refinement of a packet decoder with a queue\<close>

interpretation ms_ring: ring_queue ms_buffer ms_read_index ms_write_index mouse_store "\<lambda>s. snd (mouse_read_event s)"
  by unfold_locales (auto simp: mouse_store_def mouse_read_event_def mouse_has_event_def Let_def)

text \<open>
  The abstract mouse: the packets not yet read and the bytes of the packet being received. The first
  byte of a packet has bit 3 set, other bytes in that place are dropped.
\<close>

fun spec_byte :: "u8 \<Rightarrow> mouse_packet_t list \<times> u8 list \<Rightarrow> bool \<times> mouse_packet_t list \<times> u8 list" where
  "spec_byte m (q, []) = (if bit m 3 then (True, q, [m]) else (False, q, []))"
| "spec_byte m (q, [b]) = (True, q, [b, m])"
| "spec_byte m (q, b # x # _) = (True, queue_push \<lparr>x_movement = x, y_movement = - m, button_state = b AND 7\<rparr> q, [])"

definition ms_queue :: "'a mouse_state_scheme \<Rightarrow> mouse_packet_t list" where
  "ms_queue s = ring_contents (ms_buffer s) (ms_read_index s) (ms_write_index s)"

definition mouse_abs :: "'a mouse_state_scheme \<Rightarrow> mouse_packet_t list \<times> u8 list" where
  "mouse_abs s = (ms_queue s, take (unat (packet_stage s)) (packet_bytes s))"

definition mouse_ok :: "'a mouse_state_scheme \<Rightarrow> bool" where
  "mouse_ok s \<longleftrightarrow> length (ms_buffer s) = RING_SIZE \<and> unat (ms_read_index s) < RING_SIZE \<and> unat (ms_write_index s) < RING_SIZE \<and>
     callbacks_ok (ms_callbacks s, ms_callback_count s) \<and> length (packet_bytes s) = 4 \<and> packet_stage s \<le> 2"

lemma sign_mask: "ucast ((scast x :: u32) OR 0xFFFFFF00) = (x :: u8)"
proof -
  have b: "\<not> bit (0xFFFFFF00 :: int) n" if "n < 8" for n
  proof -
    have "(0xFFFFFF00 :: int) = push_bit 8 0xFFFFFF" by (simp add: push_bit_eq_mult)
    then show ?thesis using that by (simp only: bit_push_bit_iff) simp
  qed
  show ?thesis by (rule bit_word_eqI) (auto simp: bit_simps b)
qed

lemma neg_movement: "ucast (- (scast x :: u32)) = (- x :: u8)"
proof -
  have t: "take_bit 8 (- take_bit 32 y) = take_bit 8 (- y)" for y :: int
    using take_bit_minus [of 8 "take_bit 32 y"] take_bit_minus [of 8 y] by simp
  have "ucast (- y :: u32) = - (ucast y :: u8)" for y by transfer (simp add: t)
  moreover have "ucast (scast x :: u32) = x" by (rule bit_word_eqI) (auto simp: bit_simps)
  ultimately show ?thesis by simp
qed

lemma mouse_packet_bytes: "mouse_packet b = \<lparr>x_movement = b ! 1, y_movement = - (b ! 2), button_state = b ! 0 AND 7\<rparr>"
  by (simp add: mouse_packet_def sign_mask neg_movement Let_def)

lemma mouse_ok_ring: "mouse_ok s \<longleftrightarrow> ms_ring.ring_ok s \<and> callbacks_ok (ms_callbacks s, ms_callback_count s) \<and> length (packet_bytes s) = 4 \<and> packet_stage s \<le> 2"
  by (auto simp: mouse_ok_def ms_ring.ring_ok_def)

lemma ms_queue_eq: "ms_ring.queue s = ms_queue s"
  by (simp add: ms_ring.queue_def ms_queue_def)

lemma mouse_store_refines:
  assumes "mouse_ok s"
  shows "mouse_ok (mouse_store p s)" "ms_queue (mouse_store p s) = queue_push p (ms_queue s)"
    "packet_stage (mouse_store p s) = packet_stage s" "packet_bytes (mouse_store p s) = packet_bytes s"
  using ms_ring.push_ok [of s p] ms_ring.queue_of_push [of s p] assms
  by (auto simp: mouse_ok_ring ms_queue_eq mouse_store_def Let_def)

lemma mouse_read_queue:
  assumes "mouse_ok s"
  shows "mouse_has_event s \<longleftrightarrow> ms_queue s \<noteq> []"
    and "fst (mouse_read_event s) = (case ms_queue s of [] \<Rightarrow> \<lparr>x_movement = 0, y_movement = 0, button_state = 0\<rparr> | p # _ \<Rightarrow> p)"
    and "mouse_abs (snd (mouse_read_event s)) = (tl (ms_queue s), snd (mouse_abs s))" and "mouse_ok (snd (mouse_read_event s))"
proof -
  have r: "ms_ring.ring_ok s" using assms by (simp add: mouse_ok_ring)
  note q = ms_ring.queue_empty_iff [OF r] ms_ring.queue_of_pop [OF r] ms_ring.pop_ok [OF r]
  show "mouse_has_event s \<longleftrightarrow> ms_queue s \<noteq> []" using q(1) by (simp add: mouse_has_event_def ms_queue_eq)
  show "fst (mouse_read_event s) = (case ms_queue s of [] \<Rightarrow> \<lparr>x_movement = 0, y_movement = 0, button_state = 0\<rparr> | p # _ \<Rightarrow> p)"
    using q(1,3) by (auto simp: mouse_has_event_def mouse_read_event_def ms_queue_eq split: list.splits)
  show "mouse_abs (snd (mouse_read_event s)) = (tl (ms_queue s), snd (mouse_abs s))"
    using q(2) by (simp add: mouse_abs_def ms_queue_eq) (simp add: mouse_read_event_def)
  show "mouse_ok (snd (mouse_read_event s))"
    using q(4) assms by (simp add: mouse_ok_ring) (simp add: mouse_read_event_def)
qed

lemma bit3_mask: "m AND 0x08 = 0 \<longleftrightarrow> \<not> bit (m :: u8) 3"
  using and_exp_eq_0_iff_not_bit [of m 3] by simp

lemma stage_cases:
  assumes "(st :: u8) \<le> 2"
  obtains "st = 0" | "st = 1" | "st = 2"
proof -
  have "unat st \<le> 2" using assms by (simp add: word_le_nat_alt)
  then have "unat st = 0 \<or> unat st = 1 \<or> unat st = 2" by linarith
  then have "unat st = unat (0 :: u8) \<or> unat st = unat (1 :: u8) \<or> unat st = unat (2 :: u8)" by simp
  with that show thesis by (auto simp only: word_unat_eq_iff [symmetric])
qed

lemma mouse_irq_refines:
  assumes call: "\<forall>c p u. mouse_ok u \<longrightarrow> mouse_ok (call c p u) \<and> mouse_abs (call c p u) = mouse_abs u" and ok: "mouse_ok s"
  shows "\<exists>r t. mouse_irq_handler (\<lambda>_ _. ucast m) call s = Some (r, t) \<and> mouse_ok t \<and> (r, mouse_abs t) = spec_byte m (mouse_abs s)"
proof -
  let ?dev = "\<lambda>_ _. ucast m"
  define s1 where "s1 = snd (inb ?dev MOUSE_DATA_PORT s)"
  have i: "inb ?dev MOUSE_DATA_PORT s = (m, s1)" by (simp add: s1_def port_defs Let_def ucast_up_down)
  have s1: "mouse_ok s1" "mouse_abs s1 = mouse_abs s" "packet_stage s1 = packet_stage s"
    using ok by (simp_all add: s1_def port_defs Let_def mouse_ok_def mouse_abs_def ms_queue_def)
  have l: "length (packet_bytes s1) = 4" using s1(1) by (simp add: mouse_ok_def)
  then obtain b0 b1 b2 b3 where b: "packet_bytes s1 = [b0, b1, b2, b3]"
    by (auto simp: numeral_eq_Suc length_Suc_conv)
  have "packet_stage s1 \<le> 2" using s1(1) by (simp add: mouse_ok_def)
  then consider "packet_stage s1 = 0" | "packet_stage s1 = 1" | "packet_stage s1 = 2" by (rule stage_cases)
  then show ?thesis
  proof cases
    case 1
    then show ?thesis using s1 b
      by (auto simp: mouse_irq_handler_def i bit3_mask mouse_abs_def ms_queue_def mouse_ok_def)
  next
    case 2
    let ?t = "s1\<lparr>packet_bytes := (packet_bytes s1)[1 := m], packet_stage := 2\<rparr>"
    have "mouse_irq_handler ?dev call s = Some (True, ?t)" by (simp add: mouse_irq_handler_def i 2)
    moreover have "mouse_ok ?t" using s1(1) by (simp add: mouse_ok_def)
    moreover have "(True, mouse_abs ?t) = spec_byte m (mouse_abs s1)" by (simp add: mouse_abs_def ms_queue_def b 2)
    ultimately show ?thesis using s1(2) by auto
  next
    case 3
    let ?s2 = "s1\<lparr>packet_bytes := (packet_bytes s1)[2 := m]\<rparr>"
    let ?p = "\<lparr>x_movement = b1, y_movement = - m, button_state = b0 AND 7\<rparr>"
    have p: "mouse_packet ([b0, b1, b2, b3][2 := m]) = ?p" by (simp add: mouse_packet_bytes)
    have ok2: "mouse_ok ?s2" using s1(1) by (simp add: mouse_ok_def)
    have q: "ms_queue ?s2 = fst (mouse_abs s)" using s1(2) by (simp add: mouse_abs_def ms_queue_def flip: s1(2))
    let ?Q = "\<lambda>u. mouse_ok u \<and> mouse_abs u = (queue_push ?p (fst (mouse_abs s)), [b0, b1])"
    have "\<exists>t. callback_loop (\<lambda>u. (ms_callbacks u, ms_callback_count u)) (\<lambda>c. call c ?p) 0 (mouse_store ?p ?s2) = Some t \<and> ?Q t"
      by (rule callback_loop_keeps)
        (use call mouse_store_refines [OF ok2, of ?p] q 3 b in \<open>auto simp: mouse_ok_def mouse_abs_def\<close>)
    moreover have "spec_byte m (mouse_abs s) = (True, queue_push ?p (fst (mouse_abs s)), [])"
      unfolding s1(2) [symmetric] using 3 b by (simp add: mouse_abs_def)
    ultimately show ?thesis using 3 b p
      by (auto simp: mouse_irq_handler_def i mouse_ok_def mouse_abs_def ms_queue_def)
  qed
qed

text \<open>Sequences of mouse interrupts and reads, of the abstract mouse and of the driver.\<close>

datatype mouse_op = Byte u8 | Read_Event

datatype mouse_obs = Handled bool | Packet mouse_packet_t

fun mouse_spec_run :: "mouse_op list \<Rightarrow> mouse_packet_t list \<times> u8 list \<Rightarrow> mouse_obs list" where
  "mouse_spec_run [] _ = []"
| "mouse_spec_run (Byte m # ops) a = (let (r, b) = spec_byte m a in Handled r # mouse_spec_run ops b)"
| "mouse_spec_run (Read_Event # ops) (q, p) =
     Packet (case q of [] \<Rightarrow> \<lparr>x_movement = 0, y_movement = 0, button_state = 0\<rparr> | e # _ \<Rightarrow> e) # mouse_spec_run ops (tl q, p)"

fun mouse_run :: "'a mouse_call \<Rightarrow> mouse_op list \<Rightarrow> 'a mouse_state_scheme \<Rightarrow> mouse_obs list option" where
  "mouse_run call [] s = Some []"
| "mouse_run call (Byte m # ops) s =
     (case mouse_irq_handler (\<lambda>_ _. ucast m) call s of None \<Rightarrow> None | Some (r, t) \<Rightarrow> map_option ((#) (Handled r)) (mouse_run call ops t))"
| "mouse_run call (Read_Event # ops) s =
     map_option ((#) (Packet (fst (mouse_read_event s)))) (mouse_run call ops (snd (mouse_read_event s)))"

text \<open>
  The mouse driver is a bounded queue behind a packet decoder: along every sequence of data bytes
  and reads, the handler's results and the packets read are those of the abstract mouse, which takes
  three bytes per packet, drops a first byte without its marker bit, delivers the movement bytes with
  the vertical one negated, and keeps at most 255 packets in order. The sign bits of the first byte
  have no influence. Callbacks may do anything but change the queue and the packet being received.
\<close>

theorem mouse_refines_queue:
  assumes "\<forall>c p u. mouse_ok u \<longrightarrow> mouse_ok (call c p u) \<and> mouse_abs (call c p u) = mouse_abs u" and "mouse_ok s"
  shows "mouse_run call ops s = Some (mouse_spec_run ops (mouse_abs s))"
  using assms(2)
proof (induction ops arbitrary: s)
  case (Cons op ops)
  show ?case
  proof (cases op)
    case (Byte m)
    from mouse_irq_refines [OF assms(1) Cons.prems, of m] obtain r t where
      "mouse_irq_handler (\<lambda>_ _. ucast m) call s = Some (r, t)" "mouse_ok t" "(r, mouse_abs t) = spec_byte m (mouse_abs s)" by blast
    with Cons.IH [of t] Byte show ?thesis by (cases "spec_byte m (mouse_abs s)") auto
  next
    case Read_Event
    with Cons.IH mouse_read_queue [OF Cons.prems] show ?thesis by (simp add: mouse_abs_def)
  qed
qed simp

definition mouse_demo :: mouse_state where
  "mouse_demo = keyboard_state.extend keyboard_demo
     \<lparr>packet_bytes = [0, 0, 0, 0], packet_stage = 0, have_first_byte = False,
      ms_buffer = replicate 256 \<lparr>x_movement = 0, y_movement = 0, button_state = 0\<rparr>, ms_read_index = 255, ms_write_index = 255,
      ms_callbacks = replicate 8 0, ms_callback_count = 0\<rparr>"

lemma mouse_demo_ok: "mouse_ok mouse_demo" "mouse_abs mouse_demo = ([], [])"
  by (simp_all add: mouse_demo_def keyboard_state.defs mouse_ok_def RING_SIZE_def callbacks_ok_def MAX_CALLBACKS_def mouse_abs_def ms_queue_def ring_contents_def)

theorem mouse_refines_queue_witness:
  "mouse_run (\<lambda>_ _ u. u) [Byte 0x01, Byte 0x09, Byte 0x05, Byte 0x02, Read_Event] mouse_demo =
     Some [Handled False, Handled True, Handled True, Handled True, Packet \<lparr>x_movement = 5, y_movement = 0xFE, button_state = 1\<rparr>]"
  using mouse_refines_queue [of "\<lambda>_ _ u. u", OF _ mouse_demo_ok(1)]
  by (simp add: mouse_demo_ok queue_push_def RING_SIZE_def bit3_mask [symmetric] flip: not_not)

end
