(* ===== verification/Spinlock.thy ===== *)
theory Spinlock
  imports Mouse
begin

text \<open>
  Spinlocks, \<open>src/src/src/syncos/spinlock.c\<close>. A lock is known by its address; the table of locks maps
  addresses to contents. The address of the tracking array is a parameter, with which the code compares
  lock addresses. An acquisition in a sequential setting, with nobody there to release the lock, waits
  forever when the lock is taken: that is the result \<open>None\<close>. A second section runs any number of
  threads through the atomic steps of the same code.
\<close>

section \<open>State and operations\<close>

definition MAX_SPINLOCK_NAME :: nat where "MAX_SPINLOCK_NAME = 32"
definition MAX_TRACKED_SPINLOCKS :: nat where "MAX_TRACKED_SPINLOCKS = 64"
definition SPINLOCK_FLAG_IRQSAFE :: u64 where "SPINLOCK_FLAG_IRQSAFE = 2"

record spinlock_t =
  sl_value :: u64
  sl_owner :: u64

record spinlock_debug_t =
  dbg_base :: spinlock_t
  dbg_name :: "u8 list"
  contention_count :: u64
  hold_count :: u64
  dbg_flags :: u32

record lock_state = mouse_state +
  locks :: "u64 \<Rightarrow> spinlock_t"
  spinlock_tracking :: "spinlock_debug_t list"
  spinlock_tracking_count :: u32

text \<open>Bit 0 is tested and set in one instruction; the result is the old bit.\<close>

definition atomic_test_and_set :: "spinlock_t \<Rightarrow> bool \<times> spinlock_t" where
  "atomic_test_and_set l = (bit (sl_value l) 0, l\<lparr>sl_value := sl_value l OR 1\<rparr>)"

definition set_lock :: "u64 \<Rightarrow> spinlock_t \<Rightarrow> 'a lock_state_scheme \<Rightarrow> 'a lock_state_scheme" where
  "set_lock p l s = s\<lparr>locks := (locks s)(p := l)\<rparr>"

text \<open>The tracking entry of a lock: the entry whose copy lies at the address of the lock itself.\<close>

definition tracking_entry :: "u64 \<Rightarrow> u64 \<Rightarrow> 'a lock_state_scheme \<Rightarrow> nat option" where
  "tracking_entry track_base lock s =
     find_slot (\<lambda>i. track_base + 72 * of_nat i = lock) [0..<unat (spinlock_tracking_count s)]"

definition spinlock_init_flags :: "u64 \<Rightarrow> u32 \<Rightarrow> 'a lock_state_scheme \<Rightarrow> 'a lock_state_scheme" where
  "spinlock_init_flags lock flags s =
     (if lock = 0 then s
      else let l = \<lparr>sl_value = 0, sl_owner = 0\<rparr>;
               s1 = set_lock lock l s
           in if unat (spinlock_tracking_count s1) < MAX_TRACKED_SPINLOCKS
              then let i = unat (spinlock_tracking_count s1);
                       d = spinlock_tracking s1 ! i
                   in s1\<lparr>spinlock_tracking_count := spinlock_tracking_count s1 + 1,
                        spinlock_tracking := (spinlock_tracking s1)[i :=
                          d\<lparr>dbg_base := l, dbg_flags := flags, contention_count := 0, hold_count := 0, dbg_name := (dbg_name d)[0 := 0]\<rparr>]\<rparr>
              else s1)"

definition spinlock_init :: "u64 \<Rightarrow> 'a lock_state_scheme \<Rightarrow> 'a lock_state_scheme" where
  "spinlock_init lock s = spinlock_init_flags lock 0 s"

definition spinlock_acquire :: "u64 \<Rightarrow> u64 \<Rightarrow> u64 \<Rightarrow> 'a lock_state_scheme \<Rightarrow> 'a lock_state_scheme option" where
  "spinlock_acquire track_base return_address lock s =
     (if lock = 0 then Some s
      else let s1 = (if sl_owner (locks s lock) AND SPINLOCK_FLAG_IRQSAFE \<noteq> 0 \<and> idt_are_interrupts_enabled s
                     then idt_disable_interrupts s else s);
               (busy, l) = atomic_test_and_set (locks s1 lock)
           in if busy then None
              else let s2 = set_lock lock (l\<lparr>sl_owner := return_address\<rparr>) s1
                   in Some (case tracking_entry track_base lock s2 of
                              None \<Rightarrow> s2
                            | Some i \<Rightarrow> s2\<lparr>spinlock_tracking := (spinlock_tracking s2)[i := (spinlock_tracking s2 ! i)
                                \<lparr>contention_count := contention_count (spinlock_tracking s2 ! i) + 1,
                                 hold_count := hold_count (spinlock_tracking s2 ! i) + 1\<rparr>]\<rparr>))"

definition spinlock_try_acquire :: "u64 \<Rightarrow> u64 \<Rightarrow> 'a lock_state_scheme \<Rightarrow> bool \<times> 'a lock_state_scheme" where
  "spinlock_try_acquire return_address lock s =
     (if lock = 0 then (False, s)
      else let (busy, l) = atomic_test_and_set (locks s lock)
           in if \<not> busy then (True, set_lock lock (l\<lparr>sl_owner := return_address\<rparr>) s) else (False, set_lock lock l s))"

definition spinlock_release :: "u64 \<Rightarrow> 'a lock_state_scheme \<Rightarrow> 'a lock_state_scheme" where
  "spinlock_release lock s =
     (if lock = 0 then s
      else let s1 = set_lock lock ((locks s lock)\<lparr>sl_owner := 0\<rparr>) s;
               s2 = set_lock lock ((locks s1 lock)\<lparr>sl_value := 0\<rparr>) s1
           in if sl_owner (locks s2 lock) AND SPINLOCK_FLAG_IRQSAFE \<noteq> 0 then idt_enable_interrupts s2 else s2)"

definition spinlock_is_held :: "u64 \<Rightarrow> 'a lock_state_scheme \<Rightarrow> bool" where
  "spinlock_is_held lock s \<longleftrightarrow> lock \<noteq> 0 \<and> sl_value (locks s lock) \<noteq> 0"

text \<open>The name is given by its bytes; the field keeps at most 31 of them and is padded with zeros.\<close>

definition spinlock_set_name :: "u64 \<Rightarrow> u64 \<Rightarrow> u8 list \<Rightarrow> 'a lock_state_scheme \<Rightarrow> 'a lock_state_scheme" where
  "spinlock_set_name track_base lock name s =
     (case tracking_entry track_base lock s of
        None \<Rightarrow> s
      | Some i \<Rightarrow> s\<lparr>spinlock_tracking := (spinlock_tracking s)[i := (spinlock_tracking s ! i)
          \<lparr>dbg_name := take 31 name @ replicate (31 - length name) 0 @ [0]\<rparr>]\<rparr>)"

section \<open>One thread\<close>

lemma spin_frame [simp]:
  "locks (set_lock p l s) = (locks s)(p := l)" "interrupt_flag (set_lock p l s) = interrupt_flag s"
  "spinlock_tracking (set_lock p l s) = spinlock_tracking s" "spinlock_tracking_count (set_lock p l s) = spinlock_tracking_count s"
  by (simp_all add: set_lock_def)

lemma spinlock_acquire_taken: "lock \<noteq> 0 \<Longrightarrow> bit (sl_value (locks s lock)) 0 \<Longrightarrow> spinlock_acquire tb ra lock s = None"
  by (simp add: spinlock_acquire_def atomic_test_and_set_def Let_def idt_disable_interrupts_def)

lemma spinlock_acquire_free:
  assumes "lock \<noteq> 0" "locks s lock = \<lparr>sl_value = 0, sl_owner = 0\<rparr>"
  shows "\<exists>t. spinlock_acquire tb ra lock s = Some t \<and> locks t = (locks s)(lock := \<lparr>sl_value = 1, sl_owner = ra\<rparr>) \<and>
    interrupt_flag t = interrupt_flag s"
  using assms by (auto simp: spinlock_acquire_def atomic_test_and_set_def Let_def split: option.split)

lemma spinlock_release_frees:
  assumes "lock \<noteq> 0"
  shows "locks (spinlock_release lock s) = (locks s)(lock := \<lparr>sl_value = 0, sl_owner = 0\<rparr>) \<and> interrupt_flag (spinlock_release lock s) = interrupt_flag s"
  using assms by (cases "locks s lock") (simp add: spinlock_release_def Let_def)

text \<open>
  A lock with its initial contents, whatever the flags it was initialised with, is acquired at once;
  then it is held and cannot be acquired again, neither by trying nor by waiting; releasing it restores
  its initial contents. None of these operations touches the interrupt flag, not even for a lock
  initialised as safe for use in interrupt handlers.
\<close>

theorem spinlock_acquire_release:
  assumes "lock \<noteq> 0"
  shows "\<exists>t. spinlock_acquire tb ra lock (spinlock_init_flags lock flags s) = Some t \<and>
    spinlock_is_held lock t \<and> sl_owner (locks t lock) = ra \<and>
    spinlock_acquire tb rb lock t = None \<and> \<not> fst (spinlock_try_acquire rb lock t) \<and>
    locks (spinlock_release lock t) lock = locks (spinlock_init_flags lock flags s) lock \<and>
    \<not> spinlock_is_held lock (spinlock_release lock t) \<and>
    interrupt_flag t = interrupt_flag s \<and> interrupt_flag (spinlock_release lock t) = interrupt_flag s"
proof -
  let ?i = "spinlock_init_flags lock flags s"
  have i: "locks ?i lock = \<lparr>sl_value = 0, sl_owner = 0\<rparr>" "interrupt_flag ?i = interrupt_flag s"
    using assms by (simp_all add: spinlock_init_flags_def Let_def)
  obtain t where t: "spinlock_acquire tb ra lock ?i = Some t" "locks t = (locks ?i)(lock := \<lparr>sl_value = 1, sl_owner = ra\<rparr>)"
    "interrupt_flag t = interrupt_flag ?i" using spinlock_acquire_free [OF assms i(1)] by blast
  have "spinlock_acquire tb rb lock t = None" using assms t(2) by (intro spinlock_acquire_taken) (simp_all add: bit_0)
  moreover have "\<not> fst (spinlock_try_acquire rb lock t)"
    using assms t(2) by (simp add: spinlock_try_acquire_def atomic_test_and_set_def bit_0)
  ultimately show ?thesis
    using t i spinlock_release_frees [OF assms, of t] assms by (auto simp: spinlock_is_held_def)
qed

section \<open>Any number of threads\<close>

text \<open>
  Where a thread is: outside, in the loop of \<open>spinlock_acquire\<close>, past the loop with the owner not yet
  written, in its critical section, or in \<open>spinlock_release\<close> between its two writes.
\<close>

datatype lock_pc = Outside | Spinning | Acquired | Critical | Releasing

inductive lock_step :: "(nat \<Rightarrow> u64) \<Rightarrow> spinlock_t \<times> (nat \<Rightarrow> lock_pc) \<Rightarrow> spinlock_t \<times> (nat \<Rightarrow> lock_pc) \<Rightarrow> bool"
  for ra :: "nat \<Rightarrow> u64" where
  enter: "pc t = Outside \<Longrightarrow> lock_step ra (l, pc) (l, pc(t := Spinning))"
| test_busy: "pc t = Spinning \<Longrightarrow> atomic_test_and_set l = (True, l') \<Longrightarrow> lock_step ra (l, pc) (l', pc)"
| test_free: "pc t = Spinning \<Longrightarrow> atomic_test_and_set l = (False, l') \<Longrightarrow> lock_step ra (l, pc) (l', pc(t := Acquired))"
| set_owner: "pc t = Acquired \<Longrightarrow> lock_step ra (l, pc) (l\<lparr>sl_owner := ra t\<rparr>, pc(t := Critical))"
| clear_owner: "pc t = Critical \<Longrightarrow> lock_step ra (l, pc) (l\<lparr>sl_owner := 0\<rparr>, pc(t := Releasing))"
| clear_value: "pc t = Releasing \<Longrightarrow> lock_step ra (l, pc) (l\<lparr>sl_value := 0\<rparr>, pc(t := Outside))"

fun inside :: "lock_pc \<Rightarrow> bool" where
  "inside Outside = False"
| "inside Spinning = False"
| "inside _ = True"

definition lock_inv :: "(nat \<Rightarrow> u64) \<Rightarrow> spinlock_t \<times> (nat \<Rightarrow> lock_pc) \<Rightarrow> bool" where
  "lock_inv ra st \<longleftrightarrow> (\<forall>t u. inside (snd st t) \<longrightarrow> inside (snd st u) \<longrightarrow> t = u) \<and>
     (bit (sl_value (fst st)) 0 \<longleftrightarrow> (\<exists>t. inside (snd st t))) \<and>
     (\<forall>t. snd st t = Critical \<longrightarrow> sl_owner (fst st) = ra t)"

lemma test_and_set_simps:
  "atomic_test_and_set l = (b, l') \<longleftrightarrow> b = bit (sl_value l) 0 \<and> l' = l\<lparr>sl_value := sl_value l OR 1\<rparr>"
  by (auto simp: atomic_test_and_set_def)

lemma lock_inv_single: "lock_inv ra (l, pc) \<Longrightarrow> inside (pc t) \<Longrightarrow> u \<noteq> t \<Longrightarrow> \<not> inside (pc u) \<and> pc u \<noteq> Critical"
  by (auto simp: lock_inv_def)

lemma lock_inv_step: "lock_step ra st st' \<Longrightarrow> lock_inv ra st \<Longrightarrow> lock_inv ra st'"
proof (induction rule: lock_step.induct)
  case (enter pc t l)
  then have "inside ((pc(t := Spinning)) u) = inside (pc u)" "(pc(t := Spinning)) u = Critical \<longleftrightarrow> pc u = Critical" for u by auto
  with enter show ?case by (simp add: lock_inv_def)
next
  case (test_busy pc t l l')
  then show ?case by (simp add: lock_inv_def test_and_set_simps bit_simps)
next
  case (test_free pc t l l')
  then have none: "\<not> inside (pc u)" for u by (simp add: lock_inv_def test_and_set_simps)
  have "inside ((pc(t := Acquired)) u) \<longleftrightarrow> u = t" "(pc(t := Acquired)) u \<noteq> Critical" for u
    using none [of u] by auto
  with test_free show ?case by (simp add: lock_inv_def test_and_set_simps bit_simps)
next
  case (set_owner pc t l)
  then have "inside (pc t)" by simp
  note one = lock_inv_single [OF set_owner.prems this]
  have "inside ((pc(t := Critical)) u) = inside (pc u)" "(pc(t := Critical)) u = Critical \<longleftrightarrow> u = t" for u
    using set_owner one [of u] by auto
  with set_owner show ?case by (simp add: lock_inv_def)
next
  case (clear_owner pc t l)
  then have "inside (pc t)" by simp
  note one = lock_inv_single [OF clear_owner.prems this]
  have "inside ((pc(t := Releasing)) u) = inside (pc u)" "(pc(t := Releasing)) u \<noteq> Critical" for u
    using clear_owner one [of u] by auto
  with clear_owner show ?case by (simp add: lock_inv_def)
next
  case (clear_value pc t l)
  then have "inside (pc t)" by simp
  note one = lock_inv_single [OF clear_value.prems this]
  have "\<not> inside ((pc(t := Outside)) u)" "(pc(t := Outside)) u \<noteq> Critical" for u
    using one [of u] by auto
  then show ?case by (simp add: lock_inv_def)
qed

lemma lock_inv_reachable: "(lock_step ra)\<^sup>*\<^sup>* st st' \<Longrightarrow> lock_inv ra st \<Longrightarrow> lock_inv ra st'"
  by (induction rule: rtranclp_induct) (auto intro: lock_inv_step)

text \<open>
  C32. Mutual exclusion and progress: whatever the interleaving of the steps of any number of threads on
  a freshly initialised lock, no two threads are in the critical section, the owner recorded there is
  the one that is, and when no thread is inside, the next test by a waiting thread succeeds.
\<close>

theorem spinlock_mutual_exclusion:
  assumes "(lock_step ra)\<^sup>*\<^sup>* (\<lparr>sl_value = 0, sl_owner = 0\<rparr>, \<lambda>_. Outside) (l, pc)"
  shows "(pc t = Critical \<longrightarrow> sl_owner l = ra t \<and> (\<forall>u. pc u = Critical \<longrightarrow> u = t)) \<and>
    ((\<forall>u. pc u \<in> {Outside, Spinning}) \<and> pc t = Spinning \<longrightarrow>
      (\<exists>l'. lock_step ra (l, pc) (l', pc(t := Acquired)) \<and> fst (atomic_test_and_set l) = False))"
proof -
  have i: "lock_inv ra (l, pc)" using lock_inv_reachable [OF assms] by (simp add: lock_inv_def)
  have "fst (atomic_test_and_set l) = False" if "\<forall>u. pc u \<in> {Outside, Spinning}"
  proof -
    have "\<not> inside (pc u)" for u using that [THEN spec, of u] by auto
    then show ?thesis using i by (simp add: lock_inv_def atomic_test_and_set_def)
  qed
  moreover have "lock_step ra (l, pc) (snd (atomic_test_and_set l), pc(t := Acquired))"
    if "pc t = Spinning" "fst (atomic_test_and_set l) = False"
    using that by (intro test_free) (simp_all add: prod_eq_iff)
  moreover have "sl_owner l = ra t" "\<forall>u. pc u = Critical \<longrightarrow> u = t" if "pc t = Critical"
    using i lock_inv_single [OF i, of t] that by (auto simp: lock_inv_def)
  ultimately show ?thesis by blast
qed

theorem spinlock_mutual_exclusion_witness:
  "\<exists>l pc. (lock_step (\<lambda>t. of_nat t))\<^sup>*\<^sup>* (\<lparr>sl_value = 0, sl_owner = 0\<rparr>, \<lambda>_. Outside) (l, pc) \<and> pc 5 = Critical \<and> sl_owner l = 5"
proof -
  let ?ra = "\<lambda>t. of_nat t" and ?l0 = "\<lparr>sl_value = 0, sl_owner = 0\<rparr>"
  let ?p1 = "(\<lambda>_. Outside)(5 := Spinning)"
  have 1: "lock_step ?ra (?l0, \<lambda>_. Outside) (?l0, ?p1)" by (rule enter) simp
  have 2: "lock_step ?ra (?l0, ?p1) (\<lparr>sl_value = 1, sl_owner = 0\<rparr>, ?p1(5 := Acquired))"
    by (rule test_free) (simp_all add: atomic_test_and_set_def)
  have 3: "lock_step ?ra (\<lparr>sl_value = 1, sl_owner = 0\<rparr>, ?p1(5 := Acquired)) (\<lparr>sl_value = 1, sl_owner = 0\<rparr>\<lparr>sl_owner := ?ra 5\<rparr>, ?p1(5 := Acquired, 5 := Critical))"
    by (rule set_owner) simp
  have r: "(lock_step ?ra)\<^sup>*\<^sup>* (?l0, \<lambda>_. Outside) (\<lparr>sl_value = 1, sl_owner = 0\<rparr>\<lparr>sl_owner := ?ra 5\<rparr>, ?p1(5 := Acquired, 5 := Critical))"
    using 1 2 3 by (meson converse_rtranclp_into_rtranclp rtranclp.rtrancl_refl)
  from spinlock_mutual_exclusion [OF r, of 5] r show ?thesis by (intro exI) auto
qed

definition lock_demo :: lock_state where
  "lock_demo = mouse_state.extend mouse_demo
     \<lparr>locks = (\<lambda>_. \<lparr>sl_value = 7, sl_owner = 7\<rparr>), spinlock_tracking = [], spinlock_tracking_count = 64\<rparr>"

theorem spinlock_acquire_release_witness:
  "\<exists>t. spinlock_acquire 0x9000 0x1234 0x4000 (spinlock_init_flags 0x4000 2 lock_demo) = Some t \<and> spinlock_acquire 0x9000 0x5678 0x4000 t = None"
  using spinlock_acquire_release [of "0x4000" "0x9000" "0x1234" 2 lock_demo "0x5678"] by auto

end
