(* ===== verification/Page_Allocator.thy ===== *)
theory Page_Allocator
  imports Prelude
begin

text \<open>
  The contract of a physical page allocator, as its clients (the virtual memory manager, the
  process manager and the ELF loader) rely on it: an allocation hands out a free page, the null
  address means that nothing is free, a release makes exactly that page free again. The client
  lemmas, proved once from these laws, say that successive allocations never overlap and that
  along any sequence of allocations and releases no page is lost or handed out twice.
\<close>

text \<open>A client that allocates \<open>n\<close> pages and keeps them.\<close>

fun alloc_n :: "('s \<Rightarrow> u64 \<times> 's) \<Rightarrow> nat \<Rightarrow> 's \<Rightarrow> u64 list \<times> 's" where
  "alloc_n alloc 0 s = ([], s)"
| "alloc_n alloc (Suc n) s =
     (let (a, t) = alloc s; (as, u) = alloc_n alloc n t in (a # as, u))"

text \<open>A client with a set of pages it owns: it may allocate, fail to, or release what it owns.\<close>

inductive own_step :: "('s \<Rightarrow> u64 \<times> 's) \<Rightarrow> (u64 \<Rightarrow> 's \<Rightarrow> 's) \<Rightarrow> 's \<times> u64 set \<Rightarrow> 's \<times> u64 set \<Rightarrow> bool"
  for alloc free where
  own_alloc: "alloc s = (a, t) \<Longrightarrow> a \<noteq> 0 \<Longrightarrow> own_step alloc free (s, H) (t, insert a H)"
| own_fail: "alloc s = (0, t) \<Longrightarrow> own_step alloc free (s, H) (t, H)"
| own_free: "a \<in> H \<Longrightarrow> own_step alloc free (s, H) (free a s, H - {a})"

locale page_allocator =
  fixes alloc :: "'s \<Rightarrow> u64 \<times> 's"
    and free :: "u64 \<Rightarrow> 's \<Rightarrow> 's"
    and is_free :: "'s \<Rightarrow> u64 \<Rightarrow> bool"
    and managed :: "'s \<Rightarrow> u64 set"
    and inv :: "'s \<Rightarrow> bool"
  assumes alloc_inv: "inv s \<Longrightarrow> alloc s = (a, t) \<Longrightarrow> inv t"
    and alloc_managed: "inv s \<Longrightarrow> alloc s = (a, t) \<Longrightarrow> managed t = managed s"
    and alloc_zero: "inv s \<Longrightarrow> alloc s = (0, t) \<Longrightarrow> \<not> is_free s b \<and> is_free t = is_free s"
    and alloc_some: "inv s \<Longrightarrow> alloc s = (a, t) \<Longrightarrow> a \<noteq> 0 \<Longrightarrow>
      is_free s a \<and> is_free t = (is_free s)(a := False)"
    and free_inv: "inv s \<Longrightarrow> inv (free a s)"
    and free_managed: "inv s \<Longrightarrow> managed (free a s) = managed s"
    and free_inside: "inv s \<Longrightarrow> a \<in> managed s \<Longrightarrow> is_free (free a s) = (is_free s)(a := True)"
    and free_outside: "inv s \<Longrightarrow> a \<notin> managed s \<Longrightarrow> free a s = s"
    and is_free_managed: "inv s \<Longrightarrow> is_free s a \<Longrightarrow> a \<in> managed s"
begin

lemma alloc_succeeds: "inv s \<Longrightarrow> is_free s b \<Longrightarrow> fst (alloc s) \<noteq> 0"
  using alloc_zero by (metis prod.collapse)

lemma alloc_free_roundtrip:
  assumes "inv s" "alloc s = (a, t)" "a \<noteq> 0"
  shows "is_free (free a t) = is_free s"
proof -
  from alloc_some [OF assms] have a: "is_free s a" "is_free t = (is_free s)(a := False)" by auto
  have "a \<in> managed t" using a(1) assms is_free_managed alloc_managed by blast
  then show ?thesis using free_inside [OF alloc_inv [OF assms(1,2)]] a by (auto simp: fun_eq_iff)
qed

lemma alloc_n_distinct:
  assumes "inv s" "alloc_n alloc n s = (as, t)" "0 \<notin> set as"
  shows "inv t \<and> distinct as \<and> length as = n \<and> (\<forall>a\<in>set as. is_free s a) \<and>
         is_free t = (\<lambda>b. b \<notin> set as \<and> is_free s b)"
  using assms
proof (induction n arbitrary: s as t)
  case 0
  then show ?case by auto
next
  case (Suc n)
  obtain a s' where a: "alloc s = (a, s')" by fastforce
  obtain as' where as': "alloc_n alloc n s' = (as', t)" "as = a # as'"
    using Suc.prems(2) a by (auto simp: Let_def split: prod.splits)
  with Suc.prems have nz: "a \<noteq> 0" "0 \<notin> set as'" by auto
  from alloc_some [OF Suc.prems(1) a nz(1)] have f: "is_free s a" "is_free s' = (is_free s)(a := False)"
    by auto
  from Suc.IH [OF alloc_inv [OF Suc.prems(1) a] as'(1) nz(2)] f as'(2) show ?case
    by (auto simp: fun_eq_iff split: if_splits)
qed

lemma own_step_conserves:
  assumes "own_step alloc free (s, H) (t, K)" "inv s" "\<forall>a\<in>H. a \<in> managed s \<and> \<not> is_free s a"
  shows "inv t \<and> managed t = managed s \<and> (\<forall>a\<in>K. a \<in> managed t \<and> \<not> is_free t a) \<and>
         {a. is_free t a} \<union> K = {a. is_free s a} \<union> H"
  using assms
proof (cases rule: own_step.cases)
  case (own_alloc a)
  then show ?thesis
    using alloc_some [of s a t] alloc_inv [of s a t] alloc_managed [of s a t] is_free_managed [of s a] assms(2,3)
    by auto
next
  case own_fail
  then show ?thesis
    using alloc_zero [of s t] alloc_inv [of s 0 t] alloc_managed [of s 0 t] assms(2,3) by auto
next
  case (own_free a)
  then show ?thesis
    using free_inside [of s a] free_inv [of s a] free_managed [of s a] assms(2,3) by auto
qed

lemma own_steps_conserve:
  assumes "(own_step alloc free)\<^sup>*\<^sup>* (s, {}) (t, H)" "inv s"
  shows "inv t \<and> managed t = managed s \<and> (\<forall>a\<in>H. a \<in> managed t \<and> \<not> is_free t a) \<and>
         {a. is_free t a} \<union> H = {a. is_free s a}"
  using assms(1)
proof (induction "(t, H)" arbitrary: t H rule: rtranclp_induct)
  case base
  with assms(2) show ?case by simp
next
  case (step y)
  obtain u K where y: "y = (u, K)" by fastforce
  note IH = step(3) [OF y]
  show ?case using own_step_conserves [of u K t H] step(2) IH unfolding y by auto
qed

end

end
