(* ===== verification/Pmm.thy ===== *)
theory Pmm
  imports Prelude Page_Allocator
begin

text \<open>
  The physical memory manager, \<open>src/src/src/syncos/pmm.c\<close> and \<open>pmm.h\<close>: one bit per 4 KiB page
  in a static 8 KiB bitmap, a first-fit allocator for single pages and for runs of pages, the
  release of pages, and the accounting functions. The state record holds the file's static
  variables. \<open>page_bitmap\<close> is the pointer of that name read as a truth value (it is \<open>NULL\<close> until
  \<open>pmm_init\<close> lets it point to \<open>static_bitmap\<close>). The type code of a usable memory map entry is a
  constant of the boot loader's header and therefore a parameter. Console output is not modelled.
\<close>

section \<open>State\<close>

record pmm_config_t =
  total_memory :: u64
  kernel_start :: u64
  kernel_end :: u64
  page_size :: u64
  max_pages :: u32

record pmm_state =
  pmm_config :: pmm_config_t
  static_bitmap :: "u8 list"
  page_bitmap :: bool
  bitmap_size :: u64
  total_allocations :: u64
  failed_allocations :: u64

text \<open>An entry of the boot loader's memory map: \<open>struct limine_memmap_entry\<close>.\<close>

record memmap_entry =
  me_base :: u64
  me_length :: u64
  me_type :: u64

definition STATIC_BITMAP_SIZE :: nat where
  "STATIC_BITMAP_SIZE = 8192"

definition pmm_static_state :: pmm_state where
  "pmm_static_state = \<lparr>pmm_config = \<lparr>total_memory = 0, kernel_start = 0, kernel_end = 0, page_size = 0, max_pages = 0\<rparr>,
     static_bitmap = replicate STATIC_BITMAP_SIZE 0, page_bitmap = False, bitmap_size = 0,
     total_allocations = 0, failed_allocations = 0\<rparr>"

abbreviation page_count :: "pmm_state \<Rightarrow> nat" where
  "page_count s \<equiv> unat (max_pages (pmm_config s))"

section \<open>Initialisation\<close>

text \<open>First loop of \<open>pmm_init\<close>: (start address, largest usable size, total memory).\<close>

fun scan_regions :: "u64 \<Rightarrow> memmap_entry list \<Rightarrow> u64 \<times> u64 \<times> u64 \<Rightarrow> u64 \<times> u64 \<times> u64" where
  "scan_regions usable [] acc = acc"
| "scan_regions usable (e # es) (start_address, largest_usable_size, total_mem) =
     scan_regions usable es
       (if me_type e = usable then
          (if largest_usable_size < me_length e \<and> 0x100000 \<le> me_base e
           then (me_base e, me_length e, total_mem + me_length e)
           else (start_address, largest_usable_size, total_mem + me_length e))
        else (start_address, largest_usable_size, total_mem))"

text \<open>
  The innermost loop of the marking pass, \<open>for (addr = region_start; addr < region_end; addr +=
  page_size)\<close>; \<open>None\<close> stands for a loop that never ends.
\<close>

partial_function (option) mark_pages :: "pmm_config_t \<Rightarrow> u64 \<Rightarrow> u64 \<Rightarrow> u8 list \<Rightarrow> u8 list option" where
  "mark_pages c addr region_end bm =
     (if addr < region_end
      then mark_pages c (addr + page_size c) region_end
             (bitmap_set bm (unat ((addr - kernel_start c) div page_size c)))
      else Some bm)"

definition mark_entry :: "u64 \<Rightarrow> pmm_config_t \<Rightarrow> memmap_entry \<Rightarrow> u8 list \<Rightarrow> u8 list option" where
  "mark_entry usable c e bm =
     (if me_type e = usable then Some bm
      else if kernel_end c \<le> me_base e \<or> me_base e + me_length e \<le> kernel_start c then Some bm
      else mark_pages c (if me_base e < kernel_start c then kernel_start c else me_base e)
             (if kernel_end c < me_base e + me_length e then kernel_end c else me_base e + me_length e) bm)"

fun mark_entries :: "u64 \<Rightarrow> pmm_config_t \<Rightarrow> memmap_entry list \<Rightarrow> u8 list \<Rightarrow> u8 list option" where
  "mark_entries usable c [] bm = Some bm"
| "mark_entries usable c (e # es) bm =
     (case mark_entry usable c e bm of None \<Rightarrow> None | Some bm' \<Rightarrow> mark_entries usable c es bm')"

text \<open>\<open>for (i = 0; i < 256 && i < max_pages; i++)\<close>\<close>

definition reserve_first_pages :: "nat \<Rightarrow> u8 list \<Rightarrow> u8 list" where
  "reserve_first_pages n bm = fold (\<lambda>i b. bitmap_set b i) [0..<min 256 n] bm"

definition pmm_init :: "u64 \<Rightarrow> memmap_entry list \<Rightarrow> u32 \<Rightarrow> pmm_state \<Rightarrow> pmm_state option" where
  "pmm_init usable memmap init_flags s =
     (let page_sz = 4096;
          all_pages = of_nat (STATIC_BITMAP_SIZE * 8) :: u32;
          (start_address, largest_usable_size, total_mem) = scan_regions usable memmap (0x100000, 0, 0);
          pages = (if largest_usable_size < ucast all_pages * page_sz
                   then ucast (largest_usable_size div page_sz) else all_pages);
          c = \<lparr>total_memory = total_memory (pmm_config s), kernel_start = start_address,
                kernel_end = start_address + ucast pages * page_sz,
                page_size = page_sz, max_pages = pages\<rparr>
      in case mark_entries usable c memmap (static_bitmap s) of
           None \<Rightarrow> None
         | Some bm \<Rightarrow>
             Some (s\<lparr>pmm_config := c\<lparr>total_memory := total_mem\<rparr>,
                     static_bitmap := reserve_first_pages (unat pages) bm,
                     page_bitmap := True, bitmap_size := of_nat STATIC_BITMAP_SIZE\<rparr>))"

section \<open>Allocation and release\<close>

definition page_addr :: "pmm_state \<Rightarrow> nat \<Rightarrow> u64" where
  "page_addr s i = kernel_start (pmm_config s) + of_nat i * page_size (pmm_config s)"

definition pmm_alloc_page :: "pmm_state \<Rightarrow> u64 \<times> pmm_state" where
  "pmm_alloc_page s =
     (if \<not> page_bitmap s then (0, s)
      else case find (\<lambda>i. \<not> bitmap_test (static_bitmap s) i) [0..<page_count s] of
             Some i \<Rightarrow> (page_addr s i,
                        s\<lparr>static_bitmap := bitmap_set (static_bitmap s) i,
                          total_allocations := total_allocations s + 1\<rparr>)
           | None \<Rightarrow> (0, s\<lparr>failed_allocations := failed_allocations s + 1\<rparr>))"

text \<open>The scan of \<open>pmm_alloc_pages\<close> with its locals \<open>i\<close>, \<open>found_pages\<close> and \<open>start_page\<close>.\<close>

function run_scan :: "u8 list \<Rightarrow> nat \<Rightarrow> nat \<Rightarrow> nat \<Rightarrow> nat \<Rightarrow> nat \<Rightarrow> nat option" where
  "run_scan bm count n i found_pages start_page =
     (if i < n
      then if \<not> bitmap_test bm i
           then (let start_page' = (if found_pages = 0 then i else start_page);
                     found_pages' = found_pages + 1
                 in if found_pages' = count then Some start_page'
                    else run_scan bm count n (i + 1) found_pages' start_page')
           else run_scan bm count n (i + 1) 0 start_page
      else None)"
  by pat_completeness auto
termination
  by (relation "measure (\<lambda>(bm, count, n, i, f, st). n - i)") auto

declare run_scan.simps [simp del]

definition mark_run :: "nat \<Rightarrow> nat \<Rightarrow> u8 list \<Rightarrow> u8 list" where
  "mark_run start_page count bm = fold (\<lambda>j b. bitmap_set b (start_page + j)) [0..<count] bm"

definition pmm_alloc_pages :: "u64 \<Rightarrow> pmm_state \<Rightarrow> u64 \<times> pmm_state" where
  "pmm_alloc_pages count s =
     (if \<not> page_bitmap s \<or> count = 0 then (0, s)
      else if count = 1 then pmm_alloc_page s
      else case run_scan (static_bitmap s) (unat count) (page_count s) 0 0 0 of
             Some start_page \<Rightarrow>
               (page_addr s start_page,
                s\<lparr>static_bitmap := mark_run start_page (unat count) (static_bitmap s),
                  total_allocations := total_allocations s + 1\<rparr>)
           | None \<Rightarrow> (0, s\<lparr>failed_allocations := failed_allocations s + 1\<rparr>))"

definition in_managed_range :: "pmm_state \<Rightarrow> u64 \<Rightarrow> bool" where
  "in_managed_range s page \<longleftrightarrow>
     \<not> (page < kernel_start (pmm_config s) \<or> kernel_end (pmm_config s) \<le> page \<or>
        page mod page_size (pmm_config s) \<noteq> 0)"

definition page_index :: "pmm_state \<Rightarrow> u64 \<Rightarrow> nat" where
  "page_index s page = unat ((page - kernel_start (pmm_config s)) div page_size (pmm_config s))"

definition pmm_free_page :: "u64 \<Rightarrow> pmm_state \<Rightarrow> pmm_state" where
  "pmm_free_page page s =
     (if \<not> page_bitmap s then s
      else if \<not> in_managed_range s page then s
      else s\<lparr>static_bitmap := bitmap_clear (static_bitmap s) (page_index s page)\<rparr>)"

definition pmm_free_pages :: "u64 \<Rightarrow> u64 \<Rightarrow> pmm_state \<Rightarrow> pmm_state" where
  "pmm_free_pages page count s =
     fold (\<lambda>i t. pmm_free_page (page + of_nat i * page_size (pmm_config t)) t) [0..<unat count] s"

section \<open>Queries\<close>

definition pmm_is_page_free :: "pmm_state \<Rightarrow> u64 \<Rightarrow> bool" where
  "pmm_is_page_free s page =
     (if \<not> page_bitmap s then False
      else if \<not> in_managed_range s page then False
      else \<not> bitmap_test (static_bitmap s) (page_index s page))"

definition pmm_get_free_memory :: "pmm_state \<Rightarrow> u64" where
  "pmm_get_free_memory s =
     (if \<not> page_bitmap s then 0
      else of_nat (length (filter (\<lambda>i. \<not> bitmap_test (static_bitmap s) i) [0..<page_count s]))
             * page_size (pmm_config s))"

definition pmm_get_used_memory :: "pmm_state \<Rightarrow> u64" where
  "pmm_get_used_memory s =
     (if \<not> page_bitmap s then 0
      else of_nat (length (filter (\<lambda>i. bitmap_test (static_bitmap s) i) [0..<page_count s]))
             * page_size (pmm_config s))"

text \<open>\<open>pmm_get_info\<close>: the argument is \<open>None\<close> for a null pointer, else the record to fill.\<close>

definition pmm_get_info :: "pmm_state \<Rightarrow> pmm_config_t option \<Rightarrow> pmm_config_t option" where
  "pmm_get_info s config = (case config of None \<Rightarrow> None | Some _ \<Rightarrow> Some (pmm_config s))"


section \<open>Invariant\<close>

definition pmm_inv :: "pmm_state \<Rightarrow> bool" where
  "pmm_inv s \<longleftrightarrow> length (static_bitmap s) = STATIC_BITMAP_SIZE \<and>
     (page_bitmap s \<longrightarrow>
        page_size (pmm_config s) = 4096 \<and>
        page_count s \<le> STATIC_BITMAP_SIZE * 8 \<and>
        4096 dvd unat (kernel_start (pmm_config s)) \<and>
        0x100000 \<le> unat (kernel_start (pmm_config s)) \<and>
        unat (kernel_start (pmm_config s)) + page_count s * 4096 < 2 ^ 64 \<and>
        kernel_end (pmm_config s) = kernel_start (pmm_config s) + of_nat (page_count s) * 4096)"

lemma pmm_invD:
  assumes "pmm_inv s" "page_bitmap s"
  shows "page_size (pmm_config s) = 4096" "page_count s \<le> 65536"
    "4096 dvd unat (kernel_start (pmm_config s))" "0x100000 \<le> unat (kernel_start (pmm_config s))"
    "unat (kernel_start (pmm_config s)) + page_count s * 4096 < 2 ^ 64"
    "kernel_end (pmm_config s) = kernel_start (pmm_config s) + of_nat (page_count s) * 4096"
  using assms unfolding pmm_inv_def STATIC_BITMAP_SIZE_def by auto

lemma pmm_inv_length: "pmm_inv s \<Longrightarrow> length (static_bitmap s) = 8192"
  by (simp add: pmm_inv_def STATIC_BITMAP_SIZE_def)

lemma index_in_bitmap: "pmm_inv s \<Longrightarrow> page_bitmap s \<Longrightarrow> i < page_count s \<Longrightarrow> i div 8 < length (static_bitmap s)"
  using pmm_invD(2) [of s] pmm_inv_length [of s] by auto

lemma unat_add_pages:
  assumes "unat (a :: u64) + i * 4096 < 2 ^ 64"
  shows "unat (a + of_nat i * 4096) = unat a + i * 4096"
proof -
  have "unat (of_nat i * 4096 :: u64) = i * 4096"
    using assms by (simp add: unat_word_ariths unat_of_nat)
  with assms show ?thesis by (simp add: unat_word_ariths)
qed

lemma unat_page_addr:
  assumes "pmm_inv s" "page_bitmap s" "i \<le> page_count s"
  shows "unat (page_addr s i) = unat (kernel_start (pmm_config s)) + i * 4096"
proof -
  have "unat (kernel_start (pmm_config s)) + i * 4096 < 2 ^ 64"
    using pmm_invD(5) [OF assms(1,2)] assms(3) by simp
  then show ?thesis using pmm_invD(1) [OF assms(1,2)] by (simp add: page_addr_def unat_add_pages)
qed

lemma unat_kernel_end:
  "pmm_inv s \<Longrightarrow> page_bitmap s \<Longrightarrow>
   unat (kernel_end (pmm_config s)) = unat (kernel_start (pmm_config s)) + page_count s * 4096"
  using unat_add_pages [OF pmm_invD(5)] pmm_invD(6) by (simp only:)

lemma page_addr_managed:
  assumes "pmm_inv s" "page_bitmap s" "i < page_count s"
  shows "in_managed_range s (page_addr s i)" and "page_index s (page_addr s i) = i"
    and "page_addr s i \<noteq> 0" and "unat (page_addr s i) mod 4096 = 0"
proof -
  let ?ks = "unat (kernel_start (pmm_config s))"
  note inv = pmm_invD [OF assms(1,2)]
  have a: "unat (page_addr s i) = ?ks + i * 4096"
    using unat_page_addr [OF assms(1,2)] assms(3) by simp
  note e = unat_kernel_end [OF assms(1,2)]
  have m: "(?ks + i * 4096) mod 4096 = 0" using inv(3) by (simp add: mod_eq_0_iff_dvd)
  show "unat (page_addr s i) mod 4096 = 0" using m a by simp
  have "unat (page_addr s i mod 4096) = 0" using m by (simp add: unat_mod a)
  then have "page_addr s i mod 4096 = 0" by (simp add: unat_eq_0)
  then show "in_managed_range s (page_addr s i)"
    using a e assms(3) inv(1) by (simp add: in_managed_range_def word_less_nat_alt word_le_nat_alt)
  have "page_addr s i - kernel_start (pmm_config s) = of_nat i * 4096"
    using inv(1) by (simp add: page_addr_def)
  moreover have "unat (of_nat i * 4096 :: u64) = i * 4096"
    using unat_add_pages [of 0 i] inv(2) assms(3) by simp
  ultimately show "page_index s (page_addr s i) = i"
    using inv(1) by (simp add: page_index_def unat_div)
  show "page_addr s i \<noteq> 0" using a inv(4) by (metis unat_0 add_is_0 not_numeral_le_zero)
qed

lemma managed_page_addr:
  assumes "pmm_inv s" "page_bitmap s" "in_managed_range s a"
  shows "page_index s a < page_count s" and "a = page_addr s (page_index s a)"
proof -
  let ?ks = "unat (kernel_start (pmm_config s))"
  note inv = pmm_invD [OF assms(1,2)]
  note e = unat_kernel_end [OF assms(1,2)]
  have "\<not> a < kernel_start (pmm_config s)" "\<not> kernel_end (pmm_config s) \<le> a" "a mod 4096 = 0"
    using assms(3) inv(1) by (auto simp: in_managed_range_def)
  from this(1,2) arg_cong [OF this(3), of unat]
  have r: "?ks \<le> unat a" "unat a < ?ks + page_count s * 4096" "unat a mod 4096 = 0"
    using e by (simp_all add: word_less_nat_alt word_le_nat_alt unat_mod)
  have d: "unat (a - kernel_start (pmm_config s)) = unat a - ?ks"
    using r(1) by (simp add: unat_sub word_le_nat_alt)
  have dv: "4096 dvd unat a - ?ks" using r inv(3) by (simp add: mod_eq_0_iff_dvd dvd_diff_nat)
  have i: "page_index s a = (unat a - ?ks) div 4096"
    using inv(1) d by (simp add: page_index_def unat_div)
  show lt: "page_index s a < page_count s" using r i by auto
  have "unat (page_addr s (page_index s a)) = unat a"
    using unat_page_addr [OF assms(1,2), of "page_index s a"] lt i dv r(1) by simp
  then show "a = page_addr s (page_index s a)" by (simp add: word_unat_eq_iff)
qed

lemma is_free_page_addr:
  "pmm_inv s \<Longrightarrow> page_bitmap s \<Longrightarrow> i < page_count s \<Longrightarrow>
   pmm_is_page_free s (page_addr s i) \<longleftrightarrow> \<not> bitmap_test (static_bitmap s) i"
  by (simp add: pmm_is_page_free_def page_addr_managed)

lemma is_freeE:
  assumes "pmm_inv s" "pmm_is_page_free s a"
  obtains i where "i < page_count s" "a = page_addr s i" "\<not> bitmap_test (static_bitmap s) i"
  using assms managed_page_addr [of s a] by (auto simp: pmm_is_page_free_def split: if_splits)

lemma page_addr_inject:
  "pmm_inv s \<Longrightarrow> page_bitmap s \<Longrightarrow> i < page_count s \<Longrightarrow> j < page_count s \<Longrightarrow>
   page_addr s i = page_addr s j \<longleftrightarrow> i = j"
  by (metis page_addr_managed(2))

text \<open>Operations change the bitmap and the statistics only.\<close>

definition same_layout :: "pmm_state \<Rightarrow> pmm_state \<Rightarrow> bool" where
  "same_layout s t \<longleftrightarrow> pmm_config t = pmm_config s \<and> page_bitmap t = page_bitmap s \<and>
     length (static_bitmap t) = length (static_bitmap s)"

lemma same_layout_inv: "same_layout s t \<Longrightarrow> pmm_inv s \<Longrightarrow> pmm_inv t"
  by (simp add: same_layout_def pmm_inv_def)

lemma same_layout_page_addr: "same_layout s t \<Longrightarrow> page_addr t i = page_addr s i"
  by (simp add: same_layout_def page_addr_def)

lemma same_layout_refl [simp]: "same_layout s s"
  by (simp add: same_layout_def)

lemma same_layout_trans: "same_layout s t \<Longrightarrow> same_layout t u \<Longrightarrow> same_layout s u"
  by (simp add: same_layout_def)

lemma is_free_change:
  assumes "pmm_inv s" "same_layout s t"
    and "\<And>i. i < page_count s \<Longrightarrow> bitmap_test (static_bitmap t) i = (if i \<in> I then v else bitmap_test (static_bitmap s) i)"
  shows "pmm_is_page_free t a =
    (if page_bitmap s \<and> a \<in> page_addr s ` {i \<in> I. i < page_count s} then \<not> v else pmm_is_page_free s a)"
proof (cases "page_bitmap s \<and> in_managed_range s a")
  case True
  then have *: "page_index s a < page_count s" "a = page_addr s (page_index s a)"
    using managed_page_addr [OF assms(1)] by auto
  have "in_managed_range t a" "page_index t a = page_index s a" "page_bitmap t"
    using assms(2) True by (auto simp: same_layout_def in_managed_range_def page_index_def)
  then have "pmm_is_page_free t a = (\<not> bitmap_test (static_bitmap t) (page_index s a))"
    by (simp add: pmm_is_page_free_def)
  moreover have "pmm_is_page_free s a = (\<not> bitmap_test (static_bitmap s) (page_index s a))"
    using True by (simp add: pmm_is_page_free_def)
  moreover have "a \<in> page_addr s ` {i \<in> I. i < page_count s} \<longleftrightarrow> page_index s a \<in> I"
    using * True page_addr_managed(2) [OF assms(1)] by (auto intro!: image_eqI)
  ultimately show ?thesis using True assms(3) [OF *(1)] by simp
next
  case False
  moreover have "a \<notin> page_addr s ` {i \<in> I. i < page_count s}" if "page_bitmap s"
    using False that page_addr_managed(1) [OF assms(1)] by auto
  ultimately show ?thesis
    using assms(2) by (auto simp: pmm_is_page_free_def same_layout_def in_managed_range_def)
qed

lemma is_free_same_bitmap:
  "same_layout s t \<Longrightarrow> static_bitmap t = static_bitmap s \<Longrightarrow> pmm_is_page_free t = pmm_is_page_free s"
  by (simp add: fun_eq_iff pmm_is_page_free_def in_managed_range_def page_index_def same_layout_def)

lemma is_free_mark:
  assumes "pmm_inv s" "page_bitmap s" "same_layout s t" "\<forall>i\<in>I. i < page_count s"
    and "\<And>i. i < page_count s \<Longrightarrow> bitmap_test (static_bitmap t) i = (if i \<in> I then v else bitmap_test (static_bitmap s) i)"
  shows "pmm_is_page_free t = (\<lambda>a. if a \<in> page_addr s ` I then \<not> v else pmm_is_page_free s a)"
proof -
  have "{i \<in> I. i < page_count s} = I" using assms(4) by auto
  with is_free_change [where I = I, OF assms(1,3,5)] assms(2) show ?thesis by (auto simp: fun_eq_iff)
qed

section \<open>Single pages\<close>

lemma pmm_alloc_page_cases:
  assumes "pmm_inv s" "pmm_alloc_page s = (a, t)"
  obtains (uninit) "\<not> page_bitmap s" "a = 0" "t = s"
  | (full) "page_bitmap s" "\<forall>i<page_count s. bitmap_test (static_bitmap s) i" "a = 0"
      "t = s\<lparr>failed_allocations := failed_allocations s + 1\<rparr>"
  | (page) i where "page_bitmap s" "i < page_count s" "\<not> bitmap_test (static_bitmap s) i"
      "\<forall>j<i. bitmap_test (static_bitmap s) j" "a = page_addr s i"
      "t = s\<lparr>static_bitmap := bitmap_set (static_bitmap s) i, total_allocations := total_allocations s + 1\<rparr>"
proof (cases "page_bitmap s")
  case False
  with assms(2) have "a = 0 \<and> t = s" by (simp add: pmm_alloc_page_def)
  with False show thesis by (intro uninit) auto
next
  case True
  show thesis
  proof (cases "find (\<lambda>i. \<not> bitmap_test (static_bitmap s) i) [0..<page_count s]")
    case None
    then have "\<forall>i<page_count s. bitmap_test (static_bitmap s) i"
      by (auto simp: find_None_iff)
    moreover from True None assms(2) have "a = 0 \<and> t = s\<lparr>failed_allocations := failed_allocations s + 1\<rparr>"
      by (simp add: pmm_alloc_page_def)
    ultimately show thesis using True by (intro full) auto
  next
    case (Some i)
    then have "i < page_count s" "\<not> bitmap_test (static_bitmap s) i" "\<forall>j<i. bitmap_test (static_bitmap s) j"
      by (auto simp: find_Some_iff)
    moreover from True Some assms(2) have "a = page_addr s i \<and> t = s\<lparr>static_bitmap := bitmap_set (static_bitmap s) i,
        total_allocations := total_allocations s + 1\<rparr>"
      by (simp add: pmm_alloc_page_def)
    ultimately show thesis using True by (intro page) auto
  qed
qed

lemma pmm_alloc_page_layout: "pmm_alloc_page s = (a, t) \<Longrightarrow> same_layout s t"
  by (auto simp: pmm_alloc_page_def same_layout_def split: if_splits option.splits)

lemma pmm_alloc_page_some:
  assumes inv: "pmm_inv s" and alloc: "pmm_alloc_page s = (a, t)" and nz: "a \<noteq> 0"
  shows "pmm_is_page_free s a" and "pmm_is_page_free t = (pmm_is_page_free s)(a := False)"
proof -
  from inv alloc nz obtain i where i: "page_bitmap s" "i < page_count s" "\<not> bitmap_test (static_bitmap s) i"
    "a = page_addr s i" "static_bitmap t = bitmap_set (static_bitmap s) i"
    by (elim pmm_alloc_page_cases) auto
  then show "pmm_is_page_free s a" using inv by (simp add: is_free_page_addr)
  show "pmm_is_page_free t = (pmm_is_page_free s)(a := False)"
    using is_free_mark [OF inv i(1) pmm_alloc_page_layout [OF alloc], of "{i}" True]
      i index_in_bitmap [OF inv i(1,2)] by (auto simp: bitmap_simps fun_eq_iff)
qed

lemma pmm_alloc_page_zero:
  assumes inv: "pmm_inv s" and alloc: "pmm_alloc_page s = (0, t)"
  shows "\<not> pmm_is_page_free s b" and "pmm_is_page_free t = pmm_is_page_free s"
proof -
  show "\<not> pmm_is_page_free s b"
  proof
    assume "pmm_is_page_free s b"
    then obtain i where "i < page_count s" "\<not> bitmap_test (static_bitmap s) i" "page_bitmap s"
      using inv by (metis is_freeE pmm_is_page_free_def)
    with inv alloc page_addr_managed(3) [OF inv] show False
      by (elim pmm_alloc_page_cases) auto
  qed
  show "pmm_is_page_free t = pmm_is_page_free s"
    using inv alloc page_addr_managed(3) [OF inv]
    by (elim pmm_alloc_page_cases) (auto intro!: is_free_same_bitmap simp: same_layout_def)
qed

definition managed_pages :: "pmm_state \<Rightarrow> u64 set" where
  "managed_pages s = (if page_bitmap s then page_addr s ` {..<page_count s} else {})"

lemma managed_pages_iff: "pmm_inv s \<Longrightarrow> a \<in> managed_pages s \<longleftrightarrow> page_bitmap s \<and> in_managed_range s a"
  using page_addr_managed(1) [of s] managed_page_addr [of s a] by (auto simp: managed_pages_def)

lemma pmm_free_page_layout: "same_layout s (pmm_free_page a s)"
  by (simp add: pmm_free_page_def same_layout_def)

lemma pmm_free_page_outside: "pmm_inv s \<Longrightarrow> a \<notin> managed_pages s \<Longrightarrow> pmm_free_page a s = s"
  by (auto simp: managed_pages_iff pmm_free_page_def)

lemma pmm_free_page_inside:
  assumes inv: "pmm_inv s" and a: "a \<in> managed_pages s"
  shows "pmm_is_page_free (pmm_free_page a s) = (pmm_is_page_free s)(a := True)"
proof -
  from inv a have r: "page_bitmap s" "in_managed_range s a" by (auto simp: managed_pages_iff)
  note i = managed_page_addr [OF inv r]
  have "static_bitmap (pmm_free_page a s) = bitmap_clear (static_bitmap s) (page_index s a)"
    using r by (simp add: pmm_free_page_def)
  then show ?thesis
    using is_free_mark [OF inv r(1) pmm_free_page_layout [of s a], of "{page_index s a}" False]
      i index_in_bitmap [OF inv r(1) i(1)] by (auto simp: bitmap_simps fun_eq_iff)
qed

section \<open>Runs of pages\<close>

definition free_run :: "u8 list \<Rightarrow> nat \<Rightarrow> nat \<Rightarrow> nat \<Rightarrow> bool" where
  "free_run bm n count st \<longleftrightarrow> st + count \<le> n \<and> (\<forall>j<count. \<not> bitmap_test bm (st + j))"

lemma free_runD: "free_run bm n count st \<Longrightarrow> st \<le> k \<Longrightarrow> k < st + count \<Longrightarrow> \<not> bitmap_test bm k"
  by (metis free_run_def le_add_diff_inverse nat_add_left_cancel_less)

text \<open>The loop invariant: the last \<open>found_pages\<close> pages are free, and no run starts before them.\<close>

lemma run_scan_correct:
  assumes "found_pages \<le> i" "found_pages < count" "i \<le> n" "found_pages > 0 \<longrightarrow> start_page = i - found_pages"
    and "\<forall>k. i - found_pages \<le> k \<and> k < i \<longrightarrow> \<not> bitmap_test bm k"
    and "\<forall>st<i - found_pages. \<exists>k. st \<le> k \<and> k < st + count \<and> bitmap_test bm k"
  shows "case run_scan bm count n i found_pages start_page of
           None \<Rightarrow> \<forall>st. \<not> free_run bm n count st
         | Some st \<Rightarrow> free_run bm n count st \<and> (\<forall>r< st. \<not> free_run bm n count r)"
  using assms
proof (induction bm count n i found_pages start_page rule: run_scan.induct)
  case (1 bm count n i f st)
  have early: "\<not> free_run bm n count st'" if "st' < i - f" for st'
    using 1(8) that free_runD by blast
  consider (stop) "\<not> i < n" | (used) "i < n" "bitmap_test bm i"
    | (found) "i < n" "\<not> bitmap_test bm i" "f + 1 = count" | (more) "i < n" "\<not> bitmap_test bm i" "f + 1 \<noteq> count"
    by blast
  then show ?case
  proof cases
    case stop
    have "\<not> free_run bm n count st'" for st'
      using early [of st'] stop 1(3-5) by (cases "st' < i - f") (auto simp: free_run_def)
    then show ?thesis using stop by (subst run_scan.simps) simp
  next
    case used
    have "\<exists>k. st' \<le> k \<and> k < st' + count \<and> bitmap_test bm k" if "st' < i + 1" for st'
    proof (cases "st' < i - f")
      case False
      with that 1(4) used show ?thesis by (intro exI [of _ i]) auto
    qed (use 1(8) in auto)
    moreover have "\<forall>k. i + 1 - 0 \<le> k \<and> k < i + 1 \<longrightarrow> \<not> bitmap_test bm k" by auto
    ultimately show ?thesis using 1(2) [OF used(1)] used 1(3-5) by (subst run_scan.simps) simp
  next
    case found
    then have "(if f = 0 then i else st) = i - f" using 1(6) by auto
    moreover have "free_run bm n count (i - f)"
      unfolding free_run_def
    proof (intro conjI allI impI)
      show "i - f + count \<le> n" using found 1(3) by simp
      fix j assume "j < count"
      then show "\<not> bitmap_test bm (i - f + j)"
      proof (cases "j = f")
        case True
        with found 1(3) show ?thesis by simp
      next
        case False
        with \<open>j < count\<close> found 1(3) have "i - f + j < i" by linarith
        with 1(7) show ?thesis by simp
      qed
    qed
    ultimately show ?thesis using found early by (subst run_scan.simps) (simp add: Let_def)
  next
    case more
    have "\<not> bitmap_test bm k" if "i - f \<le> k" "k < i + 1" for k
      using that more 1(7) by (cases "k = i") auto
    then show ?thesis
      using 1(1) [OF more(1,2) refl refl] more 1(3-6,8) by (subst run_scan.simps) (auto simp: Let_def)
  qed
qed

lemma run_scan_spec:
  assumes "0 < count"
  shows "run_scan bm count n 0 0 0 = Some st \<longleftrightarrow> free_run bm n count st \<and> (\<forall>r< st. \<not> free_run bm n count r)"
    and "run_scan bm count n 0 0 0 = None \<longleftrightarrow> (\<forall>st. \<not> free_run bm n count st)"
  using run_scan_correct [of 0 0 count n 0 bm] assms
  by (auto split: option.splits) (metis linorder_neqE_nat)+

lemma mark_run_length [simp]: "length (mark_run st count bm) = length bm"
  unfolding mark_run_def by (induction count) auto

lemma mark_run_test:
  assumes "\<forall>j<count. (st + j) div 8 < length bm"
  shows "bitmap_test (mark_run st count bm) k \<longleftrightarrow> (st \<le> k \<and> k < st + count) \<or> bitmap_test bm k"
  using assms
proof (induction count)
  case 0
  then show ?case by (auto simp: mark_run_def)
next
  case (Suc count)
  have "mark_run st (Suc count) bm = bitmap_set (mark_run st count bm) (st + count)"
    by (simp add: mark_run_def)
  with Suc show ?case by (auto simp: bitmap_simps)
qed

lemma pmm_alloc_pages_layout: "pmm_alloc_pages n s = (a, t) \<Longrightarrow> same_layout s t"
  by (auto simp: pmm_alloc_pages_def same_layout_def split: if_splits option.splits
           dest: pmm_alloc_page_layout [unfolded same_layout_def])

lemma free_run_one: "free_run bm n (Suc 0) st \<longleftrightarrow> st < n \<and> \<not> bitmap_test bm st"
  by (auto simp: free_run_def)

lemma mark_run_one: "mark_run st (Suc 0) bm = bitmap_set bm st"
  by (simp add: mark_run_def)

text \<open>One case rule for both paths of \<open>pmm_alloc_pages\<close> (a single page, and the scan).\<close>

lemma pmm_alloc_pages_cases:
  assumes inv: "pmm_inv s" and alloc: "pmm_alloc_pages n s = (a, t)"
  obtains (trivial) "\<not> page_bitmap s \<or> n = 0" "a = 0" "t = s"
  | (full) "page_bitmap s" "n \<noteq> 0" "\<forall>st. \<not> free_run (static_bitmap s) (page_count s) (unat n) st" "a = 0"
      "t = s\<lparr>failed_allocations := failed_allocations s + 1\<rparr>"
  | (run) st where "page_bitmap s" "n \<noteq> 0" "free_run (static_bitmap s) (page_count s) (unat n) st"
      "\<forall>r< st. \<not> free_run (static_bitmap s) (page_count s) (unat n) r" "a = page_addr s st"
      "t = s\<lparr>static_bitmap := mark_run st (unat n) (static_bitmap s), total_allocations := total_allocations s + 1\<rparr>"
proof (cases "\<not> page_bitmap s \<or> n = 0")
  case True
  with alloc have "a = 0 \<and> t = s" by (auto simp: pmm_alloc_pages_def)
  with True show thesis by (intro trivial) auto
next
  case nontriv: False
  show thesis
  proof (cases "n = 1")
    case True
    with alloc nontriv have "pmm_alloc_page s = (a, t)" by (simp add: pmm_alloc_pages_def)
    note single = full
    from inv \<open>pmm_alloc_page s = (a, t)\<close> show thesis
    proof (cases rule: pmm_alloc_page_cases)
      case uninit
      with nontriv show thesis by simp
    next
      case full
      with True nontriv show thesis by (intro single) (auto simp: free_run_one)
    next
      case (page i)
      with True nontriv show thesis by (intro run [of i]) (auto simp: free_run_one mark_run_one)
    qed
  next
    case False
    have pos: "0 < unat n" using nontriv by (simp add: unat_gt_0)
    show thesis
    proof (cases "run_scan (static_bitmap s) (unat n) (page_count s) 0 0 0")
      case None
      moreover from None nontriv False alloc
      have "a = 0 \<and> t = s\<lparr>failed_allocations := failed_allocations s + 1\<rparr>"
        by (simp add: pmm_alloc_pages_def)
      ultimately show thesis using nontriv run_scan_spec(2) [OF pos] by (intro full) auto
    next
      case (Some st)
      moreover from Some nontriv False alloc
      have "a = page_addr s st \<and> t = s\<lparr>static_bitmap := mark_run st (unat n) (static_bitmap s),
              total_allocations := total_allocations s + 1\<rparr>"
        by (simp add: pmm_alloc_pages_def)
      ultimately show thesis using nontriv run_scan_spec(1) [OF pos] by (intro run [of st]) auto
    qed
  qed
qed

lemma run_index_in_bitmap:
  "pmm_inv s \<Longrightarrow> page_bitmap s \<Longrightarrow> free_run (static_bitmap s) (page_count s) n st \<Longrightarrow>
   \<forall>j<n. (st + j) div 8 < length (static_bitmap s)"
  by (auto simp: free_run_def intro!: index_in_bitmap)

lemma pmm_alloc_pages_run:
  assumes inv: "pmm_inv s" and alloc: "pmm_alloc_pages n s = (a, t)" and nz: "a \<noteq> 0"
  shows "\<exists>st. a = page_addr s st \<and> st + unat n \<le> page_count s \<and>
           (\<forall>j<unat n. pmm_is_page_free s (page_addr s (st + j))) \<and>
           pmm_is_page_free t = (\<lambda>b. if b \<in> page_addr s ` {st..<st + unat n} then False else pmm_is_page_free s b)"
proof -
  from inv alloc nz obtain st where st: "page_bitmap s" "free_run (static_bitmap s) (page_count s) (unat n) st"
    "a = page_addr s st" "static_bitmap t = mark_run st (unat n) (static_bitmap s)"
    by (elim pmm_alloc_pages_cases) auto
  have "\<forall>i\<in>{st..<st + unat n}. i < page_count s" using st(2) by (auto simp: free_run_def)
  moreover have "bitmap_test (static_bitmap t) i
      = (if i \<in> {st..<st + unat n} then True else bitmap_test (static_bitmap s) i)" for i
    using st(4) mark_run_test [OF run_index_in_bitmap [OF inv st(1,2)]] by auto
  ultimately
  have "pmm_is_page_free t = (\<lambda>b. if b \<in> page_addr s ` {st..<st + unat n} then False else pmm_is_page_free s b)"
    using is_free_mark [OF inv st(1) pmm_alloc_pages_layout [OF alloc], of "{st..<st + unat n}" True] by simp
  moreover have "pmm_is_page_free s (page_addr s (st + j))" if "j < unat n" for j
    using that st(2) is_free_page_addr [OF inv st(1), of "st + j"] by (auto simp: free_run_def)
  ultimately show ?thesis using st by (auto simp: free_run_def)
qed

text \<open>Releasing a run.\<close>

definition clear_run :: "nat \<Rightarrow> nat \<Rightarrow> u8 list \<Rightarrow> u8 list" where
  "clear_run st n bm = fold (\<lambda>j b. bitmap_clear b (st + j)) [0..<n] bm"

lemma clear_run_test:
  assumes "\<forall>j<n. (st + j) div 8 < length bm"
  shows "length (clear_run st n bm) = length bm \<and>
    (bitmap_test (clear_run st n bm) k \<longleftrightarrow> \<not> (st \<le> k \<and> k < st + n) \<and> bitmap_test bm k)"
  using assms
proof (induction n)
  case 0
  then show ?case by (auto simp: clear_run_def)
next
  case (Suc n)
  have "clear_run st (Suc n) bm = bitmap_clear (clear_run st n bm) (st + n)"
    by (simp add: clear_run_def)
  with Suc show ?case by (auto simp: bitmap_simps)
qed

lemma pmm_free_pages_run:
  assumes inv: "pmm_inv s" and init: "page_bitmap s" and "st + n \<le> page_count s" "n < 2 ^ 64"
  shows "pmm_free_pages (page_addr s st) (of_nat n) s = s\<lparr>static_bitmap := clear_run st n (static_bitmap s)\<rparr>"
proof -
  let ?f = "\<lambda>i t. pmm_free_page (page_addr s st + of_nat i * page_size (pmm_config t)) t"
  have "fold ?f [0..<m] s = s\<lparr>static_bitmap := clear_run st m (static_bitmap s)\<rparr>" if "m \<le> n" for m
    using that
  proof (induction m)
    case 0
    then show ?case by (simp add: clear_run_def)
  next
    case (Suc m)
    let ?t = "s\<lparr>static_bitmap := clear_run st m (static_bitmap s)\<rparr>"
    have i: "st + m < page_count s" using Suc.prems assms(3) by simp
    have a: "page_addr s st + of_nat m * page_size (pmm_config ?t) = page_addr s (st + m)"
      by (simp add: page_addr_def algebra_simps)
    have "pmm_free_page (page_addr s (st + m)) ?t
        = ?t\<lparr>static_bitmap := bitmap_clear (static_bitmap ?t) (st + m)\<rparr>"
      using page_addr_managed(1,2) [OF inv init i] init
      by (simp add: pmm_free_page_def in_managed_range_def page_index_def)
    moreover have "fold ?f [0..<Suc m] s = ?f m ?t" using Suc by simp
    ultimately show ?case using a by (simp add: clear_run_def)
  qed
  from this [of n] show ?thesis using assms(4) by (simp add: pmm_free_pages_def unat_of_nat)
qed

section \<open>The allocator contract\<close>

interpretation pmm: page_allocator pmm_alloc_page pmm_free_page pmm_is_page_free managed_pages pmm_inv
proof
  fix s t :: pmm_state and a b :: u64
  assume inv: "pmm_inv s"
  show "pmm_inv (pmm_free_page a s)" using same_layout_inv [OF pmm_free_page_layout inv] .
  show "managed_pages (pmm_free_page a s) = managed_pages s"
    using pmm_free_page_layout [of s a] by (simp add: managed_pages_def same_layout_def page_addr_def)
  show "a \<in> managed_pages s \<Longrightarrow> pmm_is_page_free (pmm_free_page a s) = (pmm_is_page_free s)(a := True)"
    by (rule pmm_free_page_inside [OF inv])
  show "a \<notin> managed_pages s \<Longrightarrow> pmm_free_page a s = s" by (rule pmm_free_page_outside [OF inv])
  show "pmm_is_page_free s a \<Longrightarrow> a \<in> managed_pages s"
    using inv by (auto simp: pmm_is_page_free_def managed_pages_iff split: if_splits)
  show "\<not> pmm_is_page_free s b \<and> pmm_is_page_free t = pmm_is_page_free s" if "pmm_alloc_page s = (0, t)"
    using pmm_alloc_page_zero [OF inv that] by simp
  assume alloc: "pmm_alloc_page s = (a, t)"
  note l = pmm_alloc_page_layout [OF alloc]
  show "pmm_inv t" using same_layout_inv [OF l inv] .
  show "managed_pages t = managed_pages s"
    using l by (simp add: managed_pages_def same_layout_def page_addr_def)
  show "a \<noteq> 0 \<Longrightarrow> pmm_is_page_free s a \<and> pmm_is_page_free t = (pmm_is_page_free s)(a := False)"
    using pmm_alloc_page_some [OF inv alloc] by simp
qed

section \<open>Accounting\<close>

lemma free_plus_used:
  assumes "pmm_inv s" "page_bitmap s"
  shows "unat (pmm_get_free_memory s) + unat (pmm_get_used_memory s) = page_count s * 4096"
proof -
  let ?f = "length (filter (\<lambda>i. \<not> bitmap_test (static_bitmap s) i) [0..<page_count s])"
  let ?u = "length (filter (\<lambda>i. bitmap_test (static_bitmap s) i) [0..<page_count s])"
  have sum: "?u + ?f = page_count s"
    using sum_length_filter_compl [of "bitmap_test (static_bitmap s)" "[0..<page_count s]"] by simp
  then have "?u \<le> 65536" "?f \<le> 65536" using pmm_invD(2) [OF assms] by linarith+
  then have "?u * 4096 < 2 ^ 64" "?f * 4096 < 2 ^ 64" by simp_all
  then show ?thesis
    using unat_add_pages [of 0 ?u] unat_add_pages [of 0 ?f] sum pmm_invD(1) [OF assms] assms(2)
    by (simp add: pmm_get_free_memory_def pmm_get_used_memory_def)
qed

lemma length_filter_count: "length (filter P [0..<n]) = card {i. i < n \<and> P i}"
  using distinct_card [of "filter P [0..<n]"] by (simp add: conj_commute Int_def)

lemma free_memory_alloc:
  assumes inv: "pmm_inv s" and alloc: "pmm_alloc_page s = (a, t)" and nz: "a \<noteq> 0"
  shows "pmm_get_free_memory t = pmm_get_free_memory s - 4096"
proof -
  from inv alloc nz obtain i where i: "page_bitmap s" "i < page_count s" "\<not> bitmap_test (static_bitmap s) i"
    "t = s\<lparr>static_bitmap := bitmap_set (static_bitmap s) i, total_allocations := total_allocations s + 1\<rparr>"
    by (elim pmm_alloc_page_cases) auto
  let ?F = "\<lambda>s. {i. i < page_count s \<and> \<not> bitmap_test (static_bitmap s) i}"
  have "?F t = ?F s - {i}" using i index_in_bitmap [OF inv i(1,2)] by (auto simp: bitmap_simps)
  moreover have "i \<in> ?F s" using i by simp
  ultimately have "card (?F s) = Suc (card (?F t))" using card_Suc_Diff1 [of "?F s" i] by simp
  then have "(of_nat (card (?F s)) :: u64) = of_nat (card (?F t)) + 1" by simp
  moreover have "pmm_get_free_memory s = of_nat (card (?F s)) * 4096"
    "pmm_get_free_memory t = of_nat (card (?F t)) * 4096"
    using i(1) pmm_invD(1) [OF inv i(1)]
    by (simp_all add: pmm_get_free_memory_def length_filter_count i(4))
  ultimately show ?thesis by (simp add: algebra_simps)
qed

section \<open>Initialisation\<close>

text \<open>
  What the boot protocol guarantees of the memory map: no entry wraps around the address space,
  and usable entries start on a page boundary.
\<close>

definition memmap_ok :: "u64 \<Rightarrow> memmap_entry list \<Rightarrow> bool" where
  "memmap_ok usable es \<longleftrightarrow> list_all (\<lambda>e. unat (me_base e) + unat (me_length e) < 2 ^ 64 \<and>
     (me_type e = usable \<longrightarrow> unat (me_base e) mod 4096 = 0)) es"

lemma memmap_ok_simps [simp]:
  "memmap_ok usable [] \<longleftrightarrow> True"
  "memmap_ok usable (e # es) \<longleftrightarrow> unat (me_base e) + unat (me_length e) < 2 ^ 64 \<and>
     (me_type e = usable \<longrightarrow> unat (me_base e) mod 4096 = 0) \<and> memmap_ok usable es"
  by (auto simp: memmap_ok_def)

lemma scan_regions_inv:
  assumes "memmap_ok usable es" "scan_regions usable es (st, sz, tot) = (st', sz', tot')"
    and "0x100000 \<le> unat st" "unat st mod 4096 = 0" "unat st + unat sz < 2 ^ 64"
  shows "0x100000 \<le> unat st' \<and> unat st' mod 4096 = 0 \<and> unat st' + unat sz' < 2 ^ 64"
  using assms
proof (induction es arbitrary: st sz tot)
  case Nil
  then show ?case by simp
next
  case (Cons e es)
  show ?case
  proof (cases "me_type e = usable \<and> sz < me_length e \<and> 0x100000 \<le> me_base e")
    case True
    then have "0x100000 \<le> unat (me_base e)" by (simp add: word_le_nat_alt)
    with True Cons show ?thesis by simp
  next
    case False
    with Cons.prems have "scan_regions usable es (st, sz, if me_type e = usable then tot + me_length e else tot) = (st', sz', tot')"
      by auto
    with Cons show ?thesis by simp
  qed
qed

lemma mark_pages_effect:
  assumes "page_size c = 4096" "kernel_start c \<le> addr" "unat region_end \<le> 2 ^ 64 - 4096"
    and "unat region_end \<le> unat (kernel_start c) + 8 * length bm * 4096"
  shows "\<exists>bm'. mark_pages c addr region_end bm = Some bm' \<and> length bm' = length bm \<and>
    (\<forall>i. bitmap_test bm' i \<longleftrightarrow> bitmap_test bm i \<or>
       (\<exists>k. unat addr + k * 4096 < unat region_end \<and> i = (unat addr + k * 4096 - unat (kernel_start c)) div 4096))"
  using assms
proof (induction "unat region_end - unat addr" arbitrary: addr bm rule: less_induct)
  case less
  let ?ks = "unat (kernel_start c)"
  have ks: "?ks \<le> unat addr" using less.prems(2) by (simp add: word_le_nat_alt)
  show ?case
  proof (cases "addr < region_end")
    case False
    then have "\<not> unat addr + k * 4096 < unat region_end" for k by (simp add: word_less_nat_alt)
    with False show ?thesis by (simp add: mark_pages.simps)
  next
    case True
    then have lt: "unat addr < unat region_end" by (simp add: word_less_nat_alt)
    have next_addr: "unat (addr + 4096) = unat addr + 4096"
      using unat_add_pages [of addr 1] lt less.prems(3) by simp
    let ?i = "(unat addr - ?ks) div 4096"
    have i: "unat ((addr - kernel_start c) div page_size c) = ?i"
      using less.prems(1,2) by (simp add: unat_div unat_sub)
    have i_lt: "?i div 8 < length bm" using lt less.prems(4) ks by auto
    have "kernel_start c \<le> addr + 4096" using ks next_addr by (simp add: word_le_nat_alt)
    moreover have "unat region_end - unat (addr + 4096) < unat region_end - unat addr"
      using lt next_addr by linarith
    ultimately
    obtain bm' where bm': "mark_pages c (addr + 4096) region_end (bitmap_set bm ?i) = Some bm'"
      "length bm' = length bm"
      "\<forall>i. bitmap_test bm' i \<longleftrightarrow> bitmap_test (bitmap_set bm ?i) i \<or>
         (\<exists>k. unat addr + 4096 + k * 4096 < unat region_end \<and> i = (unat addr + 4096 + k * 4096 - ?ks) div 4096)"
      using less(1) [of "addr + 4096" "bitmap_set bm ?i"] less.prems next_addr by auto
    have shift: "(\<exists>k. unat addr + k * 4096 < unat region_end \<and> j = (unat addr + k * 4096 - ?ks) div 4096) \<longleftrightarrow>
       j = ?i \<or> (\<exists>k. unat addr + 4096 + k * 4096 < unat region_end \<and> j = (unat addr + 4096 + k * 4096 - ?ks) div 4096)"
      (is "(\<exists>k. ?P k) \<longleftrightarrow> _ \<or> (\<exists>k. ?Q k)") for j
    proof -
      have "?Q k = ?P (Suc k)" for k by (simp add: algebra_simps)
      moreover have "j = ?i \<longleftrightarrow> ?P 0" using lt by simp
      ultimately show ?thesis by (metis not0_implies_Suc)
    qed
    have "mark_pages c addr region_end bm = Some bm'"
      using True i bm'(1) less.prems(1) by (simp add: mark_pages.simps [of c addr])
    with bm' i_lt shift show ?thesis by (auto simp: bitmap_simps)
  qed
qed

definition config_ok :: "pmm_config_t \<Rightarrow> nat \<Rightarrow> bool" where
  "config_ok c n \<longleftrightarrow> page_size c = 4096 \<and> unat (kernel_start c) mod 4096 = 0 \<and>
     unat (kernel_end c) = unat (kernel_start c) + unat (max_pages c) * 4096 \<and> unat (max_pages c) \<le> 8 * n"

text \<open>Page \<open>i\<close> of the managed region shares a byte with the memory map entry \<open>e\<close>.\<close>

definition overlaps :: "pmm_config_t \<Rightarrow> memmap_entry \<Rightarrow> nat \<Rightarrow> bool" where
  "overlaps c e i \<longleftrightarrow> i < unat (max_pages c) \<and>
     unat (me_base e) < unat (kernel_start c) + Suc i * 4096 \<and>
     unat (kernel_start c) + i * 4096 < unat (me_base e) + unat (me_length e) \<and> me_length e \<noteq> 0"

lemma mark_entry_effect:
  assumes c: "config_ok c (length bm)" and e: "unat (me_base e) + unat (me_length e) < 2 ^ 64"
    "unat (me_base e) mod 4096 = 0"
  shows "\<exists>bm'. mark_entry usable c e bm = Some bm' \<and> length bm' = length bm \<and>
    (\<forall>i. bitmap_test bm' i \<longleftrightarrow> bitmap_test bm i \<or> (me_type e \<noteq> usable \<and> overlaps c e i))"
proof -
  let ?ks = "unat (kernel_start c)" and ?n = "unat (max_pages c)"
  note c' = c [unfolded config_ok_def]
  have en: "unat (me_base e + me_length e) = unat (me_base e) + unat (me_length e)"
    using e(1) by (simp add: unat_word_ariths)
  consider (usable) "me_type e = usable"
    | (outside) "me_type e \<noteq> usable" "kernel_end c \<le> me_base e \<or> me_base e + me_length e \<le> kernel_start c"
    | (inside) "me_type e \<noteq> usable" "\<not> (kernel_end c \<le> me_base e \<or> me_base e + me_length e \<le> kernel_start c)"
    by blast
  then show ?thesis
  proof cases
    case usable
    then show ?thesis by (simp add: mark_entry_def)
  next
    case outside
    then have "\<not> overlaps c e i" for i using c' en by (auto simp: overlaps_def word_le_nat_alt)
    with outside show ?thesis by (simp add: mark_entry_def)
  next
    case inside
    let ?a = "if me_base e < kernel_start c then kernel_start c else me_base e"
    let ?b = "if kernel_end c < me_base e + me_length e then kernel_end c else me_base e + me_length e"
    have a: "unat ?a = max ?ks (unat (me_base e))" and b: "unat ?b = min (?ks + ?n * 4096) (unat (me_base e) + unat (me_length e))"
      using en c' by (auto simp: word_less_nat_alt)
    have "?ks + ?n * 4096 < 2 ^ 64" using c' unat_lt_64 [of "kernel_end c"] by simp
    then have "?ks + ?n * 4096 \<le> 2 ^ 64 - 4096" using c' by (intro page_multiple_bound) auto
    then have b_le: "unat ?b \<le> 2 ^ 64 - 4096" "unat ?b \<le> ?ks + 8 * length bm * 4096" using b c' by auto
    have a_ge: "kernel_start c \<le> ?a" by (simp add: not_less)
    have a_mod: "unat ?a mod 4096 = 0" using c' e(2) by (auto simp: max_def)
    obtain bm' where bm': "mark_pages c ?a ?b bm = Some bm'" "length bm' = length bm"
      "\<forall>i. bitmap_test bm' i \<longleftrightarrow> bitmap_test bm i \<or>
        (\<exists>k. unat ?a + k * 4096 < unat ?b \<and> i = (unat ?a + k * 4096 - ?ks) div 4096)"
      using mark_pages_effect [OF _ a_ge b_le] c' by blast
    obtain qa qk qe where q: "unat ?a = qa * 4096" "?ks = qk * 4096" "unat (me_base e) = qe * 4096"
      using a_mod c' e(2) by (metis dvd_def mod_eq_0_iff_dvd mult.commute)
    have qa: "qa = max qk qe" using a q by (simp add: max_def split: if_splits)
    have idx: "(unat ?a + k * 4096 - ?ks) div 4096 = qa + k - qk" for k
    proof -
      have "unat ?a + k * 4096 - ?ks = (qa + k - qk) * 4096"
        unfolding q by (simp only: add_mult_distrib diff_mult_distrib)
      then show ?thesis by simp
    qed
    have "(\<exists>k. unat ?a + k * 4096 < unat ?b \<and> i = qa + k - qk) \<longleftrightarrow> overlaps c e i" for i
    proof
      assume "\<exists>k. unat ?a + k * 4096 < unat ?b \<and> i = qa + k - qk"
      then obtain k where k: "unat ?a + k * 4096 < unat ?b" "i = qa + k - qk" by blast
      then have "?ks + i * 4096 = unat ?a + k * 4096" using q qa by linarith
      with k(1) a b show "overlaps c e i" by (auto simp: overlaps_def)
    next
      assume o: "overlaps c e i"
      then have lt: "?ks + i * 4096 < unat ?b" using b by (auto simp: overlaps_def)
      from o have "unat (me_base e) < ?ks + Suc i * 4096" by (simp add: overlaps_def)
      with q have "qe * 4096 < (qk + Suc i) * 4096" by (simp only: add_mult_distrib)
      then have "qe < qk + Suc i" by (simp only: mult_less_cancel2)
      then have k: "qa + (qk + i - qa) = qk + i" using qa by simp
      then have "unat ?a + (qk + i - qa) * 4096 < unat ?b" using lt q by linarith
      with k show "\<exists>k. unat ?a + k * 4096 < unat ?b \<and> i = qa + k - qk" by (metis diff_add_inverse)
    qed
    with idx have "(\<exists>k. unat ?a + k * 4096 < unat ?b \<and> i = (unat ?a + k * 4096 - ?ks) div 4096) \<longleftrightarrow> overlaps c e i" for i
      by simp
    with bm' inside show ?thesis by (simp add: mark_entry_def)
  qed
qed

lemma mark_entries_effect:
  assumes "config_ok c (length bm)" "\<forall>e\<in>set es. unat (me_base e) + unat (me_length e) < 2 ^ 64 \<and> unat (me_base e) mod 4096 = 0"
  shows "\<exists>bm'. mark_entries usable c es bm = Some bm' \<and> length bm' = length bm \<and>
    (\<forall>i. bitmap_test bm' i \<longleftrightarrow> bitmap_test bm i \<or> (\<exists>e\<in>set es. me_type e \<noteq> usable \<and> overlaps c e i))"
  using assms
proof (induction es arbitrary: bm)
  case Nil
  then show ?case by simp
next
  case (Cons e es)
  then have e: "unat (me_base e) + unat (me_length e) < 2 ^ 64" "unat (me_base e) mod 4096 = 0" by auto
  from mark_entry_effect [OF Cons.prems(1) e, of usable] obtain bm1 where
    bm1: "mark_entry usable c e bm = Some bm1" "length bm1 = length bm"
      "\<forall>i. bitmap_test bm1 i \<longleftrightarrow> bitmap_test bm i \<or> (me_type e \<noteq> usable \<and> overlaps c e i)" by blast
  from Cons.IH [of bm1] Cons.prems bm1(2) obtain bm2 where
    bm2: "mark_entries usable c es bm1 = Some bm2" "length bm2 = length bm1"
      "\<forall>i. bitmap_test bm2 i \<longleftrightarrow> bitmap_test bm1 i \<or> (\<exists>e\<in>set es. me_type e \<noteq> usable \<and> overlaps c e i)" by auto
  with bm1 show ?case by auto
qed

lemma reserve_first_pages_test:
  assumes "n \<le> 8 * length bm"
  shows "length (reserve_first_pages n bm) = length bm \<and>
    (bitmap_test (reserve_first_pages n bm) i \<longleftrightarrow> i < min 256 n \<or> bitmap_test bm i)"
proof -
  have "reserve_first_pages n bm = mark_run 0 (min 256 n) bm"
    by (simp add: reserve_first_pages_def mark_run_def)
  moreover have "\<forall>j<min 256 n. (0 + j) div 8 < length bm" using assms by auto
  ultimately show ?thesis using mark_run_test [of "min 256 n" 0 bm] by simp
qed

text \<open>The configuration that \<open>pmm_init\<close> computes from the scan of the memory map.\<close>

definition init_config :: "u64 \<Rightarrow> memmap_entry list \<Rightarrow> u64 \<Rightarrow> pmm_config_t" where
  "init_config usable es tot =
     (case scan_regions usable es (0x100000, 0, 0) of (st, sz, _) \<Rightarrow>
        let n = (if sz < 0x10000000 then ucast (sz div 4096) else 0x10000) in
        \<lparr>total_memory = tot, kernel_start = st, kernel_end = st + ucast n * 4096, page_size = 4096, max_pages = n\<rparr>)"

lemma init_config_pages:
  "unat (max_pages (init_config usable es tot)) = min 0x10000 (unat (fst (snd (scan_regions usable es (0x100000, 0, 0)))) div 4096)"
proof -
  obtain st sz tt where s: "scan_regions usable es (0x100000, 0, 0) = (st, sz, tt)" by (cases "scan_regions usable es (0x100000, 0, 0)")
  have "unat (ucast (sz div 4096) :: u32) = unat sz div 4096" if "sz < 0x10000000"
  proof -
    have "unat sz div 4096 < 2 ^ 32" using that by (simp add: word_less_nat_alt)
    then show ?thesis by (simp add: unsigned_ucast_eq unat_div take_bit_nat_eq_self)
  qed
  moreover have "min 0x10000 (unat sz div 4096) = (if sz < 0x10000000 then unat sz div 4096 else 0x10000)"
    by (auto simp: word_less_nat_alt)
  ultimately show ?thesis by (simp add: init_config_def s Let_def)
qed

lemma init_config_ok:
  assumes "memmap_ok usable es"
  shows "config_ok (init_config usable es tot) 8192 \<and>
    0x100000 \<le> unat (kernel_start (init_config usable es tot)) \<and>
    unat (kernel_start (init_config usable es tot)) + unat (max_pages (init_config usable es tot)) * 4096 < 2 ^ 64 \<and>
    kernel_end (init_config usable es tot) = kernel_start (init_config usable es tot) + of_nat (unat (max_pages (init_config usable es tot))) * 4096"
proof -
  let ?c = "init_config usable es tot"
  obtain st sz tt where s: "scan_regions usable es (0x100000, 0, 0) = (st, sz, tt)" by (cases "scan_regions usable es (0x100000, 0, 0)")
  from scan_regions_inv [OF assms s] have i: "0x100000 \<le> unat st" "unat st mod 4096 = 0" "unat st + unat sz < 2 ^ 64"
    by simp_all
  have n: "unat (max_pages ?c) = min 0x10000 (unat sz div 4096)" using init_config_pages [of usable es tot] s by simp
  have "unat (max_pages ?c) * 4096 \<le> unat sz" using n by auto
  with i(3) have lt: "unat st + unat (max_pages ?c) * 4096 < 2 ^ 64" by linarith
  have f: "kernel_start ?c = st" "kernel_end ?c = st + of_nat (unat (max_pages ?c)) * 4096" "page_size ?c = 4096"
    by (simp_all add: init_config_def s Let_def)
  show ?thesis using f(1,3) i lt n unat_add_pages [OF lt] unfolding config_ok_def f(2) by simp
qed

lemma pmm_init_eq:
  "pmm_init usable es fl s =
     map_option (\<lambda>bm. s\<lparr>pmm_config := init_config usable es (snd (snd (scan_regions usable es (0x100000, 0, 0)))),
         static_bitmap := reserve_first_pages (unat (max_pages (init_config usable es 0))) bm,
         page_bitmap := True, bitmap_size := 8192\<rparr>)
       (mark_entries usable (init_config usable es (total_memory (pmm_config s))) es (static_bitmap s))"
  by (auto simp: pmm_init_def init_config_def STATIC_BITMAP_SIZE_def Let_def split: option.splits prod.splits)

lemma config_ok_tot: "config_ok (init_config usable es tot) n \<longleftrightarrow> config_ok (init_config usable es 0) n"
  and overlaps_tot: "overlaps (init_config usable es tot) = overlaps (init_config usable es 0)"
  and max_pages_tot: "max_pages (init_config usable es tot) = max_pages (init_config usable es 0)"
  by (simp_all add: config_ok_def overlaps_def init_config_def fun_eq_iff Let_def split: prod.splits)

section \<open>Properties\<close>

text \<open>A two-page allocator above the first megabyte, used as a concrete state below.\<close>

definition pmm_demo :: pmm_state where
  "pmm_demo = pmm_static_state\<lparr>pmm_config := \<lparr>total_memory = 0x2000, kernel_start = 0x100000, kernel_end = 0x102000,
     page_size = 4096, max_pages = 2\<rparr>, page_bitmap := True\<rparr>"

lemma pmm_demo_inv: "pmm_inv pmm_demo" "page_bitmap pmm_demo"
  by (simp_all add: pmm_demo_def pmm_static_state_def pmm_inv_def STATIC_BITMAP_SIZE_def)

lemma pmm_demo_fields:
  "page_count pmm_demo = 2" "page_addr pmm_demo i = 0x100000 + of_nat i * 4096"
  by (simp_all add: pmm_demo_def pmm_static_state_def page_addr_def)

lemma pmm_demo_bit: "i < 2 \<Longrightarrow> \<not> bitmap_test (static_bitmap pmm_demo) i"
  by (simp add: pmm_demo_def pmm_static_state_def bitmap_test_def STATIC_BITMAP_SIZE_def)



text \<open>
  C39. The run allocator is a first-fit allocator: it fails exactly when no run of \<open>n\<close> free pages
  exists, and otherwise returns the lowest such run, whose pages (and no others) become used.
\<close>

theorem pmm_alloc_pages_first_fit:
  assumes "pmm_inv s" "page_bitmap s" "n \<noteq> 0" "pmm_alloc_pages n s = (a, t)"
  shows "pmm_inv t \<and>
    (a = 0 \<longleftrightarrow> (\<forall>st. \<not> free_run (static_bitmap s) (page_count s) (unat n) st)) \<and>
    (a \<noteq> 0 \<longrightarrow> (\<exists>st. a = page_addr s st \<and> free_run (static_bitmap s) (page_count s) (unat n) st \<and>
       (\<forall>r< st. \<not> free_run (static_bitmap s) (page_count s) (unat n) r) \<and>
       pmm_is_page_free t = (\<lambda>b. if b \<in> page_addr s ` {st..<st + unat n} then False else pmm_is_page_free s b)))"
proof (intro conjI)
  note nz = page_addr_managed(3) [OF assms(1,2)]
  show "pmm_inv t" using same_layout_inv [OF pmm_alloc_pages_layout [OF assms(4)] assms(1)] .
  have pos: "0 < unat n" using assms(3) by (simp add: unat_gt_0)
  have start: "st < page_count s" if "free_run (static_bitmap s) (page_count s) (unat n) st" for st
    using that pos by (simp add: free_run_def)
  from assms(1,4) show "a = 0 \<longleftrightarrow> (\<forall>st. \<not> free_run (static_bitmap s) (page_count s) (unat n) st)"
    by (cases rule: pmm_alloc_pages_cases) (use assms(2,3) nz start in auto)
  show "a \<noteq> 0 \<longrightarrow> (\<exists>st. a = page_addr s st \<and> free_run (static_bitmap s) (page_count s) (unat n) st \<and>
       (\<forall>r< st. \<not> free_run (static_bitmap s) (page_count s) (unat n) r) \<and>
       pmm_is_page_free t = (\<lambda>b. if b \<in> page_addr s ` {st..<st + unat n} then False else pmm_is_page_free s b))"
  proof
    assume "a \<noteq> 0"
    with assms(1,4) obtain st where st: "free_run (static_bitmap s) (page_count s) (unat n) st"
      "\<forall>r< st. \<not> free_run (static_bitmap s) (page_count s) (unat n) r" "a = page_addr s st"
      by (elim pmm_alloc_pages_cases) auto
    from pmm_alloc_pages_run [OF assms(1,4) \<open>a \<noteq> 0\<close>] obtain st' where
      st': "a = page_addr s st'" "st' + unat n \<le> page_count s"
        "pmm_is_page_free t = (\<lambda>b. if b \<in> page_addr s ` {st'..<st' + unat n} then False else pmm_is_page_free s b)"
      by blast
    have "st' = st"
      using page_addr_inject [OF assms(1,2), of st' st] st(3) st'(1,2) start [OF st(1)] pos by simp
    with st st' show "\<exists>st. a = page_addr s st \<and> free_run (static_bitmap s) (page_count s) (unat n) st \<and>
       (\<forall>r< st. \<not> free_run (static_bitmap s) (page_count s) (unat n) r) \<and>
       pmm_is_page_free t = (\<lambda>b. if b \<in> page_addr s ` {st..<st + unat n} then False else pmm_is_page_free s b)"
      by blast
  qed
qed

lemma pmm_demo_run: "free_run (static_bitmap pmm_demo) (page_count pmm_demo) 2 0"
  using pmm_demo_bit by (simp add: free_run_def pmm_demo_fields)

theorem pmm_alloc_pages_first_fit_witness:
  "pmm_inv pmm_demo \<and> page_bitmap pmm_demo \<and> pmm_inv (snd (pmm_alloc_pages 2 pmm_demo)) \<and>
   fst (pmm_alloc_pages 2 pmm_demo) \<noteq> 0"
proof -
  obtain a t where p: "pmm_alloc_pages 2 pmm_demo = (a, t)" by fastforce
  from pmm_alloc_pages_first_fit [OF pmm_demo_inv _ p] pmm_demo_run p show ?thesis
    using pmm_demo_inv by auto
qed

text \<open>
  C40. Whatever sequence of single-page allocations and releases of owned pages a client performs,
  the pages it owns and the free pages together are exactly the pages that were free at the
  start, and no owned page is free: no page is lost and none is handed out twice.
\<close>

theorem pmm_pages_conserved:
  assumes "(own_step pmm_alloc_page pmm_free_page)\<^sup>*\<^sup>* (s, {}) (t, H)" "pmm_inv s"
  shows "pmm_inv t \<and> (\<forall>a\<in>H. \<not> pmm_is_page_free t a) \<and>
         {a. pmm_is_page_free t a} \<union> H = {a. pmm_is_page_free s a}"
  using pmm.own_steps_conserve [OF assms] by blast

lemma pmm_demo_alloc: "pmm_alloc_page pmm_demo = (0x100000,
    pmm_demo\<lparr>static_bitmap := bitmap_set (static_bitmap pmm_demo) 0, total_allocations := 1\<rparr>)"
proof -
  have "[0..<page_count pmm_demo] = [0, 1]" by (simp add: pmm_demo_fields upt_rec)
  then have "find (\<lambda>i. \<not> bitmap_test (static_bitmap pmm_demo) i) [0..<page_count pmm_demo] = Some 0"
    using pmm_demo_bit [of 0] by simp
  then show ?thesis using pmm_demo_inv(2)
    by (simp add: pmm_alloc_page_def pmm_demo_fields) (simp add: pmm_demo_def pmm_static_state_def)
qed

theorem pmm_pages_conserved_witness:
  "pmm_inv (snd (pmm_alloc_page pmm_demo)) \<and> \<not> pmm_is_page_free (snd (pmm_alloc_page pmm_demo)) 0x100000"
proof -
  have "(own_step pmm_alloc_page pmm_free_page)\<^sup>*\<^sup>* (pmm_demo, {}) (snd (pmm_alloc_page pmm_demo), {0x100000})"
    using own_alloc [of pmm_alloc_page pmm_demo "0x100000" _ pmm_free_page "{}"] pmm_demo_alloc
    by (intro r_into_rtranclp) simp
  from pmm_pages_conserved [OF this pmm_demo_inv(1)] show ?thesis by blast
qed

text \<open>
  Releasing a run that \<open>pmm_alloc_pages\<close> returned restores the bitmap bit for bit.
\<close>

theorem pmm_alloc_free_pages_roundtrip:
  assumes "pmm_inv s" "pmm_alloc_pages n s = (a, t)" "a \<noteq> 0"
  shows "static_bitmap (pmm_free_pages a n t) = static_bitmap s"
proof -
  from assms obtain st where st: "page_bitmap s" "free_run (static_bitmap s) (page_count s) (unat n) st"
    "a = page_addr s st" "static_bitmap t = mark_run st (unat n) (static_bitmap s)"
    by (elim pmm_alloc_pages_cases) auto
  note l = pmm_alloc_pages_layout [OF assms(2)]
  have inv: "pmm_inv t" "page_bitmap t" "page_count t = page_count s" "page_addr t st = page_addr s st"
    using same_layout_inv [OF l assms(1)] l st(1) by (auto simp: same_layout_def page_addr_def)
  have "pmm_free_pages a n t = t\<lparr>static_bitmap := clear_run st (unat n) (static_bitmap t)\<rparr>"
    using pmm_free_pages_run [OF inv(1,2), of st "unat n"] st(2,3) inv(3,4) unat_lt_64 [of n]
    by (simp add: free_run_def)
  moreover have "clear_run st (unat n) (mark_run st (unat n) (static_bitmap s)) = static_bitmap s"
  proof (rule bitmap_eqI)
    have b: "\<forall>j<unat n. (st + j) div 8 < length (static_bitmap s)"
      using run_index_in_bitmap [OF assms(1) st(1,2)] .
    then have b': "\<forall>j<unat n. (st + j) div 8 < length (mark_run st (unat n) (static_bitmap s))" by simp
    show "length (clear_run st (unat n) (mark_run st (unat n) (static_bitmap s))) = length (static_bitmap s)"
      using clear_run_test [OF b'] by simp
    fix i
    show "bitmap_test (clear_run st (unat n) (mark_run st (unat n) (static_bitmap s))) i = bitmap_test (static_bitmap s) i"
      using clear_run_test [OF b', of i] mark_run_test [OF b, of i] free_runD [OF st(2), of i] by auto
  qed
  ultimately show ?thesis using st(4) by simp
qed

theorem pmm_alloc_free_pages_roundtrip_witness:
  "static_bitmap (pmm_free_pages (fst (pmm_alloc_pages 1 pmm_demo)) 1 (snd (pmm_alloc_pages 1 pmm_demo)))
     = static_bitmap pmm_demo"
proof -
  have "pmm_alloc_pages 1 pmm_demo = pmm_alloc_page pmm_demo"
    using pmm_demo_inv(2) by (simp add: pmm_alloc_pages_def)
  with pmm_demo_alloc pmm_alloc_free_pages_roundtrip [OF pmm_demo_inv(1), of 1] show ?thesis by simp
qed

text \<open>
  Accounting: free and used memory always add up to the managed memory, and a successful
  allocation moves exactly one page from free to used.
\<close>

theorem pmm_accounting:
  assumes "pmm_inv s" "page_bitmap s" "pmm_alloc_page s = (a, t)" "a \<noteq> 0"
  shows "unat (pmm_get_free_memory s) + unat (pmm_get_used_memory s) = page_count s * 4096 \<and>
    unat (pmm_get_free_memory t) + unat (pmm_get_used_memory t) = page_count s * 4096 \<and>
    pmm_get_free_memory t = pmm_get_free_memory s - 4096"
proof -
  from pmm_alloc_page_layout [OF assms(3)] have "page_bitmap t" "page_count t = page_count s"
    using assms(2) by (simp_all add: same_layout_def)
  then show ?thesis
    using free_plus_used [OF assms(1,2)] free_plus_used [of t] pmm.alloc_inv [OF assms(1,3)]
      free_memory_alloc [OF assms(1,3,4)] by simp
qed

theorem pmm_accounting_witness:
  "pmm_get_free_memory (snd (pmm_alloc_page pmm_demo)) = pmm_get_free_memory pmm_demo - 4096"
  using pmm_accounting [OF pmm_demo_inv pmm_demo_alloc] pmm_demo_alloc by simp

text \<open>
  The marking loop of \<open>pmm_init\<close> steps from the start of the reserved region, not from a page
  boundary. A reserved region that starts inside a page therefore leaves its last page free.
\<close>

definition gap_config :: pmm_config_t where
  "gap_config = \<lparr>total_memory = 0, kernel_start = 0x100000, kernel_end = 0x102000, page_size = 4096, max_pages = 2\<rparr>"

definition gap_entry :: memmap_entry where
  "gap_entry = \<lparr>me_base = 0x100800, me_length = 0x1000, me_type = 1\<rparr>"

text \<open>
  A reserved entry at \<open>0x100800\<close> of length \<open>0x1000\<close> shares bytes with both managed pages, but
  only the first one is marked as used.
\<close>

theorem mark_entry_unaligned_gap:
  "overlaps gap_config gap_entry 0 \<and> overlaps gap_config gap_entry 1 \<and>
   map_option (\<lambda>bm. (bitmap_test bm 0, bitmap_test bm 1)) (mark_entry 0 gap_config gap_entry [0]) = Some (True, False)"
  by (simp add: overlaps_def gap_config_def gap_entry_def mark_entry_def mark_pages.simps
      bitmap_set_def bitmap_test_def byte_mask_def)

end
