(* ===== verification/Paging.thy ===== *)
theory Paging
  imports Prelude "HOL-Library.Sublist"
begin

text \<open>
  The page-table format that \<open>src/src/src/syncos/vmm.c\<close> manipulates, as a radix tree in memory: tables of
  512 eight-byte entries, reached from a root by a path of indices, each present entry that is not
  huge pointing to the next table. Memory is a function from the address of a word to its value.
  The two main groups of lemmas describe what a path reaches after one entry is written
  (\<open>slot_write\<close>) and after a fresh zeroed table is linked in (\<open>table_add\<close>).
\<close>

section \<open>Pages and entries\<close>

definition page_aligned :: "u64 \<Rightarrow> bool" where
  "page_aligned x \<longleftrightarrow> x AND 0xFFF = 0"

definition PAGE_ADDR_MASK :: u64 where
  "PAGE_ADDR_MASK = NOT 0xFFF"

lemma low12: "(0xFFF :: u64) = mask 12"
  by (simp add: mask_eq_exp_minus_1)

lemma unat_and_low12: "unat (x AND 0xFFF :: u64) = unat x mod 4096"
proof -
  have "x AND 0xFFF = take_bit 12 x" by (simp only: low12 take_bit_eq_mask)
  then show ?thesis by (simp add: take_bit_eq_mod unat_mod)
qed

lemma page_aligned_iff: "page_aligned x \<longleftrightarrow> 4096 dvd unat x"
  unfolding page_aligned_def
  by (metis unat_and_low12 unat_eq_0 mod_eq_0_iff_dvd)

lemma page_aligned_mask [simp]: "page_aligned (x AND PAGE_ADDR_MASK)"
  by (simp add: page_aligned_def PAGE_ADDR_MASK_def and.assoc)

lemma page_aligned_add: "page_aligned x \<Longrightarrow> page_aligned y \<Longrightarrow> page_aligned (x + y)"
proof -
  assume "page_aligned x" "page_aligned y"
  then have "4096 dvd (unat x + unat y) mod 2 ^ 64"
    by (simp add: page_aligned_iff dvd_mod)
  then show ?thesis by (simp add: page_aligned_iff unat_word_ariths)
qed

lemma page_aligned_diff: "page_aligned x \<Longrightarrow> page_aligned y \<Longrightarrow> page_aligned (x - y)"
proof -
  assume a: "page_aligned x" "page_aligned y"
  have "unat x = (unat (x - y) + unat y) mod 2 ^ 64"
    using unat_word_ariths(1) [of "x - y" y] by simp
  with a have "4096 dvd (unat (x - y) + unat y) mod 2 ^ 64" by (simp add: page_aligned_iff)
  moreover have "(4096 :: nat) dvd 2 ^ 64" by simp
  ultimately have "4096 dvd unat (x - y) + unat y" by (simp only: dvd_mod_iff)
  with a show ?thesis by (simp add: page_aligned_iff dvd_add_left_iff)
qed

lemma unat_aligned_offset:
  assumes "page_aligned x" "unat o' < 4096"
  shows "unat (x + o' :: u64) = unat x + unat o'"
proof -
  from assms(1) obtain k where k: "unat x = 4096 * k" by (auto simp: page_aligned_iff)
  have "unat x < 2 ^ 64" by (rule unat_lt_64)
  with k have "k < 2 ^ 52" by simp
  with k assms(2) have "unat x + unat o' < 2 ^ 64" by simp
  then show ?thesis by (simp add: unat_word_ariths)
qed

lemma aligned_offset_inject:
  assumes "page_aligned x" "page_aligned y" "unat i < 4096" "unat j < 4096" "x + i = y + (j :: u64)"
  shows "x = y \<and> i = j"
proof -
  from arg_cong [OF assms(5), of unat] have "unat x + unat i = unat y + unat j"
    using assms(1-4) by (simp add: unat_aligned_offset)
  moreover from assms(1) obtain k where k: "unat x = 4096 * k" by (auto simp: page_aligned_iff)
  moreover from assms(2) obtain l where "unat y = 4096 * l" by (auto simp: page_aligned_iff)
  ultimately have "4096 * k + unat i = 4096 * l + unat j" "unat x = 4096 * k" "unat y = 4096 * l" by simp_all
  with assms(3,4) have "k = l" by linarith
  with \<open>unat x = 4096 * k\<close> \<open>unat y = 4096 * l\<close> have "unat x = unat y" by simp
  from \<open>4096 * k + unat i = 4096 * l + unat j\<close> \<open>k = l\<close> have "unat i = unat j" by simp
  with \<open>unat x = unat y\<close> have "unat x = unat y" "unat i = unat j" by simp_all
  then show ?thesis by (simp add: word_unat_eq_iff)
qed

lemma unat_times8: "i < 512 \<Longrightarrow> unat (8 * i :: u64) = 8 * unat i"
  by (simp add: unat_word_ariths word_less_nat_alt)

lemma slot_inject:
  assumes "page_aligned x" "page_aligned y" "i < 512" "j < 512"
  shows "x + 8 * i = y + 8 * (j :: u64) \<longleftrightarrow> x = y \<and> i = j"
proof
  assume eq: "x + 8 * i = y + 8 * j"
  have "unat (8 * i) < 4096" "unat (8 * j) < 4096"
    using assms(3,4) by (simp_all add: unat_times8 word_less_nat_alt)
  then have "x = y" "8 * i = 8 * j" using aligned_offset_inject [OF assms(1,2) _ _ eq] by auto
  from arg_cong [OF this(2), of unat] have "unat i = unat j"
    using assms(3,4) by (simp add: unat_times8)
  with \<open>x = y\<close> show "x = y \<and> i = j" by (simp add: word_unat_eq_iff)
qed auto

lemma slot_in_page:
  assumes "page_aligned x" "page_aligned v" "i < 512"
  shows "x + 8 * i - v < (4096 :: u64) \<longleftrightarrow> x = v"
proof
  assume lt: "x + 8 * i - v < 4096"
  have i: "unat (8 * i) < 4096" using assms(3) by (simp add: unat_times8 word_less_nat_alt)
  have "(x - v) + 8 * i = 0 + (x + 8 * i - v)" by (simp add: algebra_simps)
  from aligned_offset_inject [OF _ _ _ _ this] lt i page_aligned_diff [OF assms(1,2)]
  have "x - v = 0" by (simp add: page_aligned_def word_less_nat_alt)
  then show "x = v" by simp
next
  assume "x = v"
  then show "x + 8 * i - v < 4096"
    using assms(3) by (simp add: word_less_nat_alt unat_times8)
qed

text \<open>Composition and decomposition of entries.\<close>

lemma low_bits_mask:
  fixes f :: u64
  assumes "f < 4096"
  shows "f AND PAGE_ADDR_MASK = 0"
proof -
  have "unat (f AND 0xFFF) = unat f" using assms by (simp add: unat_and_low12 word_less_nat_alt)
  then have "f AND 0xFFF = f" by (simp add: word_unat_eq_iff)
  then have "f AND PAGE_ADDR_MASK = f AND (0xFFF AND PAGE_ADDR_MASK)" by (simp only: and.assoc [symmetric])
  then show ?thesis by (simp add: PAGE_ADDR_MASK_def)
qed

lemma aligned_mask_id: "page_aligned x \<Longrightarrow> x AND PAGE_ADDR_MASK = x"
proof (rule bit_eqI)
  fix n
  assume "page_aligned x"
  then have "bit (x AND 0xFFF) n = bit (0 :: u64) n" by (simp add: page_aligned_def)
  then show "bit (x AND PAGE_ADDR_MASK) n = bit x n"
    by (auto simp: PAGE_ADDR_MASK_def low12 bit_simps dest: bit_imp_le_length)
qed

lemma entry_addr:
  assumes "page_aligned x" "f < 4096"
  shows "(x OR f) AND PAGE_ADDR_MASK = x"
  using aligned_mask_id [OF assms(1)] low_bits_mask [OF assms(2)]
  by (simp add: bit.conj_disj_distrib2)

lemma entry_low:
  assumes "page_aligned x" "k AND 0xFFF = k"
  shows "(x OR f) AND k = f AND k"
proof -
  have "x AND k = (x AND 0xFFF) AND k" by (metis assms(2) and.assoc and.commute)
  then have "x AND k = 0" using assms(1) by (simp add: page_aligned_def)
  then show ?thesis by (simp add: bit.conj_disj_distrib2)
qed

section \<open>The radix tree of page tables\<close>

definition present :: "u64 \<Rightarrow> bool" where
  "present e \<longleftrightarrow> e AND 1 \<noteq> 0"

definition huge :: "u64 \<Rightarrow> bool" where
  "huge e \<longleftrightarrow> e AND 0x80 \<noteq> 0"

definition points_to_table :: "u64 \<Rightarrow> bool" where
  "points_to_table e \<longleftrightarrow> present e \<and> \<not> huge e"

text \<open>
  The address at which the entry \<open>i\<close> of the table at physical address \<open>a\<close> is accessed through the
  direct map at \<open>h\<close>.
\<close>

definition slot :: "u64 \<Rightarrow> u64 \<Rightarrow> u64 \<Rightarrow> u64" where
  "slot h a i = a + h + 8 * i"

fun tbl :: "(u64 \<Rightarrow> u64) \<Rightarrow> u64 \<Rightarrow> u64 \<Rightarrow> u64 list \<Rightarrow> u64 option" where
  "tbl m h r [] = Some r"
| "tbl m h r (i # p) =
     (if points_to_table (m (slot h r i)) then tbl m h (m (slot h r i) AND PAGE_ADDR_MASK) p else None)"

definition pte :: "(u64 \<Rightarrow> u64) \<Rightarrow> u64 \<Rightarrow> u64 \<Rightarrow> u64 list \<Rightarrow> u64 \<Rightarrow> u64 option" where
  "pte m h r p i = map_option (\<lambda>a. m (slot h a i)) (tbl m h r p)"

definition valid_path :: "nat \<Rightarrow> u64 list \<Rightarrow> bool" where
  "valid_path n p \<longleftrightarrow> length p \<le> n \<and> list_all (\<lambda>i. i < 512) p"

text \<open>
  Well-formedness of the tree with root \<open>r\<close>: every table lies at a non-null page that is not free
  (\<open>F\<close>), no table is reached by two paths, and the top level holds no huge entry.
\<close>

definition pt_wf :: "(u64 \<Rightarrow> u64) \<Rightarrow> u64 \<Rightarrow> u64 \<Rightarrow> (u64 \<Rightarrow> bool) \<Rightarrow> bool" where
  "pt_wf m h r F \<longleftrightarrow> page_aligned h \<and> page_aligned r \<and>
     (\<forall>p a. valid_path 3 p \<longrightarrow> tbl m h r p = Some a \<longrightarrow> a \<noteq> 0 \<and> a + h \<noteq> 0 \<and> \<not> F a) \<and>
     (\<forall>p q a. valid_path 3 p \<longrightarrow> valid_path 3 q \<longrightarrow> tbl m h r p = Some a \<longrightarrow> tbl m h r q = Some a \<longrightarrow> p = q) \<and>
     (\<forall>i<512. present (m (slot h r i)) \<longrightarrow> \<not> huge (m (slot h r i)))"

lemma tbl_append: "tbl m h r (p @ q) = Option.bind (tbl m h r p) (\<lambda>a. tbl m h a q)"
  by (induction p arbitrary: r) auto

lemma tbl_snoc:
  "tbl m h r (p @ [i]) =
     (case pte m h r p i of
        Some e \<Rightarrow> if points_to_table e then Some (e AND PAGE_ADDR_MASK) else None
      | None \<Rightarrow> None)"
  by (cases "tbl m h r p") (simp_all add: tbl_append pte_def)

lemma valid_path_simps [simp]:
  "valid_path n []" "valid_path (Suc n) (i # p) \<longleftrightarrow> i < 512 \<and> valid_path n p"
  "valid_path 3 (i # p) \<longleftrightarrow> i < 512 \<and> valid_path 2 p" "valid_path 2 (i # p) \<longleftrightarrow> i < 512 \<and> valid_path 1 p"
  by (auto simp: valid_path_def)

lemma valid_path_append:
  "valid_path n (p @ q) \<longleftrightarrow> length p + length q \<le> n \<and> list_all (\<lambda>i. i < 512) p \<and> list_all (\<lambda>i. i < 512) q"
  by (auto simp: valid_path_def)

lemma tbl_aligned: "page_aligned r \<Longrightarrow> tbl m h r p = Some a \<Longrightarrow> page_aligned a"
proof (induction p arbitrary: r)
  case (Cons i p)
  have "tbl m h (m (slot h r i) AND PAGE_ADDR_MASK) p = Some a"
    using Cons.prems(2) by (simp split: if_splits)
  from Cons.IH [OF page_aligned_mask this] show ?case .
qed simp

lemma pt_wfD:
  assumes "pt_wf m h r F" "valid_path 3 p" "tbl m h r p = Some a"
  shows "page_aligned a" "a \<noteq> 0" "a + h \<noteq> 0" "\<not> F a" "page_aligned h"
    "\<And>q. valid_path 3 q \<Longrightarrow> tbl m h r q = Some a \<Longrightarrow> q = p"
  using assms tbl_aligned [of r m h p a] unfolding pt_wf_def by blast+

lemma slot_eq_iff:
  "page_aligned h \<Longrightarrow> page_aligned a \<Longrightarrow> page_aligned b \<Longrightarrow> i < 512 \<Longrightarrow> j < 512 \<Longrightarrow>
   slot h a i = slot h b j \<longleftrightarrow> a = b \<and> i = j"
  by (simp add: slot_def slot_inject page_aligned_add)

text \<open>A change confined to one slot only affects the paths through that slot.\<close>

lemma tbl_frame:
  assumes wf: "pt_wf m h r F"
    and same: "\<And>q b j. \<lbrakk>valid_path 3 q; tbl m h r q = Some b; j < 512; (q, j) \<noteq> (p, i)\<rbrakk> \<Longrightarrow> m' (slot h b j) = m (slot h b j)"
  shows "valid_path 3 q \<Longrightarrow> \<not> prefix (p @ [i]) q \<Longrightarrow> tbl m' h r q = tbl m h r q"
proof (induction q rule: rev_induct)
  case (snoc j q)
  have v: "valid_path 3 q" "j < 512" using snoc.prems by (auto simp: valid_path_append valid_path_def)
  have IH: "tbl m' h r q = tbl m h r q" using snoc v by auto
  show ?case
  proof (cases "tbl m h r q")
    case None
    with IH show ?thesis by (simp add: tbl_append)
  next
    case (Some b)
    have "(q, j) \<noteq> (p, i)" using snoc.prems by auto
    from same [OF v(1) Some v(2) this] IH Some show ?thesis by (simp add: tbl_append)
  qed
qed simp

text \<open>Writing an entry that is and was no table pointer changes exactly that entry.\<close>

definition slot_write :: "(u64 \<Rightarrow> u64) \<Rightarrow> u64 \<Rightarrow> u64 \<Rightarrow> (u64 \<Rightarrow> bool) \<Rightarrow> u64 list \<Rightarrow> u64 \<Rightarrow> u64 \<Rightarrow> u64 \<Rightarrow> bool" where
  "slot_write m h r F p a i e \<longleftrightarrow> pt_wf m h r F \<and> valid_path 3 p \<and> tbl m h r p = Some a \<and> i < 512 \<and>
     (length p < 3 \<longrightarrow> \<not> points_to_table (m (slot h a i)) \<and> \<not> points_to_table e) \<and> p \<noteq> []"

lemma slot_writeD:
  assumes "slot_write m h r F p a i e"
  shows "pt_wf m h r F" "valid_path 3 p" "tbl m h r p = Some a" "i < 512"
    "length p < 3 \<Longrightarrow> \<not> points_to_table (m (slot h a i)) \<and> \<not> points_to_table e" "p \<noteq> []"
  using assms by (auto simp: slot_write_def)

lemma slot_write_other:
  assumes sw: "slot_write m h r F p a i e" and q: "valid_path 3 q" "tbl m h r q = Some b" "j < 512" "(q, j) \<noteq> (p, i)"
  shows "slot h b j \<noteq> slot h a i"
proof
  note sw = slot_writeD [OF sw]
  assume "slot h b j = slot h a i"
  then have "b = a" "j = i"
    using slot_eq_iff [OF pt_wfD(5) [OF sw(1-3)] pt_wfD(1) [OF sw(1) q(1,2)] pt_wfD(1) [OF sw(1-3)] q(3) sw(4)]
    by auto
  with pt_wfD(6) [OF sw(1-3) q(1)] q(2,4) show False by auto
qed

lemma slot_write_tbl:
  assumes sw: "slot_write m h r F p a i e" and q: "valid_path 3 q"
  shows "tbl (m(slot h a i := e)) h r q = tbl m h r q"
proof (cases "prefix (p @ [i]) q")
  case False
  show ?thesis
    by (rule tbl_frame [OF slot_writeD(1) [OF sw] _ q False]) (simp add: slot_write_other [OF sw])
next
  case True
  note d = slot_writeD [OF sw]
  from True obtain t where t: "q = p @ i # t" by (auto elim: prefixE)
  with q have "length p < 3" by (simp add: valid_path_def)
  then have n: "\<not> points_to_table (m (slot h a i))" "\<not> points_to_table e" using d(5) by auto
  have "\<not> prefix (p @ [i]) p" by (auto dest: prefix_length_le)
  with tbl_frame [OF d(1) _ d(2), of p i "m(slot h a i := e)"] have "tbl (m(slot h a i := e)) h r p = Some a"
    using d(3) by (simp add: slot_write_other [OF sw])
  with n d(3) t show ?thesis by (simp add: tbl_append)
qed

lemma slot_write_pte:
  assumes sw: "slot_write m h r F p a i e" and q: "valid_path 3 q" "j < 512"
  shows "pte (m(slot h a i := e)) h r q j = (if q = p \<and> j = i then Some e else pte m h r q j)"
  using slot_write_tbl [OF sw q(1)] slot_write_other [OF sw q(1) _ q(2)] slot_writeD(3) [OF sw]
  by (auto simp: pte_def map_option_case split: option.splits)

lemma slot_write_wf:
  assumes sw: "slot_write m h r F p a i e"
  shows "pt_wf (m(slot h a i := e)) h r F"
proof -
  have "slot h r j \<noteq> slot h a i" if "j < 512" for j
    using slot_write_other [OF sw, of "[]" r j] that slot_writeD(6) [OF sw] by simp
  then show ?thesis using slot_writeD(1) [OF sw] by (auto simp: pt_wf_def slot_write_tbl [OF sw])
qed

text \<open>Linking a fresh zeroed table into an entry that is not present.\<close>

definition table_add :: "(u64 \<Rightarrow> u64) \<Rightarrow> u64 \<Rightarrow> u64 \<Rightarrow> (u64 \<Rightarrow> bool) \<Rightarrow> u64 list \<Rightarrow> u64 \<Rightarrow> u64 \<Rightarrow> u64 \<Rightarrow> u64 \<Rightarrow> (u64 \<Rightarrow> u64) \<Rightarrow> bool" where
  "table_add m h r F p a i n e m' \<longleftrightarrow> pt_wf m h r F \<and> valid_path 2 p \<and> tbl m h r p = Some a \<and> i < 512 \<and>
     \<not> present (m (slot h a i)) \<and> F n \<and> n \<noteq> 0 \<and> n + h \<noteq> 0 \<and> page_aligned n \<and>
     points_to_table e \<and> e AND PAGE_ADDR_MASK = n \<and>
     m' = (\<lambda>x. if x - (n + h) < 4096 then 0 else m x)(slot h a i := e)"

lemma table_addD:
  assumes "table_add m h r F p a i n e m'"
  shows "pt_wf m h r F" "valid_path 2 p" "tbl m h r p = Some a" "i < 512" "\<not> present (m (slot h a i))"
    "F n" "n \<noteq> 0" "n + h \<noteq> 0" "page_aligned n" "points_to_table e" "e AND PAGE_ADDR_MASK = n"
    "m' = (\<lambda>x. if x - (n + h) < 4096 then 0 else m x)(slot h a i := e)"
    "valid_path 3 p" "valid_path 3 (p @ [i])" "page_aligned h" "page_aligned a" "a \<noteq> n"
proof -
  show d: "pt_wf m h r F" "valid_path 2 p" "tbl m h r p = Some a" "i < 512" "\<not> present (m (slot h a i))"
    "F n" "n \<noteq> 0" "n + h \<noteq> 0" "page_aligned n" "points_to_table e" "e AND PAGE_ADDR_MASK = n"
    "m' = (\<lambda>x. if x - (n + h) < 4096 then 0 else m x)(slot h a i := e)"
    using assms unfolding table_add_def by blast+
  show v: "valid_path 3 p" "valid_path 3 (p @ [i])" using d(2,4) by (auto simp: valid_path_def)
  note w = pt_wfD [OF d(1) v(1) d(3)]
  show "page_aligned h" by (rule w(5))
  show "page_aligned a" by (rule w(1))
  show "a \<noteq> n" using w(4) d(6) by auto
qed

lemma table_add_old:
  assumes ta: "table_add m h r F p a i n e m'" and q: "valid_path 3 q" "tbl m h r q = Some b" "j < 512" "(q, j) \<noteq> (p, i)"
  shows "m' (slot h b j) = m (slot h b j)"
proof -
  note ta = table_addD [OF ta]
  note d = pt_wfD [OF ta(1) q(1,2)]
  have "b \<noteq> n" using d(4) ta(6) by auto
  then have "\<not> slot h b j - (n + h) < 4096"
    using slot_in_page [of "b + h" "n + h" j] d ta(9,15) q(3) by (simp add: slot_def page_aligned_add)
  moreover have "slot h b j \<noteq> slot h a i"
  proof
    assume "slot h b j = slot h a i"
    then have "b = a" "j = i" using slot_eq_iff [OF ta(15) d(1) ta(16) q(3) ta(4)] by auto
    with d(6) [OF ta(13)] ta(3) q(4) show False by auto
  qed
  ultimately show ?thesis by (simp add: ta(12))
qed

lemma table_add_new:
  assumes ta: "table_add m h r F p a i n e m'"
  shows "m' (slot h a i) = e" and "j < 512 \<Longrightarrow> m' (slot h n j) = 0"
proof -
  note ta = table_addD [OF ta]
  show "m' (slot h a i) = e" by (simp add: ta(12))
  assume j: "j < 512"
  have "slot h n j - (n + h) < 4096"
    using slot_in_page [of "n + h" "n + h" j] ta(9,15) j by (simp add: slot_def page_aligned_add)
  moreover have "slot h n j \<noteq> slot h a i"
    using slot_eq_iff [OF ta(15,9,16) j ta(4)] ta(17) by auto
  ultimately show "m' (slot h n j) = 0" by (simp add: ta(12))
qed

lemma table_add_tbl:
  assumes ta: "table_add m h r F p a i n e m'" and q: "valid_path 3 q"
  shows "tbl m' h r q = (if q = p @ [i] then Some n else tbl m h r q)"
proof -
  note d = table_addD [OF ta]
  have frame: "tbl m' h r x = tbl m h r x" if "valid_path 3 x" "\<not> prefix (p @ [i]) x" for x
    by (rule tbl_frame [OF d(1) table_add_old [OF ta] that])
  have "\<not> prefix (p @ [i]) p" by (auto dest: prefix_length_le)
  with frame d(3,13) have tp: "tbl m' h r p = Some a" by simp
  show ?thesis
  proof (cases "prefix (p @ [i]) q")
    case False
    then have "q \<noteq> p @ [i]" by auto
    with frame [OF q False] show ?thesis by simp
  next
    case True
    then obtain t where t: "q = p @ i # t" by (auto elim: prefixE)
    have "tbl m h r q = None" using t d(3,5) by (simp add: tbl_append points_to_table_def)
    moreover have "tbl m' h r q = tbl m' h n t"
      using t tp d(10,11) by (simp add: tbl_append table_add_new(1) [OF ta])
    moreover have "tbl m' h n t = (if t = [] then Some n else None)"
      using q t by (cases t) (auto simp: valid_path_append table_add_new(2) [OF ta] points_to_table_def present_def)
    ultimately show ?thesis using t by simp
  qed
qed

lemma table_add_pte:
  assumes ta: "table_add m h r F p a i n e m'" and q: "valid_path 3 q" "j < 512"
  shows "pte m' h r q j = (if q = p \<and> j = i then Some e else if q = p @ [i] then Some 0 else pte m h r q j)"
  using table_add_old [OF ta q(1) _ q(2)] table_addD(3) [OF ta] table_add_new [OF ta] q(2)
  by (auto simp: pte_def table_add_tbl [OF ta q(1)] map_option_case split: option.splits)

lemma table_add_wf:
  assumes ta: "table_add m h r F p a i n e m'"
  shows "pt_wf m' h r (F(n := False))"
  unfolding pt_wf_def
proof (intro conjI allI impI)
  note d = table_addD [OF ta]
  note tbl' = table_add_tbl [OF ta]
  show "page_aligned h" "page_aligned r" using d(1) by (auto simp: pt_wf_def)
  fix q b assume q: "valid_path 3 q" "tbl m' h r q = Some b"
  then consider "q = p @ [i]" "b = n" | "q \<noteq> p @ [i]" "tbl m h r q = Some b"
    by (auto simp: tbl' split: if_splits)
  then show "b \<noteq> 0" "b + h \<noteq> 0" "\<not> (F(n := False)) b"
    using d(6-8) pt_wfD [OF d(1) q(1)] by (cases; auto)+
  fix q' assume q': "valid_path 3 q'" "tbl m' h r q' = Some b"
  have "tbl m h r x \<noteq> Some n" if "valid_path 3 x" for x using pt_wfD(4) [OF d(1) that] d(6) by auto
  then show "q = q'" using q q' pt_wfD(6) [OF d(1)] by (auto simp: tbl' split: if_splits)
next
  note d = table_addD [OF ta]
  fix j :: u64 assume j: "j < 512" "present (m' (slot h r j))"
  show "\<not> huge (m' (slot h r j))"
  proof (cases "([], j) = (p, i)")
    case True
    then show ?thesis using d(3,10) table_add_new(1) [OF ta] by (simp add: points_to_table_def)
  next
    case False
    then show ?thesis using table_add_old [OF ta, of "[]" r j] j d(1) by (auto simp: pt_wf_def)
  qed
qed

end
