(* ===== verification/Vmm.thy ===== *)
theory Vmm
  imports Pmm Paging
begin

text \<open>
  The virtual memory manager, \<open>src/src/src/syncos/vmm.c\<close> and \<open>vmm.h\<close>: four-level page tables reached
  through the direct map of physical memory (HHDM), mapping and unmapping of pages, the area
  allocator, and address spaces. The state record holds the file's static variables, the state of
  the physical memory manager it calls, the words of memory that page tables live in (keyed by the
  direct-map address through which the code accesses them), CR3, and the log of \<open>invlpg\<close>
  instructions (latest first). A null pointer is the address 0. The boot loader's answers and the
  result of \<open>cpuid\<close> are parameters of \<open>vmm_init\<close>. Console output is not modelled.
\<close>

section \<open>State\<close>

record vmm_config_t =
  kernel_pml4 :: u64
  kernel_virtual_base :: u64
  kernel_virtual_size :: u64
  using_pae :: bool
  using_nx :: bool

record memory_area_t =
  area_base :: u64
  area_size :: u64
  area_is_used :: bool
  area_flags :: u32

record vmm_stats_t =
  pages_allocated :: u64
  pages_freed :: u64
  page_faults_handled :: u64

record vmm_state =
  vmm_config :: vmm_config_t
  hhdm_offset :: u64
  kernel_phys_base :: u64
  kernel_virt_base :: u64
  current_pml4_phys :: u64
  user_areas :: "memory_area_t list"
  kernel_areas :: "memory_area_t list"
  user_area_count :: nat
  kernel_area_count :: nat
  vmm_stats :: vmm_stats_t
  page_fault_registered :: bool
  vmm_pmm :: pmm_state
  vmm_mem :: "u64 \<Rightarrow> u64"
  cr3 :: u64
  tlb_log :: "u64 list"

definition MAX_MEMORY_AREAS :: nat where
  "MAX_MEMORY_AREAS = 32"

section \<open>Page flags and indices\<close>

definition PAGE_PRESENT :: u64 where "PAGE_PRESENT = 1"
definition PAGE_WRITABLE :: u64 where "PAGE_WRITABLE = 2"
definition PAGE_USER :: u64 where "PAGE_USER = 4"
definition PAGE_WRITETHROUGH :: u64 where "PAGE_WRITETHROUGH = 8"
definition PAGE_CACHE_DISABLE :: u64 where "PAGE_CACHE_DISABLE = 0x10"
definition PAGE_HUGE :: u64 where "PAGE_HUGE = 0x80"
definition PAGE_GLOBAL :: u64 where "PAGE_GLOBAL = 0x100"
definition PAGE_NO_EXECUTE :: u64 where "PAGE_NO_EXECUTE = 0x8000000000000000"

definition PAGE_SIZE_4K :: u64 where "PAGE_SIZE_4K = 0x1000"
definition PAGE_SIZE_2M :: u64 where "PAGE_SIZE_2M = 0x200000"
definition KERNEL_VIRTUAL_BASE :: u64 where "KERNEL_VIRTUAL_BASE = 0xFFFFFFFF80000000"

text \<open>The \<open>VMM_FLAG\<close> constants of \<open>vmm.h\<close> have the bit positions of the hardware flags.\<close>

definition VMM_FLAG_PRESENT :: u64 where "VMM_FLAG_PRESENT = 1"
definition VMM_FLAG_WRITABLE :: u64 where "VMM_FLAG_WRITABLE = 2"
definition VMM_FLAG_USER :: u64 where "VMM_FLAG_USER = 4"
definition VMM_FLAG_WRITETHROUGH :: u64 where "VMM_FLAG_WRITETHROUGH = 8"
definition VMM_FLAG_NOCACHE :: u64 where "VMM_FLAG_NOCACHE = 0x10"
definition VMM_FLAG_HUGE :: u64 where "VMM_FLAG_HUGE = 0x80"
definition VMM_FLAG_GLOBAL :: u64 where "VMM_FLAG_GLOBAL = 0x100"
definition VMM_FLAG_NO_EXECUTE :: u64 where "VMM_FLAG_NO_EXECUTE = 0x8000000000000000"

lemmas vmm_flag_defs =
  PAGE_PRESENT_def PAGE_WRITABLE_def PAGE_USER_def PAGE_WRITETHROUGH_def PAGE_CACHE_DISABLE_def
  PAGE_HUGE_def PAGE_GLOBAL_def PAGE_NO_EXECUTE_def VMM_FLAG_PRESENT_def VMM_FLAG_WRITABLE_def
  VMM_FLAG_USER_def VMM_FLAG_WRITETHROUGH_def VMM_FLAG_NOCACHE_def VMM_FLAG_HUGE_def
  VMM_FLAG_GLOBAL_def VMM_FLAG_NO_EXECUTE_def PAGE_SIZE_4K_def PAGE_SIZE_2M_def

definition PML4_INDEX :: "u64 \<Rightarrow> u64" where "PML4_INDEX addr = drop_bit 39 addr AND 0x1FF"
definition PDPT_INDEX :: "u64 \<Rightarrow> u64" where "PDPT_INDEX addr = drop_bit 30 addr AND 0x1FF"
definition PD_INDEX :: "u64 \<Rightarrow> u64" where "PD_INDEX addr = drop_bit 21 addr AND 0x1FF"
definition PT_INDEX :: "u64 \<Rightarrow> u64" where "PT_INDEX addr = drop_bit 12 addr AND 0x1FF"

section \<open>Memory access\<close>

definition rd :: "vmm_state \<Rightarrow> u64 \<Rightarrow> u64 \<Rightarrow> u64" where
  "rd s table i = vmm_mem s (table + 8 * i)"

definition wr :: "u64 \<Rightarrow> u64 \<Rightarrow> u64 \<Rightarrow> vmm_state \<Rightarrow> vmm_state" where
  "wr table i v s = s\<lparr>vmm_mem := (vmm_mem s)(table + 8 * i := v)\<rparr>"

text \<open>\<open>memset(page, 0, PAGE_SIZE_4K)\<close>\<close>

definition zero_page :: "u64 \<Rightarrow> vmm_state \<Rightarrow> vmm_state" where
  "zero_page page s = s\<lparr>vmm_mem := (\<lambda>x. if x - page < 4096 then 0 else vmm_mem s x)\<rparr>"

definition invlpg :: "u64 \<Rightarrow> vmm_state \<Rightarrow> vmm_state" where
  "invlpg addr s = s\<lparr>tlb_log := addr # tlb_log s\<rparr>"

definition read_cr3 :: "vmm_state \<Rightarrow> u64" where
  "read_cr3 s = cr3 s"

definition write_cr3 :: "u64 \<Rightarrow> vmm_state \<Rightarrow> vmm_state" where
  "write_cr3 v s = s\<lparr>cr3 := v\<rparr>"

definition phys_to_virt :: "vmm_state \<Rightarrow> u64 \<Rightarrow> u64" where
  "phys_to_virt s phys = (if phys = 0 then 0 else phys + hhdm_offset s)"

definition virt_to_phys :: "vmm_state \<Rightarrow> u64 \<Rightarrow> u64" where
  "virt_to_phys s addr =
     (if hhdm_offset s \<le> addr then addr - hhdm_offset s
      else let pml4 = phys_to_virt s (current_pml4_phys s);
               e4 = rd s pml4 (PML4_INDEX addr)
           in if pml4 = 0 \<or> \<not> present e4 then 0
      else let pdpt = phys_to_virt s (e4 AND PAGE_ADDR_MASK);
               e3 = rd s pdpt (PDPT_INDEX addr)
           in if pdpt = 0 \<or> \<not> present e3 then 0
      else if huge e3 then (e3 AND PAGE_ADDR_MASK) + (addr AND 0x3FFFFFFF)
      else let pd = phys_to_virt s (e3 AND PAGE_ADDR_MASK);
               e2 = rd s pd (PD_INDEX addr)
           in if pd = 0 \<or> \<not> present e2 then 0
      else if huge e2 then (e2 AND PAGE_ADDR_MASK) + (addr AND 0x1FFFFF)
      else let pt = phys_to_virt s (e2 AND PAGE_ADDR_MASK);
               e1 = rd s pt (PT_INDEX addr)
           in if pt = 0 \<or> \<not> present e1 then 0
      else (e1 AND PAGE_ADDR_MASK) + (addr AND 0xFFF))"

section \<open>Mapping one page\<close>

definition create_page_table :: "vmm_state \<Rightarrow> u64 \<times> vmm_state" where
  "create_page_table s =
     (let (page, pm) = pmm_alloc_page (vmm_pmm s); s1 = s\<lparr>vmm_pmm := pm\<rparr>
      in if page = 0 then (0, s1) else (page, zero_page (phys_to_virt s page) s1))"

text \<open>
  The block \<open>if (!(table[idx] & PAGE_PRESENT)) { ... }\<close> that \<open>map_page_internal\<close> has once per level.
\<close>

definition ensure_table :: "u64 \<Rightarrow> u64 \<Rightarrow> u64 \<Rightarrow> vmm_state \<Rightarrow> bool \<times> vmm_state" where
  "ensure_table virt table idx s =
     (if present (rd s table idx) then (True, s)
      else let (new, s1) = create_page_table s
           in if new = 0 then (False, s1)
              else let s2 = wr table idx (new OR PAGE_PRESENT OR PAGE_WRITABLE) s1
                   in (True, if virt < 0x8000000000000000
                             then wr table idx (rd s2 table idx OR PAGE_USER) s2 else s2))"

definition map_page_internal :: "u64 \<Rightarrow> u64 \<Rightarrow> u64 \<Rightarrow> u64 \<Rightarrow> vmm_state \<Rightarrow> bool \<times> vmm_state" where
  "map_page_internal pml4_phys virt0 phys0 fl s =
     (if pml4_phys = 0 \<or> virt0 = 0 \<or> phys0 = 0 then (False, s)
      else let virt = virt0 AND PAGE_ADDR_MASK; phys = phys0 AND PAGE_ADDR_MASK;
               pml4 = phys_to_virt s pml4_phys
           in if pml4 = 0 then (False, s)
      else let (ok, s1) = ensure_table virt pml4 (PML4_INDEX virt) s
           in if \<not> ok then (False, s1)
      else let pdpt = phys_to_virt s1 (rd s1 pml4 (PML4_INDEX virt) AND PAGE_ADDR_MASK)
           in if pdpt = 0 then (False, s1)
      else if fl AND VMM_FLAG_HUGE \<noteq> 0 \<and> virt AND 0x3FFFFFFF = 0 \<and> phys AND 0x3FFFFFFF = 0
      then (True, invlpg virt (wr pdpt (PDPT_INDEX virt) (phys OR fl OR PAGE_HUGE) s1))
      else let (ok, s2) = ensure_table virt pdpt (PDPT_INDEX virt) s1
           in if \<not> ok then (False, s2)
      else let pd = phys_to_virt s2 (rd s2 pdpt (PDPT_INDEX virt) AND PAGE_ADDR_MASK)
           in if pd = 0 then (False, s2)
      else if fl AND VMM_FLAG_HUGE \<noteq> 0 \<and> virt AND 0x1FFFFF = 0 \<and> phys AND 0x1FFFFF = 0
      then (True, invlpg virt (wr pd (PD_INDEX virt) (phys OR fl OR PAGE_HUGE) s2))
      else let (ok, s3) = ensure_table virt pd (PD_INDEX virt) s2
           in if \<not> ok then (False, s3)
      else let pt = phys_to_virt s3 (rd s3 pd (PD_INDEX virt) AND PAGE_ADDR_MASK)
           in if pt = 0 then (False, s3)
      else (True, invlpg virt (wr pt (PT_INDEX virt) (phys OR fl) s3)))"

definition hw_flags :: "vmm_state \<Rightarrow> u64 \<Rightarrow> u64" where
  "hw_flags s fl =
     PAGE_PRESENT OR
     (if fl AND VMM_FLAG_WRITABLE \<noteq> 0 then PAGE_WRITABLE else 0) OR
     (if fl AND VMM_FLAG_USER \<noteq> 0 then PAGE_USER else 0) OR
     (if fl AND VMM_FLAG_WRITETHROUGH \<noteq> 0 then PAGE_WRITETHROUGH else 0) OR
     (if fl AND VMM_FLAG_NOCACHE \<noteq> 0 then PAGE_CACHE_DISABLE else 0) OR
     (if fl AND VMM_FLAG_GLOBAL \<noteq> 0 then PAGE_GLOBAL else 0) OR
     (if fl AND VMM_FLAG_HUGE \<noteq> 0 then PAGE_HUGE else 0) OR
     (if fl AND VMM_FLAG_NO_EXECUTE \<noteq> 0 \<and> using_nx (vmm_config s) then PAGE_NO_EXECUTE else 0)"

definition vmm_map_page :: "u64 \<Rightarrow> u64 \<Rightarrow> u64 \<Rightarrow> vmm_state \<Rightarrow> bool \<times> vmm_state" where
  "vmm_map_page virt_addr phys_addr fl s =
     (if virt_addr = 0 then (False, s)
      else if phys_addr = 0 then (False, s)
      else map_page_internal (current_pml4_phys s) virt_addr phys_addr (hw_flags s fl) s)"

definition vmm_unmap_page :: "u64 \<Rightarrow> vmm_state \<Rightarrow> bool \<times> vmm_state" where
  "vmm_unmap_page virt_addr0 s =
     (if virt_addr0 = 0 then (False, s)
      else let virt_addr = virt_addr0 AND PAGE_ADDR_MASK;
               pml4 = phys_to_virt s (current_pml4_phys s);
               e4 = rd s pml4 (PML4_INDEX virt_addr)
           in if pml4 = 0 \<or> \<not> present e4 then (False, s)
      else let pdpt = phys_to_virt s (e4 AND PAGE_ADDR_MASK);
               e3 = rd s pdpt (PDPT_INDEX virt_addr)
           in if pdpt = 0 \<or> \<not> present e3 then (False, s)
      else if huge e3 then (True, invlpg virt_addr (wr pdpt (PDPT_INDEX virt_addr) 0 s))
      else let pd = phys_to_virt s (e3 AND PAGE_ADDR_MASK);
               e2 = rd s pd (PD_INDEX virt_addr)
           in if pd = 0 \<or> \<not> present e2 then (False, s)
      else if huge e2 then (True, invlpg virt_addr (wr pd (PD_INDEX virt_addr) 0 s))
      else let pt = phys_to_virt s (e2 AND PAGE_ADDR_MASK);
               e1 = rd s pt (PT_INDEX virt_addr)
           in if pt = 0 \<or> \<not> present e1 then (False, s)
      else (True, invlpg virt_addr (wr pt (PT_INDEX virt_addr) 0 s)))"

section \<open>Ranges of pages\<close>

text \<open>
  A loop that maps page \<open>i\<close> of a range for each \<open>i\<close> of a list, and stops at the first failure,
  whose index it returns.
\<close>

fun map_loop :: "u64 \<Rightarrow> u64 \<Rightarrow> u64 \<Rightarrow> u64 \<Rightarrow> nat list \<Rightarrow> vmm_state \<Rightarrow> nat option \<times> vmm_state" where
  "map_loop virt phys step fl [] s = (None, s)"
| "map_loop virt phys step fl (i # is) s =
     (let (ok, s1) = vmm_map_page (virt + of_nat i * step) (phys + of_nat i * step) fl s
      in if ok then map_loop virt phys step fl is s1 else (Some i, s1))"

definition unmap_loop :: "u64 \<Rightarrow> u64 \<Rightarrow> nat \<Rightarrow> vmm_state \<Rightarrow> vmm_state" where
  "unmap_loop virt step n s = fold (\<lambda>j t. snd (vmm_unmap_page (virt + of_nat j * step) t)) [0..<n] s"

definition vmm_map_pages :: "u64 \<Rightarrow> u64 \<Rightarrow> u64 \<Rightarrow> u64 \<Rightarrow> vmm_state \<Rightarrow> bool \<times> vmm_state" where
  "vmm_map_pages virt_addr phys_addr count fl s =
     (let small = fl AND NOT VMM_FLAG_HUGE
      in if fl AND VMM_FLAG_HUGE \<noteq> 0 \<and> virt_addr AND 0x1FFFFF = 0 \<and> phys_addr AND 0x1FFFFF = 0 \<and> 512 \<le> count
         then let huge_pages = unat (count div 512); remaining = unat (count mod 512)
              in case map_loop virt_addr phys_addr PAGE_SIZE_2M fl [0..<huge_pages] s of
                   (Some i, s1) \<Rightarrow> (False, unmap_loop virt_addr PAGE_SIZE_2M i s1)
                 | (None, s1) \<Rightarrow>
                     (let start_virt = virt_addr + of_nat huge_pages * PAGE_SIZE_2M;
                          start_phys = phys_addr + of_nat huge_pages * PAGE_SIZE_2M
                      in case map_loop start_virt start_phys PAGE_SIZE_4K small [0..<remaining] s1 of
                           (Some i, s2) \<Rightarrow>
                             (False, unmap_loop virt_addr PAGE_SIZE_2M huge_pages (unmap_loop start_virt PAGE_SIZE_4K i s2))
                         | (None, s2) \<Rightarrow> (True, s2))
         else case map_loop virt_addr phys_addr PAGE_SIZE_4K small [0..<unat count] s of
                (Some i, s1) \<Rightarrow> (False, unmap_loop virt_addr PAGE_SIZE_4K i s1)
              | (None, s1) \<Rightarrow> (True, s1))"

definition vmm_unmap_pages :: "u64 \<Rightarrow> u64 \<Rightarrow> vmm_state \<Rightarrow> bool \<times> vmm_state" where
  "vmm_unmap_pages virt_addr count s = (True, unmap_loop virt_addr PAGE_SIZE_4K (unat count) s)"

definition vmm_get_physical_address :: "vmm_state \<Rightarrow> u64 \<Rightarrow> u64" where
  "vmm_get_physical_address s virt_addr = virt_to_phys s virt_addr"

definition vmm_is_mapped :: "vmm_state \<Rightarrow> u64 \<Rightarrow> bool" where
  "vmm_is_mapped s virt_addr =
     (if hhdm_offset s \<le> virt_addr then True
      else let pml4 = phys_to_virt s (current_pml4_phys s);
               e4 = rd s pml4 (PML4_INDEX virt_addr)
           in if pml4 = 0 \<or> \<not> present e4 then False
      else let pdpt = phys_to_virt s (e4 AND PAGE_ADDR_MASK);
               e3 = rd s pdpt (PDPT_INDEX virt_addr)
           in if pdpt = 0 \<or> \<not> present e3 then False
      else if huge e3 then True
      else let pd = phys_to_virt s (e3 AND PAGE_ADDR_MASK);
               e2 = rd s pd (PD_INDEX virt_addr)
           in if pd = 0 \<or> \<not> present e2 then False
      else if huge e2 then True
      else let pt = phys_to_virt s (e2 AND PAGE_ADDR_MASK);
               e1 = rd s pt (PT_INDEX virt_addr)
           in if pt = 0 \<or> \<not> present e1 then False
      else True)"


section \<open>Areas and allocation\<close>

definition empty_area :: memory_area_t where
  "empty_area = \<lparr>area_base = 0, area_size = 0, area_is_used = False, area_flags = 0\<rparr>"

definition register_memory_area :: "u64 \<Rightarrow> u64 \<Rightarrow> u32 \<Rightarrow> memory_area_t list \<times> nat \<Rightarrow> memory_area_t list \<times> nat" where
  "register_memory_area base sz fl ac =
     (case ac of (areas, count) \<Rightarrow>
        if MAX_MEMORY_AREAS \<le> count then (areas, count)
        else (areas[count := \<lparr>area_base = base, area_size = sz, area_is_used = False, area_flags = fl\<rparr>], count + 1))"

text \<open>\<open>find_free_area\<close> returns a pointer into the array; here the index of that element.\<close>

definition find_free_area :: "memory_area_t list \<Rightarrow> nat \<Rightarrow> u64 \<Rightarrow> nat option" where
  "find_free_area areas count sz = find_slot (\<lambda>a. \<not> area_is_used a \<and> sz \<le> area_size a) (take count areas)"

definition page_round :: "u64 \<Rightarrow> u64" where
  "page_round sz = (sz + PAGE_SIZE_4K - 1) AND NOT (PAGE_SIZE_4K - 1)"

text \<open>The loop that undoes the first \<open>i\<close> pages of \<open>vmm_allocate\<close>.\<close>

definition release_page :: "u64 \<Rightarrow> vmm_state \<Rightarrow> vmm_state" where
  "release_page addr s =
     (let page_phys = vmm_get_physical_address s addr; s1 = snd (vmm_unmap_page addr s)
      in s1\<lparr>vmm_pmm := pmm_free_page page_phys (vmm_pmm s1)\<rparr>)"

definition release_pages :: "u64 \<Rightarrow> nat \<Rightarrow> vmm_state \<Rightarrow> vmm_state" where
  "release_pages base i s = fold (\<lambda>j t. release_page (base + of_nat j * PAGE_SIZE_4K) t) [0..<i] s"

fun allocate_loop :: "memory_area_t \<Rightarrow> u64 \<Rightarrow> nat list \<Rightarrow> vmm_state \<Rightarrow> bool \<times> vmm_state" where
  "allocate_loop area fl [] s = (True, s)"
| "allocate_loop area fl (i # is) s =
     (let (phys, pm) = pmm_alloc_page (vmm_pmm s); s1 = s\<lparr>vmm_pmm := pm\<rparr>
      in if phys = 0 then (False, release_pages (area_base area) i s1)
      else let (ok, s2) = vmm_map_page (area_base area + of_nat i * PAGE_SIZE_4K) phys (fl OR ucast (area_flags area)) s1
           in if \<not> ok
              then (False, release_pages (area_base area) i (s2\<lparr>vmm_pmm := pmm_free_page phys (vmm_pmm s2)\<rparr>))
              else allocate_loop area fl is (zero_page (phys_to_virt s2 phys) s2))"

text \<open>The two area arrays, and the write of \<open>is_used\<close> through a pointer into one of them.\<close>

definition areas_of :: "bool \<Rightarrow> vmm_state \<Rightarrow> memory_area_t list \<times> nat" where
  "areas_of user s = (if user then (user_areas s, user_area_count s) else (kernel_areas s, kernel_area_count s))"

definition set_area_used :: "bool \<Rightarrow> nat \<Rightarrow> bool \<Rightarrow> vmm_state \<Rightarrow> vmm_state" where
  "set_area_used user k u s =
     (if user then s\<lparr>user_areas := (user_areas s)[k := (user_areas s ! k)\<lparr>area_is_used := u\<rparr>]\<rparr>
      else s\<lparr>kernel_areas := (kernel_areas s)[k := (kernel_areas s ! k)\<lparr>area_is_used := u\<rparr>]\<rparr>)"

definition vmm_allocate :: "u64 \<Rightarrow> u64 \<Rightarrow> vmm_state \<Rightarrow> u64 \<times> vmm_state" where
  "vmm_allocate sz0 fl s =
     (if sz0 = 0 then (0, s)
      else let sz = page_round sz0; pages = sz div PAGE_SIZE_4K;
               user = (fl AND VMM_FLAG_USER \<noteq> 0); (areas, count) = areas_of user s
           in case find_free_area areas count sz of
                None \<Rightarrow> (0, s)
              | Some k \<Rightarrow>
                  (case allocate_loop (areas ! k) fl [0..<unat pages] (set_area_used user k True s) of
                     (False, s1) \<Rightarrow> (0, set_area_used user k False s1)
                   | (True, s1) \<Rightarrow>
                       (area_base (areas ! k),
                        s1\<lparr>vmm_stats := (vmm_stats s1)\<lparr>pages_allocated := pages_allocated (vmm_stats s1) + pages\<rparr>\<rparr>)))"

definition vmm_free :: "u64 \<Rightarrow> u64 \<Rightarrow> vmm_state \<Rightarrow> vmm_state" where
  "vmm_free virt_addr sz0 s =
     (if virt_addr = 0 \<or> sz0 = 0 then s
      else let sz = page_round sz0; pages = sz div PAGE_SIZE_4K;
               s1 = fold (\<lambda>i t. let a = virt_addr + of_nat i * PAGE_SIZE_4K
                                in if vmm_get_physical_address t a \<noteq> 0 then release_page a t else t)
                      [0..<unat pages] s;
               user = (\<not> hhdm_offset s1 \<le> virt_addr); (areas, count) = areas_of user s1;
               s2 = (case find_slot (\<lambda>a. area_base a = virt_addr) (take count areas) of
                       None \<Rightarrow> s1 | Some k \<Rightarrow> set_area_used user k False s1)
           in s2\<lparr>vmm_stats := (vmm_stats s2)\<lparr>pages_freed := pages_freed (vmm_stats s2) + pages\<rparr>\<rparr>)"

section \<open>Device memory\<close>

text \<open>
  The loops over \<open>offset\<close> run over the multiples of the page size below the rounded size, which is
  itself such a multiple.
\<close>

definition physical_window :: "u64 \<Rightarrow> u64" where
  "physical_window phys_addr =
     (if 0x100000000 \<le> phys_addr
      then (0xFFFFFFFF00000000 - 0x200000000) + (phys_addr AND 0xFFFFFFFF)
      else phys_addr + KERNEL_VIRTUAL_BASE)"

definition vmm_map_physical :: "u64 \<Rightarrow> u64 \<Rightarrow> u64 \<Rightarrow> vmm_state \<Rightarrow> u64 \<times> vmm_state" where
  "vmm_map_physical phys_addr sz0 fl s =
     (let sz = page_round sz0; virt_addr = physical_window phys_addr
      in case map_loop virt_addr phys_addr PAGE_SIZE_4K fl [0..<unat (sz div PAGE_SIZE_4K)] s of
           (Some i, s1) \<Rightarrow> (0, unmap_loop virt_addr PAGE_SIZE_4K i s1)
         | (None, s1) \<Rightarrow> (virt_addr, s1))"

definition vmm_unmap_physical :: "u64 \<Rightarrow> u64 \<Rightarrow> vmm_state \<Rightarrow> vmm_state" where
  "vmm_unmap_physical virt_addr sz0 s =
     (if virt_addr = 0 then s
      else unmap_loop virt_addr PAGE_SIZE_4K (unat (page_round sz0 div PAGE_SIZE_4K)) s)"

section \<open>Address spaces\<close>

definition vmm_create_address_space :: "vmm_state \<Rightarrow> u64 \<times> vmm_state" where
  "vmm_create_address_space s =
     (let (pml4_phys, s1) = create_page_table s
      in if pml4_phys = 0 then (0, s1)
         else let src_pml4 = phys_to_virt s1 (current_pml4_phys s1); new_pml4 = phys_to_virt s1 pml4_phys
              in (pml4_phys, fold (\<lambda>i t. wr new_pml4 (of_nat i) (rd t src_pml4 (of_nat i)) t) [256..<512] s1))"

text \<open>The pages that \<open>vmm_delete_address_space\<close> releases, in its order.\<close>

definition pd_tables :: "vmm_state \<Rightarrow> u64 \<Rightarrow> u64 list" where
  "pd_tables s pd_phys =
     [e AND PAGE_ADDR_MASK. e \<leftarrow> map (\<lambda>i. rd s (phys_to_virt s pd_phys) (of_nat i)) [0..<512], present e \<and> \<not> huge e]
     @ [pd_phys]"

definition pdpt_tables :: "vmm_state \<Rightarrow> u64 \<Rightarrow> u64 list" where
  "pdpt_tables s pdpt_phys =
     concat [pd_tables s (e AND PAGE_ADDR_MASK).
               e \<leftarrow> map (\<lambda>i. rd s (phys_to_virt s pdpt_phys) (of_nat i)) [0..<512], present e \<and> \<not> huge e]
     @ [pdpt_phys]"

definition space_tables :: "vmm_state \<Rightarrow> u64 \<Rightarrow> u64 list" where
  "space_tables s pml4_phys =
     concat [pdpt_tables s (e AND PAGE_ADDR_MASK).
               e \<leftarrow> map (\<lambda>i. rd s (phys_to_virt s pml4_phys) (of_nat i)) [0..<256], present e]
     @ [pml4_phys]"

definition vmm_delete_address_space :: "u64 \<Rightarrow> vmm_state \<Rightarrow> vmm_state" where
  "vmm_delete_address_space pml4_phys s =
     (if pml4_phys = 0 \<or> pml4_phys = current_pml4_phys s then s
      else s\<lparr>vmm_pmm := fold pmm_free_page (space_tables s pml4_phys) (vmm_pmm s)\<rparr>)"

definition vmm_switch_address_space :: "u64 \<Rightarrow> vmm_state \<Rightarrow> vmm_state" where
  "vmm_switch_address_space pml4_phys s =
     (if pml4_phys = 0 \<or> pml4_phys = current_pml4_phys s then s
      else write_cr3 pml4_phys (s\<lparr>current_pml4_phys := pml4_phys\<rparr>))"

definition vmm_get_current_address_space :: "vmm_state \<Rightarrow> u64" where
  "vmm_get_current_address_space s = current_pml4_phys s"

section \<open>Faults, flushes and initialisation\<close>

definition vmm_handle_page_fault :: "u64 \<Rightarrow> u32 \<Rightarrow> vmm_state \<Rightarrow> bool" where
  "vmm_handle_page_fault fault_addr error_code s = False"

text \<open>\<open>None\<close> stands for the final loop of \<open>hlt\<close> instructions.\<close>

definition page_fault_handler :: "u64 \<Rightarrow> u64 \<Rightarrow> vmm_state \<Rightarrow> vmm_state option" where
  "page_fault_handler cr2 error_code s =
     (if vmm_handle_page_fault cr2 (ucast error_code) s
      then Some (s\<lparr>vmm_stats := (vmm_stats s)\<lparr>page_faults_handled := page_faults_handled (vmm_stats s) + 1\<rparr>\<rparr>)
      else None)"

definition vmm_flush_tlb_page :: "u64 \<Rightarrow> vmm_state \<Rightarrow> vmm_state" where
  "vmm_flush_tlb_page virt_addr s = invlpg virt_addr s"

definition vmm_flush_tlb_full :: "vmm_state \<Rightarrow> vmm_state" where
  "vmm_flush_tlb_full s = write_cr3 (read_cr3 s) s"

definition vmm_get_config :: "vmm_state \<Rightarrow> vmm_config_t option \<Rightarrow> vmm_config_t option" where
  "vmm_get_config s config = (case config of None \<Rightarrow> None | Some _ \<Rightarrow> Some (vmm_config s))"

definition vmm_init :: "u64 option \<Rightarrow> (u64 \<times> u64) option \<Rightarrow> u32 \<Rightarrow> vmm_state \<Rightarrow> vmm_state" where
  "vmm_init hhdm_response kernel_addr_response cpuid_edx s =
     (let hhdm = (case hhdm_response of Some off \<Rightarrow> off | None \<Rightarrow> 0xffff800000000000);
          (kphys, kvirt) = (case kernel_addr_response of Some pv \<Rightarrow> pv | None \<Rightarrow> (0x100000, hhdm + 0x100000));
          root = read_cr3 s;
          (kareas, kcount) = register_memory_area (hhdm + 0x10000000) 0x10000000
              (ucast (VMM_FLAG_PRESENT OR VMM_FLAG_WRITABLE)) (kernel_areas s, kernel_area_count s);
          (uareas, ucount) = register_memory_area 0x400000 0x10000000
              (ucast (VMM_FLAG_PRESENT OR VMM_FLAG_WRITABLE OR VMM_FLAG_USER)) (user_areas s, user_area_count s)
      in s\<lparr>hhdm_offset := hhdm, kernel_phys_base := kphys, kernel_virt_base := kvirt, current_pml4_phys := root,
           vmm_config := (vmm_config s)\<lparr>kernel_pml4 := root, kernel_virtual_base := kvirt,
                           kernel_virtual_size := 0x10000000, using_nx := cpuid_edx AND push_bit 20 1 \<noteq> 0\<rparr>,
           page_fault_registered := True,
           kernel_areas := kareas, kernel_area_count := kcount, user_areas := uareas, user_area_count := ucount\<rparr>)"

end
