(* ===== verification/Vmm_Correct.thy ===== *)
theory Vmm_Correct
  imports Vmm
begin

text \<open>
  Correctness of the virtual memory manager of \<open>Vmm\<close>. The abstraction of a state is the function
  that gives the leaf entry at each path of the page-table tree of the current address space
  (\<open>leaf_at\<close>), and from it the translation of a virtual address. Under the well-formedness of the
  tree and of the page allocator each operation changes exactly the leaf it is asked to change.
\<close>

section \<open>Invariant and abstraction\<close>

abbreviation vtbl :: "vmm_state \<Rightarrow> u64 list \<Rightarrow> u64 option" where
  "vtbl s \<equiv> tbl (vmm_mem s) (hhdm_offset s) (current_pml4_phys s)"

abbreviation vpte :: "vmm_state \<Rightarrow> u64 list \<Rightarrow> u64 \<Rightarrow> u64 option" where
  "vpte s \<equiv> pte (vmm_mem s) (hhdm_offset s) (current_pml4_phys s)"

definition vmm_wf :: "vmm_state \<Rightarrow> bool" where
  "vmm_wf s \<longleftrightarrow> pmm_inv (vmm_pmm s) \<and>
     pt_wf (vmm_mem s) (hhdm_offset s) (current_pml4_phys s) (pmm_is_page_free (vmm_pmm s)) \<and>
     (\<forall>a\<in>managed_pages (vmm_pmm s). a + hhdm_offset s \<noteq> 0)"

definition leaf_at :: "vmm_state \<Rightarrow> u64 list \<Rightarrow> u64 \<Rightarrow> u64 option" where
  "leaf_at s q j =
     (case vpte s q j of
        Some e \<Rightarrow> if present e \<and> (length q = 3 \<or> huge e) then Some e else None
      | None \<Rightarrow> None)"

datatype page_kind = Page_4K | Page_2M | Page_1G

definition translation :: "vmm_state \<Rightarrow> u64 \<Rightarrow> (page_kind \<times> u64) option" where
  "translation s v =
     (case leaf_at s [PML4_INDEX v] (PDPT_INDEX v) of Some e \<Rightarrow> Some (Page_1G, e)
      | None \<Rightarrow> (case leaf_at s [PML4_INDEX v, PDPT_INDEX v] (PD_INDEX v) of Some e \<Rightarrow> Some (Page_2M, e)
      | None \<Rightarrow> (case leaf_at s [PML4_INDEX v, PDPT_INDEX v, PD_INDEX v] (PT_INDEX v) of Some e \<Rightarrow> Some (Page_4K, e)
      | None \<Rightarrow> None)))"

definition page_path :: "u64 \<Rightarrow> u64 list" where
  "page_path v = [PML4_INDEX v, PDPT_INDEX v, PD_INDEX v, PT_INDEX v]"

text \<open>Operations on page tables change memory, the page allocator and the TLB log only.\<close>

definition tables_only :: "vmm_state \<Rightarrow> vmm_state \<Rightarrow> bool" where
  "tables_only s t \<longleftrightarrow> (\<exists>m p l. t = s\<lparr>vmm_mem := m, vmm_pmm := p, tlb_log := l\<rparr>)"

lemma tables_onlyI:
  "tables_only s (s\<lparr>vmm_mem := m\<rparr>)" "tables_only s (s\<lparr>vmm_pmm := p\<rparr>)" "tables_only s (s\<lparr>tlb_log := l\<rparr>)"
  "tables_only s (s\<lparr>vmm_mem := m, vmm_pmm := p\<rparr>)"
  by (cases s; fastforce simp: tables_only_def)+

lemma tables_only_refl [simp]: "tables_only s s"
  using tables_onlyI(1) [of s "vmm_mem s"] by simp

lemma tables_only_trans: "tables_only s t \<Longrightarrow> tables_only t u \<Longrightarrow> tables_only s u"
  by (cases s) (auto simp: tables_only_def)

lemma tables_only_fields:
  assumes "tables_only s t"
  shows "hhdm_offset t = hhdm_offset s" "current_pml4_phys t = current_pml4_phys s" "vmm_config t = vmm_config s"
    "user_areas t = user_areas s" "kernel_areas t = kernel_areas s" "user_area_count t = user_area_count s"
    "kernel_area_count t = kernel_area_count s" "vmm_stats t = vmm_stats s" "cr3 t = cr3 s"
  using assms by (auto simp: tables_only_def)

lemma index_lt [simp]: "PML4_INDEX v < 512" "PDPT_INDEX v < 512" "PD_INDEX v < 512" "PT_INDEX v < 512"
proof -
  have "x AND 0x1FF < (512 :: u64)" for x :: u64
    using word_and_le1 [of x "0x1FF"] by (rule le_less_trans) simp
  then show "PML4_INDEX v < 512" "PDPT_INDEX v < 512" "PD_INDEX v < 512" "PT_INDEX v < 512"
    by (simp_all add: PML4_INDEX_def PDPT_INDEX_def PD_INDEX_def PT_INDEX_def)
qed

lemma drop_page_offset: "12 \<le> n \<Longrightarrow> drop_bit n (v AND PAGE_ADDR_MASK) = drop_bit n (v :: u64)"
  by (rule bit_eqI) (auto simp: PAGE_ADDR_MASK_def low12 bit_simps dest: bit_imp_le_length)

lemma index_mask [simp]:
  "PML4_INDEX (v AND PAGE_ADDR_MASK) = PML4_INDEX v" "PDPT_INDEX (v AND PAGE_ADDR_MASK) = PDPT_INDEX v"
  "PD_INDEX (v AND PAGE_ADDR_MASK) = PD_INDEX v" "PT_INDEX (v AND PAGE_ADDR_MASK) = PT_INDEX v"
  by (simp_all add: PML4_INDEX_def PDPT_INDEX_def PD_INDEX_def PT_INDEX_def drop_page_offset del: drop_bit_and)

lemma managed_page:
  assumes "pmm_inv p" "a \<in> managed_pages p"
  shows "page_aligned a" "a \<noteq> 0"
proof -
  from assms obtain i where "page_bitmap p" "i < page_count p" "a = page_addr p i"
    by (auto simp: managed_pages_def split: if_splits)
  then show "page_aligned a" "a \<noteq> 0"
    using page_addr_managed [OF assms(1)] by (auto simp: page_aligned_iff mod_eq_0_iff_dvd)
qed

lemma rd_slot: "rd s (a + hhdm_offset s) i = vmm_mem s (slot (hhdm_offset s) a i)"
  by (simp add: rd_def slot_def)

lemma vmm_wf_table:
  assumes "vmm_wf s" "valid_path 3 p" "vtbl s p = Some a"
  shows "phys_to_virt s a = a + hhdm_offset s" "phys_to_virt s a \<noteq> 0"
    "\<And>i. vpte s p i = Some (rd s (phys_to_virt s a) i)"
proof -
  have wf: "pt_wf (vmm_mem s) (hhdm_offset s) (current_pml4_phys s) (pmm_is_page_free (vmm_pmm s))"
    using assms(1) by (simp add: vmm_wf_def)
  note d = pt_wfD(2,3) [OF wf assms(2,3)]
  from d(1) show p: "phys_to_virt s a = a + hhdm_offset s" by (simp add: phys_to_virt_def)
  then show "phys_to_virt s a \<noteq> 0" using d(2) by simp
  show "vpte s p i = Some (rd s (phys_to_virt s a) i)" for i
    by (simp add: p rd_slot pte_def assms(3))
qed

section \<open>Creating tables\<close>

lemma create_page_table_cases:
  assumes wf: "vmm_wf s" and c: "create_page_table s = (n, t)"
  obtains (full) "n = 0" "\<And>b. \<not> pmm_is_page_free (vmm_pmm s) b" "vmm_mem t = vmm_mem s" "tables_only s t"
      "pmm_inv (vmm_pmm t)" "managed_pages (vmm_pmm t) = managed_pages (vmm_pmm s)"
      "pmm_is_page_free (vmm_pmm t) = pmm_is_page_free (vmm_pmm s)"
  | (new) "n \<noteq> 0" "n + hhdm_offset s \<noteq> 0" "page_aligned n" "pmm_is_page_free (vmm_pmm s) n"
      "vmm_mem t = (\<lambda>x. if x - (n + hhdm_offset s) < 4096 then 0 else vmm_mem s x)" "tables_only s t"
      "pmm_inv (vmm_pmm t)" "managed_pages (vmm_pmm t) = managed_pages (vmm_pmm s)"
      "pmm_is_page_free (vmm_pmm t) = (pmm_is_page_free (vmm_pmm s))(n := False)"
proof -
  have inv: "pmm_inv (vmm_pmm s)" using wf by (simp add: vmm_wf_def)
  obtain a pm where a: "pmm_alloc_page (vmm_pmm s) = (a, pm)" by fastforce
  note keep = pmm.alloc_inv [OF inv a] pmm.alloc_managed [OF inv a]
  show thesis
  proof (cases "a = 0")
    case True
    with c a have t: "n = 0" "t = s\<lparr>vmm_pmm := pm\<rparr>" by (auto simp: create_page_table_def)
    with True keep pmm.alloc_zero [OF inv, of pm] a show thesis by (intro full) (auto intro: tables_onlyI)
  next
    case False
    with c a have t: "n = a" "t = zero_page (a + hhdm_offset s) (s\<lparr>vmm_pmm := pm\<rparr>)"
      by (auto simp: create_page_table_def phys_to_virt_def)
    note f = pmm.alloc_some [OF inv a False]
    then have m: "a \<in> managed_pages (vmm_pmm s)" using pmm.is_free_managed [OF inv] by auto
    with wf have "a + hhdm_offset s \<noteq> 0" by (simp add: vmm_wf_def)
    with False t f keep managed_page [OF inv m] show thesis
      by (intro new) (auto simp: zero_page_def intro: tables_onlyI tables_only_trans)
  qed
qed

text \<open>The entry written by \<open>ensure_table\<close>, with or without the user bit.\<close>

definition table_entry :: "u64 \<Rightarrow> u64 \<Rightarrow> u64" where
  "table_entry virt n = n OR PAGE_PRESENT OR PAGE_WRITABLE OR (if virt < 0x8000000000000000 then PAGE_USER else 0)"

lemma table_entry_props:
  assumes "page_aligned n"
  shows "points_to_table (table_entry virt n)" "table_entry virt n AND PAGE_ADDR_MASK = n"
proof -
  let ?f = "if virt < 0x8000000000000000 then 7 else 3 :: u64"
  have e: "table_entry virt n = n OR ?f" by (simp add: table_entry_def vmm_flag_defs)
  have "?f < 4096" by simp
  from entry_addr [OF assms this] show "table_entry virt n AND PAGE_ADDR_MASK = n" by (simp only: e)
  have "(n OR ?f) AND 1 = ?f AND 1" "(n OR ?f) AND 0x80 = ?f AND 0x80"
    by (rule entry_low [OF assms], simp)+
  then show "points_to_table (table_entry virt n)"
    by (simp add: points_to_table_def present_def huge_def e)
qed


text \<open>Growing the tree: tables are added, no leaf and no existing table changes.\<close>

definition grows :: "vmm_state \<Rightarrow> vmm_state \<Rightarrow> bool" where
  "grows s t \<longleftrightarrow> tables_only s t \<and> vmm_wf t \<and>
     (\<forall>q j. valid_path 3 q \<longrightarrow> j < 512 \<longrightarrow> leaf_at t q j = leaf_at s q j) \<and>
     (\<forall>q a. valid_path 3 q \<longrightarrow> vtbl s q = Some a \<longrightarrow> vtbl t q = Some a) \<and>
     (\<forall>b. pmm_is_page_free (vmm_pmm t) b \<longrightarrow> pmm_is_page_free (vmm_pmm s) b)"

lemma growsD:
  assumes "grows s t"
  shows "tables_only s t" "vmm_wf t" "\<And>q j. valid_path 3 q \<Longrightarrow> j < 512 \<Longrightarrow> leaf_at t q j = leaf_at s q j"
    "\<And>q a. valid_path 3 q \<Longrightarrow> vtbl s q = Some a \<Longrightarrow> vtbl t q = Some a"
    "\<And>b. pmm_is_page_free (vmm_pmm t) b \<Longrightarrow> pmm_is_page_free (vmm_pmm s) b"
  using assms by (auto simp: grows_def)

lemma grows_refl: "vmm_wf s \<Longrightarrow> grows s s"
  by (simp add: grows_def)

lemma grows_trans: "grows s t \<Longrightarrow> grows t u \<Longrightarrow> grows s u"
  by (auto simp: grows_def intro: tables_only_trans)

lemma grows_translation: "grows s t \<Longrightarrow> translation t v = translation s v"
  by (simp add: translation_def growsD(3) cong: option.case_cong)

lemma grows_phys_to_virt: "grows s t \<Longrightarrow> phys_to_virt t a = phys_to_virt s a"
  using tables_only_fields [OF growsD(1)] by (simp add: phys_to_virt_def)

lemma vmm_wfD:
  assumes "vmm_wf s"
  shows "pmm_inv (vmm_pmm s)" "pt_wf (vmm_mem s) (hhdm_offset s) (current_pml4_phys s) (pmm_is_page_free (vmm_pmm s))"
    "\<And>a. a \<in> managed_pages (vmm_pmm s) \<Longrightarrow> a + hhdm_offset s \<noteq> 0"
  using assms by (auto simp: vmm_wf_def)

lemma grows_new_table:
  assumes wf: "vmm_wf s"
    and ta: "table_add (vmm_mem s) (hhdm_offset s) (current_pml4_phys s) (pmm_is_page_free (vmm_pmm s)) p a i n e (vmm_mem t)"
    and t: "tables_only s t" "pmm_inv (vmm_pmm t)" "managed_pages (vmm_pmm t) = managed_pages (vmm_pmm s)"
      "pmm_is_page_free (vmm_pmm t) = (pmm_is_page_free (vmm_pmm s))(n := False)"
  shows "grows s t" "vtbl t (p @ [i]) = Some n"
proof -
  note d = table_addD [OF ta]
  note f = tables_only_fields [OF t(1)]
  have tb: "vtbl t q = (if q = p @ [i] then Some n else vtbl s q)" if "valid_path 3 q" for q
    using table_add_tbl [OF ta that] by (simp add: f)
  show "vtbl t (p @ [i]) = Some n" using tb [OF d(14)] by simp
  have none: "vtbl s (p @ [i]) = None" using d(3,5) by (simp add: tbl_append points_to_table_def)
  have "vmm_wf t" using table_add_wf [OF ta] t vmm_wfD [OF wf] by (simp add: vmm_wf_def f)
  moreover have "leaf_at t q j = leaf_at s q j" if "valid_path 3 q" "j < 512" for q j
  proof -
    have "leaf_at s q j = None" "leaf_at t q j = None" if "q = p" "j = i"
      using d(2,3,5,10) that table_add_pte [OF ta \<open>valid_path 3 q\<close> \<open>j < 512\<close>]
      by (auto simp: leaf_at_def pte_def f points_to_table_def valid_path_def split: option.splits)
    moreover have "leaf_at s q j = None" "leaf_at t q j = None" if "q = p @ [i]"
      using none that table_add_pte [OF ta \<open>valid_path 3 q\<close> \<open>j < 512\<close>]
      by (auto simp: leaf_at_def pte_def f present_def split: option.splits)
    moreover have "leaf_at t q j = leaf_at s q j" if "\<not> (q = p \<and> j = i)" "q \<noteq> p @ [i]"
    proof -
      have "vpte t q j = vpte s q j"
        using that table_add_pte [OF ta \<open>valid_path 3 q\<close> \<open>j < 512\<close>] by (auto simp: f)
      then show ?thesis by (simp add: leaf_at_def)
    qed
    ultimately show ?thesis by metis
  qed
  ultimately show "grows s t" using t(1,4) none tb by (auto simp: grows_def)
qed

lemma vmm_wf_same_mem:
  assumes "vmm_wf s" "tables_only s t" "vmm_mem t = vmm_mem s" "pmm_inv (vmm_pmm t)"
    "managed_pages (vmm_pmm t) = managed_pages (vmm_pmm s)" "pmm_is_page_free (vmm_pmm t) = pmm_is_page_free (vmm_pmm s)"
  shows "grows s t"
  using assms(1,3-6) tables_only_fields [OF assms(2)] assms(2) by (simp add: grows_def vmm_wf_def leaf_at_def)

lemma ensure_table_spec:
  assumes wf: "vmm_wf s" and vp: "valid_path 2 p" and tp: "vtbl s p = Some a" and i: "i < 512"
    and nh: "\<And>e. vpte s p i = Some e \<Longrightarrow> present e \<Longrightarrow> \<not> huge e"
    and et: "ensure_table virt (phys_to_virt s a) i s = (ok, t)"
  shows "grows s t" "ok \<Longrightarrow> vtbl t (p @ [i]) = Some (rd t (phys_to_virt s a) i AND PAGE_ADDR_MASK)"
    "\<not> ok \<Longrightarrow> \<not> pmm_is_page_free (vmm_pmm t) b"
proof -
  have v3: "valid_path 3 p" using vp by (simp add: valid_path_def)
  note tab = vmm_wf_table [OF wf v3 tp]
  let ?e = "rd s (phys_to_virt s a) i"
  have "grows s t \<and> (ok \<longrightarrow> vtbl t (p @ [i]) = Some (rd t (phys_to_virt s a) i AND PAGE_ADDR_MASK)) \<and>
        (\<not> ok \<longrightarrow> \<not> pmm_is_page_free (vmm_pmm t) b)"
  proof (cases "present ?e")
    case True
    with et have "ok" "t = s" by (auto simp: ensure_table_def)
    moreover have "points_to_table ?e" using nh [OF tab(3)] True by (simp add: points_to_table_def)
    ultimately show ?thesis using wf by (simp add: grows_refl tbl_snoc tab(3))
  next
    case False
    obtain n s1 where c: "create_page_table s = (n, s1)" by fastforce
    from wf c show ?thesis
    proof (cases rule: create_page_table_cases)
      case full
      with et False c have "\<not> ok" "t = s1" by (auto simp: ensure_table_def)
      with full show ?thesis by (simp add: vmm_wf_same_mem [OF wf])
    next
      case new
      let ?sl = "slot (hhdm_offset s) a i"
      have sl: "phys_to_virt s a + 8 * i = ?sl" by (simp add: tab(1) slot_def)
      have t: "ok" "t = s1\<lparr>vmm_mem := (vmm_mem s1)(?sl := table_entry virt n)\<rparr>"
        using et False c new(1) by (auto simp: ensure_table_def wr_def rd_def sl table_entry_def or.assoc Let_def)
      have ta: "table_add (vmm_mem s) (hhdm_offset s) (current_pml4_phys s) (pmm_is_page_free (vmm_pmm s)) p a i n
          (table_entry virt n) (vmm_mem t)"
        using new vp tp i False vmm_wfD(2) [OF wf] table_entry_props [OF new(3)] t(2)
        by (simp add: table_add_def rd_def sl)
      have "tables_only s t" using t(2) new(6) tables_onlyI(1) tables_only_trans by blast
      from grows_new_table [OF wf ta this] new t(2)
      have "grows s t" "vtbl t (p @ [i]) = Some n" by auto
      moreover have "rd t (phys_to_virt s a) i AND PAGE_ADDR_MASK = n"
        using t(2) table_entry_props [OF new(3)] by (simp add: rd_def sl)
      ultimately show ?thesis using t(1) by simp
    qed
  qed
  then show "grows s t" "ok \<Longrightarrow> vtbl t (p @ [i]) = Some (rd t (phys_to_virt s a) i AND PAGE_ADDR_MASK)"
    "\<not> ok \<Longrightarrow> \<not> pmm_is_page_free (vmm_pmm t) b" by auto
qed


section \<open>Writing a leaf\<close>

lemma write_leaf:
  assumes wf: "vmm_wf s" and p: "valid_path 3 p" "p \<noteq> []" "vtbl s p = Some a" and i: "i < 512"
    and np: "length p < 3 \<Longrightarrow> \<not> points_to_table (rd s (phys_to_virt s a) i) \<and> \<not> points_to_table e"
    and t: "t = invlpg v (wr (phys_to_virt s a) i e s)"
  shows "vmm_wf t" "tables_only s t" "vmm_pmm t = vmm_pmm s"
    "\<And>q j. valid_path 3 q \<Longrightarrow> j < 512 \<Longrightarrow> leaf_at t q j =
       (if q = p \<and> j = i then (if present e \<and> (length p = 3 \<or> huge e) then Some e else None) else leaf_at s q j)"
proof -
  note tab = vmm_wf_table [OF wf p(1,3)]
  let ?sl = "slot (hhdm_offset s) a i"
  have sl: "phys_to_virt s a + 8 * i = ?sl" by (simp add: tab(1) slot_def)
  have m: "vmm_mem t = (vmm_mem s)(?sl := e)" "vmm_pmm t = vmm_pmm s" "hhdm_offset t = hhdm_offset s"
    "current_pml4_phys t = current_pml4_phys s"
    by (simp_all add: t invlpg_def wr_def sl)
  show "vmm_pmm t = vmm_pmm s" by (rule m)
  show "tables_only s t" unfolding t invlpg_def wr_def
    by (rule tables_only_trans [OF tables_onlyI(1) tables_onlyI(3)])
  have sw: "slot_write (vmm_mem s) (hhdm_offset s) (current_pml4_phys s) (pmm_is_page_free (vmm_pmm s)) p a i e"
    using p i np vmm_wfD(2) [OF wf] by (simp add: slot_write_def rd_def sl)
  show "vmm_wf t" using slot_write_wf [OF sw] vmm_wfD [OF wf] by (simp add: vmm_wf_def m)
  show "leaf_at t q j =
       (if q = p \<and> j = i then (if present e \<and> (length p = 3 \<or> huge e) then Some e else None) else leaf_at s q j)"
    if "valid_path 3 q" "j < 512" for q j
    using slot_write_pte [OF sw that] by (simp add: leaf_at_def m split: if_split)
qed

text \<open>The three levels of tables above a 4 KiB page, as \<open>map_page_internal\<close> creates them.\<close>

lemma leaf_none_not_huge: "leaf_at s q j = None \<Longrightarrow> vpte s q j = Some e \<Longrightarrow> present e \<Longrightarrow> \<not> huge e"
  by (auto simp: leaf_at_def split: if_splits)

lemma root_not_huge: "vmm_wf s \<Longrightarrow> i < 512 \<Longrightarrow> vpte s [] i = Some e \<Longrightarrow> present e \<Longrightarrow> \<not> huge e"
  using vmm_wfD(2) [of s] by (auto simp: pt_wf_def pte_def)

lemma ensure_table_cases:
  assumes "vmm_wf s" "valid_path 2 p" "vtbl s p = Some a" "i < 512"
    and nh: "\<forall>e. vpte s p i = Some e \<longrightarrow> present e \<longrightarrow> \<not> huge e"
    and et: "ensure_table virt (phys_to_virt s a) i s = (ok, t)"
  obtains (fail) "\<not> ok" "grows s t" "\<And>b. \<not> pmm_is_page_free (vmm_pmm t) b"
  | (step) a' where "ok" "grows s t" "vtbl t (p @ [i]) = Some a'" "vmm_wf t"
      "rd t (phys_to_virt s a) i AND PAGE_ADDR_MASK = a'" "phys_to_virt t a' \<noteq> 0"
proof -
  note E = ensure_table_spec [OF assms(1-4) nh [rule_format] et]
  have v: "valid_path 3 (p @ [i])" using assms(2,4) by (auto simp: valid_path_def)
  show thesis
  proof (cases ok)
    case True
    with step E v vmm_wf_table(2) [OF growsD(2) [OF E(1)] v] growsD(2) [OF E(1)] show thesis by blast
  next
    case False
    with fail E show thesis by blast
  qed
qed

lemma map_page_internal_spec:
  assumes wf: "vmm_wf s" and nz: "virt \<noteq> 0" "phys \<noteq> 0" and fl: "fl AND PAGE_HUGE = 0"
    and l1: "leaf_at s [PML4_INDEX virt] (PDPT_INDEX virt) = None"
    and l2: "leaf_at s [PML4_INDEX virt, PDPT_INDEX virt] (PD_INDEX virt) = None"
    and mp: "map_page_internal (current_pml4_phys s) virt phys fl s = (ok, t)"
  obtains (fail) "\<not> ok" "grows s t" "\<And>b. \<not> pmm_is_page_free (vmm_pmm t) b"
  | (mapped) u a where "ok" "grows s u" "vtbl u [PML4_INDEX virt, PDPT_INDEX virt, PD_INDEX virt] = Some a"
      "t = invlpg (virt AND PAGE_ADDR_MASK)
             (wr (phys_to_virt u a) (PT_INDEX virt) ((phys AND PAGE_ADDR_MASK) OR fl) u)"
proof -
  let ?r = "current_pml4_phys s" and ?i4 = "PML4_INDEX virt" and ?i3 = "PDPT_INDEX virt" and ?i2 = "PD_INDEX virt"
  let ?v = "virt AND PAGE_ADDR_MASK"
  have r: "vtbl s [] = Some ?r" by simp
  have p0: "phys_to_virt s ?r \<noteq> 0" using vmm_wf_table(2) [OF wf _ r] by simp
  then have r0: "?r \<noteq> 0" by (auto simp: phys_to_virt_def)
  have h: "fl AND VMM_FLAG_HUGE = 0" using fl by (simp add: vmm_flag_defs)
  have vp0: "valid_path 2 []" "valid_path 2 [?i4]" "valid_path 2 [?i4, ?i3]" by simp_all
  have nh0: "\<forall>e. vpte s [] ?i4 = Some e \<longrightarrow> present e \<longrightarrow> \<not> huge e"
    using root_not_huge [OF wf index_lt(1)] by blast
  note M = mp [unfolded map_page_internal_def Let_def]
  obtain ok1 s1 where e1: "ensure_table ?v (phys_to_virt s ?r) ?i4 s = (ok1, s1)" by fastforce
  show thesis
  proof (cases rule: ensure_table_cases [OF wf vp0(1) r index_lt(1) nh0 e1, case_names fail step])
    case fail
    show thesis by (rule that(1)) (use M e1 fail nz r0 p0 in \<open>simp_all\<close>)
  next
    case s1: (step a1)
    obtain ok2 s2 where e2: "ensure_table ?v (phys_to_virt s1 a1) ?i3 s1 = (ok2, s2)" by fastforce
    have "leaf_at s1 [?i4] ?i3 = None" using l1 growsD(3) [OF s1(2)] by simp
    then have nh1: "\<forall>e. vpte s1 [?i4] ?i3 = Some e \<longrightarrow> present e \<longrightarrow> \<not> huge e"
      using leaf_none_not_huge by blast
    from s1(3) have t1: "vtbl s1 [?i4] = Some a1" by simp
    show thesis
    proof (cases rule: ensure_table_cases [OF s1(4) vp0(2) t1 index_lt(2) nh1 e2, case_names fail step])
      case fail
      show thesis
        by (rule that(1)) (use M e1 e2 s1 fail nz r0 p0 h grows_trans [OF s1(2)] in \<open>simp_all\<close>)
    next
      case s2: (step a2)
      obtain ok3 s3 where e3: "ensure_table ?v (phys_to_virt s2 a2) ?i2 s2 = (ok3, s3)" by fastforce
      note g2 = grows_trans [OF s1(2) s2(2)]
      have "leaf_at s2 [?i4, ?i3] ?i2 = None" using l2 growsD(3) [OF g2] by simp
      then have nh2: "\<forall>e. vpte s2 [?i4, ?i3] ?i2 = Some e \<longrightarrow> present e \<longrightarrow> \<not> huge e"
      using leaf_none_not_huge by blast
      from s2(3) have t2: "vtbl s2 [?i4, ?i3] = Some a2" by simp
      show thesis
      proof (cases rule: ensure_table_cases [OF s2(4) vp0(3) t2 index_lt(3) nh2 e3, case_names fail step])
        case fail
        show thesis
          by (rule that(1)) (use M e1 e2 e3 s1 s2 fail nz r0 p0 h grows_trans [OF g2] in \<open>simp_all\<close>)
      next
        case s3: (step a3)
        show thesis
          by (rule that(2) [of s3 a3])
            (use M e1 e2 e3 s1 s2 s3 nz r0 p0 h grows_trans [OF g2] in \<open>simp_all\<close>)
      qed
    qed
  qed
qed


section \<open>Walking the tables\<close>

declare tbl.simps(2) [simp del]

lemma leaf_at_no_table: "vtbl s q = None \<Longrightarrow> leaf_at s q j = None"
  by (simp add: leaf_at_def pte_def)

lemma leaf_at_entry:
  assumes "vmm_wf s" "valid_path 3 q" "vtbl s q = (if P then Some a else None)"
  shows "leaf_at s q j = (if P \<and> present (rd s (phys_to_virt s a) j) \<and> (length q = 3 \<or> huge (rd s (phys_to_virt s a) j))
    then Some (rd s (phys_to_virt s a) j) else None)"
proof (cases P)
  case True
  with assms(3) have "vtbl s q = Some a" by simp
  from vmm_wf_table(3) [OF assms(1,2) this, of j] True show ?thesis by (simp add: leaf_at_def)
qed (use assms(3) in \<open>simp add: leaf_at_no_table\<close>)

lemma vtbl_step:
  "vmm_wf s \<Longrightarrow> valid_path 3 q \<Longrightarrow> vtbl s q = Some a \<Longrightarrow>
   vtbl s (q @ [i]) = (let e = rd s (phys_to_virt s a) i in if points_to_table e then Some (e AND PAGE_ADDR_MASK) else None)"
  using vmm_wf_table(3) [of s q a i] by (simp add: tbl_snoc Let_def)

text \<open>The seven ways a walk can end, with the pointers and entries that the code reads on the way.\<close>

lemma walk_cases:
  fixes s v
  defines "a4 \<equiv> phys_to_virt s (current_pml4_phys s)"
  defines "e4 \<equiv> rd s a4 (PML4_INDEX v)"
  defines "a3 \<equiv> phys_to_virt s (e4 AND PAGE_ADDR_MASK)"
  defines "e3 \<equiv> rd s a3 (PDPT_INDEX v)"
  defines "a2 \<equiv> phys_to_virt s (e3 AND PAGE_ADDR_MASK)"
  defines "e2 \<equiv> rd s a2 (PD_INDEX v)"
  defines "a1 \<equiv> phys_to_virt s (e2 AND PAGE_ADDR_MASK)"
  defines "e1 \<equiv> rd s a1 (PT_INDEX v)"
  assumes wf: "vmm_wf s"
  obtains (none4) "a4 \<noteq> 0" "\<not> present e4" "translation s v = None"
  | (none3) "a4 \<noteq> 0" "present e4" "a3 \<noteq> 0" "\<not> present e3" "translation s v = None"
  | (page1G) "a4 \<noteq> 0" "present e4" "a3 \<noteq> 0" "present e3" "huge e3" "translation s v = Some (Page_1G, e3)"
      "vtbl s [PML4_INDEX v] = Some (e4 AND PAGE_ADDR_MASK)"
  | (none2) "a4 \<noteq> 0" "present e4" "a3 \<noteq> 0" "present e3" "\<not> huge e3" "a2 \<noteq> 0" "\<not> present e2" "translation s v = None"
  | (page2M) "a4 \<noteq> 0" "present e4" "a3 \<noteq> 0" "present e3" "\<not> huge e3" "a2 \<noteq> 0" "present e2" "huge e2"
      "translation s v = Some (Page_2M, e2)" "vtbl s [PML4_INDEX v, PDPT_INDEX v] = Some (e3 AND PAGE_ADDR_MASK)"
  | (none1) "a4 \<noteq> 0" "present e4" "a3 \<noteq> 0" "present e3" "\<not> huge e3" "a2 \<noteq> 0" "present e2" "\<not> huge e2" "a1 \<noteq> 0"
      "\<not> present e1" "translation s v = None"
  | (page4K) "a4 \<noteq> 0" "present e4" "a3 \<noteq> 0" "present e3" "\<not> huge e3" "a2 \<noteq> 0" "present e2" "\<not> huge e2" "a1 \<noteq> 0"
      "present e1" "translation s v = Some (Page_4K, e1)"
      "vtbl s [PML4_INDEX v, PDPT_INDEX v, PD_INDEX v] = Some (e2 AND PAGE_ADDR_MASK)"
proof -
  let ?i4 = "PML4_INDEX v" and ?i3 = "PDPT_INDEX v" and ?i2 = "PD_INDEX v" and ?i1 = "PT_INDEX v"
  have r: "vtbl s [] = Some (current_pml4_phys s)" by simp
  have n4: "a4 \<noteq> 0" using vmm_wf_table(2) [OF wf _ r] by (simp add: a4_def)
  have h4: "present e4 \<Longrightarrow> \<not> huge e4"
    using root_not_huge [OF wf, of ?i4 e4] vmm_wf_table(3) [OF wf _ r, of ?i4] by (simp add: a4_def e4_def)
  have t3: "vtbl s [?i4] = (if present e4 then Some (e4 AND PAGE_ADDR_MASK) else None)"
    using vtbl_step [OF wf _ r, of ?i4] h4 by (simp add: points_to_table_def a4_def e4_def)
  have t2: "vtbl s [?i4, ?i3] = (if present e4 \<and> present e3 \<and> \<not> huge e3 then Some (e3 AND PAGE_ADDR_MASK) else None)"
  proof (cases "present e4")
    case True
    with t3 vtbl_step [OF wf, of "[?i4]" "e4 AND PAGE_ADDR_MASK" ?i3] show ?thesis
      by (simp add: points_to_table_def a3_def [symmetric] e3_def [symmetric])
  qed (use t3 tbl_append [of "vmm_mem s" "hhdm_offset s" "current_pml4_phys s" "[?i4]" "[?i3]"] in simp)
  have t1: "vtbl s [?i4, ?i3, ?i2] = (if present e4 \<and> present e3 \<and> \<not> huge e3 \<and> present e2 \<and> \<not> huge e2
      then Some (e2 AND PAGE_ADDR_MASK) else None)"
  proof (cases "present e4 \<and> present e3 \<and> \<not> huge e3")
    case True
    with t2 vtbl_step [OF wf, of "[?i4, ?i3]" "e3 AND PAGE_ADDR_MASK" ?i2] show ?thesis
      by (simp add: points_to_table_def a2_def [symmetric] e2_def [symmetric])
  qed (use t2 tbl_append [of "vmm_mem s" "hhdm_offset s" "current_pml4_phys s" "[?i4, ?i3]" "[?i2]"] in auto)
  have n: "present e4 \<Longrightarrow> a3 \<noteq> 0" "present e4 \<Longrightarrow> present e3 \<Longrightarrow> \<not> huge e3 \<Longrightarrow> a2 \<noteq> 0"
    "present e4 \<Longrightarrow> present e3 \<Longrightarrow> \<not> huge e3 \<Longrightarrow> present e2 \<Longrightarrow> \<not> huge e2 \<Longrightarrow> a1 \<noteq> 0"
    using vmm_wf_table(2) [OF wf, of "[?i4]"] vmm_wf_table(2) [OF wf, of "[?i4, ?i3]"]
      vmm_wf_table(2) [OF wf, of "[?i4, ?i3, ?i2]"] t3 t2 t1
    by (simp_all add: a3_def a2_def a1_def)
  have l3: "leaf_at s [?i4] ?i3 = (if present e4 \<and> present e3 \<and> huge e3 then Some e3 else None)"
    using leaf_at_entry [OF wf _ t3, of ?i3] by (simp add: a3_def e3_def)
  have l2: "leaf_at s [?i4, ?i3] ?i2 =
      (if present e4 \<and> present e3 \<and> \<not> huge e3 \<and> present e2 \<and> huge e2 then Some e2 else None)"
    using leaf_at_entry [OF wf _ t2, of ?i2] by (simp add: a2_def e2_def)
  have l1: "leaf_at s [?i4, ?i3, ?i2] ?i1 =
      (if present e4 \<and> present e3 \<and> \<not> huge e3 \<and> present e2 \<and> \<not> huge e2 \<and> present e1 then Some e1 else None)"
    using leaf_at_entry [OF wf _ t1, of ?i1] by (simp add: a1_def e1_def)
  note tr = translation_def [of s v, unfolded l1 l2 l3]
  have tr: "translation s v =
     (if \<not> (present e4 \<and> present e3) then None else if huge e3 then Some (Page_1G, e3)
      else if \<not> present e2 then None else if huge e2 then Some (Page_2M, e2)
      else if present e1 then Some (Page_4K, e1) else None)"
    by (simp add: tr)
  show thesis
  proof (cases "present e4 \<and> present e3 \<and> \<not> huge e3")
    case p: True
    show thesis
    proof (cases "present e2 \<and> \<not> huge e2")
      case True
      with p have t: "vtbl s [?i4, ?i3, ?i2] = Some (e2 AND PAGE_ADDR_MASK)" using t1 by simp
      show thesis
      proof (cases "present e1")
        case e: True
        show thesis by (rule that(7)) (use p True n4 n t tr e in simp_all)
      next
        case e: False
        show thesis by (rule that(6)) (use p True n4 n t tr e in simp_all)
      qed
    next
      case False
      with p have t: "vtbl s [?i4, ?i3] = Some (e3 AND PAGE_ADDR_MASK)" using t2 by simp
      show thesis
      proof (cases "present e2")
        case e: True
        show thesis by (rule that(5)) (use p False n4 n t tr e in simp_all)
      next
        case e: False
        show thesis by (rule that(4)) (use p False n4 n t tr e in simp_all)
      qed
    qed
  next
    case False
    show thesis
    proof (cases "present e4")
      case True
      then have t: "vtbl s [?i4] = Some (e4 AND PAGE_ADDR_MASK)" using t3 by simp
      show thesis
      proof (cases "present e3")
        case e: True
        show thesis by (rule that(3)) (use True False n4 n t tr e in simp_all)
      next
        case e: False
        show thesis by (rule that(2)) (use True False n4 n t tr e in simp_all)
      qed
    qed (rule that(1); use n4 tr in simp)
  qed
qed

lemma virt_to_phys_translation:
  assumes "vmm_wf s" "v < hhdm_offset s"
  shows "virt_to_phys s v =
    (case translation s v of
       None \<Rightarrow> 0
     | Some (Page_1G, e) \<Rightarrow> (e AND PAGE_ADDR_MASK) + (v AND 0x3FFFFFFF)
     | Some (Page_2M, e) \<Rightarrow> (e AND PAGE_ADDR_MASK) + (v AND 0x1FFFFF)
     | Some (Page_4K, e) \<Rightarrow> (e AND PAGE_ADDR_MASK) + (v AND 0xFFF))"
  using assms(2) [folded linorder_not_le] by (cases rule: walk_cases [OF assms(1), of v]) (simp_all add: virt_to_phys_def Let_def)

lemma vmm_is_mapped_translation:
  assumes "vmm_wf s" "v < hhdm_offset s"
  shows "vmm_is_mapped s v \<longleftrightarrow> translation s v \<noteq> None"
  using assms(2) [folded linorder_not_le] by (cases rule: walk_cases [OF assms(1), of v]) (simp_all add: vmm_is_mapped_def Let_def)


section \<open>Effect of mapping and unmapping on the translation\<close>

text \<open>Two addresses are covered by the same leaf of kind \<open>k\<close>.\<close>

fun leaf_depth :: "page_kind \<Rightarrow> nat" where
  "leaf_depth Page_1G = 2"
| "leaf_depth Page_2M = 3"
| "leaf_depth Page_4K = 4"

definition same_page :: "page_kind \<Rightarrow> u64 \<Rightarrow> u64 \<Rightarrow> bool" where
  "same_page k v w \<longleftrightarrow> take (leaf_depth k) (page_path v) = take (leaf_depth k) (page_path w)"

lemma same_page_simps:
  "same_page Page_1G v w \<longleftrightarrow> PML4_INDEX w = PML4_INDEX v \<and> PDPT_INDEX w = PDPT_INDEX v"
  "same_page Page_2M v w \<longleftrightarrow> PML4_INDEX w = PML4_INDEX v \<and> PDPT_INDEX w = PDPT_INDEX v \<and> PD_INDEX w = PD_INDEX v"
  "same_page Page_4K v w \<longleftrightarrow> PML4_INDEX w = PML4_INDEX v \<and> PDPT_INDEX w = PDPT_INDEX v \<and> PD_INDEX w = PD_INDEX v \<and>
     PT_INDEX w = PT_INDEX v"
  by (auto simp: same_page_def page_path_def numeral_eq_Suc)

lemma translation_4K_iff:
  "(\<forall>k e. translation s v = Some (k, e) \<longrightarrow> k = Page_4K) \<longleftrightarrow>
   leaf_at s [PML4_INDEX v] (PDPT_INDEX v) = None \<and> leaf_at s [PML4_INDEX v, PDPT_INDEX v] (PD_INDEX v) = None"
  by (auto simp: translation_def split: option.splits)

lemma hw_flags_low:
  "hw_flags s fl AND 1 = 1" "fl AND VMM_FLAG_HUGE = 0 \<Longrightarrow> hw_flags s fl AND PAGE_HUGE = 0"
  by (simp_all add: hw_flags_def vmm_flag_defs bit.conj_disj_distrib2)

lemma hw_flags_present: "present ((phys AND PAGE_ADDR_MASK) OR hw_flags s fl)"
  using entry_low [OF page_aligned_mask, of 1 phys "hw_flags s fl"] hw_flags_low(1)
  by (simp add: present_def)

lemma vmm_map_page_cases:
  assumes wf: "vmm_wf s" and nz: "virt \<noteq> 0" "phys \<noteq> 0" and fl: "fl AND VMM_FLAG_HUGE = 0"
    and small: "\<forall>k e. translation s virt = Some (k, e) \<longrightarrow> k = Page_4K"
    and mp: "vmm_map_page virt phys fl s = (ok, t)"
  obtains (fail) "\<not> ok" "grows s t" "\<And>b. \<not> pmm_is_page_free (vmm_pmm t) b"
  | (mapped) "ok" "vmm_wf t" "tables_only s t" "tlb_log t \<noteq> []" "hd (tlb_log t) = virt AND PAGE_ADDR_MASK"
      "\<And>w. translation t w = (if same_page Page_4K virt w
         then Some (Page_4K, (phys AND PAGE_ADDR_MASK) OR hw_flags s fl) else translation s w)"
      "\<And>b. pmm_is_page_free (vmm_pmm t) b \<Longrightarrow> pmm_is_page_free (vmm_pmm s) b"
proof -
  let ?e = "(phys AND PAGE_ADDR_MASK) OR hw_flags s fl"
  let ?p = "[PML4_INDEX virt, PDPT_INDEX virt, PD_INDEX virt]"
  note l = small [unfolded translation_4K_iff]
  have m: "map_page_internal (current_pml4_phys s) virt phys (hw_flags s fl) s = (ok, t)"
    using mp nz by (simp add: vmm_map_page_def)
  from wf nz hw_flags_low(2) [OF fl] l [THEN conjunct1] l [THEN conjunct2] m show thesis
  proof (cases rule: map_page_internal_spec)
    case fail
    with that(1) show thesis by blast
  next
    case (mapped u a)
    note W = write_leaf [OF growsD(2) [OF mapped(2)] _ _ mapped(3) index_lt(4) _ mapped(4), simplified]
    have lf: "leaf_at t q j = (if q = ?p \<and> j = PT_INDEX virt then Some ?e else leaf_at s q j)"
      if "valid_path 3 q" "j < 512" for q j
      using W(4) [OF that] growsD(3) [OF mapped(2) that] hw_flags_present [of phys s fl] by auto
    have "translation t w = (if same_page Page_4K virt w then Some (Page_4K, ?e) else translation s w)" for w
      using l by (auto simp: translation_def lf same_page_simps cong: option.case_cong)
    then show thesis
      using that(2) W mapped tables_only_trans [OF growsD(1) [OF mapped(2)] W(2)] growsD(5) [OF mapped(2)]
      by (simp add: invlpg_def)
  qed
qed

lemma vmm_unmap_page_cases:
  assumes wf: "vmm_wf s" and nz: "virt \<noteq> 0" and um: "vmm_unmap_page virt s = (ok, t)"
  obtains (fail) "\<not> ok" "t = s" "translation s virt = None"
  | (unmapped) k e where "ok" "translation s virt = Some (k, e)" "vmm_wf t" "tables_only s t" "vmm_pmm t = vmm_pmm s"
      "tlb_log t = (virt AND PAGE_ADDR_MASK) # tlb_log s"
      "\<And>w. translation t w = (if same_page k virt w then None else translation s w)"
proof -
  note um = um [unfolded vmm_unmap_page_def Let_def index_mask]
  let ?p1 = "[PML4_INDEX virt]" and ?p2 = "[PML4_INDEX virt, PDPT_INDEX virt]"
    and ?p3 = "[PML4_INDEX virt, PDPT_INDEX virt, PD_INDEX virt]"
  from wf show thesis
  proof (cases rule: walk_cases [where v = virt])
    case none4 with um nz that(1) show thesis by simp
  next
    case none3 with um nz that(1) show thesis by simp
  next
    case none2 with um nz that(1) show thesis by simp
  next
    case none1 with um nz that(1) show thesis by simp
  next
    case page1G
    from um nz page1G have ok: "ok" and t: "t = invlpg (virt AND PAGE_ADDR_MASK)
        (wr (phys_to_virt s (rd s (phys_to_virt s (current_pml4_phys s)) (PML4_INDEX virt) AND PAGE_ADDR_MASK)) (PDPT_INDEX virt) 0 s)"
      by auto
    note W = write_leaf [OF wf _ _ page1G(7) index_lt(2) _ t, simplified]
    have W: "vmm_wf t" "tables_only s t" "vmm_pmm t = vmm_pmm s" "\<And>q j. valid_path 3 q \<Longrightarrow> j < 512 \<Longrightarrow> leaf_at t q j =
       (if q = ?p1 \<and> j = PDPT_INDEX virt then None else leaf_at s q j)"
      using W page1G(5) by (auto simp: points_to_table_def present_def)
    have "vtbl s ?p2 = None"
      using vtbl_step [OF wf _ page1G(7), of "PDPT_INDEX virt"] page1G(5) by (simp add: points_to_table_def)
    moreover from this have "vtbl s (?p2 @ [PD_INDEX w]) = None" for w by (simp only: tbl_append) simp
    ultimately have "translation t w = (if same_page Page_1G virt w then None else translation s w)" for w
      by (auto simp: translation_def W(4) same_page_simps leaf_at_no_table cong: option.case_cong)
    with that(2) [OF ok page1G(6) W(1-3)] t show thesis by (simp add: invlpg_def wr_def)
  next
    case page2M
    from um nz page2M have ok: "ok" and t: "t = invlpg (virt AND PAGE_ADDR_MASK)
        (wr (phys_to_virt s (rd s (phys_to_virt s (rd s (phys_to_virt s (current_pml4_phys s)) (PML4_INDEX virt) AND PAGE_ADDR_MASK))
           (PDPT_INDEX virt) AND PAGE_ADDR_MASK)) (PD_INDEX virt) 0 s)"
      by auto
    note W = write_leaf [OF wf _ _ page2M(10) index_lt(3) _ t, simplified]
    have W: "vmm_wf t" "tables_only s t" "vmm_pmm t = vmm_pmm s" "\<And>q j. valid_path 3 q \<Longrightarrow> j < 512 \<Longrightarrow> leaf_at t q j =
       (if q = ?p2 \<and> j = PD_INDEX virt then None else leaf_at s q j)"
      using W page2M(8) by (auto simp: points_to_table_def present_def)
    have "vtbl s ?p3 = None"
      using vtbl_step [OF wf _ page2M(10), of "PD_INDEX virt"] page2M(8) by (simp add: points_to_table_def)
    moreover have "leaf_at s ?p1 (PDPT_INDEX virt) = None"
      using page2M(9) by (auto simp: translation_def split: option.splits)
    ultimately have "translation t w = (if same_page Page_2M virt w then None else translation s w)" for w
      by (auto simp: translation_def W(4) same_page_simps leaf_at_no_table cong: option.case_cong)
    with that(2) [OF ok page2M(9) W(1-3)] t show thesis by (simp add: invlpg_def wr_def)
  next
    case page4K
    from um nz page4K have ok: "ok" and t: "t = invlpg (virt AND PAGE_ADDR_MASK)
        (wr (phys_to_virt s (rd s (phys_to_virt s (rd s (phys_to_virt s (rd s (phys_to_virt s (current_pml4_phys s)) (PML4_INDEX virt)
           AND PAGE_ADDR_MASK)) (PDPT_INDEX virt) AND PAGE_ADDR_MASK)) (PD_INDEX virt) AND PAGE_ADDR_MASK)) (PT_INDEX virt) 0 s)"
      by auto
    note W = write_leaf [OF wf _ _ page4K(12) index_lt(4) _ t, simplified]
    have W: "vmm_wf t" "tables_only s t" "vmm_pmm t = vmm_pmm s" "\<And>q j. valid_path 3 q \<Longrightarrow> j < 512 \<Longrightarrow> leaf_at t q j =
       (if q = ?p3 \<and> j = PT_INDEX virt then None else leaf_at s q j)"
      using W by (auto simp: present_def)
    have "leaf_at s ?p1 (PDPT_INDEX virt) = None" "leaf_at s ?p2 (PD_INDEX virt) = None"
      using page4K(11) by (auto simp: translation_def split: option.splits)
    then have "translation t w = (if same_page Page_4K virt w then None else translation s w)" for w
      by (auto simp: translation_def W(4) same_page_simps cong: option.case_cong)
    with that(2) [OF ok page4K(11) W(1-3)] t show thesis by (simp add: invlpg_def wr_def)
  qed
qed


section \<open>Ranges\<close>

lemma translation_same_page: "same_page Page_4K v w \<Longrightarrow> translation s v = translation s w"
  by (simp add: translation_def same_page_simps cong: option.case_cong)

lemma tables_only_hw_flags: "tables_only s t \<Longrightarrow> hw_flags t fl = hw_flags s fl"
  by (simp add: hw_flags_def tables_only_fields)

text \<open>The abstract effect of a sequence of mappings and of unmappings on a translation.\<close>

type_synonym view = "u64 \<Rightarrow> (page_kind \<times> u64) option"

definition view_map :: "u64 \<Rightarrow> u64 \<Rightarrow> view \<Rightarrow> view" where
  "view_map v e T = (\<lambda>w. if same_page Page_4K v w then Some (Page_4K, e) else T w)"

definition view_unmap :: "u64 \<Rightarrow> view \<Rightarrow> view" where
  "view_unmap v T = (\<lambda>w. if same_page Page_4K v w then None else T w)"

lemma fold_view_unmap:
  "fold (\<lambda>j. view_unmap (f j)) is T w = (if \<exists>j\<in>set is. same_page Page_4K (f j) w then None else T w)"
  by (induction "is" arbitrary: T) (auto simp: view_unmap_def)

lemma fold_view_map_other:
  "\<not> (\<exists>j\<in>set is. same_page Page_4K (f j) w) \<Longrightarrow> fold (\<lambda>j. view_map (f j) (g j)) is T w = T w"
  by (induction "is" arbitrary: T) (auto simp: view_map_def)

lemma fold_view_map_in:
  assumes "i \<in> set is" "distinct is" "same_page Page_4K (f i) w"
    and "\<forall>j\<in>set is. same_page Page_4K (f j) w \<longrightarrow> j = i"
  shows "fold (\<lambda>j. view_map (f j) (g j)) is T w = Some (Page_4K, g i)"
  using assms
proof (induction "is" arbitrary: T)
  case (Cons a "is")
  show ?case
  proof (cases "a = i")
    case True
    have "\<not> (\<exists>j\<in>set is. same_page Page_4K (f j) w)"
      using True Cons.prems(2,4) by (metis distinct.simps(2) list.set_intros(2))
    from fold_view_map_other [OF this] have "fold (\<lambda>j. view_map (f j) (g j)) is (view_map (f i) (g i) T) w =
        view_map (f i) (g i) T w" .
    also have "\<dots> = Some (Page_4K, g i)" using Cons.prems(3) by (simp add: view_map_def)
    finally show ?thesis using True by simp
  next
    case False
    have 1: "i \<in> set is" using False Cons.prems(1) by simp
    have 2: "distinct is" using Cons.prems(2) by simp
    have 3: "\<forall>j\<in>set is. same_page Page_4K (f j) w \<longrightarrow> j = i" using Cons.prems(4) by (meson list.set_intros(2))
    show ?thesis using Cons.IH [OF 1 2 Cons.prems(3) 3] by simp
  qed
qed simp

lemma map_loop_spec:
  assumes "vmm_wf s" "fl AND VMM_FLAG_HUGE = 0"
    and "\<forall>i\<in>set is. virt + of_nat i * st \<noteq> 0 \<and> phys + of_nat i * st \<noteq> 0"
    and "\<forall>i\<in>set is. \<forall>k e. translation s (virt + of_nat i * st) = Some (k, e) \<longrightarrow> k = Page_4K"
    and "map_loop virt phys st fl is s = (r, t)"
  shows "vmm_wf t \<and> tables_only s t \<and>
    (\<exists>pre post. is = pre @ post \<and> (case r of None \<Rightarrow> post = [] | Some i \<Rightarrow> post \<noteq> [] \<and> i = hd post) \<and>
       translation t = fold (\<lambda>i. view_map (virt + of_nat i * st)
         (((phys + of_nat i * st) AND PAGE_ADDR_MASK) OR hw_flags s fl)) pre (translation s))"
  using assms
proof (induction "is" arbitrary: s)
  case (Cons i "is")
  let ?v = "\<lambda>i. virt + of_nat i * st" and ?e = "\<lambda>i. ((phys + of_nat i * st) AND PAGE_ADDR_MASK) OR hw_flags s fl"
  obtain ok s1 where m: "vmm_map_page (?v i) (phys + of_nat i * st) fl s = (ok, s1)" by fastforce
  from Cons.prems have h: "?v i \<noteq> 0" "phys + of_nat i * st \<noteq> 0"
    "\<forall>k e. translation s (?v i) = Some (k, e) \<longrightarrow> k = Page_4K" by auto
  from Cons.prems(1) h(1,2) Cons.prems(2) h(3) m show ?case
  proof (cases rule: vmm_map_page_cases)
    case fail
    then have "r = Some i" "t = s1" using Cons.prems(5) m by auto
    moreover have "translation s1 = translation s" using grows_translation [OF fail(2)] by auto
    ultimately show ?thesis using growsD [OF fail(2)]
      by (intro conjI exI [of _ "[]"] exI [of _ "i # is"]) auto
  next
    case mapped
    have T: "translation s1 = view_map (?v i) (?e i) (translation s)" by (auto simp: mapped(6) view_map_def)
    have "\<forall>j\<in>set is. \<forall>k e. translation s1 (?v j) = Some (k, e) \<longrightarrow> k = Page_4K"
      using Cons.prems(4) by (auto simp: T view_map_def)
    with Cons.IH [OF mapped(2) Cons.prems(2)] Cons.prems(3,5) m mapped(1)
    obtain pre post where p: "vmm_wf t" "tables_only s1 t" "is = pre @ post"
      "case r of None \<Rightarrow> post = [] | Some i \<Rightarrow> post \<noteq> [] \<and> i = hd post"
      "translation t = fold (\<lambda>i. view_map (?v i) (((phys + of_nat i * st) AND PAGE_ADDR_MASK) OR hw_flags s1 fl)) pre (translation s1)"
      by auto
    then show ?thesis using tables_only_trans [OF mapped(3)] tables_only_hw_flags [OF mapped(3)] T
      by (intro conjI exI [of _ "i # pre"] exI [of _ post]) auto
  qed
qed auto

lemma unmap_fold_spec:
  assumes "vmm_wf s" "\<forall>j\<in>set is. f j \<noteq> 0 \<and> (\<forall>k e. translation s (f j) = Some (k, e) \<longrightarrow> k = Page_4K)"
    and "t = fold (\<lambda>j t. snd (vmm_unmap_page (f j) t)) is s"
  shows "vmm_wf t \<and> tables_only s t \<and> vmm_pmm t = vmm_pmm s \<and> translation t = fold (\<lambda>j. view_unmap (f j)) is (translation s)"
  using assms
proof (induction "is" arbitrary: s)
  case (Cons i "is")
  obtain ok s1 where u: "vmm_unmap_page (f i) s = (ok, s1)" by fastforce
  have nz: "f i \<noteq> 0" using Cons.prems(2) by simp
  from Cons.prems(1) nz u
  have "vmm_wf s1 \<and> tables_only s s1 \<and> vmm_pmm s1 = vmm_pmm s \<and> translation s1 = view_unmap (f i) (translation s)"
  proof (cases rule: vmm_unmap_page_cases)
    case fail
    then have "view_unmap (f i) (translation s) = translation s"
      using translation_same_page [of "f i" _ s] by (auto simp: view_unmap_def fun_eq_iff)
    with fail Cons.prems(1) show ?thesis by simp
  next
    case (unmapped k e)
    with Cons.prems(2) have "k = Page_4K" by simp
    with unmapped show ?thesis by (auto simp: view_unmap_def)
  qed
  then have s1: "vmm_wf s1" "tables_only s s1" "vmm_pmm s1 = vmm_pmm s" "translation s1 = view_unmap (f i) (translation s)"
    by auto
  have "\<forall>j\<in>set is. f j \<noteq> 0 \<and> (\<forall>k e. translation s1 (f j) = Some (k, e) \<longrightarrow> k = Page_4K)"
    using Cons.prems(2) by (auto simp: s1(4) view_unmap_def)
  from Cons.IH [OF s1(1) this] Cons.prems(3) u s1 tables_only_trans [OF s1(2)] show ?case by auto
qed auto

text \<open>Pages at distinct distances below \<open>2 ^ 36\<close> have distinct paths.\<close>

lemma unat_index: "unat (drop_bit n x AND 0x1FF :: u64) = unat x div 2 ^ n mod 512"
proof -
  have "(0x1FF :: u64) = mask 9" by (simp add: mask_eq_exp_minus_1)
  then have "drop_bit n x AND 0x1FF = take_bit 9 (drop_bit n x)" by (simp only: take_bit_eq_mask)
  moreover have "unat (take_bit 9 (drop_bit n x)) = take_bit 9 (drop_bit n (unat x))"
    by (simp only: unsigned_take_bit_eq unat_drop_bit_eq)
  ultimately show ?thesis by (simp only: take_bit_eq_mod drop_bit_eq_div) simp
qed

lemma digits_inject:
  fixes x y :: nat
  assumes "x mod 512 = y mod 512" "x div 512 mod 512 = y div 512 mod 512"
    "x div 2 ^ 18 mod 512 = y div 2 ^ 18 mod 512" "x div 2 ^ 27 mod 512 = y div 2 ^ 27 mod 512"
  shows "x mod 2 ^ 36 = y mod 2 ^ 36"
proof -
  have "z mod 2 ^ 36 = 512 * (512 * (512 * (z div 2 ^ 27 mod 512) + z div 2 ^ 18 mod 512) + z div 512 mod 512) + z mod 512"
    for z :: nat
    using mod_mult2_eq [of z 512 "2 ^ 27"] mod_mult2_eq [of "z div 512" 512 "2 ^ 18"]
      mod_mult2_eq [of "z div 2 ^ 18" 512 512]
    by (simp add: div_mult2_eq [symmetric])
  with assms show ?thesis by simp
qed

lemma same_page_distance:
  assumes "same_page Page_4K v w"
  shows "(unat v div 4096) mod 2 ^ 36 = (unat w div 4096) mod 2 ^ 36"
proof (rule digits_inject)
  have i: "PML4_INDEX v = PML4_INDEX w" "PDPT_INDEX v = PDPT_INDEX w" "PD_INDEX v = PD_INDEX w" "PT_INDEX v = PT_INDEX w"
    using assms by (simp_all add: same_page_simps)
  show "unat v div 4096 mod 512 = unat w div 4096 mod 512"
    using arg_cong [OF i(4), of unat] by (simp add: PT_INDEX_def unat_index)
  show "unat v div 4096 div 512 mod 512 = unat w div 4096 div 512 mod 512"
    using arg_cong [OF i(3), of unat] by (simp add: PD_INDEX_def unat_index div_mult2_eq [symmetric])
  show "unat v div 4096 div 2 ^ 18 mod 512 = unat w div 4096 div 2 ^ 18 mod 512"
    using arg_cong [OF i(2), of unat] by (simp add: PDPT_INDEX_def unat_index div_mult2_eq [symmetric])
  show "unat v div 4096 div 2 ^ 27 mod 512 = unat w div 4096 div 2 ^ 27 mod 512"
    using arg_cong [OF i(1), of unat] by (simp add: PML4_INDEX_def unat_index div_mult2_eq [symmetric])
qed

lemma page_number_offset: "(unat (v + of_nat i * 4096 :: u64) div 4096) mod 2 ^ 36 = (unat v div 4096 + i) mod 2 ^ 36"
proof -
  have "unat (v + of_nat i * 4096) = (unat v + i * 4096) mod 2 ^ 64"
    by (simp add: unat_word_ariths unat_of_nat mod_simps)
  moreover have "x mod 2 ^ 64 div 4096 mod 2 ^ 36 = x div 4096 mod (2 ^ 36 :: nat)" for x
    using mod_mult2_eq [of x 4096 "2 ^ 52"] by (simp add: mod_mod_cancel)
  ultimately show ?thesis by (simp add: add.commute)
qed

lemma same_page_range:
  assumes "i < 2 ^ 36" "j < 2 ^ 36" "same_page Page_4K (v + of_nat i * 4096) (v + of_nat j * 4096)"
  shows "i = j"
proof -
  let ?a = "unat v div 4096"
  have "(?a + i) mod 2 ^ 36 = (?a + j) mod 2 ^ 36"
    using same_page_distance [OF assms(3)] by (simp only: page_number_offset)
  then have "(int ?a + int i) mod 2 ^ 36 = (int ?a + int j) mod 2 ^ 36"
    using arg_cong [of _ _ int] by (fastforce simp: zmod_int)
  then have "2 ^ 36 dvd int i - int j" by (simp add: mod_eq_dvd_iff)
  moreover have "\<bar>int i - int j\<bar> < 2 ^ 36" using assms(1,2) by simp
  ultimately show ?thesis using zdvd_not_zless [of "\<bar>int i - int j\<bar>" "2 ^ 36"] by auto
qed


section \<open>Properties\<close>


text \<open>
  C4. \<open>vmm_unmap_page\<close> succeeds exactly on a mapped address, and removes exactly the page (of whatever
  size) that maps it, invalidating its TLB entry; otherwise the state does not change.
\<close>

theorem vmm_unmap_page_spec:
  assumes "vmm_wf s" "virt \<noteq> 0" "vmm_unmap_page virt s = (ok, t)"
  shows "vmm_wf t \<and>
    (case translation s virt of
       None \<Rightarrow> \<not> ok \<and> t = s
     | Some (k, e) \<Rightarrow> ok \<and> (\<forall>w. translation t w = (if same_page k virt w then None else translation s w)) \<and>
         tlb_log t = (virt AND PAGE_ADDR_MASK) # tlb_log s \<and> vmm_pmm t = vmm_pmm s)"
  using assms
proof (cases rule: vmm_unmap_page_cases)
  case fail
  with assms(1) show ?thesis by simp
next
  case (unmapped k e)
  then show ?thesis by simp
qed

lemma map_unmap_view:
  assumes "\<And>w. (\<exists>j\<in>set is. same_page Page_4K (f j) w) \<Longrightarrow> T w = None"
  shows "fold (\<lambda>j. view_unmap (f j)) is (fold (\<lambda>j. view_map (f j) (g j)) is T) = T"
proof
  fix w
  show "fold (\<lambda>j. view_unmap (f j)) is (fold (\<lambda>j. view_map (f j) (g j)) is T) w = T w"
    using assms [of w] fold_view_map_other [of "is" f w g T] by (cases "\<exists>j\<in>set is. same_page Page_4K (f j) w") (simp_all add: fold_view_unmap)
qed

lemma split_upt_at:
  assumes "[0..<n] = pre @ post" "post \<noteq> []"
  shows "pre = [0..<hd post]" "hd post < n"
proof -
  have l: "length pre < n" using assms by (metis length_append length_greater_0_conv length_upt less_add_same_cancel1 diff_zero)
  have "hd post = [0..<n] ! length pre" using assms by (simp add: hd_conv_nth nth_append)
  then have h: "hd post = length pre" using l by simp
  moreover have "pre = take (length pre) [0..<n]" using assms(1) by simp
  ultimately show "pre = [0..<hd post]" "hd post < n" using l by (simp_all add: take_upt)
qed

lemma fold_view_map_kind:
  "fold (\<lambda>j. view_map (f j) (g j)) is T w = Some (k, e) \<Longrightarrow> k = Page_4K \<or> T w = Some (k, e)"
  by (induction "is" arbitrary: T) (fastforce simp: view_map_def split: if_splits)+

lemma and_not_absent: "a AND m = 0 \<Longrightarrow> a AND NOT m = (a :: u64)"
proof (rule bit_eqI)
  fix n assume "a AND m = 0"
  then have "\<not> bit (a AND m) n" by simp
  then show "bit (a AND NOT m) n = bit a n" by (auto simp: bit_simps dest: bit_imp_le_length)
qed

lemma vmm_map_pages_range:
  assumes wf: "vmm_wf s" and fl: "fl AND VMM_FLAG_HUGE = 0" and n: "unat count \<le> 2 ^ 36"
    and range: "\<forall>i<unat count. virt + of_nat i * 4096 \<noteq> 0 \<and> phys + of_nat i * 4096 \<noteq> 0 \<and>
      translation s (virt + of_nat i * 4096) = None"
    and mp: "vmm_map_pages virt phys count fl s = (ok, t)"
  shows "vmm_wf t \<and>
    (if ok then (\<forall>i<unat count. translation t (virt + of_nat i * 4096) =
                    Some (Page_4K, ((phys + of_nat i * 4096) AND PAGE_ADDR_MASK) OR hw_flags s fl)) \<and>
                (\<forall>w. (\<forall>i<unat count. \<not> same_page Page_4K (virt + of_nat i * 4096) w) \<longrightarrow>
                    translation t w = translation s w)
     else translation t = translation s)"
proof -
  let ?v = "\<lambda>i::nat. virt + of_nat i * 4096"
  let ?e = "\<lambda>i::nat. ((phys + of_nat i * 4096) AND PAGE_ADDR_MASK) OR hw_flags s fl"
  have sm: "fl AND NOT VMM_FLAG_HUGE = fl" using fl by (rule and_not_absent)
  obtain r s1 where m: "map_loop virt phys 4096 fl [0..<unat count] s = (r, s1)" by fastforce
  have "vmm_wf s1 \<and> tables_only s s1 \<and> (\<exists>pre post. [0..<unat count] = pre @ post \<and>
      (case r of None \<Rightarrow> post = [] | Some i \<Rightarrow> post \<noteq> [] \<and> i = hd post) \<and>
      translation s1 = fold (\<lambda>i. view_map (?v i) (?e i)) pre (translation s))"
    using range by (intro map_loop_spec [OF wf fl _ _ m]) auto
  then obtain pre post where s1: "vmm_wf s1" "[0..<unat count] = pre @ post"
      "case r of None \<Rightarrow> post = [] | Some i \<Rightarrow> post \<noteq> [] \<and> i = hd post"
      "translation s1 = fold (\<lambda>i. view_map (?v i) (?e i)) pre (translation s)" by blast
  note M = mp [unfolded vmm_map_pages_def Let_def sm PAGE_SIZE_4K_def]
  show ?thesis
  proof (cases r)
    case None
    then have t: "ok" "t = s1" using M fl m by auto
    from None s1(2-4) have T: "translation t = fold (\<lambda>i. view_map (?v i) (?e i)) [0..<unat count] (translation s)"
      using t(2) by simp
    have "translation t (?v i) = Some (Page_4K, ?e i)" if "i < unat count" for i
      unfolding T using that n same_page_range [of _ i virt]
      by (intro fold_view_map_in) (auto simp: same_page_def)
    moreover have "translation t w = translation s w" if "\<forall>i<unat count. \<not> same_page Page_4K (?v i) w" for w
      unfolding T using that by (intro fold_view_map_other) auto
    ultimately show ?thesis using t s1(1) by simp
  next
    case (Some k)
    with s1(2,3) have pre: "pre = [0..<k]" "k < unat count" using split_upt_at by auto
    from Some M fl m have t: "\<not> ok" "t = unmap_loop virt 4096 k s1" by auto
    have "\<forall>j\<in>set [0..<k]. ?v j \<noteq> 0 \<and> (\<forall>k e. translation s1 (?v j) = Some (k, e) \<longrightarrow> k = Page_4K)"
      using range pre by (auto simp: s1(4) dest!: fold_view_map_kind)
    from unmap_fold_spec [OF s1(1) this, of t] t(2)
    have "vmm_wf t" "translation t = fold (\<lambda>j. view_unmap (?v j)) [0..<k] (translation s1)"
      by (auto simp: unmap_loop_def)
    moreover have "translation s w = None" if "\<exists>j\<in>set [0..<k]. same_page Page_4K (?v j) w" for w
      using that range pre(2) translation_same_page [of _ w s] by force
    ultimately show ?thesis using t(1) s1(4) pre(1) map_unmap_view [of "[0..<k]" ?v "translation s" ?e] by auto
  qed
qed



text \<open>
  A concrete address space: an empty top-level table at \<open>0x5000\<close>, the direct map at its default
  place, and an allocator with four free pages.
\<close>

definition vmm_demo :: vmm_state where
  "vmm_demo = \<lparr>vmm_config = \<lparr>kernel_pml4 = 0x5000, kernel_virtual_base = 0, kernel_virtual_size = 0x10000000, using_pae = False, using_nx = True\<rparr>,
     hhdm_offset = 0xffff800000000000, kernel_phys_base = 0x100000, kernel_virt_base = 0xffff800000100000,
     current_pml4_phys = 0x5000, user_areas = replicate 32 empty_area, kernel_areas = replicate 32 empty_area,
     user_area_count = 0, kernel_area_count = 0,
     vmm_stats = \<lparr>pages_allocated = 0, pages_freed = 0, page_faults_handled = 0\<rparr>,
     page_fault_registered = True,
     vmm_pmm = \<lparr>pmm_config = \<lparr>total_memory = 0x4000, kernel_start = 0x100000, kernel_end = 0x104000, page_size = 4096, max_pages = 4\<rparr>,
       static_bitmap = replicate 8192 0, page_bitmap = True, bitmap_size = 8192, total_allocations = 0, failed_allocations = 0\<rparr>,
     vmm_mem = (\<lambda>_. 0), cr3 = 0x5000, tlb_log = []\<rparr>"

lemma tbl_zero: "tbl (\<lambda>_. 0) h r p = (if p = [] then Some r else None)"
  by (cases p) (simp_all add: points_to_table_def present_def tbl.simps)

lemma vmm_demo_wf: "vmm_wf vmm_demo"
proof -
  let ?p = "vmm_pmm vmm_demo"
  have inv: "pmm_inv ?p" by (simp add: vmm_demo_def pmm_inv_def pmm_static_state_def STATIC_BITMAP_SIZE_def)
  have m: "managed_pages ?p = page_addr ?p ` {..<4}"
    by (simp add: managed_pages_def vmm_demo_def)
  have "{..<4} = {0, 1, 2, 3 :: nat}" by auto
  then have "managed_pages ?p = {0x100000, 0x101000, 0x102000, 0x103000}"
    by (simp only: m image_insert image_empty) (simp add: page_addr_def vmm_demo_def)
  moreover have "\<not> pmm_is_page_free ?p 0x5000"
    by (simp add: vmm_demo_def pmm_is_page_free_def in_managed_range_def)
  ultimately show ?thesis
    using inv by (auto simp: vmm_wf_def pt_wf_def tbl_zero page_aligned_def present_def vmm_demo_def)
qed

lemma vmm_demo_translation: "translation vmm_demo v = None"
  by (simp add: translation_def leaf_at_def pte_def vmm_demo_def tbl_zero present_def)


lemma zero_bitmap_test: "i < 65536 \<Longrightarrow> \<not> bitmap_test (replicate 8192 0) i"
  by (simp add: bitmap_test_def)

lemma demo_alloc:
  assumes "pmm_config p = \<lparr>total_memory = 0x4000, kernel_start = 0x100000, kernel_end = 0x104000, page_size = 4096, max_pages = 4\<rparr>"
    "page_bitmap p"
  shows "pmm_alloc_page p =
    (case find (\<lambda>i. \<not> bitmap_test (static_bitmap p) i) [0, 1, 2, 3] of
       Some i \<Rightarrow> (0x100000 + of_nat i * 4096, p\<lparr>static_bitmap := bitmap_set (static_bitmap p) i, total_allocations := total_allocations p + 1\<rparr>)
     | None \<Rightarrow> (0, p\<lparr>failed_allocations := failed_allocations p + 1\<rparr>))"
proof -
  have "[0..<4] = [0, 1, 2, 3 :: nat]" by (simp add: upt_rec)
  with assms show ?thesis by (simp add: pmm_alloc_page_def page_addr_def cong: option.case_cong)
qed

lemmas demo_eval = Let_def ensure_table_def create_page_table_def demo_alloc zero_bitmap_test bitmap_simps
  rd_def wr_def zero_page_def phys_to_virt_def PML4_INDEX_def PDPT_INDEX_def PD_INDEX_def PT_INDEX_def PAGE_ADDR_MASK_def
  vmm_flag_defs present_def

lemma vmm_demo_mapped: "fst (vmm_map_page 0x400000 0x200000 3 vmm_demo)"
  unfolding vmm_map_page_def map_page_internal_def vmm_demo_def
  by (simp add: demo_eval)


lemma vmm_demo_map_hyps:
  "(0x400000 :: u64) \<noteq> 0" "(0x200000 :: u64) \<noteq> 0" "(3 :: u64) AND VMM_FLAG_HUGE = 0"
  "\<forall>k e. translation vmm_demo 0x400000 = Some (k, e) \<longrightarrow> k = Page_4K"
  "vmm_map_page 0x400000 0x200000 3 vmm_demo = (True, snd (vmm_map_page 0x400000 0x200000 3 vmm_demo))"
  using vmm_demo_mapped by (auto simp: vmm_flag_defs vmm_demo_translation prod_eq_iff)

lemma vmm_demo_entry: "(0x200000 AND PAGE_ADDR_MASK) OR hw_flags vmm_demo 3 = 0x200003"
  by (simp add: PAGE_ADDR_MASK_def hw_flags_def vmm_flag_defs)

lemma vmm_demo_same_page: "same_page Page_4K 0x400000 0x400123" "\<not> same_page Page_4K 0x400000 0x401000"
  by (simp_all add: same_page_simps PML4_INDEX_def PDPT_INDEX_def PD_INDEX_def PT_INDEX_def)


text \<open>The demo address space with one page mapped.\<close>

definition vmm_demo1 :: vmm_state where
  "vmm_demo1 = snd (vmm_map_page 0x400000 0x200000 3 vmm_demo)"

lemma vmm_demo1_props: "vmm_wf vmm_demo1" "translation vmm_demo1 0x400000 = Some (Page_4K, 0x200003)"
proof -
  have "same_page Page_4K 0x400000 0x400000" by (simp add: same_page_def)
  with vmm_demo_wf vmm_demo_map_hyps show "vmm_wf vmm_demo1" "translation vmm_demo1 0x400000 = Some (Page_4K, 0x200003)"
    by (cases rule: vmm_map_page_cases; simp add: vmm_demo1_def vmm_demo_entry)+
qed

theorem vmm_unmap_page_spec_witness:
  "fst (vmm_unmap_page 0x400000 vmm_demo1) \<and> translation (snd (vmm_unmap_page 0x400000 vmm_demo1)) 0x400123 = None"
  using vmm_unmap_page_spec [OF vmm_demo1_props(1), of "0x400000" "fst (vmm_unmap_page 0x400000 vmm_demo1)"
    "snd (vmm_unmap_page 0x400000 vmm_demo1)"]
  by (simp add: vmm_demo1_props(2) vmm_demo_same_page)

lemma vmm_demo_mapped2: "fst (vmm_map_pages 0x400000 0x200000 2 3 vmm_demo)"
proof -
  have "[0..<unat (2 :: u64)] = [0, 1]" by (simp add: upt_rec)
  then show ?thesis
    unfolding vmm_map_pages_def vmm_demo_def
    by (simp add: demo_eval vmm_map_page_def map_page_internal_def hw_flags_def invlpg_def)
qed


end
