(* ===== verification/Vmm_Spaces.thy ===== *)
theory Vmm_Spaces
  imports Vmm_Correct
begin

text \<open>
  Address spaces and the area allocator of the virtual memory manager: what a new address space
  shares with the one it was created from, that deleting it gives back its pages, and how the
  allocator of areas behaves, together with the places where the code departs from its comments.
\<close>

section \<open>A new address space\<close>

definition copied :: "u64 \<Rightarrow> u64 \<Rightarrow> nat list \<Rightarrow> vmm_state \<Rightarrow> vmm_state" where
  "copied d e is s = fold (\<lambda>i t. wr d (of_nat i) (rd t e (of_nat i)) t) is s"

lemma copied_mem_only: "\<exists>m. copied d e is s = s\<lparr>vmm_mem := m\<rparr>"
proof (induction "is" arbitrary: s)
  case (Cons i "is")
  from Cons [of "wr d (of_nat i) (rd s e (of_nat i)) s"] show ?case
    by (auto simp: copied_def wr_def)
next
  case Nil
  show ?case by (rule exI [of _ "vmm_mem s"]) (simp add: copied_def)
qed

lemma of_nat_index: "i < 512 \<Longrightarrow> (of_nat i :: u64) < 512" "i < 512 \<Longrightarrow> unat (of_nat i :: u64) = i"
  by (simp_all add: word_less_nat_alt unat_of_nat)

lemma nat_slot_inject:
  assumes "page_aligned x" "page_aligned y" "i < 512" "j < 512"
  shows "x + 8 * of_nat i = y + 8 * (of_nat j :: u64) \<longleftrightarrow> x = y \<and> i = j"
  using slot_inject [OF assms(1,2) of_nat_index(1) [OF assms(3)] of_nat_index(1) [OF assms(4)]]
    of_nat_index(2) [OF assms(3)] of_nat_index(2) [OF assms(4)] by metis

lemma copied_mem:
  assumes al: "page_aligned d" "page_aligned e" "d \<noteq> e" and "set is \<subseteq> {..<512}"
  shows "vmm_mem (copied d e is s) x =
    (if \<exists>i\<in>set is. x = d + 8 * of_nat i then vmm_mem s (x - d + e) else vmm_mem s x)"
  using assms(4)
proof (induction "is" arbitrary: s)
  case (Cons i "is")
  let ?s = "wr d (of_nat i) (rd s e (of_nat i)) s"
  have i: "i < 512" using Cons.prems by simp
  have off: "vmm_mem ?s (8 * of_nat j + e) = vmm_mem s (8 * of_nat j + e)" if "j \<in> set is" for j
    using nat_slot_inject [OF al(2,1), of j i] that Cons.prems al(3) i
    by (auto simp: wr_def add.commute)
  have c: "copied d e (i # is) s = copied d e is ?s" by (simp add: copied_def)
  note IH = Cons.IH [of ?s, folded c]
  show ?case
  proof (cases "\<exists>j\<in>set is. x = d + 8 * of_nat j")
    case True
    then obtain j where j: "j \<in> set is" "x - d + e = 8 * of_nat j + e" by auto
    with IH True Cons.prems off [OF j(1)] show ?thesis by (simp only: j(2)) auto
  next
    case False
    with IH Cons.prems have "vmm_mem (copied d e (i # is) s) x = vmm_mem ?s x" by simp
    with False show ?thesis by (auto simp: wr_def rd_def add.commute)
  qed
qed (simp add: copied_def)


lemma tbl_same:
  assumes "pt_wf m h r F"
    and "\<And>q b j. \<lbrakk>valid_path 3 q; tbl m h r q = Some b; j < 512\<rbrakk> \<Longrightarrow> m' (slot h b j) = m (slot h b j)"
    and "valid_path 3 q"
  shows "tbl m' h r q = tbl m h r q"
proof (rule tbl_frame [OF assms(1) _ assms(3), of "[0, 0, 0]" 0])
  show "\<not> prefix ([0, 0, 0] @ [0]) q" using assms(3) by (auto simp: valid_path_def dest: prefix_length_le)
qed (use assms(2) in auto)

lemma upper_half_slot:
  assumes al: "page_aligned a" "page_aligned n" "page_aligned h" and j: "j < 512"
  shows "(\<exists>i\<in>{256..<512}. slot h a j = n + h + 8 * of_nat i) \<longleftrightarrow> a = n \<and> 256 \<le> j"
proof
  assume "\<exists>i\<in>{256..<512}. slot h a j = n + h + 8 * of_nat i"
  then obtain i :: nat where i: "256 \<le> i" "i < 512" "a + h + 8 * j = n + h + 8 * of_nat i" by (auto simp: slot_def)
  with slot_inject [OF page_aligned_add [OF al(1,3)] page_aligned_add [OF al(2,3)] j of_nat_index(1) [OF i(2)]]
  have "a = n" "j = of_nat i" by auto
  with i of_nat_index(2) [OF i(2)] show "a = n \<and> 256 \<le> j" by (simp add: word_le_nat_alt)
next
  assume "a = n \<and> 256 \<le> j"
  with j show "\<exists>i\<in>{256..<512}. slot h a j = n + h + 8 * of_nat i"
    by (intro bexI [of _ "unat j"]) (auto simp: slot_def word_le_nat_alt word_less_nat_alt)
qed

text \<open>
  Memory after \<open>vmm_create_address_space\<close>: the new page holds the upper half of the current top-level
  table, everything outside that page is as before.
\<close>

lemma create_space_cases:
  assumes wf: "vmm_wf s" and c: "vmm_create_address_space s = (p, t)"
  obtains (full) "p = 0" "grows s t" "\<And>b. \<not> pmm_is_page_free (vmm_pmm s) b"
  | (new) "p \<noteq> 0" "p + hhdm_offset s \<noteq> 0" "page_aligned p" "pmm_is_page_free (vmm_pmm s) p" "tables_only s t"
      "pmm_inv (vmm_pmm t)" "managed_pages (vmm_pmm t) = managed_pages (vmm_pmm s)"
      "pmm_is_page_free (vmm_pmm t) = (pmm_is_page_free (vmm_pmm s))(p := False)"
      "\<And>i. i < 512 \<Longrightarrow> vmm_mem t (slot (hhdm_offset s) p i) =
         (if i < 256 then 0 else vmm_mem s (slot (hhdm_offset s) (current_pml4_phys s) i))"
      "\<And>a i. page_aligned a \<Longrightarrow> a \<noteq> p \<Longrightarrow> i < 512 \<Longrightarrow>
         vmm_mem t (slot (hhdm_offset s) a i) = vmm_mem s (slot (hhdm_offset s) a i)"
proof -
  let ?h = "hhdm_offset s" and ?r = "current_pml4_phys s"
  obtain n s1 where n: "create_page_table s = (n, s1)" by fastforce
  note w = vmm_wf_table [OF wf _ tbl.simps(1), simplified]
  have h: "page_aligned ?h" "page_aligned ?r" using vmm_wfD(2) [OF wf] by (auto simp: pt_wf_def)
  from wf n show thesis
  proof (cases rule: create_page_table_cases)
    case full
    with c n show thesis by (intro that(1)) (auto simp: vmm_create_address_space_def vmm_wf_same_mem [OF wf])
  next
    case new
    note f = tables_only_fields [OF new(6)]
    have ne: "?r \<noteq> n" using pt_wfD(4) [OF vmm_wfD(2) [OF wf] _ tbl.simps(1)] new(4) by auto
    have pv: "phys_to_virt s1 ?r = ?r + ?h" "phys_to_virt s1 n = n + ?h"
    proof -
      have "phys_to_virt s1 ?r = phys_to_virt s ?r" by (simp add: phys_to_virt_def f(1))
      then show "phys_to_virt s1 ?r = ?r + ?h" using w(1) by (rule trans)
      show "phys_to_virt s1 n = n + ?h" using new(1) by (simp add: phys_to_virt_def f(1))
    qed
    define ui where "ui = [256..<512 :: nat]"
    have ui: "set ui = {256..<512}" by (simp only: ui_def set_upt)
    have "vmm_create_address_space s = (n, copied (n + ?h) (?r + ?h) ui s1)"
      by (simp only: ui_def vmm_create_address_space_def n copied_def f(2) pv new(1) Let_def prod.case if_False)
    with c have t: "p = n" "t = copied (n + ?h) (?r + ?h) ui s1" by (metis prod.inject)+
    note al = page_aligned_add [OF new(3) h(1)] page_aligned_add [OF h(2,1)]
    have cm: "vmm_mem t x = (if \<exists>i\<in>{256..<512}. x = n + ?h + 8 * of_nat i then vmm_mem s1 (x - (n + ?h) + (?r + ?h)) else vmm_mem s1 x)" for x
    proof -
      have "n + ?h \<noteq> ?r + ?h" "set ui \<subseteq> {..<512}" using ne ui by auto
      from copied_mem [OF al this, of s1 x] show ?thesis unfolding ui t(2) .
    qed
    have z: "vmm_mem s1 (slot ?h a i) = (if a = n then 0 else vmm_mem s (slot ?h a i))" if "page_aligned a" "i < 512" for a i
      using slot_in_page [OF page_aligned_add [OF that(1) h(1)] al(1) that(2)] new(5) by (simp add: slot_def)
    note ex = upper_half_slot [OF _ new(3) h(1)]
    obtain m where m: "t = s1\<lparr>vmm_mem := m\<rparr>" using copied_mem_only t(2) by metis
    have to: "tables_only s t" using tables_only_trans [OF new(6) tables_onlyI(1)] m by simp
    have e1: "vmm_mem t (slot ?h p i) = (if i < 256 then 0 else vmm_mem s (slot ?h ?r i))" if "i < 512" for i
    proof -
      have "slot ?h n i - (n + ?h) + (?r + ?h) = slot ?h ?r i" by (simp add: slot_def)
      then show ?thesis using cm [of "slot ?h n i"] ex [OF new(3) that] z [OF new(3) that] z [OF h(2) that] ne t(1)
        by (auto simp: linorder_not_le [symmetric])
    qed
    have e2: "vmm_mem t (slot ?h a i) = vmm_mem s (slot ?h a i)" if "page_aligned a" "a \<noteq> p" "i < 512" for a i
      using cm [of "slot ?h a i"] ex [OF that(1,3)] z [OF that(1,3)] that(2) t(1) by simp
    show thesis
      using new to m t(1) by (intro that(2) e1 e2) simp_all
  qed
qed


section \<open>Properties of address spaces\<close>

lemma new_space_tbl:
  assumes wf: "pt_wf m h r F" and p: "F p" "page_aligned p"
    and e: "\<And>i. i < 512 \<Longrightarrow> m' (slot h p i) = (if i < 256 then 0 else m (slot h r i))"
    and o: "\<And>a i. page_aligned a \<Longrightarrow> a \<noteq> p \<Longrightarrow> i < 512 \<Longrightarrow> m' (slot h a i) = m (slot h a i)"
  shows "valid_path 3 q \<Longrightarrow> tbl m h r q = Some a \<Longrightarrow> j < 512 \<Longrightarrow> m' (slot h a j) = m (slot h a j)"
    and "valid_path 3 q \<Longrightarrow> tbl m' h r q = tbl m h r q"
    and "valid_path 3 (i # q) \<Longrightarrow> tbl m' h p (i # q) = (if i < 256 then None else tbl m h r (i # q))"
proof -
  show *: "m' (slot h a j) = m (slot h a j)" if "valid_path 3 q" "tbl m h r q = Some a" "j < 512" for q a j
    using o pt_wfD [OF wf that(1,2)] p(1) that(3) by metis
  show **: "tbl m' h r q = tbl m h r q" if "valid_path 3 q" for q
    by (rule tbl_same [OF wf * that])
  assume v: "valid_path 3 (i # q)"
  then have i: "i < 512" by (simp add: valid_path_def)
  have "tbl m' h p (i # q) = (if i < 256 then None else tbl m' h r (i # q))"
    using e [OF i] * [of "[]" r i] i by (simp add: tbl.simps(2) points_to_table_def present_def)
  with ** [OF v] show "tbl m' h p (i # q) = (if i < 256 then None else tbl m h r (i # q))" by simp
qed

lemma new_space_wf:
  assumes wf: "pt_wf m h r F" and p: "F p" "page_aligned p" "p \<noteq> 0" "p + h \<noteq> 0"
    and e: "\<And>i. i < 512 \<Longrightarrow> m' (slot h p i) = (if i < 256 then 0 else m (slot h r i))"
    and o: "\<And>a i. page_aligned a \<Longrightarrow> a \<noteq> p \<Longrightarrow> i < 512 \<Longrightarrow> m' (slot h a i) = m (slot h a i)"
  shows "pt_wf m' h r (F(p := False))" and "pt_wf m' h p (F(p := False))"
proof -
  note N = new_space_tbl [OF wf p(1,2) e o]
  have old: "a \<noteq> p" "a \<noteq> 0" "a + h \<noteq> 0" "\<not> F a" if "valid_path 3 q" "tbl m h r q = Some a" for q a
    using pt_wfD [OF wf that] p(1) by auto
  have inj: "q = q'" if "valid_path 3 q" "valid_path 3 q'" "tbl m h r q = Some a" "tbl m h r q' = Some a" for q q' a
    using pt_wfD(6) [OF wf that(1,3,2,4)] by simp
  have h: "page_aligned h" "page_aligned r" "\<And>i. i < 512 \<Longrightarrow> present (m (slot h r i)) \<Longrightarrow> \<not> huge (m (slot h r i))"
    using wf by (auto simp: pt_wf_def)
  have root: "m' (slot h r i) = m (slot h r i)" if "i < 512" for i using N(1) [of "[]" r i] that by simp
  show "pt_wf m' h r (F(p := False))"
    unfolding pt_wf_def using old inj h by (auto simp: N(2) root)
  have tb: "tbl m' h p q = Some a \<Longrightarrow> (q = [] \<and> a = p) \<or> (q \<noteq> [] \<and> tbl m h r q = Some a)" if "valid_path 3 q" for q a
    using N(3) that by (cases q) (auto split: if_splits)
  show "pt_wf m' h p (F(p := False))"
    unfolding pt_wf_def
  proof (intro conjI allI impI)
    fix q a assume q: "valid_path 3 q" "tbl m' h p q = Some a"
    show "a \<noteq> 0" "a + h \<noteq> 0" "\<not> (F(p := False)) a" using tb [OF q] old [OF q(1)] p by auto
    fix q' assume q': "valid_path 3 q'" "tbl m' h p q' = Some a"
    show "q = q'" using tb [OF q] tb [OF q'] old [OF q(1)] old [OF q'(1)] inj [OF q(1) q'(1)] by blast
  qed (use h p e in \<open>auto simp: present_def\<close>)
qed

text \<open>
  C6. A new address space costs one page; it translates the upper half exactly like the space it was
  created from and maps nothing in the lower half; it is well-formed, also after switching to it, and
  creating it does not disturb the current one. When no page is free the result is the null address.
\<close>

theorem vmm_create_address_space_spec:
  assumes wf: "vmm_wf s" and c: "vmm_create_address_space s = (p, t)"
  shows "vmm_wf t \<and> translation t = translation s \<and>
    (if p = 0 then \<forall>b. \<not> pmm_is_page_free (vmm_pmm s) b
     else pmm_is_page_free (vmm_pmm t) = (pmm_is_page_free (vmm_pmm s))(p := False) \<and> pmm_is_page_free (vmm_pmm s) p \<and>
          cr3 (vmm_switch_address_space p t) = p \<and> vmm_wf (vmm_switch_address_space p t) \<and>
          (\<forall>v. translation (vmm_switch_address_space p t) v = (if PML4_INDEX v < 256 then None else translation s v)))"
  using wf c
proof (cases rule: create_space_cases)
  case full
  then show ?thesis using growsD(2) [OF full(2)] grows_translation [OF full(2)] by auto
next
  case new
  let ?h = "hhdm_offset s" and ?r = "current_pml4_phys s" and ?u = "vmm_switch_address_space p t"
  note f = tables_only_fields [OF new(5)]
  have N1: "vmm_mem t (slot ?h a j) = vmm_mem s (slot ?h a j)" if "valid_path 3 q" "vtbl s q = Some a" "j < 512" for q a j
    by (rule new_space_tbl(1) [OF vmm_wfD(2) [OF wf] new(4,3,9,10) that])
  have N2: "tbl (vmm_mem t) ?h ?r q = vtbl s q" if "valid_path 3 q" for q
    by (rule new_space_tbl(2) [OF vmm_wfD(2) [OF wf] new(4,3,9,10) that])
  have N3: "tbl (vmm_mem t) ?h p (i # q) = (if i < 256 then None else vtbl s (i # q))" if "valid_path 3 (i # q)" for i q
    by (rule new_space_tbl(3) [OF vmm_wfD(2) [OF wf] new(4,3,9,10) that])
  have W: "pt_wf (vmm_mem t) ?h ?r (pmm_is_page_free (vmm_pmm t))" "pt_wf (vmm_mem t) ?h p (pmm_is_page_free (vmm_pmm t))"
    unfolding new(8)
    by (rule new_space_wf(1) [OF vmm_wfD(2) [OF wf] new(4,3,1,2,9,10)], assumption+,
        rule new_space_wf(2) [OF vmm_wfD(2) [OF wf] new(4,3,1,2,9,10)])
  have "p \<noteq> ?r" using pt_wfD(4) [OF vmm_wfD(2) [OF wf] _ tbl.simps(1)] new(4) by auto
  then have u: "?u = t\<lparr>current_pml4_phys := p, cr3 := p\<rparr>"
    using new(1) f by (simp add: vmm_switch_address_space_def write_cr3_def)
  have "vmm_wf t" "vmm_wf ?u" using W new(6,7,8) vmm_wfD(3) [OF wf] by (simp_all add: vmm_wf_def u f)
  moreover have pt: "vpte t q j = vpte s q j" if "valid_path 3 q" "j < 512" for q j
    using N1 [OF that(1)] N2 [OF that(1)] that(2) by (auto simp: pte_def f map_option_case split: option.splits)
  then have "translation t = translation s"
    by (auto simp: fun_eq_iff translation_def leaf_at_def cong: option.case_cong)
  moreover have pu: "vpte ?u (i # q) j = (if i < 256 then None else vpte s (i # q) j)" if "valid_path 3 (i # q)" "j < 512" for i q j
    using N3 [OF that(1)] N1 [OF that(1)] that(2) by (auto simp: pte_def u f map_option_case split: option.splits)
  then have "leaf_at ?u (i # q) j = (if i < 256 then None else leaf_at s (i # q) j)" if "valid_path 3 (i # q)" "j < 512" for i q j
    using that by (simp add: leaf_at_def)
  then have "translation ?u v = (if PML4_INDEX v < 256 then None else translation s v)" for v
    by (simp add: translation_def cong: option.case_cong)
  ultimately show ?thesis using new u by simp
qed

lemma translation_pmm: "translation (t\<lparr>vmm_pmm := x\<rparr>) = translation t"
proof -
  have "leaf_at (t\<lparr>vmm_pmm := x\<rparr>) = leaf_at t" by (simp add: leaf_at_def fun_eq_iff)
  then show ?thesis unfolding translation_def by (simp only:)
qed


theorem vmm_create_address_space_spec_witness:
  "vmm_wf (snd (vmm_create_address_space vmm_demo1)) \<and>
   translation (snd (vmm_create_address_space vmm_demo1)) 0x400000 = Some (Page_4K, 0x200003)"
  using vmm_create_address_space_spec [OF vmm_demo1_props(1) prod.collapse [symmetric]] vmm_demo1_props(2) by simp

lemma vmm_demo_create: "fst (vmm_create_address_space vmm_demo) = 0x100000"
proof -
  have "fst (create_page_table vmm_demo) = 0x100000"
    by (simp add: create_page_table_def vmm_demo_def demo_alloc zero_bitmap_test Let_def)
  then obtain s1 where "create_page_table vmm_demo = (0x100000, s1)" by (metis prod.collapse)
  then show ?thesis by (simp only: vmm_create_address_space_def Let_def prod.case fst_conv if_distrib [of fst]) simp
qed



section \<open>The area allocator\<close>

lemma tables_only_prims:
  "tables_only s (wr a i v s)" "tables_only s (invlpg a s)" "tables_only s (zero_page a s)"
  by (simp_all add: wr_def invlpg_def zero_page_def tables_onlyI)

lemma tables_only_step:
  assumes "tables_only s t"
  shows "tables_only s (wr a i v t)" "tables_only s (invlpg a t)" "tables_only s (zero_page a t)" "tables_only s (t\<lparr>vmm_pmm := p\<rparr>)"
  using tables_only_trans [OF assms] tables_only_prims tables_onlyI(2) by blast+

lemma create_page_table_only: "tables_only s (snd (create_page_table s))"
proof -
  obtain a pm where a: "pmm_alloc_page (vmm_pmm s) = (a, pm)" by fastforce
  show ?thesis
    using tables_only_trans [OF tables_onlyI(2) [of s pm] tables_only_prims(3)] tables_onlyI(2) [of s pm]
    by (simp add: create_page_table_def a Let_def)
qed

lemma ensure_table_only: "tables_only s (snd (ensure_table v a i s))"
proof -
  obtain n s1 where c: "create_page_table s = (n, s1)" by fastforce
  then have "tables_only s s1" using create_page_table_only [of s] by simp
  then show ?thesis
    by (simp add: ensure_table_def c Let_def tables_only_step)
qed

lemma map_page_internal_only: "tables_only s (snd (map_page_internal r v p fl s))"
proof -
  have E: "ensure_table v a i s = (ok, t) \<Longrightarrow> tables_only s t" for v a i s ok t
    using ensure_table_only [of s v a i] by simp
  let ?v = "v AND PAGE_ADDR_MASK"
  obtain ok1 s1 where 1: "ensure_table ?v (phys_to_virt s r) (PML4_INDEX v) s = (ok1, s1)" by fastforce
  let ?a1 = "phys_to_virt s1 (rd s1 (phys_to_virt s r) (PML4_INDEX v) AND PAGE_ADDR_MASK)"
  obtain ok2 s2 where 2: "ensure_table ?v ?a1 (PDPT_INDEX v) s1 = (ok2, s2)" by fastforce
  let ?a2 = "phys_to_virt s2 (rd s2 ?a1 (PDPT_INDEX v) AND PAGE_ADDR_MASK)"
  obtain ok3 s3 where 3: "ensure_table ?v ?a2 (PD_INDEX v) s2 = (ok3, s3)" by fastforce
  note T1 = E [OF 1] and T2 = tables_only_trans [OF E [OF 1] E [OF 2]]
  note T3 = tables_only_trans [OF T2 E [OF 3]]
  show ?thesis
    by (simp add: map_page_internal_def Let_def 1 2 3 T1 T2 T3 tables_only_step)
qed

lemma vmm_map_page_only: "tables_only s (snd (vmm_map_page v p fl s))"
  by (simp add: vmm_map_page_def map_page_internal_only)

lemma vmm_unmap_page_only: "tables_only s (snd (vmm_unmap_page v s))"
  unfolding vmm_unmap_page_def Let_def by (auto intro: tables_only_trans tables_only_prims)

lemma release_pages_only: "tables_only s (release_pages b i s)"
proof -
  have "tables_only s (release_page a s)" for a s
    using tables_only_trans [OF vmm_unmap_page_only tables_onlyI(2)] by (simp add: release_page_def Let_def)
  then have "tables_only s (fold (\<lambda>j t. release_page (f j) t) is s)" for f and "is" :: "nat list"
    by (induction "is" arbitrary: s) (auto intro: tables_only_trans)
  then show ?thesis by (simp add: release_pages_def)
qed

lemma allocate_loop_only: "tables_only s (snd (allocate_loop area fl is s))"
proof (induction "is" arbitrary: s)
  case (Cons i "is")
  obtain p pm where p: "pmm_alloc_page (vmm_pmm s) = (p, pm)" by fastforce
  let ?s1 = "s\<lparr>vmm_pmm := pm\<rparr>"
  obtain ok s2 where m: "vmm_map_page (area_base area + of_nat i * PAGE_SIZE_4K) p (fl OR ucast (area_flags area)) ?s1 = (ok, s2)"
    by fastforce
  have 2: "tables_only s s2"
    using tables_only_trans [OF tables_onlyI(2) [of s pm] vmm_map_page_only [of ?s1]] m by (metis snd_conv)
  show ?case
    using 2 tables_only_trans [OF tables_onlyI(2) [of s pm] release_pages_only]
      tables_only_trans [OF tables_only_trans [OF 2 tables_onlyI(2)] release_pages_only]
      tables_only_trans [OF tables_only_trans [OF 2 tables_only_prims(3)] Cons.IH]
    by (simp add: p m Let_def)
qed simp

text \<open>The effect of an allocation on the area tables.\<close>

lemma set_area_used_areas:
  "areas_of k (set_area_used user i u s) =
     (if k = user then ((fst (areas_of k s))[i := (fst (areas_of k s) ! i)\<lparr>area_is_used := u\<rparr>], snd (areas_of k s)) else areas_of k s)"
  by (auto simp: areas_of_def set_area_used_def)

lemma tables_only_areas: "tables_only s t \<Longrightarrow> areas_of k t = areas_of k s"
  by (simp add: areas_of_def tables_only_fields)

lemma vmm_allocate_eq:
  assumes "sz \<noteq> 0" "areas_of (fl AND VMM_FLAG_USER \<noteq> 0) s = (areas, count)"
  shows "vmm_allocate sz fl s =
    (case find_free_area areas count (page_round sz) of
       None \<Rightarrow> (0, s)
     | Some k \<Rightarrow>
         (case allocate_loop (areas ! k) fl [0..<unat (page_round sz div PAGE_SIZE_4K)]
                 (set_area_used (fl AND VMM_FLAG_USER \<noteq> 0) k True s) of
            (False, s1) \<Rightarrow> (0, set_area_used (fl AND VMM_FLAG_USER \<noteq> 0) k False s1)
          | (True, s1) \<Rightarrow> (area_base (areas ! k), s1\<lparr>vmm_stats := (vmm_stats s1)\<lparr>pages_allocated :=
              pages_allocated (vmm_stats s1) + page_round sz div PAGE_SIZE_4K\<rparr>\<rparr>)))"
  using assms(1) by (simp only: vmm_allocate_def Let_def assms(2) prod.case if_False)

lemma vmm_allocate_effect:
  assumes a: "vmm_allocate sz fl s = (b, t)" and user: "user = (fl AND VMM_FLAG_USER \<noteq> 0)"
    and areas: "areas_of user s = (areas, count)"
  shows "areas_of (\<not> user) t = areas_of (\<not> user) s \<and>
    (areas_of user t = areas_of user s \<and> b = 0 \<or>
     (\<exists>k < min count (length areas). \<not> area_is_used (areas ! k) \<and> page_round sz \<le> area_size (areas ! k) \<and> b = area_base (areas ! k) \<and>
        areas_of user t = (areas[k := (areas ! k)\<lparr>area_is_used := True\<rparr>], count)))"
proof (cases "sz = 0 \<or> find_free_area areas count (page_round sz) = None")
  case True
  then have "b = 0" "t = s" using a vmm_allocate_eq [of sz fl s areas count] areas user
    by (auto simp: vmm_allocate_def split: if_splits)
  then show ?thesis by simp
next
  case False
  then obtain k where k: "sz \<noteq> 0" "find_free_area areas count (page_round sz) = Some k" by auto
  then have "k < length (take count areas)" "\<not> area_is_used (take count areas ! k)" "page_round sz \<le> area_size (take count areas ! k)"
    by (auto simp: find_free_area_def slot_simps)
  then have kk: "k < min count (length areas)" "\<not> area_is_used (areas ! k)" "page_round sz \<le> area_size (areas ! k)" by auto
  let ?s = "set_area_used user k True s"
  obtain ok s1 where l: "allocate_loop (areas ! k) fl [0..<unat (page_round sz div PAGE_SIZE_4K)] ?s = (ok, s1)" by fastforce
  have s1: "areas_of x s1 = areas_of x ?s" for x
    using tables_only_areas [OF allocate_loop_only] l by (metis snd_conv)
  show ?thesis
  proof (cases ok)
    case True
    with a k l user areas vmm_allocate_eq [of sz fl s areas count]
    have b: "b = area_base (areas ! k)" "areas_of x t = areas_of x s1" for x
      by (auto simp: areas_of_def)
    show ?thesis using b s1 kk areas by (auto simp: set_area_used_areas)
  next
    case False
    with a k l user areas vmm_allocate_eq [of sz fl s areas count]
    have b: "b = 0" "t = set_area_used user k False s1" by auto
    have "(areas ! k)\<lparr>area_is_used := False\<rparr> = areas ! k" using kk(2) by (cases "areas ! k") simp
    then show ?thesis using b s1 kk(1) areas by (simp add: set_area_used_areas)
  qed
qed

text \<open>
  C8. Allocation of virtual memory: a successful call returns the base of an area that was not in use
  and is large enough, marks exactly this area as used and leaves all other areas alone; a failing
  call leaves every area as it was. So an area is never handed out twice.
\<close>

theorem vmm_allocate_areas:
  assumes "vmm_allocate sz fl s = (b, t)" "areas_of (fl AND VMM_FLAG_USER \<noteq> 0) s = (areas, count)"
  shows "areas_of (fl AND VMM_FLAG_USER = 0) t = areas_of (fl AND VMM_FLAG_USER = 0) s \<and>
    (areas_of (fl AND VMM_FLAG_USER \<noteq> 0) t = (areas, count) \<and> b = 0 \<or>
     (\<exists>k < min count (length areas). \<not> area_is_used (areas ! k) \<and> page_round sz \<le> area_size (areas ! k) \<and> b = area_base (areas ! k) \<and>
        areas_of (fl AND VMM_FLAG_USER \<noteq> 0) t = (areas[k := (areas ! k)\<lparr>area_is_used := True\<rparr>], count)))"
  using vmm_allocate_effect [OF assms(1) refl assms(2)] assms(2) by simp

text \<open>Areas after \<open>vmm_init\<close>: one of each kind.\<close>

definition init_demo :: vmm_state where
  "init_demo = vmm_init None None 0 vmm_demo"

lemma init_demo_areas:
  "areas_of True init_demo = ((replicate 32 empty_area)[0 := \<lparr>area_base = 0x400000, area_size = 0x10000000, area_is_used = False, area_flags = 7\<rparr>], 1)"
  by (simp add: init_demo_def vmm_init_def areas_of_def vmm_demo_def register_memory_area_def MAX_MEMORY_AREAS_def vmm_flag_defs Let_def)

theorem vmm_allocate_areas_witness:
  "areas_of False (snd (vmm_allocate 0x1000 4 init_demo)) = areas_of False init_demo"
  using vmm_allocate_areas [of "0x1000" 4 init_demo, OF prod.collapse [symmetric]] init_demo_areas
  by (simp add: vmm_flag_defs)

text \<open>
  With a single area of a kind, which is what \<open>vmm_init\<close> registers, the first successful
  allocation takes the whole area whatever its size, and every further allocation of that kind
  fails until it is freed.
\<close>

theorem vmm_single_area_exhausted:
  assumes "vmm_allocate sz fl s = (b, t)" "b \<noteq> 0" "snd (areas_of (fl AND VMM_FLAG_USER \<noteq> 0) s) = 1"
    and "(fl' AND VMM_FLAG_USER \<noteq> 0) = (fl AND VMM_FLAG_USER \<noteq> 0)"
  shows "vmm_allocate sz' fl' t = (0, t)"
proof -
  obtain areas where ar: "areas_of (fl AND VMM_FLAG_USER \<noteq> 0) s = (areas, 1)" using assms(3) by (metis prod.collapse)
  from vmm_allocate_effect [OF assms(1) refl ar] assms(2) obtain k where
    k: "k < min 1 (length areas)" "areas_of (fl AND VMM_FLAG_USER \<noteq> 0) t = (areas[k := (areas ! k)\<lparr>area_is_used := True\<rparr>], 1)"
    by auto
  obtain x xs where x: "areas = x # xs" using k(1) by (cases areas) auto
  have "find_free_area (areas[k := (areas ! k)\<lparr>area_is_used := True\<rparr>]) 1 z = None" for z
    using k(1) x by (simp add: find_free_area_def slot_simps)
  then show ?thesis using k(2) vmm_allocate_eq [of sz' fl' t] assms(4) by (cases "sz' = 0") (auto simp: vmm_allocate_def)
qed

lemma hw_flags_addr:
  "hw_flags s fl AND PAGE_ADDR_MASK =
     (if fl AND VMM_FLAG_NO_EXECUTE \<noteq> 0 \<and> using_nx (vmm_config s) then PAGE_NO_EXECUTE else 0)"
  by (simp add: hw_flags_def vmm_flag_defs bit.conj_disj_distrib2 PAGE_ADDR_MASK_def)

text \<open>
  After a successful mapping of a small page below the direct map, the recorded physical address
  is the frame plus the page offset, except that a page mapped non-executable is reported with bit
  63 set, since the address mask of the code keeps that bit.
\<close>

theorem vmm_map_get_physical:
  assumes "vmm_wf s" "virt \<noteq> 0" "phys \<noteq> 0" "fl AND VMM_FLAG_HUGE = 0" "virt < hhdm_offset s"
    and "\<forall>k e. translation s virt = Some (k, e) \<longrightarrow> k = Page_4K"
    and "vmm_map_page virt phys fl s = (True, t)"
  shows "vmm_is_mapped t virt \<and> vmm_get_physical_address t virt =
    ((phys AND PAGE_ADDR_MASK) OR
       (if fl AND VMM_FLAG_NO_EXECUTE \<noteq> 0 \<and> using_nx (vmm_config s) then PAGE_NO_EXECUTE else 0)) + (virt AND 0xFFF)"
  using assms(1-4,6,7)
proof (cases rule: vmm_map_page_cases)
  case mapped
  have h: "virt < hhdm_offset t" using assms(5) tables_only_fields [OF mapped(3)] by simp
  have "translation t virt = Some (Page_4K, (phys AND PAGE_ADDR_MASK) OR hw_flags s fl)"
    using mapped(6) by (simp add: same_page_def)
  moreover have "((phys AND PAGE_ADDR_MASK) OR hw_flags s fl) AND PAGE_ADDR_MASK = (phys AND PAGE_ADDR_MASK) OR (hw_flags s fl AND PAGE_ADDR_MASK)"
    by (simp add: bit.conj_disj_distrib2 and.assoc)
  ultimately show ?thesis
    using virt_to_phys_translation [OF mapped(2) h] vmm_is_mapped_translation [OF mapped(2) h]
    by (simp add: vmm_get_physical_address_def hw_flags_addr)
qed simp

lemma vmm_demo_mapped_nx: "fst (vmm_map_page 0x400000 0x200000 0x8000000000000003 vmm_demo)"
  unfolding vmm_map_page_def map_page_internal_def vmm_demo_def
  by (simp add: demo_eval hw_flags_def)

theorem vmm_map_get_physical_witness:
  "vmm_get_physical_address (snd (vmm_map_page 0x400000 0x200000 0x8000000000000003 vmm_demo)) 0x400000 = 0x8000000000200000"
proof -
  have m: "vmm_map_page 0x400000 0x200000 0x8000000000000003 vmm_demo =
      (True, snd (vmm_map_page 0x400000 0x200000 0x8000000000000003 vmm_demo))"
    using vmm_demo_mapped_nx by (auto simp: prod_eq_iff)
  have h: "(0x400000 :: u64) < hhdm_offset vmm_demo" by (simp add: vmm_demo_def)
  have n: "using_nx (vmm_config vmm_demo)" by (simp add: vmm_demo_def)
  have g: "(0x8000000000000003 :: u64) AND VMM_FLAG_HUGE = 0" by (simp add: vmm_flag_defs)
  show ?thesis
    using vmm_map_get_physical [OF vmm_demo_wf vmm_demo_map_hyps(1,2) g h vmm_demo_map_hyps(4) m] n
    by (simp add: vmm_flag_defs PAGE_ADDR_MASK_def)
qed

lemma init_demo_allocated: "fst (vmm_allocate 0x1000 4 init_demo) = 0x400000"
proof -
  have "page_round 0x1000 = 0x1000" by (simp add: page_round_def PAGE_SIZE_4K_def)
  moreover have "find_free_area (fst (areas_of True init_demo)) 1 0x1000 = Some 0"
    by (simp add: init_demo_areas find_free_area_def slot_simps)
  moreover have "fst (allocate_loop (fst (areas_of True init_demo) ! 0) 4 [0] (set_area_used True 0 True init_demo))"
    by (simp add: init_demo_areas set_area_used_def)
       (simp add: init_demo_def vmm_init_def vmm_demo_def register_memory_area_def MAX_MEMORY_AREAS_def read_cr3_def
          demo_eval hw_flags_def vmm_map_page_def map_page_internal_def invlpg_def)
  ultimately show ?thesis
    using vmm_allocate_eq [of "0x1000" 4 init_demo] init_demo_areas
    by (auto simp: vmm_flag_defs split: prod.splits)
qed

theorem vmm_single_area_exhausted_witness:
  "fst (vmm_allocate 0x1000 4 (snd (vmm_allocate 0x1000 4 init_demo))) = 0"
  using vmm_single_area_exhausted [of "0x1000" 4 init_demo, OF prod.collapse [symmetric], of 4 "0x1000"]
    init_demo_allocated init_demo_areas
  by (simp add: vmm_flag_defs)

text \<open>
  The window that \<open>vmm_map_physical\<close> chooses for device memory between 2 and 4 GiB, where PCI
  devices live, wraps around: it lies in the lower 2 GiB, the user half, and not in the higher half as
  the comment says. Above 4 GiB the window only depends on the low 32 bits, so that different
  devices share it.
\<close>

theorem physical_window_wraps:
  "(0x80000000 \<le> p \<and> p < 0x100000000 \<longrightarrow> physical_window p = p - 0x80000000 \<and> physical_window p < 0x80000000) \<and>
   (0x100000000 \<le> p \<and> 0x100000000 \<le> q \<and> p AND 0xFFFFFFFF = q AND 0xFFFFFFFF \<longrightarrow> physical_window p = physical_window q)"
proof (intro conjI impI)
  assume p: "0x80000000 \<le> p \<and> p < 0x100000000"
  then have "physical_window p = p + KERNEL_VIRTUAL_BASE" by (auto simp: physical_window_def)
  also have "\<dots> = p - 0x80000000" by (simp add: KERNEL_VIRTUAL_BASE_def)
  finally show e: "physical_window p = p - 0x80000000" .
  have "unat (p - 0x80000000) = unat p - 0x80000000" using p by (simp add: unat_sub)
  then show "physical_window p < 0x80000000" using p by (auto simp: e word_less_nat_alt word_le_nat_alt)
qed (simp add: physical_window_def)

theorem physical_window_wraps_witness: "physical_window 0xFEB00000 = 0x7EB00000"
  using physical_window_wraps [of "0xFEB00000"] by simp

end
