(* ===== verification/Kstring.thy ===== *)
theory Kstring
  imports Prelude "HOL-Library.Sublist"
begin

text \<open>
  Memory and string routines, \<open>src/src/src/kstd/string.c\<close>, on a byte-addressed memory: a pointer is a
  64-bit address, pointer arithmetic wraps. Loops that look for a terminating zero byte are partial:
  \<open>None\<close> is a search that never ends. The theorems describe the routines by what they do to
  memory regions and, for strings, by the list of bytes before the terminator.
\<close>

section \<open>Memory\<close>

type_synonym mem = "u64 \<Rightarrow> u8"

definition copy_byte :: "u64 \<Rightarrow> u64 \<Rightarrow> nat \<Rightarrow> mem \<Rightarrow> mem" where
  "copy_byte dest src i m = m(dest + of_nat i := m (src + of_nat i))"

definition memmove :: "u64 \<Rightarrow> u64 \<Rightarrow> u64 \<Rightarrow> mem \<Rightarrow> mem" where
  "memmove dest src n m =
     (if src > dest then fold (copy_byte dest src) [0..<unat n] m
      else if src < dest then fold (copy_byte dest src) (rev [0..<unat n]) m
      else m)"

definition memcpy :: "u64 \<Rightarrow> u64 \<Rightarrow> u64 \<Rightarrow> mem \<Rightarrow> mem" where
  "memcpy dest src n m =
     (if (dest \<le> src \<and> dest + n > src) \<or> (src \<le> dest \<and> src + n > dest) then memmove dest src n m
      else fold (copy_byte dest src) [0..<unat n] m)"

definition memset :: "u64 \<Rightarrow> u8 \<Rightarrow> u64 \<Rightarrow> mem \<Rightarrow> mem" where
  "memset s c n m = fold (\<lambda>i m. m(s + of_nat i := c)) [0..<unat n] m"

fun memcmp_loop :: "mem \<Rightarrow> u64 \<Rightarrow> u64 \<Rightarrow> nat \<Rightarrow> int" where
  "memcmp_loop m p1 p2 0 = 0"
| "memcmp_loop m p1 p2 (Suc n) =
     (if m p1 \<noteq> m p2 then (if m p1 < m p2 then - 1 else 1) else memcmp_loop m (p1 + 1) (p2 + 1) n)"

definition memcmp :: "mem \<Rightarrow> u64 \<Rightarrow> u64 \<Rightarrow> u64 \<Rightarrow> int" where
  "memcmp m s1 s2 n = memcmp_loop m s1 s2 (unat n)"

section \<open>Strings\<close>

partial_function (option) strcpy_loop :: "u64 \<Rightarrow> u64 \<Rightarrow> mem \<Rightarrow> mem option" where
  "strcpy_loop dest src m =
     (if m src \<noteq> 0 then strcpy_loop (dest + 1) (src + 1) (m(dest := m src)) else Some (m(dest := 0)))"

definition strcpy :: "u64 \<Rightarrow> u64 \<Rightarrow> mem \<Rightarrow> mem option" where
  "strcpy dest src m = strcpy_loop dest src m"

fun strncpy_loop :: "u64 \<Rightarrow> u64 \<Rightarrow> nat \<Rightarrow> nat \<Rightarrow> mem \<Rightarrow> mem" where
  "strncpy_loop dest src 0 i m = m"
| "strncpy_loop dest src (Suc k) i m =
     (if m (src + of_nat i) \<noteq> 0 then strncpy_loop dest src k (i + 1) (copy_byte dest src i m)
      else fold (\<lambda>j m. m(dest + of_nat j := 0)) [i..<i + Suc k] m)"

definition strncpy :: "u64 \<Rightarrow> u64 \<Rightarrow> u64 \<Rightarrow> mem \<Rightarrow> mem" where
  "strncpy dest src n m = strncpy_loop dest src (unat n) 0 m"

partial_function (option) find_nul :: "mem \<Rightarrow> u64 \<Rightarrow> u64 option" where
  "find_nul m s = (if m s \<noteq> 0 then find_nul m (s + 1) else Some s)"

definition strlen :: "mem \<Rightarrow> u64 \<Rightarrow> u64 option" where
  "strlen m str = map_option (\<lambda>s. s - str) (find_nul m str)"

partial_function (option) strcmp :: "mem \<Rightarrow> u64 \<Rightarrow> u64 \<Rightarrow> int option" where
  "strcmp m str1 str2 =
     (if m str1 \<noteq> 0 \<and> m str1 = m str2 then strcmp m (str1 + 1) (str2 + 1)
      else Some (uint (m str1) - uint (m str2)))"

definition strcat :: "u64 \<Rightarrow> u64 \<Rightarrow> mem \<Rightarrow> mem option" where
  "strcat dest src m = Option.bind (find_nul m dest) (\<lambda>d. strcpy_loop d src m)"

text \<open>The inner loop of \<open>strstr\<close>: whether the end of the needle is reached.\<close>

partial_function (option) strstr_match :: "mem \<Rightarrow> u64 \<Rightarrow> u64 \<Rightarrow> bool option" where
  "strstr_match m h_pos n_pos =
     (if m h_pos \<noteq> 0 \<and> m n_pos \<noteq> 0 \<and> m h_pos = m n_pos then strstr_match m (h_pos + 1) (n_pos + 1)
      else Some (m n_pos = 0))"

partial_function (option) strstr_loop :: "mem \<Rightarrow> u64 \<Rightarrow> u64 \<Rightarrow> u64 option option" where
  "strstr_loop m h needle =
     (if m h = 0 then Some None
      else case strstr_match m h needle of
             None \<Rightarrow> None
           | Some found \<Rightarrow> if found then Some (Some h) else strstr_loop m (h + 1) needle)"

definition strstr :: "mem \<Rightarrow> u64 \<Rightarrow> u64 \<Rightarrow> u64 option option" where
  "strstr m haystack needle = (if m needle = 0 then Some (Some haystack) else strstr_loop m haystack needle)"

partial_function (option) strchr_loop :: "mem \<Rightarrow> u64 \<Rightarrow> u8 \<Rightarrow> u64 option option" where
  "strchr_loop m str c =
     (if m str = 0 then Some (if c = 0 then Some str else None)
      else if m str = c then Some (Some str)
      else strchr_loop m (str + 1) c)"

definition strchr :: "mem \<Rightarrow> u64 \<Rightarrow> 32 word \<Rightarrow> u64 option option" where
  "strchr m str ch = strchr_loop m str (ucast ch)"

text \<open>
  \<open>atoi\<close>: the digits are accumulated in a signed 32-bit integer, whose overflow is undefined; the model
  keeps the low 32 bits, as the machine instructions do.
\<close>

partial_function (option) skip_blanks :: "mem \<Rightarrow> u64 \<Rightarrow> u64 option" where
  "skip_blanks m str = (if m str = 0x20 \<or> m str = 0x09 \<or> m str = 0x0A then skip_blanks m (str + 1) else Some str)"

partial_function (option) digits :: "mem \<Rightarrow> u64 \<Rightarrow> 32 word \<Rightarrow> 32 word option" where
  "digits m str result =
     (if 0x30 \<le> m str \<and> m str \<le> 0x39 then digits m (str + 1) (result * 10 + (ucast (m str) - 0x30)) else Some result)"

definition atoi :: "mem \<Rightarrow> u64 \<Rightarrow> 32 word option" where
  "atoi m str =
     (case skip_blanks m str of
        None \<Rightarrow> None
      | Some p \<Rightarrow> if m p = 0x2D then map_option uminus (digits m (p + 1) 0)
                  else digits m (if m p = 0x2B then p + 1 else p) 0)"

section \<open>Copying regions\<close>

definition in_region :: "u64 \<Rightarrow> nat \<Rightarrow> u64 \<Rightarrow> bool" where
  "in_region p n a \<longleftrightarrow> unat p \<le> unat a \<and> unat a < unat p + n"

definition region_copied :: "u64 \<Rightarrow> u64 \<Rightarrow> nat \<Rightarrow> mem \<Rightarrow> mem" where
  "region_copied dest src n m = (\<lambda>a. if in_region dest n a then m (src + (a - dest)) else m a)"

lemma in_region_offset:
  assumes "unat p + n \<le> 2 ^ 64"
  shows "in_region p n a \<longleftrightarrow> (\<exists>i<n. a = p + of_nat i)"
proof
  assume "in_region p n a"
  then have r: "unat p \<le> unat a" "unat a < unat p + n" by (simp_all add: in_region_def)
  have "unat (p + of_nat (unat a - unat p)) = unat a" using r assms by (subst unat_offset) auto
  with r show "\<exists>i<n. a = p + of_nat i" by (intro exI [of _ "unat a - unat p"]) (simp add: word_unat_eq_iff)
next
  assume "\<exists>i<n. a = p + of_nat i"
  with assms show "in_region p n a" by (auto simp: in_region_def unat_offset)
qed

lemma region_copied_offset:
  "unat dest + n \<le> 2 ^ 64 \<Longrightarrow> i < n \<Longrightarrow> region_copied dest src n m (dest + of_nat i) = m (src + of_nat i)"
  by (auto simp: region_copied_def in_region_offset)

lemma copy_ascending:
  assumes "unat dest + n \<le> 2 ^ 64" "unat src + n \<le> 2 ^ 64" and "unat dest \<le> unat src \<or> unat src + n \<le> unat dest"
  shows "fold (copy_byte dest src) [0..<n] m = region_copied dest src n m"
  using assms
proof (induction n)
  case 0
  then show ?case by (auto simp: region_copied_def in_region_def fun_eq_iff)
next
  case (Suc n)
  have "\<not> in_region dest n (src + of_nat n)" using Suc.prems by (auto simp: in_region_def unat_offset)
  then have s: "region_copied dest src n m (src + of_nat n) = m (src + of_nat n)" by (simp add: region_copied_def)
  have "fold (copy_byte dest src) [0..<Suc n] m = copy_byte dest src n (region_copied dest src n m)"
    using Suc by auto
  also have "\<dots> = region_copied dest src (Suc n) m"
  proof
    fix a
    have u: "unat (dest + of_nat n) = unat dest + n" using Suc.prems by (simp add: unat_offset)
    then have "in_region dest (Suc n) a \<longleftrightarrow> a = dest + of_nat n \<or> in_region dest n a"
      by (auto simp: in_region_def word_unat_eq_iff)
    then show "copy_byte dest src n (region_copied dest src n m) a = region_copied dest src (Suc n) m a"
      using s by (cases "a = dest + of_nat n") (simp_all add: copy_byte_def region_copied_def)
  qed
  finally show ?case .
qed

lemma copy_descending:
  assumes "k \<le> n" "unat dest + n \<le> 2 ^ 64" "unat src < unat dest"
  shows "fold (copy_byte dest src) (rev [k..<n]) m = (\<lambda>a. if in_region (dest + of_nat k) (n - k) a \<and> k < n then m (src + (a - dest)) else m a)"
  using assms(1)
proof (induction rule: inc_induct)
  case base
  then show ?case by simp
next
  case (step k)
  let ?f = "\<lambda>k a. if in_region (dest + of_nat k) (n - k) a \<and> k < n then m (src + (a - dest)) else m a"
  have u: "unat (dest + of_nat k) = unat dest + k" "unat (src + of_nat k) = unat src + k"
    using step.hyps assms by (simp_all add: unat_offset)
  have u1: "Suc k < n \<Longrightarrow> unat (dest + of_nat (Suc k)) = unat dest + Suc k"
    using assms by (intro unat_offset) simp
  have "fold (copy_byte dest src) (rev [k..<n]) m = copy_byte dest src k (?f (Suc k))"
    using step by (simp add: upt_rec [of k n])
  also have "\<dots> = ?f k"
  proof
    fix a
    have s: "?f (Suc k) (src + of_nat k) = m (src + of_nat k)"
      using assms u u1 by (auto simp: in_region_def)
    have r: "in_region (dest + of_nat k) (n - k) a \<longleftrightarrow> a = dest + of_nat k \<or> (Suc k < n \<and> in_region (dest + of_nat (Suc k)) (n - Suc k) a)"
      using u u1 step.hyps by (auto simp: in_region_def word_unat_eq_iff)
    show "copy_byte dest src k (?f (Suc k)) a = ?f k a"
      using s r step.hyps by (auto simp: copy_byte_def)
  qed
  finally show ?case .
qed

lemma memmove_copied:
  assumes "unat dest + unat n \<le> 2 ^ 64" "unat src + unat n \<le> 2 ^ 64"
  shows "memmove dest src n m = region_copied dest src (unat n) m"
proof -
  consider "src > dest" | "src < dest" | "src = dest" by (rule linorder_cases)
  then show ?thesis
  proof cases
    case 1
    then show ?thesis using assms copy_ascending [of dest "unat n" src m] by (simp add: memmove_def word_less_nat_alt)
  next
    case 2
    then have "unat src < unat dest" by (simp add: word_less_nat_alt)
    with 2 assms copy_descending [of 0 "unat n" dest src m] show ?thesis
      by (auto simp: memmove_def region_copied_def in_region_def)
  next
    case 3
    then show ?thesis by (auto simp: memmove_def region_copied_def)
  qed
qed

lemma memcpy_copied:
  assumes d: "unat dest + unat n \<le> 2 ^ 64" and s: "unat src + unat n \<le> 2 ^ 64"
  shows "memcpy dest src n m = region_copied dest src (unat n) m"
proof (cases "(dest \<le> src \<and> dest + n > src) \<or> (src \<le> dest \<and> src + n > dest)")
  case True
  then show ?thesis using memmove_copied [OF assms] by (simp only: memcpy_def if_True)
next
  case False
  have "unat dest \<le> unat src \<or> unat src + unat n \<le> unat dest"
  proof (rule ccontr)
    assume c: "\<not> ?thesis"
    then have "unat src + unat n < 2 ^ 64" using d by linarith
    then have "unat (src + n) = unat src + unat n" by (simp add: unat_word_ariths)
    with False c show False by (auto simp: word_le_nat_alt word_less_nat_alt)
  qed
  with assms False show ?thesis by (simp only: memcpy_def if_False copy_ascending)
qed

text \<open>
  C35. Copying: both routines, whichever way the regions overlap, leave in the destination the bytes the
  source had before and change nothing else, as long as neither region runs past the end of the
  address space; in particular \<open>memcpy\<close> always equals \<open>memmove\<close>.
\<close>

theorem memcpy_memmove:
  assumes "unat dest + unat n \<le> 2 ^ 64" "unat src + unat n \<le> 2 ^ 64"
  shows "memcpy dest src n m = memmove dest src n m \<and> memmove dest src n m =
    (\<lambda>a. if unat dest \<le> unat a \<and> unat a < unat dest + unat n then m (src + (a - dest)) else m a)"
  using memcpy_copied [OF assms] memmove_copied [OF assms] by (simp add: region_copied_def in_region_def)

theorem memcpy_memmove_witness:
  "memcpy 0x1002 0x1000 4 (\<lambda>a. ucast a) 0x1005 = 3 \<and> memmove 0x1002 0x1000 4 (\<lambda>a. ucast a) 0x1006 = 6"
  using memcpy_memmove [of "0x1002" 4 "0x1000" "\<lambda>a. ucast a"] by simp

lemma memset_region:
  assumes "unat s + unat n \<le> 2 ^ 64"
  shows "memset s c n m = (\<lambda>a. if in_region s (unat n) a then c else m a)"
proof -
  have "fold (\<lambda>i m. m(s + of_nat i := c)) [0..<k] m = (\<lambda>a. if in_region s k a then c else m a)" if "unat s + k \<le> 2 ^ 64" for k
    using that
  proof (induction k)
    case 0
    then show ?case by (auto simp: in_region_def fun_eq_iff)
  next
    case (Suc k)
    then have "unat (s + of_nat k) = unat s + k" by (simp add: unat_offset)
    with Suc show ?case by (auto simp: in_region_def word_unat_eq_iff fun_eq_iff)
  qed
  with assms show ?thesis by (simp add: memset_def)
qed

section \<open>Strings as lists\<close>

text \<open>The string at an address: bytes that are not zero, followed by a zero byte.\<close>

fun cstr :: "mem \<Rightarrow> u64 \<Rightarrow> u8 list \<Rightarrow> bool" where
  "cstr m p [] \<longleftrightarrow> m p = 0"
| "cstr m p (x # xs) \<longleftrightarrow> m p = x \<and> x \<noteq> 0 \<and> cstr m (p + 1) xs"

lemma cstr_unique: "cstr m p xs \<Longrightarrow> cstr m p ys \<Longrightarrow> xs = ys"
proof (induction xs arbitrary: p ys)
  case Nil
  then show ?case by (cases ys) auto
next
  case (Cons x xs)
  then show ?case by (cases ys) auto
qed

lemma find_nul_cstr: "cstr m p xs \<Longrightarrow> find_nul m p = Some (p + of_nat (length xs))"
  by (induction xs arbitrary: p) (subst find_nul.simps, simp add: algebra_simps)+

lemma strlen_cstr: "cstr m p xs \<Longrightarrow> strlen m p = Some (of_nat (length xs))"
  by (simp add: strlen_def find_nul_cstr)

text \<open>The first difference of two lists decides; a proper prefix is smaller.\<close>

fun byte_order :: "u8 list \<Rightarrow> u8 list \<Rightarrow> int" where
  "byte_order [] [] = 0"
| "byte_order [] (y # ys) = - uint y"
| "byte_order (x # xs) [] = uint x"
| "byte_order (x # xs) (y # ys) = (if x = y then byte_order xs ys else uint x - uint y)"

lemma strcmp_cstr: "cstr m p xs \<Longrightarrow> cstr m q ys \<Longrightarrow> strcmp m p q = Some (byte_order xs ys)"
proof (induction xs ys arbitrary: p q rule: byte_order.induct)
  case (4 x xs y ys)
  then show ?case by (subst strcmp.simps) auto
qed (subst strcmp.simps, auto)+

lemma byte_order_0: "0 \<notin> set xs \<Longrightarrow> 0 \<notin> set ys \<Longrightarrow> byte_order xs ys = 0 \<longleftrightarrow> xs = ys"
  by (induction xs ys rule: byte_order.induct) (auto simp: word_uint_eq_iff)

lemma byte_order_neg:
  "0 \<notin> set xs \<Longrightarrow> 0 \<notin> set ys \<Longrightarrow> byte_order xs ys < 0 \<longleftrightarrow> (xs, ys) \<in> lexord {(a, b). a < b}"
proof (induction xs ys rule: byte_order.induct)
  case (2 y ys)
  then have "uint y \<noteq> 0" by (auto simp: uint_0_iff)
  then have "0 < uint y" using uint_ge_0 [of y] by linarith
  then show ?case by simp
qed (auto simp: word_less_def)

lemma cstr_nonzero: "cstr m p xs \<Longrightarrow> 0 \<notin> set xs"
  by (induction xs arbitrary: p) auto

text \<open>
  String comparison: for two terminated strings \<open>strcmp\<close> returns, zero exactly for equal strings and
  a negative number exactly when the first string precedes the second in the lexicographic order of
  unsigned bytes.
\<close>

theorem strcmp_order:
  assumes "cstr m p xs" "cstr m q ys"
  shows "\<exists>r. strcmp m p q = Some r \<and> (r = 0 \<longleftrightarrow> xs = ys) \<and> (r < 0 \<longleftrightarrow> (xs, ys) \<in> lexord {(a, b). a < b})"
  using strcmp_cstr [OF assms] cstr_nonzero [OF assms(1)] cstr_nonzero [OF assms(2)]
  by (auto simp: byte_order_0 byte_order_neg)

section \<open>Searching\<close>

lemma strstr_match_cstr: "cstr m p hs \<Longrightarrow> cstr m q ns \<Longrightarrow> strstr_match m p q = Some (prefix ns hs)"
proof (induction hs arbitrary: p q ns)
  case Nil
  then show ?case by (subst strstr_match.simps) (cases ns, auto)
next
  case (Cons h hs)
  then show ?case by (subst strstr_match.simps) (cases ns, auto)
qed

fun first_match :: "u8 list \<Rightarrow> u8 list \<Rightarrow> nat option" where
  "first_match ns [] = None"
| "first_match ns (h # hs) = (if prefix ns (h # hs) then Some 0 else map_option Suc (first_match ns hs))"

lemma strstr_loop_cstr:
  "cstr m p hs \<Longrightarrow> cstr m q ns \<Longrightarrow> strstr_loop m p q = Some (map_option (\<lambda>i. p + of_nat i) (first_match ns hs))"
proof (induction hs arbitrary: p)
  case Nil
  then show ?case by (subst strstr_loop.simps) simp
next
  case (Cons h hs)
  from strstr_match_cstr [OF Cons.prems] Cons show ?case
    by (subst strstr_loop.simps) (auto simp: option.map_comp comp_def algebra_simps)
qed

lemma first_match_Some:
  "ns \<noteq> [] \<Longrightarrow> first_match ns hs = Some i \<longleftrightarrow> prefix ns (drop i hs) \<and> (\<forall>j<i. \<not> prefix ns (drop j hs))"
proof (induction hs arbitrary: i)
  case (Cons h hs)
  show ?case
  proof (cases i)
    case (Suc k)
    have "(\<forall>j<Suc k. \<not> prefix ns (drop j (h # hs))) \<longleftrightarrow> \<not> prefix ns (h # hs) \<and> (\<forall>j<k. \<not> prefix ns (drop j hs))"
      by (auto simp: less_Suc_eq_0_disj)
    with Suc Cons show ?thesis by (auto simp del: prefix_Cons)
  qed (auto simp del: prefix_Cons)
qed simp

lemma first_match_None: "ns \<noteq> [] \<Longrightarrow> first_match ns hs = None \<longleftrightarrow> \<not> sublist ns hs"
  by (induction hs) (auto simp: sublist_Cons_right)

text \<open>
  Substring search: for terminated strings \<open>strstr\<close> returns, the null pointer exactly when the needle
  does not occur, and otherwise the address of its first occurrence.
\<close>

theorem strstr_first:
  assumes "cstr m p hs" "cstr m q ns"
  shows "\<exists>r. strstr m p q = Some r \<and> (r = None \<longleftrightarrow> \<not> sublist ns hs) \<and>
    (\<forall>a. r = Some a \<longrightarrow> (\<exists>i. a = p + of_nat i \<and> prefix ns (drop i hs) \<and> (\<forall>j<i. \<not> prefix ns (drop j hs))))"
proof (cases ns)
  case Nil
  with assms show ?thesis by (auto simp: strstr_def intro!: exI [of _ 0])
next
  case (Cons n ns')
  then have "m q \<noteq> 0" "ns \<noteq> []" using assms(2) by auto
  with strstr_loop_cstr [OF assms] first_match_None [of ns hs] first_match_Some [of ns hs] show ?thesis
    by (auto simp: strstr_def)
qed

theorem strcmp_order_witness:
  "\<exists>r. strcmp (\<lambda>a. if a = 0x100 then 0x61 else if a = 0x200 then 0x62 else 0) 0x100 0x200 = Some r \<and> r < 0"
proof -
  let ?m = "\<lambda>a. if a = 0x100 then 0x61 else if a = 0x200 then 0x62 else 0 :: u8"
  have "cstr ?m 0x100 [0x61]" "cstr ?m 0x200 [0x62]" by simp_all
  from strcmp_order [OF this] show ?thesis by auto
qed

theorem strstr_first_witness:
  "\<exists>r. strstr (\<lambda>a. if a = 0x100 then 0x61 else if a = 0x101 then 0x62 else if a = 0x200 then 0x62 else 0) 0x100 0x200 = Some r \<and> r \<noteq> None"
proof -
  let ?m = "\<lambda>a. if a = 0x100 then 0x61 else if a = 0x101 then 0x62 else if a = 0x200 then 0x62 else 0 :: u8"
  have "cstr ?m 0x100 [0x61, 0x62]" "cstr ?m 0x200 [0x62]" by simp_all
  from strstr_first [OF this] show ?thesis by (auto simp: sublist_Cons_right)
qed

lemma strchr_cstr:
  assumes "cstr m p xs" "ucast c \<noteq> (0 :: u8)"
  shows "strchr m p c = Some (map_option (\<lambda>i. p + of_nat i) (find_slot (\<lambda>x. x = ucast c) xs))"
  using assms(1)
proof (induction xs arbitrary: p)
  case Nil
  then show ?case using assms(2) by (simp add: strchr_def strchr_loop.simps [of m p] find_slot_def)
next
  case (Cons x xs)
  have f: "find_slot (\<lambda>x. x = ucast c) (x # xs) = (if x = ucast c then Some 0 else map_option Suc (find_slot (\<lambda>x. x = ucast c) xs))"
    by (rule find_slot_Cons)
  from Cons show ?case
    by (simp add: strchr_def strchr_loop.simps [of m p] f option.map_comp comp_def algebra_simps)
qed

section \<open>Copying strings\<close>

text \<open>Bytes written at consecutive addresses.\<close>

fun poke :: "u64 \<Rightarrow> u8 list \<Rightarrow> mem \<Rightarrow> mem" where
  "poke d [] m = m"
| "poke d (y # ys) m = poke (d + 1) ys (m(d := y))"

lemma cstr_update: "\<forall>i\<le>length xs. a \<noteq> p + of_nat i \<Longrightarrow> cstr (m(a := v)) p xs = cstr m p xs"
proof (induction xs arbitrary: p)
  case (Cons x xs)
  have "a \<noteq> p" using Cons.prems [THEN spec, of 0] by simp
  moreover have "\<forall>i\<le>length xs. a \<noteq> p + 1 + of_nat i"
  proof (intro allI impI)
    fix i
    assume "i \<le> length xs"
    then show "a \<noteq> p + 1 + of_nat i" using Cons.prems [THEN spec, of "Suc i"] by (simp add: algebra_simps)
  qed
  ultimately show ?case using Cons.IH [of "p + 1"] by simp
qed simp

lemma cstr_cong: "cstr m p xs \<Longrightarrow> (\<And>i. i \<le> length xs \<Longrightarrow> m' (p + of_nat i) = m (p + of_nat i)) \<Longrightarrow> cstr m' p xs"
proof (induction xs arbitrary: p)
  case Nil
  then show ?case using Nil.prems(2) [of 0] by simp
next
  case (Cons x xs)
  have "m' p = m p" using Cons.prems(2) [of 0] by simp
  moreover have "cstr m' (p + 1) xs"
  proof (rule Cons.IH)
    show "m' (p + 1 + of_nat i) = m (p + 1 + of_nat i)" if "i \<le> length xs" for i
      using Cons.prems(2) [of "Suc i"] that by (simp add: algebra_simps)
  qed (use Cons.prems in simp)
  ultimately show ?case using Cons.prems by simp
qed

lemma poke_outside: "\<forall>i<length ys. a \<noteq> d + of_nat i \<Longrightarrow> poke d ys m a = m a"
proof (induction ys arbitrary: d m)
  case (Cons y ys)
  have "a \<noteq> d" using Cons.prems [THEN spec, of 0] by simp
  moreover have "\<forall>i<length ys. a \<noteq> d + 1 + of_nat i"
  proof (intro allI impI)
    fix i
    assume "i < length ys"
    then show "a \<noteq> d + 1 + of_nat i" using Cons.prems [THEN spec, of "Suc i"] by (simp add: algebra_simps)
  qed
  ultimately show ?case using Cons.IH by simp
qed simp

lemma poke_cstr: "0 \<notin> set xs \<Longrightarrow> length xs < 2 ^ 64 \<Longrightarrow> cstr (poke d (xs @ [0]) m) d xs"
proof (induction xs arbitrary: d m)
  case (Cons x xs)
  have "poke (d + 1) (xs @ [0]) (m(d := x)) d = x"
  proof (subst poke_outside)
    show "\<forall>i<length (xs @ [0]). d \<noteq> d + 1 + of_nat i"
    proof (intro allI impI notI)
      fix i
      assume "i < length (xs @ [0])" "d = d + 1 + of_nat i"
      then have "(of_nat (Suc i) :: u64) = 0" "Suc i < 2 ^ 64" using Cons.prems(2) by (simp_all add: algebra_simps)
      then show False using of_nat_u64_0 [of "Suc i"] by simp
    qed
  qed simp
  with Cons show ?case by simp
qed simp

lemma strcpy_loop_poke:
  "cstr m s xs \<Longrightarrow> \<forall>i<length xs. \<forall>j\<le>length xs. d + of_nat i \<noteq> s + of_nat j \<Longrightarrow> strcpy_loop d s m = Some (poke d (xs @ [0]) m)"
proof (induction xs arbitrary: d s m)
  case Nil
  then show ?case by (simp add: strcpy_loop.simps [of d s] fun_upd_def)
next
  case (Cons x xs)
  have away: "d + of_nat i \<noteq> s + of_nat j" if "i < Suc (length xs)" "j \<le> Suc (length xs)" for i j
    using Cons.prems(2) that by simp
  have "cstr (m(d := x)) (s + 1) xs"
  proof (subst cstr_update)
    show "\<forall>i\<le>length xs. d \<noteq> s + 1 + of_nat i" using away [of 0 "Suc i" for i] by (simp add: algebra_simps)
  qed (use Cons.prems in simp)
  moreover have "\<forall>i<length xs. \<forall>j\<le>length xs. d + 1 + of_nat i \<noteq> s + 1 + of_nat j"
    using away [of "Suc i" "Suc j" for i j] by (simp add: algebra_simps)
  ultimately have "strcpy_loop (d + 1) (s + 1) (m(d := x)) = Some (poke (d + 1) (xs @ [0]) (m(d := x)))" by (rule Cons.IH)
  then show ?case using Cons.prems(1) by (simp add: strcpy_loop.simps [of d s])
qed

text \<open>
  Copying strings: \<open>strcpy\<close> of a terminated string to a place that does not overlap it
  returns and leaves a copy of the string there and the original in place, so that \<open>strcmp\<close> finds them
  equal and \<open>strlen\<close> gives the same length; all other memory is unchanged.
\<close>

theorem strcpy_roundtrip:
  assumes src: "cstr m s xs" and len: "length xs < 2 ^ 64"
    and disj: "\<forall>i\<le>length xs. \<forall>j\<le>length xs. d + of_nat i \<noteq> s + of_nat j"
  shows "\<exists>m'. strcpy d s m = Some m' \<and> strcmp m' d s = Some 0 \<and> strlen m' d = Some (of_nat (length xs)) \<and> cstr m' s xs \<and>
    (\<forall>a. (\<forall>i\<le>length xs. a \<noteq> d + of_nat i) \<longrightarrow> m' a = m a)"
proof -
  let ?m = "poke d (xs @ [0]) m"
  have c: "strcpy d s m = Some ?m" using strcpy_loop_poke [OF src] disj by (simp add: strcpy_def)
  have o: "?m a = m a" if "\<forall>i\<le>length xs. a \<noteq> d + of_nat i" for a using that by (intro poke_outside) auto
  have d: "cstr ?m d xs" by (rule poke_cstr [OF cstr_nonzero [OF src] len])
  have "?m (s + of_nat j) = m (s + of_nat j)" if "j \<le> length xs" for j
    using disj that by (intro o) (metis (no_types))
  then have "cstr ?m s xs" by (rule cstr_cong [OF src])
  with c d o strcmp_cstr [OF d, of s xs] strlen_cstr [OF d] byte_order_0 [of xs xs] cstr_nonzero [OF src] show ?thesis by auto
qed

theorem strcpy_roundtrip_witness:
  "\<exists>m'. strcpy 0x200 0x100 (\<lambda>a. if a = 0x100 then 0x61 else 1 - 1) = Some m' \<and> strcmp m' 0x200 0x100 = Some 0"
proof -
  let ?m = "\<lambda>a. if a = (0x100 :: u64) then 0x61 else 1 - 1 :: u8"
  have "cstr ?m 0x100 [0x61]" by simp
  moreover have "\<forall>i\<le>length [0x61 :: u8]. \<forall>j\<le>length [0x61 :: u8]. (0x200 :: u64) + of_nat i \<noteq> 0x100 + of_nat j"
    by (auto simp: le_Suc_eq)
  ultimately show ?thesis using strcpy_roundtrip [of ?m "0x100" "[0x61]" "0x200"] by auto
qed

section \<open>Numbers\<close>

abbreviation blank :: "u8 \<Rightarrow> bool" where
  "blank c \<equiv> c = 0x20 \<or> c = 0x09 \<or> c = 0x0A"

abbreviation digit :: "u8 \<Rightarrow> bool" where
  "digit c \<equiv> 0x30 \<le> c \<and> c \<le> 0x39"

definition decimal :: "u8 list \<Rightarrow> int" where
  "decimal ds = foldl (\<lambda>a d. 10 * a + (uint d - 48)) 0 ds"

lemma digits_cstr:
  assumes "cstr m p (ds @ rest)" "\<forall>d\<in>set ds. digit d" "rest = [] \<or> \<not> digit (hd rest)"
  shows "digits m p r = Some (word_of_int (foldl (\<lambda>a d. 10 * a + (uint d - 48)) (uint r) ds))"
  using assms
proof (induction ds arbitrary: p r)
  case Nil
  then show ?case by (cases rest) (subst digits.simps, auto)+
next
  case (Cons d ds)
  let ?r = "r * 10 + (ucast d - 0x30) :: 32 word"
  have r: "(word_of_int (uint ?r) :: 32 word) = word_of_int (10 * uint r + (uint d - 48))"
    by (simp add: algebra_simps)
  have c: "(word_of_int (foldl (\<lambda>a d. 10 * a + (uint d - 48)) x ds) :: 32 word) =
      word_of_int (foldl (\<lambda>a d. 10 * a + (uint d - 48)) y ds)"
    if "(word_of_int x :: 32 word) = word_of_int y" for x y ds
    using that by (induction ds arbitrary: x y) (auto simp: algebra_simps)
  have "digits m p r = digits m (p + 1) ?r" using Cons.prems by (subst digits.simps) auto
  also have "\<dots> = Some (word_of_int (foldl (\<lambda>a d. 10 * a + (uint d - 48)) (uint ?r) ds))"
    using Cons.IH [of "p + 1" ?r] Cons.prems by simp
  finally show ?case using c [OF r] by simp
qed

lemma skip_blanks_cstr:
  "cstr m p (bs @ rest) \<Longrightarrow> \<forall>b\<in>set bs. blank b \<Longrightarrow> rest = [] \<or> \<not> blank (hd rest) \<Longrightarrow> skip_blanks m p = Some (p + of_nat (length bs))"
proof (induction bs arbitrary: p)
  case Nil
  then show ?case by (cases rest) (subst skip_blanks.simps, auto)+
next
  case (Cons b bs)
  then have "skip_blanks m (p + 1) = Some (p + 1 + of_nat (length bs))" by simp
  moreover have "skip_blanks m p = skip_blanks m (p + 1)" using Cons.prems by (subst skip_blanks.simps) auto
  ultimately show ?case by (simp add: algebra_simps)
qed

lemma cstr_append: "cstr m p (xs @ ys) \<Longrightarrow> cstr m (p + of_nat (length xs)) ys"
proof (induction xs arbitrary: p)
  case (Cons x xs)
  then have "cstr m (p + 1 + of_nat (length xs)) ys" by simp
  then show ?case by (simp add: algebra_simps)
qed simp

text \<open>
  Numbers: on a terminated string of blanks, an optional sign and at least one digit, possibly
  followed by something that is not a digit, \<open>atoi\<close> returns the signed decimal value, modulo
  \<open>2 ^ 32\<close>; values that fit into the result are therefore read exactly.
\<close>

theorem atoi_decimal:
  assumes "cstr m p (bs @ sign @ ds @ rest)" "\<forall>b\<in>set bs. blank b" "sign \<in> {[], [0x2B], [0x2D]}"
    and "ds \<noteq> []" "\<forall>d\<in>set ds. digit d" "rest = [] \<or> \<not> digit (hd rest)"
  shows "atoi m p = Some (word_of_int (if sign = [0x2D] then - decimal ds else decimal ds))"
proof -
  let ?q = "p + of_nat (length bs)"
  obtain d ds' where ds: "ds = d # ds'" "digit d" using assms(4,5) by (cases ds) auto
  then have nb: "\<not> blank d" "d \<noteq> 0x2D" "d \<noteq> 0x2B" by auto
  have b: "skip_blanks m p = Some ?q"
    using skip_blanks_cstr [of m p bs "sign @ ds @ rest"] assms nb ds by auto
  have c: "cstr m ?q (sign @ ds @ rest)" using cstr_append [of m p bs] assms(1) by simp
  have dg: "digits m r 0 = Some (word_of_int (decimal ds))" if "cstr m r (ds @ rest)" for r
    using digits_cstr [OF that assms(5,6), of 0] by (simp add: decimal_def)
  consider "sign = []" | "sign = [0x2B]" | "sign = [0x2D]" using assms(3) by auto
  then show ?thesis
  proof cases
    case 1
    then show ?thesis using b c dg [of ?q] ds nb by (simp add: atoi_def)
  next
    case 2
    then show ?thesis using b c dg [of "?q + 1"] by (simp add: atoi_def)
  next
    case 3
    then show ?thesis using b c dg [of "?q + 1"] by (simp add: atoi_def)
  qed
qed

theorem atoi_decimal_witness:
  "atoi (\<lambda>a. if a = 0x100 then 0x20 else if a = 0x101 then 0x2D else if a = 0x102 then 0x34 else if a = 0x103 then 0x32 else 0) 0x100 = Some (- 42)"
proof -
  let ?m = "\<lambda>a. if a = (0x100 :: u64) then 0x20 else if a = 0x101 then 0x2D else if a = 0x102 then 0x34 else if a = 0x103 then 0x32 else 0 :: u8"
  have "cstr ?m 0x100 ([0x20] @ [0x2D] @ [0x34, 0x32] @ [])" by simp
  from atoi_decimal [OF this] show ?thesis by (simp add: decimal_def)
qed

end
