(* ===== verification/Byte_Fields.thy ===== *)
theory Byte_Fields
  imports Kstring
begin

text \<open>
  Fields of packed structures: little-endian reads and writes of 16, 32 and 64 bits in a byte-addressed
  memory, for the structures that the loader, the network stack, the file system and the disk drivers share with files
  and devices.
\<close>

definition le16 :: "mem \<Rightarrow> u64 \<Rightarrow> u16" where
  "le16 m a = ucast (m a) OR push_bit 8 (ucast (m (a + 1)))"

definition le32 :: "mem \<Rightarrow> u64 \<Rightarrow> u32" where
  "le32 m a = ucast (le16 m a) OR push_bit 16 (ucast (le16 m (a + 2)))"

definition le64 :: "mem \<Rightarrow> u64 \<Rightarrow> u64" where
  "le64 m a = ucast (le32 m a) OR push_bit 32 (ucast (le32 m (a + 4)))"

definition st16 :: "u64 \<Rightarrow> u16 \<Rightarrow> mem \<Rightarrow> mem" where
  "st16 a v m = m(a := ucast v, a + 1 := ucast (drop_bit 8 v))"

definition st32 :: "u64 \<Rightarrow> u32 \<Rightarrow> mem \<Rightarrow> mem" where
  "st32 a v m = st16 (a + 2) (ucast (drop_bit 16 v)) (st16 a (ucast v) m)"

definition st64 :: "u64 \<Rightarrow> u64 \<Rightarrow> mem \<Rightarrow> mem" where
  "st64 a v m = st32 (a + 4) (ucast (drop_bit 32 v)) (st32 a (ucast v) m)"

text \<open>The bytes of a block copied to another place, as \<open>memcpy\<close> between objects that do not overlap.\<close>

definition copy_block :: "u64 \<Rightarrow> mem \<Rightarrow> u64 \<Rightarrow> nat \<Rightarrow> mem \<Rightarrow> mem" where
  "copy_block d src p n m = fold (\<lambda>i m. m(d + of_nat i := src (p + of_nat i))) [0..<n] m"

definition fill_block :: "u64 \<Rightarrow> u8 \<Rightarrow> nat \<Rightarrow> mem \<Rightarrow> mem" where
  "fill_block d c n m = fold (\<lambda>i m. m(d + of_nat i := c)) [0..<n] m"

lemma word_offset_neq [simp]: "(a :: u64) + 1 \<noteq> a" "a \<noteq> a + 1" "a + numeral k \<noteq> a \<longleftrightarrow> (numeral k :: u64) \<noteq> 0" "a \<noteq> a + numeral k \<longleftrightarrow> (numeral k :: u64) \<noteq> 0"
  by simp_all

lemma word_halves:
  "(ucast (ucast v :: u8) :: u16) OR push_bit 8 (ucast (ucast (drop_bit 8 v) :: u8)) = v"
  "(ucast (ucast w :: u16) :: u32) OR push_bit 16 (ucast (ucast (drop_bit 16 w) :: u16)) = w"
  "(ucast (ucast x :: u32) :: u64) OR push_bit 32 (ucast (ucast (drop_bit 32 x) :: u32)) = x"
  by (rule bit_word_eqI, auto simp: bit_simps)+

lemma le16_st16 [simp]: "le16 (st16 a v m) a = v"
  by (simp add: le16_def st16_def word_halves)

lemma st16_other: "b \<noteq> a \<Longrightarrow> b \<noteq> a + 1 \<Longrightarrow> st16 a v m b = m b"
  by (simp add: st16_def)

lemma le16_st16_other: "b - a \<noteq> 0 \<Longrightarrow> b - a \<noteq> 1 \<Longrightarrow> b - a \<noteq> - 1 \<Longrightarrow> le16 (st16 a v m) b = le16 m b"
  by (auto simp: le16_def st16_def algebra_simps)

lemma le32_st32 [simp]: "le32 (st32 a v m) a = v"
  by (simp add: le32_def st32_def le16_st16_other word_halves)

lemma le16_st32_other:
  "b - a \<noteq> 0 \<Longrightarrow> b - a \<noteq> 1 \<Longrightarrow> b - a \<noteq> - 1 \<Longrightarrow> b - a \<noteq> 2 \<Longrightarrow> b - a \<noteq> 3 \<Longrightarrow> le16 (st32 a v m) b = le16 m b"
  unfolding st32_def by (subst le16_st16_other; (subst le16_st16_other)?) (auto simp: algebra_simps)

lemma le64_st64 [simp]: "le64 (st64 a v m) a = v"
proof -
  have "le32 (st32 (a + 4) w m') a = le32 m' a" for w m' by (simp add: le32_def le16_st32_other)
  then show ?thesis by (simp add: le64_def st64_def word_halves)
qed

lemma copy_block_Suc: "copy_block d src p (Suc n) m = (copy_block d src p n m)(d + of_nat n := src (p + of_nat n))"
  by (simp add: copy_block_def)

lemma copy_block_outside: "\<forall>i<n. a \<noteq> d + of_nat i \<Longrightarrow> copy_block d src p n m a = m a"
  by (induction n) (simp_all add: copy_block_Suc, simp add: copy_block_def)

lemma copy_block_at: "n \<le> 2 ^ 64 \<Longrightarrow> i < n \<Longrightarrow> copy_block d src p n m (d + of_nat i) = src (p + of_nat i)"
proof (induction n)
  case (Suc n)
  have "(of_nat i :: u64) = of_nat n \<longleftrightarrow> i = n" if "i < 2 ^ 64" "n < 2 ^ 64"
    using that by (simp add: word_unat_eq_iff unat_of_nat)
  then show ?case using Suc by (cases "i = n") (auto simp: copy_block_Suc)
qed simp

end
