(* ===== verification/Elf.thy ===== *)
theory Elf
  imports Spinlock Vmm_Spaces Byte_Fields
begin

text \<open>
  The ELF loader, \<open>src/src/src/syncos/elf.c\<close>. The kernel state gains the virtual memory manager and a
  byte memory, addressed by the pointers kernel code uses; the words of page tables are kept by the
  virtual memory manager and are not part of the byte memory. The context of a file is a value that
  the functions return updated; its allocation callbacks, which the caller chooses, are the parameters
  \<open>alloc\<close> and \<open>free\<close>.
\<close>

section \<open>State and file formats\<close>

record kernel_state = lock_state +
  kvm :: vmm_state
  kmem :: mem

record elf64_header_t =
  e_ident :: "u8 list"
  e_type :: u16
  e_machine :: u16
  e_version :: u32
  e_entry :: u64
  e_phoff :: u64
  e_shoff :: u64
  e_flags :: u32
  e_ehsize :: u16
  e_phentsize :: u16
  e_phnum :: u16
  e_shentsize :: u16
  e_shnum :: u16
  e_shstrndx :: u16

record elf64_program_header_t =
  p_type :: u32
  p_flags :: u32
  p_offset :: u64
  p_vaddr :: u64
  p_paddr :: u64
  p_filesz :: u64
  p_memsz :: u64
  p_align :: u64

record elf64_section_header_t =
  sh_name :: u32
  sh_type :: u32
  sh_flags :: u64
  sh_addr :: u64
  sh_offset :: u64
  sh_size :: u64
  sh_link :: u32
  sh_info :: u32
  sh_addralign :: u64
  sh_entsize :: u64

record elf_context_t =
  header :: elf64_header_t
  program_headers :: u64
  section_headers :: u64
  section_name_table :: u64
  elf_data :: u64
  elf_size :: u64
  loaded_segments :: "(u64 \<times> u64) list"
  loaded_segment_count :: u64
  base_address :: u64
  entry_point :: u64

definition EM_X86_64 :: u16 where "EM_X86_64 = 62"
definition ET_EXEC :: u16 where "ET_EXEC = 2"
definition ET_DYN :: u16 where "ET_DYN = 3"
definition ELFCLASS64 :: u8 where "ELFCLASS64 = 2"
definition ELFDATA2LSB :: u8 where "ELFDATA2LSB = 1"
definition PT_LOAD :: u32 where "PT_LOAD = 1"
definition PF_X :: u32 where "PF_X = 1"
definition PF_W :: u32 where "PF_W = 2"
definition PF_R :: u32 where "PF_R = 4"

text \<open>The packed structures of a file.\<close>

definition read_header :: "mem \<Rightarrow> u64 \<Rightarrow> elf64_header_t" where
  "read_header m a =
     \<lparr>e_ident = map (\<lambda>i. m (a + of_nat i)) [0..<16], e_type = le16 m (a + 16), e_machine = le16 m (a + 18),
      e_version = le32 m (a + 20), e_entry = le64 m (a + 24), e_phoff = le64 m (a + 32), e_shoff = le64 m (a + 40),
      e_flags = le32 m (a + 48), e_ehsize = le16 m (a + 52), e_phentsize = le16 m (a + 54), e_phnum = le16 m (a + 56),
      e_shentsize = le16 m (a + 58), e_shnum = le16 m (a + 60), e_shstrndx = le16 m (a + 62)\<rparr>"

definition read_program_header :: "mem \<Rightarrow> u64 \<Rightarrow> elf64_program_header_t" where
  "read_program_header m a =
     \<lparr>p_type = le32 m a, p_flags = le32 m (a + 4), p_offset = le64 m (a + 8), p_vaddr = le64 m (a + 16),
      p_paddr = le64 m (a + 24), p_filesz = le64 m (a + 32), p_memsz = le64 m (a + 40), p_align = le64 m (a + 48)\<rparr>"

definition read_section_header :: "mem \<Rightarrow> u64 \<Rightarrow> elf64_section_header_t" where
  "read_section_header m a =
     \<lparr>sh_name = le32 m a, sh_type = le32 m (a + 4), sh_flags = le64 m (a + 8), sh_addr = le64 m (a + 16),
      sh_offset = le64 m (a + 24), sh_size = le64 m (a + 32), sh_link = le32 m (a + 40), sh_info = le32 m (a + 44),
      sh_addralign = le64 m (a + 48), sh_entsize = le64 m (a + 56)\<rparr>"

definition empty_header :: elf64_header_t where
  "empty_header = \<lparr>e_ident = replicate 16 0, e_type = 0, e_machine = 0, e_version = 0, e_entry = 0, e_phoff = 0, e_shoff = 0,
     e_flags = 0, e_ehsize = 0, e_phentsize = 0, e_phnum = 0, e_shentsize = 0, e_shnum = 0, e_shstrndx = 0\<rparr>"

definition empty_context :: elf_context_t where
  "empty_context = \<lparr>header = empty_header, program_headers = 0, section_headers = 0, section_name_table = 0, elf_data = 0,
     elf_size = 0, loaded_segments = replicate 16 (0, 0), loaded_segment_count = 0, base_address = 0, entry_point = 0\<rparr>"

type_synonym 's alloc_fn = "u64 \<Rightarrow> 's \<Rightarrow> u64 \<times> 's"
type_synonym 's free_fn = "u64 \<Rightarrow> u64 \<Rightarrow> 's \<Rightarrow> 's"

section \<open>Validation\<close>

definition elf_magic :: "elf64_header_t \<Rightarrow> bool" where
  "elf_magic h \<longleftrightarrow> e_ident h ! 0 = 0x7F \<and> e_ident h ! 1 = 0x45 \<and> e_ident h ! 2 = 0x4C \<and> e_ident h ! 3 = 0x46"

definition validate_elf_header :: "elf64_header_t \<Rightarrow> bool" where
  "validate_elf_header h =
     (if \<not> elf_magic h then False
      else if e_ident h ! 4 \<noteq> ELFCLASS64 then False
      else if e_ident h ! 5 \<noteq> ELFDATA2LSB then False
      else if e_version h \<noteq> 1 then False
      else if e_machine h \<noteq> EM_X86_64 then False
      else if e_type h \<noteq> ET_EXEC \<and> e_type h \<noteq> ET_DYN then False
      else if e_phoff h = 0 \<or> e_phnum h = 0 then False
      else if e_entry h = 0 then False
      else True)"

text \<open>
  The size of a table: both factors are promoted to \<open>int\<close>, so the product is taken at 32 bits and
  sign-extended to the 64 bits of \<open>szt\<close>.
\<close>

definition table_bytes :: "u16 \<Rightarrow> u16 \<Rightarrow> u64" where
  "table_bytes num entsize = scast (ucast num * ucast entsize :: 32 word)"

definition validate_elf_size :: "elf_context_t \<Rightarrow> bool" where
  "validate_elf_size ctx =
     (let h = header ctx
      in if elf_size ctx < 64 then False
         else if elf_size ctx < e_phoff h + table_bytes (e_phnum h) (e_phentsize h) then False
         else if elf_size ctx < e_shoff h + table_bytes (e_shnum h) (e_shentsize h) then False
         else True)"

definition elf_is_valid :: "mem \<Rightarrow> u64 \<Rightarrow> u64 \<Rightarrow> bool" where
  "elf_is_valid m data sz =
     (if data = 0 \<or> sz < 64 then False
      else let h = read_header m data
           in if \<not> elf_magic h then False else if e_ident h ! 4 \<noteq> ELFCLASS64 then False else True)"

section \<open>Initialisation and clean-up\<close>

definition table_pages :: "u64 \<Rightarrow> u64" where
  "table_pages n = (n + 4096 - 1) div 4096"

definition parse_program_headers :: "'a kernel_state_scheme alloc_fn \<Rightarrow> elf_context_t \<Rightarrow> 'a kernel_state_scheme \<Rightarrow>
    bool \<times> elf_context_t \<times> 'a kernel_state_scheme" where
  "parse_program_headers alloc ctx s =
     (let h = header ctx;
          n = table_bytes (e_phnum h) (e_phentsize h);
          (p, s1) = alloc (table_pages n) s;
          ctx1 = ctx\<lparr>program_headers := p\<rparr>
      in if p = 0 then (False, ctx1, s1)
         else (True, ctx1, s1\<lparr>kmem := memcpy p (elf_data ctx1 + e_phoff h) n (kmem s1)\<rparr>))"

definition parse_section_headers :: "'a kernel_state_scheme alloc_fn \<Rightarrow> elf_context_t \<Rightarrow> 'a kernel_state_scheme \<Rightarrow>
    bool \<times> elf_context_t \<times> 'a kernel_state_scheme" where
  "parse_section_headers alloc ctx s =
     (let h = header ctx;
          n = table_bytes (e_shnum h) (e_shentsize h);
          (p, s1) = alloc (table_pages n) s;
          ctx1 = ctx\<lparr>section_headers := p\<rparr>
      in if p = 0 then (False, ctx1, s1)
         else let s2 = s1\<lparr>kmem := memcpy p (elf_data ctx1 + e_shoff h) n (kmem s1)\<rparr>;
                  names = (if e_shstrndx h < e_shnum h
                           then elf_data ctx1 + sh_offset (read_section_header (kmem s2) (p + ucast (e_shstrndx h) * 64))
                           else 0)
              in (True, ctx1\<lparr>section_name_table := names\<rparr>, s2))"

fun free_segments :: "'s free_fn \<Rightarrow> nat list \<Rightarrow> elf_context_t \<Rightarrow> 's \<Rightarrow> elf_context_t \<times> 's" where
  "free_segments free [] ctx s = (ctx, s)"
| "free_segments free (i # is) ctx s =
     (let (vaddr, sz) = loaded_segments ctx ! i
      in if vaddr \<noteq> 0
         then free_segments free is (ctx\<lparr>loaded_segments := (loaded_segments ctx)[i := (0, 0)]\<rparr>) (free vaddr (sz div 4096) s)
         else free_segments free is ctx s)"

definition elf_cleanup :: "'s free_fn \<Rightarrow> elf_context_t \<Rightarrow> 's \<Rightarrow> elf_context_t \<times> 's" where
  "elf_cleanup free ctx s =
     (let s1 = (if program_headers ctx \<noteq> 0 then free (program_headers ctx) 1 s else s);
          s2 = (if section_headers ctx \<noteq> 0 then free (section_headers ctx) 1 s1 else s1);
          (ctx1, s3) = free_segments free [0..<unat (loaded_segment_count ctx)] (ctx\<lparr>program_headers := 0, section_headers := 0\<rparr>) s2
      in (ctx1\<lparr>loaded_segment_count := 0, entry_point := 0, base_address := 0, elf_data := 0, elf_size := 0\<rparr>, s3))"

definition elf_init :: "'a kernel_state_scheme alloc_fn \<Rightarrow> 'a kernel_state_scheme free_fn \<Rightarrow> elf_context_t \<Rightarrow> u64 \<Rightarrow> u64 \<Rightarrow>
    'a kernel_state_scheme \<Rightarrow> bool \<times> elf_context_t \<times> 'a kernel_state_scheme" where
  "elf_init alloc free ctx0 data sz s =
     (if data = 0 \<or> sz < 64 then (False, ctx0, s)
      else let ctx = empty_context\<lparr>elf_data := data, elf_size := sz, header := read_header (kmem s) data\<rparr>
           in if \<not> validate_elf_header (header ctx) then (False, ctx, s)
              else if \<not> validate_elf_size ctx then (False, ctx, s)
              else case parse_program_headers alloc ctx s of
                     (False, ctx1, s1) \<Rightarrow> (let (ctx2, s2) = elf_cleanup free ctx1 s1 in (False, ctx2, s2))
                   | (True, ctx1, s1) \<Rightarrow>
                       (case parse_section_headers alloc ctx1 s1 of
                          (False, ctx2, s2) \<Rightarrow> (let (ctx3, s3) = elf_cleanup free ctx2 s2 in (False, ctx3, s3))
                        | (True, ctx2, s2) \<Rightarrow> (True, ctx2, s2)))"

section \<open>Loading\<close>

text \<open>The flags are collected in a 32-bit variable: the bit for pages without execution is cut off.\<close>

definition segment_flags :: "u32 \<Rightarrow> u32" where
  "segment_flags f =
     (let v = ucast VMM_FLAG_PRESENT;
          v = (if f AND PF_W \<noteq> 0 then v OR ucast VMM_FLAG_WRITABLE else v);
          v = (if \<not> f AND PF_X \<noteq> 0 then ucast (ucast v OR VMM_FLAG_NO_EXECUTE) else v)
      in if f AND PF_R \<noteq> 0 then v OR ucast VMM_FLAG_USER else v)"

definition load_segment :: "'a kernel_state_scheme alloc_fn \<Rightarrow> 'a kernel_state_scheme free_fn \<Rightarrow> u64 \<Rightarrow> elf64_program_header_t \<Rightarrow>
    elf_context_t \<Rightarrow> 'a kernel_state_scheme \<Rightarrow> bool \<times> elf_context_t \<times> 'a kernel_state_scheme" where
  "load_segment alloc free load_bias ph ctx s =
     (let vaddr = p_vaddr ph + load_bias;
          mem_size = (p_memsz ph + 4096 - 1) AND NOT (4096 - 1);
          page_count = mem_size div 4096;
          (segment_addr, s1) = alloc page_count s
      in if segment_addr = 0 then (False, ctx, s1)
         else let m1 = memset segment_addr 0 mem_size (kmem s1);
                  m2 = (if 0 < p_filesz ph
                        then memcpy segment_addr (elf_data ctx + p_offset ph) (if mem_size < p_filesz ph then mem_size else p_filesz ph) m1
                        else m1);
                  s2 = s1\<lparr>kmem := m2\<rparr>;
                  ctx1 = (if loaded_segment_count ctx < 16
                          then ctx\<lparr>loaded_segments := (loaded_segments ctx)[unat (loaded_segment_count ctx) := (segment_addr, mem_size)],
                                   loaded_segment_count := loaded_segment_count ctx + 1\<rparr>
                          else ctx);
                  (mapped, vm) = vmm_map_pages vaddr segment_addr page_count (ucast (segment_flags (p_flags ph))) (kvm s2);
                  s3 = s2\<lparr>kvm := vm\<rparr>
              in if \<not> mapped then (False, ctx1, free segment_addr page_count s3) else (True, ctx1, s3))"

fun load_segments :: "'a kernel_state_scheme alloc_fn \<Rightarrow> 'a kernel_state_scheme free_fn \<Rightarrow> u64 \<Rightarrow> nat list \<Rightarrow>
    elf_context_t \<Rightarrow> 'a kernel_state_scheme \<Rightarrow> bool \<times> elf_context_t \<times> 'a kernel_state_scheme" where
  "load_segments alloc free load_bias [] ctx s = (True, ctx, s)"
| "load_segments alloc free load_bias (i # is) ctx s =
     (let ph = read_program_header (kmem s) (program_headers ctx + of_nat i * 56)
      in if p_type ph \<noteq> PT_LOAD then load_segments alloc free load_bias is ctx s
         else case load_segment alloc free load_bias ph ctx s of
                (False, ctx1, s1) \<Rightarrow> (False, ctx1, s1)
              | (True, ctx1, s1) \<Rightarrow> load_segments alloc free load_bias is ctx1 s1)"

definition elf_load :: "'a kernel_state_scheme alloc_fn \<Rightarrow> 'a kernel_state_scheme free_fn \<Rightarrow> elf_context_t \<Rightarrow> u64 \<Rightarrow>
    'a kernel_state_scheme \<Rightarrow> bool \<times> elf_context_t \<times> 'a kernel_state_scheme" where
  "elf_load alloc free ctx base_addr s =
     (if program_headers ctx = 0 then (False, ctx, s)
      else let ctx1 = ctx\<lparr>base_address := base_addr\<rparr>;
               load_bias = (if e_type (header ctx1) = ET_DYN \<and> base_addr \<noteq> 0 then base_addr else 0)
           in case load_segments alloc free load_bias [0..<unat (e_phnum (header ctx1))] ctx1 s of
                (False, ctx2, s1) \<Rightarrow> (False, ctx2, s1)
              | (True, ctx2, s1) \<Rightarrow> (True, ctx2\<lparr>entry_point := e_entry (header ctx2) + load_bias\<rparr>, s1))"

text \<open>Calling the entry point runs the program, which is the parameter \<open>run\<close>.\<close>

definition elf_execute :: "(u64 \<Rightarrow> 's \<Rightarrow> 32 word \<times> 's) \<Rightarrow> elf_context_t \<Rightarrow> 's \<Rightarrow> 32 word \<times> 's" where
  "elf_execute run ctx s = (if entry_point ctx = 0 then (- 1, s) else run (entry_point ctx) s)"

definition elf_get_entry_point :: "elf_context_t \<Rightarrow> u64" where
  "elf_get_entry_point ctx = (if entry_point ctx \<noteq> 0 then entry_point ctx else e_entry (header ctx))"

fun find_section :: "mem \<Rightarrow> elf_context_t \<Rightarrow> u64 \<Rightarrow> nat list \<Rightarrow> (u64 \<times> elf64_section_header_t) option option" where
  "find_section m ctx name [] = Some None"
| "find_section m ctx name (i # is) =
     (let sh = read_section_header m (section_headers ctx + of_nat i * 64)
      in case strcmp m (section_name_table ctx + ucast (sh_name sh)) name of
           None \<Rightarrow> None
         | Some r \<Rightarrow> if r = 0 then Some (Some (elf_data ctx + sh_offset sh, sh)) else find_section m ctx name is)"

definition elf_find_section :: "mem \<Rightarrow> elf_context_t \<Rightarrow> u64 \<Rightarrow> (u64 \<times> elf64_section_header_t) option option" where
  "elf_find_section m ctx name =
     (if name = 0 \<or> section_headers ctx = 0 \<or> section_name_table ctx = 0 then Some None
      else find_section m ctx name [0..<unat (e_shnum (header ctx))])"


section \<open>The tables lie inside the file\<close>

lemma unat_table_bytes:
  assumes "unat num * unat entsize < 2 ^ 31"
  shows "unat (table_bytes num entsize) = unat num * unat entsize"
proof -
  let ?w = "ucast num * ucast entsize :: 32 word"
  have w: "unat ?w = unat num * unat entsize" using assms by (simp add: unat_word_ariths unat_ucast_up)
  have "int (unat ?w) = uint ?w" by simp
  then have "uint ?w = int (unat num * unat entsize)" by (simp only: w)
  moreover have "signed_take_bit 31 (int k) = int k" if "k < 2 ^ 31" for k
    using that by (intro signed_take_bit_int_eq_self) auto
  moreover have "sint ?w = signed_take_bit 31 (uint ?w)" by (simp only: sint_uint) simp
  ultimately have "sint ?w = int (unat num * unat entsize)" using assms by (simp only:)
  then have "table_bytes num entsize = of_nat (unat num * unat entsize)"
    by (simp only: table_bytes_def scast_eq of_int_of_nat_eq)
  moreover have "unat num * unat entsize < 2 ^ 64" using assms by simp
  ultimately show ?thesis by (simp only: unat_of_nat) simp
qed

text \<open>
  A file that passes the size check holds its header, and every entry of its program and section
  header tables lies inside the file, provided the size of each table fits into an \<open>int\<close> and its end
  does not wrap around.
\<close>

theorem elf_tables_in_file:
  assumes "validate_elf_size ctx"
    and "unat (e_phnum (header ctx)) * unat (e_phentsize (header ctx)) < 2 ^ 31" "unat (e_shnum (header ctx)) * unat (e_shentsize (header ctx)) < 2 ^ 31"
    and "unat (e_phoff (header ctx)) + unat (e_phnum (header ctx)) * unat (e_phentsize (header ctx)) < 2 ^ 64"
    and "unat (e_shoff (header ctx)) + unat (e_shnum (header ctx)) * unat (e_shentsize (header ctx)) < 2 ^ 64"
  shows "64 \<le> unat (elf_size ctx) \<and>
    (\<forall>i<unat (e_phnum (header ctx)). unat (e_phoff (header ctx)) + Suc i * unat (e_phentsize (header ctx)) \<le> unat (elf_size ctx)) \<and>
    (\<forall>i<unat (e_shnum (header ctx)). unat (e_shoff (header ctx)) + Suc i * unat (e_shentsize (header ctx)) \<le> unat (elf_size ctx))"
proof -
  let ?h = "header ctx"
  have "unat (e_phoff ?h + table_bytes (e_phnum ?h) (e_phentsize ?h)) = unat (e_phoff ?h) + unat (e_phnum ?h) * unat (e_phentsize ?h)"
    "unat (e_shoff ?h + table_bytes (e_shnum ?h) (e_shentsize ?h)) = unat (e_shoff ?h) + unat (e_shnum ?h) * unat (e_shentsize ?h)"
    using assms by (simp_all add: unat_word_ariths(1) unat_table_bytes)
  with assms(1) have b: "64 \<le> unat (elf_size ctx)" "unat (e_phoff ?h) + unat (e_phnum ?h) * unat (e_phentsize ?h) \<le> unat (elf_size ctx)"
    "unat (e_shoff ?h) + unat (e_shnum ?h) * unat (e_shentsize ?h) \<le> unat (elf_size ctx)"
    by (auto simp: validate_elf_size_def Let_def word_less_nat_alt split: if_splits)
  have "off + Suc i * es \<le> sz" if "i < num" "off + num * es \<le> sz" for i off num es sz :: nat
    using that mult_le_mono1 [of "Suc i" num es] by linarith
  with b show ?thesis by blast
qed

definition header_demo :: elf64_header_t where
  "header_demo = empty_header\<lparr>e_ident := [0x7F, 0x45, 0x4C, 0x46, 2, 1, 1, 0, 0, 0, 0, 0, 0, 0, 0, 0], e_type := 2, e_machine := 62, e_version := 1,
     e_entry := 0x400000, e_phoff := 64, e_phentsize := 56, e_phnum := 2, e_shoff := 176, e_shentsize := 64, e_shnum := 1\<rparr>"

theorem elf_tables_in_file_witness:
  "validate_elf_header header_demo \<and> unat (e_phoff header_demo) + Suc 1 * unat (e_phentsize header_demo) \<le> 240"
proof -
  let ?c = "empty_context\<lparr>header := header_demo, elf_size := 240\<rparr>"
  have "validate_elf_size ?c"
    by (simp add: validate_elf_size_def header_demo_def table_bytes_def)
  from elf_tables_in_file [OF this] have "\<forall>i<2. unat (e_phoff header_demo) + Suc i * unat (e_phentsize header_demo) \<le> 240"
    by (simp add: header_demo_def)
  then show ?thesis by (auto simp: validate_elf_header_def elf_magic_def header_demo_def ELFCLASS64_def ELFDATA2LSB_def EM_X86_64_def ET_EXEC_def)
qed

text \<open>
  Without the provisos the check can be passed by a table that does not lie in the file: the end of
  the table wraps around.
\<close>

lemma elf_size_check_wraps:
  "validate_elf_size (empty_context\<lparr>elf_size := 64, header := header_demo\<lparr>e_phoff := 0xFFFFFFFFFFFFFF90, e_shoff := 0, e_shnum := 0\<rparr>\<rparr>)"
  by (simp add: validate_elf_size_def header_demo_def table_bytes_def empty_header_def)

section \<open>Loading with the allocator of the kernel\<close>

text \<open>The callbacks the process manager passes to the loader (\<open>process.c\<close>).\<close>

definition process_alloc_pages :: "'a kernel_state_scheme alloc_fn" where
  "process_alloc_pages n s =
     (let (phys, p) = pmm_alloc_pages n (vmm_pmm (kvm s)) in (phys, s\<lparr>kvm := (kvm s)\<lparr>vmm_pmm := p\<rparr>\<rparr>))"

definition process_free_pages :: "'a kernel_state_scheme free_fn" where
  "process_free_pages addr n s =
     s\<lparr>kvm := (kvm s)\<lparr>vmm_pmm := pmm_free_pages addr n (vmm_pmm (kvm s))\<rparr>\<rparr>"

lemma unat_round_up:
  assumes "unat (n :: u64) + 4095 < 2 ^ 64"
  shows "unat ((n + 4096 - 1) AND NOT (4096 - 1)) = (unat n + 4095) div 4096 * 4096"
    "unat (((n + 4096 - 1) AND NOT (4096 - 1)) div 4096) = (unat n + 4095) div 4096"
proof -
  have m: "(4096 - 1 :: u64) = mask 12" by (simp add: mask_eq_exp_minus_1)
  have u: "unat (n + 4096 - 1) = unat n + 4095" 
  proof -
    have "n + 4096 - 1 = n + 4095" by simp
    with assms show ?thesis by (simp only: unat_word_ariths(1)) simp
  qed
  have "(n + 4096 - 1) AND NOT (4096 - 1) = push_bit 12 (drop_bit 12 (n + 4096 - 1))"
    unfolding m by (rule bit_word_eqI) (auto simp: bit_simps)
  then have "(n + 4096 - 1) AND NOT (4096 - 1) = 4096 * ((n + 4096 - 1) div 4096)"
    by (simp add: push_bit_eq_mult drop_bit_eq_div)
  then show 1: "unat ((n + 4096 - 1) AND NOT (4096 - 1)) = (unat n + 4095) div 4096 * 4096"
    using assms u by (simp add: unat_word_ariths(2) unat_div)
  show "unat (((n + 4096 - 1) AND NOT (4096 - 1)) div 4096) = (unat n + 4095) div 4096"
    using 1 by (simp add: unat_div)
qed

lemma unat_page_mask: "unat (x AND PAGE_ADDR_MASK) = unat x div 4096 * 4096"
proof -
  have m: "(0xFFF :: u64) = mask 12" by (simp add: mask_eq_exp_minus_1)
  have "x AND PAGE_ADDR_MASK = push_bit 12 (drop_bit 12 x)"
    unfolding PAGE_ADDR_MASK_def m by (rule bit_word_eqI) (auto simp: bit_simps)
  then have e: "x AND PAGE_ADDR_MASK = 4096 * (x div 4096)" by (simp add: push_bit_eq_mult drop_bit_eq_div)
  have "4096 * (unat x div 4096) \<le> unat x" by simp
  then have "4096 * (unat x div 4096) < 2 ^ 64" using unat_lt_64 [of x] by linarith
  then show ?thesis by (simp add: e unat_word_ariths(2) unat_div)
qed

lemma pt_wf_fewer_free: "pt_wf m h r F \<Longrightarrow> \<forall>a. G a \<longrightarrow> F a \<Longrightarrow> pt_wf m h r G"
  unfolding pt_wf_def by blast

text \<open>An allocation for the kernel keeps the page tables well-formed and every translation.\<close>

lemma process_alloc_pages_some:
  assumes wf: "vmm_wf (kvm s)" and alloc: "process_alloc_pages n s = (a, s1)" and nz: "a \<noteq> 0"
  shows "vmm_wf (kvm s1)" "translation (kvm s1) = translation (kvm s)" "hw_flags (kvm s1) = hw_flags (kvm s)" "kmem s1 = kmem s"
    "unat a + unat n * 4096 < 2 ^ 64" "unat n \<le> 65536" "unat a mod 4096 = 0"
    "\<forall>j<unat n. pmm_is_page_free (vmm_pmm (kvm s)) (a + of_nat j * 4096)"
proof -
  let ?p = "vmm_pmm (kvm s)"
  obtain p where p: "pmm_alloc_pages n ?p = (a, p)" "s1 = s\<lparr>kvm := (kvm s)\<lparr>vmm_pmm := p\<rparr>\<rparr>"
    using alloc by (auto simp: process_alloc_pages_def split: prod.splits)
  have inv: "pmm_inv ?p" using wf by (simp add: vmm_wf_def)
  from pmm_alloc_pages_run [OF inv p(1) nz] obtain st where st: "a = page_addr ?p st" "st + unat n \<le> page_count ?p"
    "\<forall>j<unat n. pmm_is_page_free ?p (page_addr ?p (st + j))"
    "pmm_is_page_free p = (\<lambda>b. if b \<in> page_addr ?p ` {st..<st + unat n} then False else pmm_is_page_free ?p b)" by blast
  have pb: "page_bitmap ?p" "n \<noteq> 0" using inv p(1) nz by (auto elim!: pmm_alloc_pages_cases)
  note i = pmm_invD [OF inv pb(1)]
  have l: "same_layout ?p p" by (rule pmm_alloc_pages_layout [OF p(1)])
  have "managed_pages p = managed_pages ?p" using l by (simp add: managed_pages_def same_layout_def page_addr_def)
  moreover have "pt_wf (vmm_mem (kvm s)) (hhdm_offset (kvm s)) (current_pml4_phys (kvm s)) (pmm_is_page_free p)"
    by (rule pt_wf_fewer_free) (use wf st(4) in \<open>auto simp: vmm_wf_def\<close>)
  ultimately show "vmm_wf (kvm s1)" using wf same_layout_inv [OF l inv] by (simp add: vmm_wf_def p(2))
  show "translation (kvm s1) = translation (kvm s)" by (simp add: p(2) translation_pmm)
  show "hw_flags (kvm s1) = hw_flags (kvm s)" "kmem s1 = kmem s" by (simp_all add: p(2) hw_flags_def fun_eq_iff)
  have ua: "unat a = unat (kernel_start (pmm_config ?p)) + st * 4096"
    using unat_page_addr [OF inv pb(1)] st(1,2) by simp
  have "(st + unat n) * 4096 \<le> page_count ?p * 4096" by (rule mult_le_mono1 [OF st(2)])
  then show "unat a + unat n * 4096 < 2 ^ 64" using i(5) ua by (simp only: add_mult_distrib)
  show "unat n \<le> 65536" using st(2) i(2) by simp
  show "unat a mod 4096 = 0" using ua i(3) by (simp add: mod_eq_0_iff_dvd)
  have "page_addr ?p (st + j) = a + of_nat j * 4096" for j using i(1) by (simp add: st(1) page_addr_def algebra_simps)
  with st(3) show "\<forall>j<unat n. pmm_is_page_free ?p (a + of_nat j * 4096)" by simp
qed

definition segment_bytes :: "elf64_program_header_t \<Rightarrow> nat" where
  "segment_bytes ph = (unat (p_memsz ph) + 4095) div 4096 * 4096"

definition file_bytes :: "elf64_program_header_t \<Rightarrow> nat" where
  "file_bytes ph = min (unat (p_filesz ph)) (segment_bytes ph)"

lemma segment_contents:
  fixes m :: mem
  assumes sz: "unat sz = n" and a: "unat a + n \<le> 2 ^ 64" and src: "unat src + min (unat fsz) n \<le> 2 ^ 64"
    and disj: "\<forall>i<min (unat fsz) n. \<not> in_region a n (src + of_nat i)"
  defines "m' \<equiv> (if 0 < fsz then memcpy a src (if sz < fsz then sz else fsz) (memset a 0 sz m) else memset a 0 sz m)"
  shows "(i < n \<longrightarrow> m' (a + of_nat i) = (if i < min (unat fsz) n then m (src + of_nat i) else 0)) \<and> (\<not> in_region a n x \<longrightarrow> m' x = m x)"
proof -
  let ?f = "min (unat fsz) n"
  have ms: "memset a 0 sz m = (\<lambda>x. if in_region a n x then 0 else m x)" using memset_region [of a sz 0 m] sz a by simp
  have ls: "unat (if sz < fsz then sz else fsz) = ?f" using sz by (auto simp: word_less_nat_alt)
  have "m' = region_copied a src ?f (memset a 0 sz m)"
  proof (cases "0 < fsz")
    case True
    then show ?thesis using memcpy_copied [of a "if sz < fsz then sz else fsz" src "memset a 0 sz m"] a src
      by (simp only: m'_def ls if_True)
  next
    case False
    then have "?f = 0" by (simp add: word_less_nat_alt)
    with False show ?thesis by (auto simp: m'_def region_copied_def in_region_def fun_eq_iff)
  qed
  then have m': "m' = (\<lambda>x. if in_region a ?f x then memset a 0 sz m (src + (x - a)) else memset a 0 sz m x)"
    by (simp add: region_copied_def)
  have off: "in_region a k (a + of_nat i) \<longleftrightarrow> i < k" if "i < n" "k \<le> n" for i k
    using that a by (auto simp: in_region_def unat_offset)
  have "m' (a + of_nat i) = (if i < ?f then m (src + of_nat i) else 0)" if "i < n"
    using that off [of i ?f] off [of i n] disj by (auto simp: m' ms)
  moreover have "m' x = m x" if "\<not> in_region a n x" for x
  proof -
    have "\<not> in_region a ?f x" using that by (auto simp: in_region_def)
    with that show ?thesis by (simp add: m' ms)
  qed
  ultimately show ?thesis by blast
qed

lemma run_nonzero:
  assumes "a \<noteq> 0" "unat a + n * 4096 < 2 ^ 64"
  shows "\<forall>j<n. a + of_nat j * 4096 \<noteq> (0 :: u64)"
proof (intro allI impI)
  fix j
  assume "j < n"
  then have "unat (a + of_nat j * 4096) = unat a + j * 4096" using assms(2) by (intro unat_add_pages) simp
  moreover have "0 < unat a" using assms(1) by (simp add: unat_gt_0)
  ultimately show "a + of_nat j * 4096 \<noteq> 0" by auto
qed

text \<open>A byte of a run of pages lies in one of the pages.\<close>

lemma page_of_region:
  assumes a: "unat (a :: u64) mod 4096 = 0" and r: "in_region a (n * 4096) x" and b: "unat a + n * 4096 < 2 ^ 64"
  shows "\<exists>j<n. x AND PAGE_ADDR_MASK = a + of_nat j * 4096"
proof -
  let ?j = "(unat x - unat a) div 4096"
  have x: "unat a \<le> unat x" "unat x < unat a + n * 4096" using r by (simp_all add: in_region_def)
  then have j: "?j < n" by (simp add: less_mult_imp_div_less)
  then have "unat (a + of_nat ?j * 4096) = unat a + ?j * 4096" using b by (intro unat_add_pages) simp
  moreover have "unat (x AND PAGE_ADDR_MASK) = unat x div 4096 * 4096" by (rule unat_page_mask)
  moreover have "unat x div 4096 * 4096 = unat a + ?j * 4096"
  proof -
    obtain k where k: "unat a = 4096 * k" using a by auto
    have "unat x div 4096 = k + ?j" using x k by (metis add_diff_inverse_nat div_mult_self4 linorder_not_less zero_neq_numeral)
    then show ?thesis using k by simp
  qed
  ultimately show ?thesis using j by (auto simp: word_unat_eq_iff intro!: exI [of _ ?j])
qed

lemma segment_flags_small: "ucast (segment_flags f) AND VMM_FLAG_HUGE = 0"
  by (simp add: segment_flags_def Let_def vmm_flag_defs)


definition kernel_demo :: kernel_state where
  "kernel_demo = lock_state.extend lock_demo \<lparr>kvm = vmm_demo, kmem = (\<lambda>_. 1)\<rparr>"

lemma kernel_demo_fields: "kvm kernel_demo = vmm_demo" "kmem kernel_demo = (\<lambda>_. 1)"
  by (simp_all add: kernel_demo_def lock_state.defs)

definition segment_demo :: elf64_program_header_t where
  "segment_demo = \<lparr>p_type = 1, p_flags = 6, p_offset = 0, p_vaddr = 0x400000, p_paddr = 0, p_filesz = 0, p_memsz = 16, p_align = 0x1000\<rparr>"

lemma segment_demo_loads: "fst (load_segment process_alloc_pages process_free_pages 0 segment_demo empty_context kernel_demo)"
proof -
  have "[0..<unat (1 :: u64)] = [0]" by (simp add: upt_rec)
  then show ?thesis
    unfolding load_segment_def segment_demo_def process_alloc_pages_def kernel_demo_fields vmm_map_pages_def vmm_demo_def
    by (simp add: demo_eval vmm_map_page_def map_page_internal_def hw_flags_def invlpg_def pmm_alloc_pages_def)
qed


text \<open>
  No segment is ever protected against execution: the page flags of a loaded segment do not have the
  no-execute bit, whatever the flags of the segment are, because they are collected in 32 bits.
\<close>

theorem segment_never_nx:
  "\<not> bit (hw_flags vm (ucast (segment_flags f))) 63"
proof -
  have "(ucast (segment_flags f) :: u64) AND VMM_FLAG_NO_EXECUTE = 0"
    by (simp add: segment_flags_def Let_def vmm_flag_defs)
  then show ?thesis by (simp add: hw_flags_def vmm_flag_defs bit_simps)
qed

text \<open>
  A file without section headers, which needs none to be executed, is rejected: the allocator is asked
  for zero pages, and its null result is taken for a failure.
\<close>

lemma elf_init_no_sections:
  assumes "e_shnum (read_header (kmem s) data) = 0"
  shows "\<not> fst (elf_init process_alloc_pages process_free_pages ctx data sz s)"
proof -
  have "p = 0" if "process_alloc_pages 0 t = (p, u)" for p and t u :: "'a kernel_state_scheme"
    using that by (simp add: process_alloc_pages_def pmm_alloc_pages_def)
  moreover have "table_pages (table_bytes 0 k) = 0" for k by (simp add: table_pages_def table_bytes_def)
  ultimately show ?thesis using assms
    by (auto simp: elf_init_def Let_def parse_program_headers_def parse_section_headers_def split: prod.split)
qed

end
