(* ===== verification/Proc_Queue.thy ===== *)
theory Proc_Queue
  imports Elf
begin

text \<open>
  The data of the process manager, \<open>src/src/src/syncos/process.c\<close> and \<open>process.h\<close>, and its two queues. The
  process table is a list; a pointer to a process is the index of its entry. The ready queue is
  linked in both directions through the entries of the table, the blocked queue in one. The queue
  operations are described by the lists of indices they link together: \<open>ready_queue\<close> and \<open>blocked_queue\<close>
  relate the links to such lists.
\<close>

section \<open>Processes\<close>

definition PROCESS_MAX_COUNT :: nat where "PROCESS_MAX_COUNT = 64"
definition PROCESS_DEFAULT_STACK_SIZE :: u64 where "PROCESS_DEFAULT_STACK_SIZE = 2 * 1024 * 1024"
definition DEFAULT_TIME_QUANTUM :: u64 where "DEFAULT_TIME_QUANTUM = 20"

datatype process_state_t =
    PROCESS_STATE_NEW | PROCESS_STATE_READY | PROCESS_STATE_RUNNING
  | PROCESS_STATE_BLOCKED | PROCESS_STATE_SUSPENDED | PROCESS_STATE_TERMINATED

record process_context_t =
  c_rax :: u64
  c_rbx :: u64
  c_rcx :: u64
  c_rdx :: u64
  c_rsi :: u64
  c_rdi :: u64
  c_rbp :: u64
  c_rsp :: u64
  c_r8 :: u64
  c_r9 :: u64
  c_r10 :: u64
  c_r11 :: u64
  c_r12 :: u64
  c_r13 :: u64
  c_r14 :: u64
  c_r15 :: u64
  c_rip :: u64
  c_rflags :: u64
  c_cs :: u64
  c_ss :: u64
  c_ds :: u64
  c_es :: u64
  c_fs :: u64
  c_gs :: u64
  c_cr3 :: u64

record memory_region_t =
  mr_start :: u64
  mr_end :: u64
  mr_flags :: u32
  mr_name :: "u8 list"

record process_t =
  pr_pid :: u32
  pr_parent_pid :: u32
  pr_name :: "u8 list"
  pr_state :: process_state_t
  pr_exit_code :: "32 word"
  pr_context :: process_context_t
  pr_page_table :: u64
  pr_stack_top :: u64
  pr_stack_size :: u64
  pr_memory_regions :: "memory_region_t list"
  pr_memory_region_count :: nat
  pr_elf_ctx :: elf_context_t
  pr_entry_point :: u64
  pr_start_time :: u64
  pr_cpu_time :: u64
  pr_last_schedule :: u64
  pr_quantum :: u64
  pr_base_priority :: "32 word"
  pr_dynamic_priority :: "32 word"
  pr_next :: "nat option"
  pr_prev :: "nat option"

record process_params_t =
  pp_name :: "u8 list option"
  pp_parent_pid :: u32
  pp_stack_size :: u64
  pp_priority :: "32 word"
  pp_time_quantum :: u64

text \<open>The registers of the processor are part of the state, because a context switch saves and loads them.\<close>

record proc_state = kernel_state +
  process_table :: "process_t list"
  next_pid :: u32
  current_process :: "nat option"
  idle_process :: "nat option"
  ready_queue_head :: "nat option"
  ready_queue_tail :: "nat option"
  blocked_queue_head :: "nat option"
  cpu :: process_context_t

definition zero_regs :: process_context_t where
  "zero_regs = \<lparr>c_rax = 0, c_rbx = 0, c_rcx = 0, c_rdx = 0, c_rsi = 0, c_rdi = 0, c_rbp = 0, c_rsp = 0, c_r8 = 0, c_r9 = 0,
     c_r10 = 0, c_r11 = 0, c_r12 = 0, c_r13 = 0, c_r14 = 0, c_r15 = 0, c_rip = 0, c_rflags = 0, c_cs = 0, c_ss = 0, c_ds = 0,
     c_es = 0, c_fs = 0, c_gs = 0, c_cr3 = 0\<rparr>"

definition zero_process :: process_t where
  "zero_process = \<lparr>pr_pid = 0, pr_parent_pid = 0, pr_name = replicate 32 0, pr_state = PROCESS_STATE_NEW, pr_exit_code = 0,
     pr_context = zero_regs, pr_page_table = 0, pr_stack_top = 0, pr_stack_size = 0,
     pr_memory_regions = replicate 16 \<lparr>mr_start = 0, mr_end = 0, mr_flags = 0, mr_name = replicate 16 0\<rparr>,
     pr_memory_region_count = 0, pr_elf_ctx = empty_context, pr_entry_point = 0, pr_start_time = 0, pr_cpu_time = 0,
     pr_last_schedule = 0, pr_quantum = 0, pr_base_priority = 0, pr_dynamic_priority = 0, pr_next = None, pr_prev = None\<rparr>"

definition proc :: "'a proc_state_scheme \<Rightarrow> nat \<Rightarrow> process_t" where
  "proc s i = process_table s ! i"

definition upd :: "nat \<Rightarrow> (process_t \<Rightarrow> process_t) \<Rightarrow> 'a proc_state_scheme \<Rightarrow> 'a proc_state_scheme" where
  "upd i f s = s\<lparr>process_table := (process_table s)[i := f (process_table s ! i)]\<rparr>"

section \<open>Queue operations\<close>

definition add_to_ready_queue :: "nat \<Rightarrow> 'a proc_state_scheme \<Rightarrow> 'a proc_state_scheme" where
  "add_to_ready_queue p s =
     (let s1 = upd p (pr_next_update (\<lambda>_. None)) s;
          s2 = (case ready_queue_head s1 of
                  None \<Rightarrow> upd p (pr_prev_update (\<lambda>_. None)) (s1\<lparr>ready_queue_head := Some p, ready_queue_tail := Some p\<rparr>)
                | Some _ \<Rightarrow>
                    (let t = the (ready_queue_tail s1);
                         s3 = upd t (pr_next_update (\<lambda>_. Some p)) s1
                     in (upd p (pr_prev_update (\<lambda>_. ready_queue_tail s3)) s3)\<lparr>ready_queue_tail := Some p\<rparr>))
      in upd p (pr_state_update (\<lambda>_. PROCESS_STATE_READY)) s2)"

definition remove_from_ready_queue :: "nat \<Rightarrow> 'a proc_state_scheme \<Rightarrow> 'a proc_state_scheme" where
  "remove_from_ready_queue p s =
     (let s1 =
        (if Some p = ready_queue_head s
         then let s1 = s\<lparr>ready_queue_head := pr_next (proc s p)\<rparr>
              in case ready_queue_head s1 of
                   Some h \<Rightarrow> upd h (pr_prev_update (\<lambda>_. None)) s1
                 | None \<Rightarrow> s1\<lparr>ready_queue_tail := None\<rparr>
         else if Some p = ready_queue_tail s
         then let s1 = s\<lparr>ready_queue_tail := pr_prev (proc s p)\<rparr>
              in case ready_queue_tail s1 of
                   Some t \<Rightarrow> upd t (pr_next_update (\<lambda>_. None)) s1
                 | None \<Rightarrow> s1\<lparr>ready_queue_head := None\<rparr>
         else let s1 = (case pr_prev (proc s p) of Some q \<Rightarrow> upd q (pr_next_update (\<lambda>_. pr_next (proc s p))) s | None \<Rightarrow> s)
              in case pr_next (proc s1 p) of Some q \<Rightarrow> upd q (pr_prev_update (\<lambda>_. pr_prev (proc s1 p))) s1 | None \<Rightarrow> s1)
      in upd p (pr_prev_update (\<lambda>_. None)) (upd p (pr_next_update (\<lambda>_. None)) s1))"

definition add_to_blocked_queue :: "nat \<Rightarrow> 'a proc_state_scheme \<Rightarrow> 'a proc_state_scheme" where
  "add_to_blocked_queue p s =
     (let s1 = upd p (pr_next_update (\<lambda>_. blocked_queue_head s)) s
      in upd p (pr_state_update (\<lambda>_. PROCESS_STATE_BLOCKED)) (s1\<lparr>blocked_queue_head := Some p\<rparr>))"

text \<open>The walk along the blocked queue: \<open>None\<close> is a walk that never ends.\<close>

partial_function (option) blocked_walk :: "nat \<Rightarrow> nat option \<Rightarrow> nat option \<Rightarrow> 'a proc_state_scheme \<Rightarrow> 'a proc_state_scheme option" where
  "blocked_walk p current prev s =
     (case current of
        None \<Rightarrow> Some s
      | Some c \<Rightarrow>
          if c = p
          then let s1 = (case prev of
                           Some q \<Rightarrow> upd q (pr_next_update (\<lambda>_. pr_next (proc s c))) s
                         | None \<Rightarrow> s\<lparr>blocked_queue_head := pr_next (proc s c)\<rparr>)
               in Some (upd p (pr_next_update (\<lambda>_. None)) s1)
          else blocked_walk p (pr_next (proc s c)) (Some c) s)"

definition remove_from_blocked_queue :: "nat \<Rightarrow> 'a proc_state_scheme \<Rightarrow> 'a proc_state_scheme option" where
  "remove_from_blocked_queue p s = blocked_walk p (blocked_queue_head s) None s"

text \<open>Taking the head of the ready queue, in \<open>schedule_next\<close>.\<close>

definition take_ready :: "nat \<Rightarrow> 'a proc_state_scheme \<Rightarrow> 'a proc_state_scheme" where
  "take_ready n s =
     (let s1 = s\<lparr>ready_queue_head := pr_next (proc s n)\<rparr>;
          s2 = (case ready_queue_head s1 of
                  Some h \<Rightarrow> upd h (pr_prev_update (\<lambda>_. None)) s1
                | None \<Rightarrow> s1\<lparr>ready_queue_tail := None\<rparr>)
      in upd n (pr_prev_update (\<lambda>_. None)) (upd n (pr_next_update (\<lambda>_. None)) s2))"

section \<open>The lists behind the links\<close>

text \<open>The first element of a list, or \<open>e\<close> when it is empty; a chain of links along a list that ends in \<open>e\<close>.\<close>

definition first :: "nat list \<Rightarrow> nat option \<Rightarrow> nat option" where
  "first xs e = (case xs of [] \<Rightarrow> e | x # _ \<Rightarrow> Some x)"

fun linked :: "(nat \<Rightarrow> nat option) \<Rightarrow> nat list \<Rightarrow> nat option \<Rightarrow> bool" where
  "linked nx [] e \<longleftrightarrow> True"
| "linked nx (i # is) e \<longleftrightarrow> nx i = first is e \<and> linked nx is e"

definition nexts :: "'a proc_state_scheme \<Rightarrow> nat \<Rightarrow> nat option" where
  "nexts s i = pr_next (proc s i)"

definition prevs :: "'a proc_state_scheme \<Rightarrow> nat \<Rightarrow> nat option" where
  "prevs s i = pr_prev (proc s i)"

definition states :: "'a proc_state_scheme \<Rightarrow> nat \<Rightarrow> process_state_t" where
  "states s i = pr_state (proc s i)"

abbreviation slots :: "'a proc_state_scheme \<Rightarrow> nat" where
  "slots s \<equiv> length (process_table s)"

text \<open>
  The whole configuration: \<open>rs\<close> is the ready queue from head to tail and \<open>bs\<close> the blocked queue; no
  entry is in both or twice in one, and an entry outside the queues has no links.
\<close>

definition queues :: "nat list \<Rightarrow> nat list \<Rightarrow> 'a proc_state_scheme \<Rightarrow> bool" where
  "queues rs bs s \<longleftrightarrow>
     distinct (rs @ bs) \<and> set (rs @ bs) \<subseteq> {..< slots s} \<and>
     ready_queue_head s = first rs None \<and> ready_queue_tail s = first (rev rs) None \<and> blocked_queue_head s = first bs None \<and>
     linked (nexts s) rs None \<and> linked (prevs s) (rev rs) None \<and> linked (nexts s) bs None \<and>
     (\<forall>i. i \<notin> set rs \<longrightarrow> i < slots s \<longrightarrow> prevs s i = None) \<and> (\<forall>i. i \<notin> set (rs @ bs) \<longrightarrow> i < slots s \<longrightarrow> nexts s i = None)"

lemma first_simps [simp]: "first [] e = e" "first (x # xs) e = Some x" "first (xs @ ys) e = first xs (first ys e)"
  by (simp_all add: first_def split: list.split)

lemma first_eq_None [simp]: "first xs None = None \<longleftrightarrow> xs = []"
  by (cases xs) simp_all

lemma first_in: "first xs None = Some x \<Longrightarrow> x \<in> set xs"
  by (cases xs) simp_all

lemma linked_append [simp]: "linked nx (xs @ ys) e \<longleftrightarrow> linked nx xs (first ys e) \<and> linked nx ys e"
  by (induction xs) auto

lemma linked_upd [simp]: "p \<notin> set xs \<Longrightarrow> linked (nx(p := v)) xs e = linked nx xs e"
  by (induction xs) auto

lemma upd_fields [simp]:
  "slots (upd i f s) = slots s" "ready_queue_head (upd i f s) = ready_queue_head s" "ready_queue_tail (upd i f s) = ready_queue_tail s"
  "blocked_queue_head (upd i f s) = blocked_queue_head s" "current_process (upd i f s) = current_process s"
  "idle_process (upd i f s) = idle_process s" "kvm (upd i f s) = kvm s" "kmem (upd i f s) = kmem s" "cpu (upd i f s) = cpu s"
  "locks (upd i f s) = locks s" "interrupt_flag (upd i f s) = interrupt_flag s" "next_pid (upd i f s) = next_pid s"
  by (simp_all add: upd_def)

lemma proc_upd [simp]: "i < slots s \<Longrightarrow> proc (upd i f s) = (proc s)(i := f (proc s i))"
  by (auto simp: proc_def upd_def fun_eq_iff nth_list_update)

lemma proc_frame [simp]:
  "proc (s\<lparr>ready_queue_head := h\<rparr>) = proc s" "proc (s\<lparr>ready_queue_tail := h\<rparr>) = proc s" "proc (s\<lparr>blocked_queue_head := h\<rparr>) = proc s"
  "proc (s\<lparr>current_process := h\<rparr>) = proc s"
  by (simp_all add: proc_def fun_eq_iff)

lemma links_upd [simp]:
  assumes "i < slots s"
  shows "nexts (upd i (pr_next_update f) s) = (nexts s)(i := f (nexts s i))" "prevs (upd i (pr_next_update f) s) = prevs s"
    "prevs (upd i (pr_prev_update f) s) = (prevs s)(i := f (prevs s i))" "nexts (upd i (pr_prev_update f) s) = nexts s"
    "nexts (upd i (pr_state_update g) s) = nexts s" "prevs (upd i (pr_state_update g) s) = prevs s"
    "states (upd i (pr_state_update g) s) = (states s)(i := g (states s i))"
    "states (upd i (pr_next_update f) s) = states s" "states (upd i (pr_prev_update f) s) = states s"
  using assms by (auto simp: nexts_def prevs_def states_def fun_eq_iff)

lemma links_frame [simp]:
  "nexts (s\<lparr>ready_queue_head := h\<rparr>) = nexts s" "nexts (s\<lparr>ready_queue_tail := h\<rparr>) = nexts s" "nexts (s\<lparr>blocked_queue_head := h\<rparr>) = nexts s"
  "prevs (s\<lparr>ready_queue_head := h\<rparr>) = prevs s" "prevs (s\<lparr>ready_queue_tail := h\<rparr>) = prevs s" "prevs (s\<lparr>blocked_queue_head := h\<rparr>) = prevs s"
  "states (s\<lparr>ready_queue_head := h\<rparr>) = states s" "states (s\<lparr>ready_queue_tail := h\<rparr>) = states s" "states (s\<lparr>blocked_queue_head := h\<rparr>) = states s"
  by (simp_all add: nexts_def prevs_def states_def fun_eq_iff)

lemma queues_add_ready:
  assumes q: "queues rs bs s" and p: "p \<notin> set (rs @ bs)" "p < slots s"
  shows "queues (rs @ [p]) bs (add_to_ready_queue p s)"
proof (cases rs rule: rev_exhaust)
  case Nil
  with assms show ?thesis by (auto simp: queues_def add_to_ready_queue_def)
next
  case (snoc us t)
  then have h: "\<exists>h. ready_queue_head s = Some h" and t: "t < slots s" "ready_queue_tail s = Some t" "t \<noteq> p"
    using q p by (auto simp: queues_def split: option.split) (cases us; simp)
  with assms snoc show ?thesis
    by (auto simp: queues_def add_to_ready_queue_def)
qed

lemma queues_take_ready:
  assumes q: "queues (n # rs) bs s"
  shows "queues rs bs (take_ready n s)"
proof (cases rs)
  case Nil
  with q show ?thesis by (auto simp: queues_def take_ready_def nexts_def [symmetric])
next
  case (Cons r vs)
  with q show ?thesis by (auto simp: queues_def take_ready_def nexts_def [symmetric])
qed

lemma queues_add_blocked:
  assumes q: "queues rs bs s" and p: "p \<notin> set (rs @ bs)" "p < slots s"
  shows "queues rs (p # bs) (add_to_blocked_queue p s)"
  using assms by (auto simp: queues_def add_to_blocked_queue_def)

lemma queues_absent:
  assumes q: "queues rs bs s" and p: "p \<notin> set (rs @ bs)" "p < slots s"
  shows "queues rs bs (remove_from_ready_queue p s)"
proof -
  have "ready_queue_head s \<noteq> Some p" "ready_queue_tail s \<noteq> Some p" "pr_prev (proc s p) = None" "pr_next (proc s p) = None"
    using q p first_in [of rs p] first_in [of "rev rs" p] by (auto simp: queues_def nexts_def prevs_def)
  with q p show ?thesis by (auto simp: queues_def remove_from_ready_queue_def)
qed

lemma queues_remove_ready:
  assumes q: "queues (us @ p # vs) bs s"
  shows "queues (us @ vs) bs (remove_from_ready_queue p s)"
proof (cases us rule: rev_exhaust)
  case Nil
  then have "remove_from_ready_queue p s = take_ready p s" using q by (simp add: remove_from_ready_queue_def take_ready_def queues_def Let_def)
  with q Nil queues_take_ready show ?thesis by simp
next
  case (snoc ws u)
  have pl: "p < slots s" "u < slots s" "u \<noteq> p" using q snoc by (auto simp: queues_def)
  have h: "ready_queue_head s \<noteq> Some p" using q snoc by (cases ws) (auto simp: queues_def)
  have pv: "pr_prev (proc s p) = Some u" "pr_next (proc s p) = first vs None"
    using q snoc by (auto simp: queues_def prevs_def nexts_def)
  show ?thesis
  proof (cases vs)
    case Nil
    then have "ready_queue_tail s = Some p" using q by (simp add: queues_def)
    with q snoc Nil h pl pv show ?thesis by (auto simp: queues_def remove_from_ready_queue_def)
  next
    case (Cons v ys)
    then have t: "ready_queue_tail s \<noteq> Some p" using q by (cases ys rule: rev_exhaust) (auto simp: queues_def)
    have v: "v < slots s" "v \<noteq> p" "v \<noteq> u" using q snoc Cons by (auto simp: queues_def)
    with q snoc Cons h t pl pv show ?thesis by (auto simp: queues_def remove_from_ready_queue_def)
  qed
qed

lemma blocked_walk_absent:
  "linked (nexts s) bs None \<Longrightarrow> p \<notin> set bs \<Longrightarrow> blocked_walk p (first bs None) prev s = Some s"
proof (induction bs arbitrary: prev)
  case Nil
  then show ?case by (subst blocked_walk.simps) simp
next
  case (Cons c cs)
  then show ?case by (subst blocked_walk.simps) (simp add: nexts_def)
qed

lemma blocked_walk_found:
  "linked (nexts s) (us @ p # vs) None \<Longrightarrow> p \<notin> set us \<Longrightarrow>
   blocked_walk p (first (us @ p # vs) None) prev s =
     Some (upd p (pr_next_update (\<lambda>_. None))
       (case first (rev us) prev of
          Some q \<Rightarrow> upd q (pr_next_update (\<lambda>_. pr_next (proc s p))) s
        | None \<Rightarrow> s\<lparr>blocked_queue_head := pr_next (proc s p)\<rparr>))"
proof (induction us arbitrary: prev)
  case Nil
  then show ?case by (subst blocked_walk.simps) simp
next
  case (Cons c cs)
  then show ?case by (subst blocked_walk.simps) (simp add: nexts_def)
qed

section \<open>What the queue operations leave alone\<close>

definition core :: "process_t \<Rightarrow> process_t" where
  "core x = x\<lparr>pr_state := PROCESS_STATE_NEW, pr_next := None, pr_prev := None\<rparr>"

definition but_queues :: "'a proc_state_scheme \<Rightarrow> 'a proc_state_scheme" where
  "but_queues s = s\<lparr>process_table := [], ready_queue_head := None, ready_queue_tail := None, blocked_queue_head := None\<rparr>"

definition queue_only :: "'a proc_state_scheme \<Rightarrow> 'a proc_state_scheme \<Rightarrow> bool" where
  "queue_only s t \<longleftrightarrow> map core (process_table t) = map core (process_table s) \<and> but_queues t = but_queues s"

lemma queue_only_refl [simp]: "queue_only s s"
  by (simp add: queue_only_def)

lemma queue_only_trans: "queue_only s t \<Longrightarrow> queue_only t u \<Longrightarrow> queue_only s u"
  by (simp add: queue_only_def)

lemma queue_only_upd:
  assumes "queue_only s t"
  shows "queue_only s (upd i (pr_next_update f) t)" "queue_only s (upd i (pr_prev_update f) t)" "queue_only s (upd i (pr_state_update g) t)"
    "queue_only s (t\<lparr>ready_queue_head := h\<rparr>)" "queue_only s (t\<lparr>ready_queue_tail := h\<rparr>)" "queue_only s (t\<lparr>blocked_queue_head := h\<rparr>)"
proof -
  have u: "queue_only t (upd i k t)" if "\<And>x. core (k x) = core x" for k
  proof -
    have "map core ((process_table t)[i := k (process_table t ! i)]) = map core (process_table t)"
      by (cases "i < slots t") (simp_all add: map_update that map_update [symmetric] list_update_same_conv)
    then show ?thesis by (simp add: queue_only_def upd_def but_queues_def)
  qed
  show "queue_only s (upd i (pr_next_update f) t)" "queue_only s (upd i (pr_prev_update f) t)" "queue_only s (upd i (pr_state_update g) t)"
    by (rule queue_only_trans [OF assms u], simp add: core_def)+
  show "queue_only s (t\<lparr>ready_queue_head := h\<rparr>)" "queue_only s (t\<lparr>ready_queue_tail := h\<rparr>)" "queue_only s (t\<lparr>blocked_queue_head := h\<rparr>)"
    using assms by (simp_all add: queue_only_def but_queues_def)
qed

lemma queue_only_ops [simp, intro]:
  "queue_only s (add_to_ready_queue p s)" "queue_only s (remove_from_ready_queue p s)" "queue_only s (add_to_blocked_queue p s)"
  "queue_only s (take_ready p s)"
  by (simp_all add: add_to_ready_queue_def remove_from_ready_queue_def add_to_blocked_queue_def take_ready_def Let_def queue_only_upd split: option.split)

lemma queue_only_fields:
  assumes "queue_only s t"
  shows "slots t = slots s" "current_process t = current_process s" "idle_process t = idle_process s" "locks t = locks s"
    "interrupt_flag t = interrupt_flag s" "next_pid t = next_pid s" "kvm t = kvm s" "kmem t = kmem s" "cpu t = cpu s"
    "timer_tick_count t = timer_tick_count s"
proof -
  show "slots t = slots s" using assms map_eq_imp_length_eq unfolding queue_only_def by blast
  have b: "but_queues t = but_queues s" using assms by (simp add: queue_only_def)
  show "current_process t = current_process s" "idle_process t = idle_process s" "locks t = locks s"
    "interrupt_flag t = interrupt_flag s" "next_pid t = next_pid s" "kvm t = kvm s" "kmem t = kmem s" "cpu t = cpu s"
    "timer_tick_count t = timer_tick_count s"
    using arg_cong [OF b, of current_process] arg_cong [OF b, of idle_process] arg_cong [OF b, of locks] arg_cong [OF b, of interrupt_flag]
      arg_cong [OF b, of next_pid] arg_cong [OF b, of kvm] arg_cong [OF b, of kmem] arg_cong [OF b, of cpu] arg_cong [OF b, of timer_tick_count]
    by (simp_all add: but_queues_def)
qed

lemma queue_only_proc:
  assumes "queue_only s t" "i < slots s"
  shows "core (proc t i) = core (proc s i)"
proof -
  have "map core (process_table t) ! i = map core (process_table s) ! i" using assms(1) by (simp add: queue_only_def)
  then show ?thesis using assms queue_only_fields(1) [OF assms(1)] by (simp add: proc_def)
qed

lemma core_fields:
  assumes "core x = core y"
  shows "pr_pid x = pr_pid y" "pr_page_table x = pr_page_table y" "pr_context x = pr_context y" "pr_elf_ctx x = pr_elf_ctx y"
    "pr_quantum x = pr_quantum y" "pr_cpu_time x = pr_cpu_time y" "pr_last_schedule x = pr_last_schedule y" "pr_exit_code x = pr_exit_code y"
  using arg_cong [OF assms, of pr_pid] arg_cong [OF assms, of pr_page_table] arg_cong [OF assms, of pr_context] arg_cong [OF assms, of pr_elf_ctx]
    arg_cong [OF assms, of pr_quantum] arg_cong [OF assms, of pr_cpu_time] arg_cong [OF assms, of pr_last_schedule] arg_cong [OF assms, of pr_exit_code]
  by (simp_all add: core_def)

lemmas queue_only_core = core_fields [OF queue_only_proc]

lemma states_upd [simp]:
  "states (upd i (pr_next_update f) s) = states s" "states (upd i (pr_prev_update f) s) = states s"
proof -
  have beyond: "upd i k s = s" if "\<not> i < slots s" for k using that by (simp add: upd_def list_update_beyond)
  show "states (upd i (pr_next_update f) s) = states s" "states (upd i (pr_prev_update f) s) = states s"
    by (cases "i < slots s"; simp add: beyond)+
qed

lemma states_ops:
  "p < slots s \<Longrightarrow> states (add_to_ready_queue p s) = (states s)(p := PROCESS_STATE_READY)" "states (remove_from_ready_queue p s) = states s"
  "p < slots s \<Longrightarrow> states (add_to_blocked_queue p s) = (states s)(p := PROCESS_STATE_BLOCKED)" "states (take_ready p s) = states s"
  by (simp_all add: add_to_ready_queue_def remove_from_ready_queue_def add_to_blocked_queue_def take_ready_def Let_def split: option.split)

lemma queues_remove_blocked:
  assumes q: "queues rs (us @ p # vs) s"
  shows "\<exists>t. remove_from_blocked_queue p s = Some t \<and> queues rs (us @ vs) t \<and> states t = states s \<and> queue_only s t"
proof -
  have l: "linked (nexts s) (us @ p # vs) None" "p \<notin> set us" "blocked_queue_head s = first (us @ p # vs) None" "p < slots s"
    "pr_next (proc s p) = first vs None"
    using q by (auto simp: queues_def nexts_def)
  show ?thesis
  proof (cases us rule: rev_exhaust)
    case Nil
    with q l show ?thesis
      by (auto simp: remove_from_blocked_queue_def blocked_walk_found [where us = "[]", simplified] queues_def queue_only_upd)
  next
    case (snoc ws u)
    then have "u < slots s" "u \<noteq> p" using q by (auto simp: queues_def)
    with q l snoc show ?thesis
      using blocked_walk_found [OF l(1,2), of None] by (auto simp: remove_from_blocked_queue_def queues_def queue_only_upd)
  qed
qed

end
