(* ===== verification/Process.thy ===== *)
theory Process
  imports Proc_Queue
begin

text \<open>
  The process manager, \<open>src/src/src/syncos/process.c\<close> with the context switch of \<open>process_switch.S\<close>: scheduling,
  creation from an ELF file, blocking, termination and the queries. Addresses that the linker
  assigns, and the register transfer of the inline assembly of \<open>process_restore_context\<close>, whose pointer register
  the compiler chooses, are fields of an environment. \<open>None\<close> is a wait for a lock that nobody will
  release. A function that switches the context is modelled up to the point where the other process
  runs.
\<close>

section \<open>Context switch\<close>

record process_env =
  process_lock :: u64
  lock_track_base :: u64
  return_addr :: u64
  timer_callback_addr :: u64
  context_addr :: "nat \<Rightarrow> u64"
  restore_regs :: "process_context_t \<Rightarrow> process_context_t \<Rightarrow> process_context_t"

definition proc_lock :: "process_env \<Rightarrow> 'a proc_state_scheme \<Rightarrow> 'a proc_state_scheme option" where
  "proc_lock env s = spinlock_acquire (lock_track_base env) (return_addr env) (process_lock env) s"

definition proc_unlock :: "process_env \<Rightarrow> 'a proc_state_scheme \<Rightarrow> 'a proc_state_scheme" where
  "proc_unlock env s = spinlock_release (process_lock env) s"

text \<open>
  A load relative to a pointer \<open>p\<close> to a saved context: a context in the process table, or the bytes of
  memory there.
\<close>

definition saved_word :: "process_env \<Rightarrow> u64 \<Rightarrow> u64 \<Rightarrow> (process_context_t \<Rightarrow> u64) \<Rightarrow> 'a proc_state_scheme \<Rightarrow> u64" where
  "saved_word env p off reg s =
     (case find_slot (\<lambda>i. context_addr env i = p) [0..< slots s] of
        Some i \<Rightarrow> reg (pr_context (proc s i))
      | None \<Rightarrow> le64 (kmem s) (p + off))"

text \<open>
  \<open>process_switch_context\<close>, instruction by instruction: the registers are saved in the context of \<open>i\<close>, with the
  two arguments in \<open>rdi\<close> and \<open>rsi\<close>; then \<open>rsi\<close> is overwritten with its saved value and the remaining
  registers are loaded through it. What is pushed and popped again is not kept.
\<close>

definition process_switch_context :: "process_env \<Rightarrow> nat \<Rightarrow> nat \<Rightarrow> 'a proc_state_scheme \<Rightarrow> 'a proc_state_scheme" where
  "process_switch_context env i j s =
     (let r = (cpu s)\<lparr>c_rdi := context_addr env i, c_rsi := context_addr env j\<rparr>;
          s1 = upd i (pr_context_update (\<lambda>c. c\<lparr>c_rax := c_rax r, c_rbx := c_rbx r, c_rcx := c_rcx r, c_rdx := c_rdx r,
                  c_rsi := c_rsi r, c_rdi := c_rdi r, c_rbp := c_rbp r, c_rsp := c_rsp r, c_r8 := c_r8 r, c_r9 := c_r9 r,
                  c_r10 := c_r10 r, c_r11 := c_r11 r, c_r12 := c_r12 r, c_r13 := c_r13 r, c_r14 := c_r14 r, c_r15 := c_r15 r,
                  c_rflags := c_rflags r\<rparr>)) s;
          new = pr_context (proc s1 j);
          p = c_rsi new;
          ld = (\<lambda>off reg. saved_word env p off reg s1);
          rflags = ld 128 c_rflags;
          rsp = ld 56 c_rsp
      in s1\<lparr>cpu := r\<lparr>c_rax := rflags, c_rbx := c_rbx new, c_rcx := c_rcx new, c_rdx := c_rdx new, c_rdi := c_rdi new, c_rsi := p,
              c_rbp := ld 48 c_rbp, c_rsp := rsp + 8, c_r8 := ld 64 c_r8, c_r9 := ld 72 c_r9, c_r10 := ld 80 c_r10, c_r11 := ld 88 c_r11,
              c_r12 := ld 96 c_r12, c_r13 := ld 104 c_r13, c_r14 := ld 112 c_r14, c_r15 := ld 120 c_r15, c_rflags := rflags,
              c_rip := le64 (kmem s1) rsp\<rparr>,
            interrupt_flag := bit rflags 9\<rparr>)"

definition process_restore_context :: "process_env \<Rightarrow> nat \<Rightarrow> 'a proc_state_scheme \<Rightarrow> 'a proc_state_scheme" where
  "process_restore_context env j s =
     (let r = restore_regs env (pr_context (proc s j)) (cpu s) in s\<lparr>cpu := r, interrupt_flag := bit (c_rflags r) 9\<rparr>)"

definition switch_space :: "u64 \<Rightarrow> 'a proc_state_scheme \<Rightarrow> 'a proc_state_scheme" where
  "switch_space pt s = s\<lparr>kvm := vmm_switch_address_space pt (kvm s)\<rparr>"

definition context_switch :: "process_env \<Rightarrow> nat \<Rightarrow> 'a proc_state_scheme \<Rightarrow> 'a proc_state_scheme" where
  "context_switch env n s =
     (if Some n = current_process s then s
      else let prev = current_process s;
               s1 = s\<lparr>current_process := Some n\<rparr>;
               s2 = (case prev of
                       Some p \<Rightarrow> if pr_state (proc s1 p) = PROCESS_STATE_RUNNING
                                 then upd p (pr_state_update (\<lambda>_. PROCESS_STATE_READY)) s1 else s1
                     | None \<Rightarrow> s1);
               s3 = upd n (pr_state_update (\<lambda>_. PROCESS_STATE_RUNNING)) s2;
               s4 = upd n (\<lambda>x. x\<lparr>pr_last_schedule := pr_cpu_time x\<rparr>) s3;
               s5 = switch_space (pr_page_table (proc s4 n)) s4
           in case prev of
                Some p \<Rightarrow> process_switch_context env p n s5
              | None \<Rightarrow> process_restore_context env n s5)"

definition schedule_next :: "process_env \<Rightarrow> 'a proc_state_scheme \<Rightarrow> 'a proc_state_scheme" where
  "schedule_next env s =
     (let s1 = idt_disable_interrupts s
      in case ready_queue_head s1 of
           Some n \<Rightarrow> context_switch env n (take_ready n s1)
         | None \<Rightarrow> (case idle_process s1 of Some n \<Rightarrow> context_switch env n s1 | None \<Rightarrow> s1))"

section \<open>Start-up\<close>

definition process_scheduler_init :: "process_env \<Rightarrow> 'a proc_state_scheme \<Rightarrow> (bool \<times> 'a proc_state_scheme) option" where
  "process_scheduler_init env s = timer_register_callback (timer_callback_addr env) 0 1 s"

text \<open>The name of the lock is the string process\_lock.\<close>

definition process_init :: "process_env \<Rightarrow> 'a proc_state_scheme \<Rightarrow> (bool \<times> 'a proc_state_scheme) option" where
  "process_init env s =
     (let s1 = s\<lparr>process_table := replicate PROCESS_MAX_COUNT zero_process\<rparr>;
          s2 = spinlock_init (process_lock env) s1;
          s3 = spinlock_set_name (lock_track_base env) (process_lock env)
                 [0x70, 0x72, 0x6F, 0x63, 0x65, 0x73, 0x73, 0x5F, 0x6C, 0x6F, 0x63, 0x6B] s2
      in process_scheduler_init env s3)"

definition name_field :: "nat \<Rightarrow> u8 list \<Rightarrow> u8 list" where
  "name_field n bs = take (n - 1) bs @ replicate (n - min (n - 1) (length bs)) 0"

text \<open>The name of the idle process is the string kernel\_idle.\<close>

definition process_register_kernel_idle :: "process_env \<Rightarrow> 'a proc_state_scheme \<Rightarrow> (bool \<times> 'a proc_state_scheme) option" where
  "process_register_kernel_idle env s =
     (case proc_lock env s of
        None \<Rightarrow> None
      | Some s1 \<Rightarrow>
          (let idle = zero_process\<lparr>pr_pid := 0, pr_state := PROCESS_STATE_READY,
                        pr_name := name_field 32 [0x6B, 0x65, 0x72, 0x6E, 0x65, 0x6C, 0x5F, 0x69, 0x64, 0x6C, 0x65],
                        pr_context := zero_regs\<lparr>c_cr3 := vmm_get_current_address_space (kvm s1)\<rparr>,
                        pr_quantum := - 1, pr_base_priority := - 20, pr_dynamic_priority := - 20\<rparr>;
               s2 = upd 0 (\<lambda>_. idle) s1
           in Some (True, proc_unlock env (s2\<lparr>idle_process := Some 0, current_process := Some 0\<rparr>))))"

definition timer_callback :: "process_env \<Rightarrow> 'a proc_state_scheme \<Rightarrow> 'a proc_state_scheme option" where
  "timer_callback env s =
     (if \<not> idt_are_interrupts_enabled s then Some s
      else case current_process s of
             None \<Rightarrow> Some (schedule_next env s)
           | Some c \<Rightarrow>
               if pr_state (proc s c) = PROCESS_STATE_RUNNING
               then let s1 = upd c (\<lambda>x. x\<lparr>pr_cpu_time := pr_cpu_time x + 1\<rparr>) s
                    in if pr_quantum (proc s1 c) \<le> pr_cpu_time (proc s1 c) - pr_last_schedule (proc s1 c)
                       then case proc_lock env s1 of
                              None \<Rightarrow> None
                            | Some s2 \<Rightarrow>
                                (let s3 = (if current_process s2 \<noteq> idle_process s2
                                           then add_to_ready_queue c (upd c (pr_state_update (\<lambda>_. PROCESS_STATE_READY)) s2)
                                           else s2)
                                 in Some (schedule_next env (proc_unlock env s3)))
                       else Some s1
               else Some (schedule_next env s))"

section \<open>Creation\<close>

definition allocate_pid :: "'a proc_state_scheme \<Rightarrow> u32 \<times> 'a proc_state_scheme" where
  "allocate_pid s =
     (let s1 = s\<lparr>next_pid := next_pid s + 1\<rparr>
      in (next_pid s, if next_pid s1 = 0 then s1\<lparr>next_pid := 1\<rparr> else s1))"

definition create_process_address_space :: "vmm_state \<Rightarrow> u64 \<times> vmm_state" where
  "create_process_address_space v = vmm_create_address_space v"

definition create_process_stack :: "u64 \<Rightarrow> u64 \<Rightarrow> vmm_state \<Rightarrow> u64 \<times> vmm_state" where
  "create_process_stack stack_size0 page_table v =
     (let stack_size = (stack_size0 + PAGE_SIZE_4K - 1) AND NOT (PAGE_SIZE_4K - 1);
          n = stack_size div PAGE_SIZE_4K;
          (stack_phys, p) = pmm_alloc_pages n (vmm_pmm v);
          v1 = v\<lparr>vmm_pmm := p\<rparr>
      in if stack_phys = 0 then (0, v1)
         else let stack_virt = 0xEFFFF000 - stack_size + PAGE_SIZE_4K;
                  old_cr3 = vmm_get_current_address_space v1;
                  v2 = vmm_switch_address_space page_table v1
              in case map_loop stack_virt stack_phys PAGE_SIZE_4K (VMM_FLAG_PRESENT OR VMM_FLAG_WRITABLE OR VMM_FLAG_USER) [0..<unat n] v2 of
                   (Some i, v3) \<Rightarrow>
                     (let v4 = vmm_switch_address_space old_cr3 (unmap_loop stack_virt PAGE_SIZE_4K i v3)
                      in (0, v4\<lparr>vmm_pmm := pmm_free_pages stack_phys n (vmm_pmm v4)\<rparr>))
                 | (None, v3) \<Rightarrow>
                     (let (_, v4) = vmm_map_page (stack_virt - PAGE_SIZE_4K) 0 (VMM_FLAG_PRESENT OR VMM_FLAG_NO_EXECUTE) v3
                      in (stack_virt + stack_size, vmm_switch_address_space old_cr3 v4)))"

definition init_process_context :: "u64 \<Rightarrow> u64 \<Rightarrow> process_t \<Rightarrow> process_t" where
  "init_process_context entry stack x =
     x\<lparr>pr_context := zero_regs\<lparr>c_rip := entry, c_rsp := stack, c_rflags := 0x202, c_cs := 0x1B OR 3, c_ss := 0x23 OR 3, c_ds := 0x23 OR 3,
         c_es := 0x23 OR 3, c_fs := 0x23 OR 3, c_gs := 0x23 OR 3, c_cr3 := pr_page_table x\<rparr>\<rparr>"

definition free_slot :: "'a proc_state_scheme \<Rightarrow> nat option" where
  "free_slot s =
     map_option Suc (find_slot (\<lambda>x. pr_state x = PROCESS_STATE_TERMINATED \<or> pr_pid x = 0) (tl (process_table s)))"

text \<open>The steps of \<open>process_create\<close> once a slot is found and cleared, up to the point where the process is complete.\<close>

definition new_entry :: "process_params_t \<Rightarrow> u32 \<Rightarrow> process_t" where
  "new_entry params pid =
     zero_process\<lparr>pr_pid := pid, pr_parent_pid := pp_parent_pid params, pr_name := name_field 32 (the (pp_name params)),
       pr_state := PROCESS_STATE_NEW, pr_base_priority := pp_priority params, pr_dynamic_priority := pp_priority params,
       pr_quantum := (if pp_time_quantum params \<noteq> 0 then pp_time_quantum params else DEFAULT_TIME_QUANTUM)\<rparr>"

definition delete_space :: "u64 \<Rightarrow> 'a proc_state_scheme \<Rightarrow> 'a proc_state_scheme" where
  "delete_space pt s = s\<lparr>kvm := vmm_delete_address_space pt (kvm s)\<rparr>"

definition abandon :: "nat \<Rightarrow> 'a proc_state_scheme \<Rightarrow> 'a proc_state_scheme" where
  "abandon i s = upd i (pr_pid_update (\<lambda>_. 0)) (delete_space (pr_page_table (proc s i)) s)"

definition load_image :: "nat \<Rightarrow> u64 \<Rightarrow> u64 \<Rightarrow> 'a proc_state_scheme \<Rightarrow> bool \<times> 'a proc_state_scheme" where
  "load_image i data sz s =
     (case elf_init process_alloc_pages process_free_pages (pr_elf_ctx (proc s i)) data sz s of
        (False, ctx, s1) \<Rightarrow> (False, abandon i (upd i (pr_elf_ctx_update (\<lambda>_. ctx)) s1))
      | (True, ctx, s1) \<Rightarrow>
          (let old_cr3 = vmm_get_current_address_space (kvm s1);
               s2 = switch_space (pr_page_table (proc s1 i)) s1
           in case elf_load process_alloc_pages process_free_pages ctx 0 s2 of
                (False, ctx1, s3) \<Rightarrow>
                  (let (ctx2, s4) = elf_cleanup process_free_pages ctx1 (switch_space old_cr3 s3)
                   in (False, abandon i (upd i (pr_elf_ctx_update (\<lambda>_. ctx2)) s4)))
              | (True, ctx1, s3) \<Rightarrow>
                  (let s4 = upd i (\<lambda>x. init_process_context (elf_get_entry_point ctx1) (pr_stack_top x)
                                        (x\<lparr>pr_elf_ctx := ctx1, pr_entry_point := elf_get_entry_point ctx1\<rparr>)) s3
                   in (True, switch_space old_cr3 s4))))"

definition build_process :: "nat \<Rightarrow> u64 \<Rightarrow> u64 \<Rightarrow> process_params_t \<Rightarrow> 'a proc_state_scheme \<Rightarrow> bool \<times> 'a proc_state_scheme" where
  "build_process i data sz params s =
     (let (pid, s1) = allocate_pid s;
          s2 = upd i (\<lambda>_. new_entry params pid) s1;
          (pt, v) = create_process_address_space (kvm s2);
          s3 = upd i (pr_page_table_update (\<lambda>_. pt)) (s2\<lparr>kvm := v\<rparr>)
      in if pt = 0 then (False, s3)
         else let stack_size = (if pp_stack_size params \<noteq> 0 then pp_stack_size params else PROCESS_DEFAULT_STACK_SIZE);
                  (top, v1) = create_process_stack stack_size pt (kvm s3);
                  s4 = upd i (\<lambda>x. x\<lparr>pr_stack_top := top, pr_stack_size := stack_size\<rparr>) (s3\<lparr>kvm := v1\<rparr>)
              in if top = 0 then (False, abandon i s4)
                 else case load_image i data sz s4 of
                        (False, s5) \<Rightarrow> (False, s5)
                      | (True, s5) \<Rightarrow>
                          (let s6 = add_to_ready_queue i (upd i (pr_state_update (\<lambda>_. PROCESS_STATE_READY)) s5)
                           in (True, upd i (pr_start_time_update (\<lambda>_. timer_get_ticks s6)) s6)))"

definition process_create :: "process_env \<Rightarrow> u64 \<Rightarrow> u64 \<Rightarrow> process_params_t option \<Rightarrow> 'a proc_state_scheme \<Rightarrow> (u32 \<times> 'a proc_state_scheme) option" where
  "process_create env data sz params s =
     (case params of
        None \<Rightarrow> Some (0, s)
      | Some params \<Rightarrow>
          if data = 0 \<or> sz = 0 \<or> pp_name params = None then Some (0, s)
          else if \<not> elf_is_valid (kmem s) data sz then Some (0, s)
          else case proc_lock env s of
                 None \<Rightarrow> None
               | Some s1 \<Rightarrow>
                   (case free_slot s1 of
                      None \<Rightarrow> Some (0, proc_unlock env s1)
                    | Some i \<Rightarrow>
                        (case build_process i data sz params s1 of
                           (False, s2) \<Rightarrow> Some (0, proc_unlock env s2)
                         | (True, s2) \<Rightarrow> Some (pr_pid (proc s2 i), proc_unlock env s2))))"

section \<open>Queries\<close>

definition process_get_current :: "'a proc_state_scheme \<Rightarrow> nat option" where
  "process_get_current s = current_process s"

definition process_get_by_id :: "u32 \<Rightarrow> 'a proc_state_scheme \<Rightarrow> nat option" where
  "process_get_by_id pid s =
     (if PROCESS_MAX_COUNT \<le> unat pid then None
      else if pr_pid (proc s (unat pid)) = pid then Some (unat pid) else None)"

definition process_get_stats :: "process_env \<Rightarrow> u32 \<Rightarrow> 'a proc_state_scheme \<Rightarrow> ((u64 \<times> process_state_t) option \<times> 'a proc_state_scheme) option" where
  "process_get_stats env pid s =
     (case proc_lock env s of
        None \<Rightarrow> None
      | Some s1 \<Rightarrow> Some (map_option (\<lambda>i. (pr_cpu_time (proc s1 i), pr_state (proc s1 i))) (process_get_by_id pid s1), proc_unlock env s1))"

fun list_pids :: "process_t list \<Rightarrow> nat \<Rightarrow> u32 list" where
  "list_pids [] k = []"
| "list_pids (x # xs) 0 = []"
| "list_pids (x # xs) (Suc k) = (if pr_pid x \<noteq> 0 then pr_pid x # list_pids xs k else list_pids xs (Suc k))"

text \<open>The identifiers written to the caller's array; their number is the result.\<close>

definition process_get_list :: "process_env \<Rightarrow> bool \<Rightarrow> int \<Rightarrow> 'a proc_state_scheme \<Rightarrow> (u32 list \<times> 'a proc_state_scheme) option" where
  "process_get_list env pids_null max_count s =
     (if pids_null \<or> max_count \<le> 0 then Some ([], s)
      else case proc_lock env s of
             None \<Rightarrow> None
           | Some s1 \<Rightarrow> Some (list_pids (process_table s1) (nat max_count), proc_unlock env s1))"

section \<open>Running, blocking and ending processes\<close>

datatype 's execution = Deadlock | Returns bool 's | Enters_user_mode u64 u64 u64 's

text \<open>\<open>process_enter_usermode\<close>, declared but not defined in the sources, does not return.\<close>

definition process_execute :: "process_env \<Rightarrow> u32 \<Rightarrow> 'a proc_state_scheme \<Rightarrow> 'a proc_state_scheme execution" where
  "process_execute env pid s =
     (case proc_lock env s of
        None \<Rightarrow> Deadlock
      | Some s1 \<Rightarrow>
          (case process_get_by_id pid s1 of
             None \<Rightarrow> Returns False (proc_unlock env s1)
           | Some i \<Rightarrow>
               if pr_state (proc s1 i) \<noteq> PROCESS_STATE_READY then Returns False (proc_unlock env s1)
               else let s2 = switch_space (pr_page_table (proc s1 i)) s1
                    in Enters_user_mode (pr_entry_point (proc s2 i)) (pr_stack_top (proc s2 i)) (pr_page_table (proc s2 i)) s2))"

definition free_process_resources :: "nat \<Rightarrow> 'a proc_state_scheme \<Rightarrow> 'a proc_state_scheme" where
  "free_process_resources i s =
     (let (ctx, s1) = elf_cleanup process_free_pages (pr_elf_ctx (proc s i)) s;
          s2 = upd i (pr_elf_ctx_update (\<lambda>_. ctx)) s1;
          pt = pr_page_table (proc s2 i);
          s3 = (if pt \<noteq> 0 then upd i (pr_page_table_update (\<lambda>_. 0)) (delete_space pt s2) else s2)
      in upd i (pr_memory_region_count_update (\<lambda>_. 0)) s3)"

definition leave_queues :: "nat \<Rightarrow> 'a proc_state_scheme \<Rightarrow> 'a proc_state_scheme option" where
  "leave_queues i s =
     (if pr_state (proc s i) = PROCESS_STATE_READY then Some (remove_from_ready_queue i s)
      else if pr_state (proc s i) = PROCESS_STATE_BLOCKED then remove_from_blocked_queue i s
      else Some s)"

definition process_terminate :: "process_env \<Rightarrow> u32 \<Rightarrow> 32 word \<Rightarrow> 'a proc_state_scheme \<Rightarrow> (bool \<times> 'a proc_state_scheme) option" where
  "process_terminate env pid exit_code s =
     (if pid = 0 then Some (False, s)
      else case proc_lock env s of
             None \<Rightarrow> None
           | Some s1 \<Rightarrow>
               (case process_get_by_id pid s1 of
                  None \<Rightarrow> Some (False, proc_unlock env s1)
                | Some i \<Rightarrow>
                    (case leave_queues i s1 of
                       None \<Rightarrow> None
                     | Some s2 \<Rightarrow>
                         (let s3 = upd i (\<lambda>x. x\<lparr>pr_exit_code := exit_code, pr_state := PROCESS_STATE_TERMINATED\<rparr>) s2;
                              s4 = free_process_resources i s3
                          in Some (True, if current_process s4 = Some i
                                         then schedule_next env (proc_unlock env (s4\<lparr>current_process := None\<rparr>))
                                         else proc_unlock env s4)))))"

definition process_arch_init :: bool where
  "process_arch_init = True"

definition process_yield :: "process_env \<Rightarrow> 'a proc_state_scheme \<Rightarrow> 'a proc_state_scheme" where
  "process_yield env s =
     (let s1 = idt_disable_interrupts s;
          s2 = (case current_process s1 of
                  Some c \<Rightarrow> add_to_ready_queue c (upd c (pr_state_update (\<lambda>_. PROCESS_STATE_READY)) s1)
                | None \<Rightarrow> s1)
      in schedule_next env s2)"

definition process_block :: "process_env \<Rightarrow> process_state_t \<Rightarrow> 'a proc_state_scheme \<Rightarrow> 'a proc_state_scheme" where
  "process_block env st s =
     (case current_process s of
        None \<Rightarrow> s
      | Some c \<Rightarrow>
          if st = PROCESS_STATE_RUNNING then s
          else let s1 = idt_disable_interrupts s;
                   s2 = add_to_blocked_queue c (upd c (pr_state_update (\<lambda>_. st)) s1)
               in schedule_next env s2)"

definition process_unblock :: "process_env \<Rightarrow> u32 \<Rightarrow> 'a proc_state_scheme \<Rightarrow> (bool \<times> 'a proc_state_scheme) option" where
  "process_unblock env pid s =
     (case proc_lock env s of
        None \<Rightarrow> None
      | Some s1 \<Rightarrow>
          (case process_get_by_id pid s1 of
             None \<Rightarrow> Some (False, proc_unlock env s1)
           | Some i \<Rightarrow>
               if pr_state (proc s1 i) \<noteq> PROCESS_STATE_BLOCKED then Some (False, proc_unlock env s1)
               else case remove_from_blocked_queue i s1 of
                      None \<Rightarrow> None
                    | Some s2 \<Rightarrow>
                        Some (True, proc_unlock env (add_to_ready_queue i (upd i (pr_state_update (\<lambda>_. PROCESS_STATE_READY)) s2)))))"

definition process_set_priority :: "process_env \<Rightarrow> u32 \<Rightarrow> 32 word \<Rightarrow> 'a proc_state_scheme \<Rightarrow> (bool \<times> 'a proc_state_scheme) option" where
  "process_set_priority env pid priority s =
     (case proc_lock env s of
        None \<Rightarrow> None
      | Some s1 \<Rightarrow>
          (case process_get_by_id pid s1 of
             None \<Rightarrow> Some (False, proc_unlock env s1)
           | Some i \<Rightarrow>
               Some (True, proc_unlock env (upd i (\<lambda>x. x\<lparr>pr_base_priority := priority, pr_dynamic_priority := priority\<rparr>) s1))))"

definition process_add_memory_region :: "process_env \<Rightarrow> u32 \<Rightarrow> u64 \<Rightarrow> u64 \<Rightarrow> u32 \<Rightarrow> u8 list option \<Rightarrow>
    'a proc_state_scheme \<Rightarrow> (bool \<times> 'a proc_state_scheme) option" where
  "process_add_memory_region env pid start_addr end_addr flags name s =
     (case (if pid = 0 then current_process s else process_get_by_id pid s) of
        None \<Rightarrow> Some (False, s)
      | Some i \<Rightarrow>
          if name = None \<or> end_addr \<le> start_addr then Some (False, s)
          else case proc_lock env s of
                 None \<Rightarrow> None
               | Some s1 \<Rightarrow>
                   (case find_slot (\<lambda>r. mr_end r = 0) (pr_memory_regions (proc s1 i)) of
                      None \<Rightarrow> Some (False, proc_unlock env s1)
                    | Some k \<Rightarrow>
                        Some (True, proc_unlock env (upd i (\<lambda>x. x\<lparr>
                          pr_memory_regions := (pr_memory_regions x)[k :=
                            \<lparr>mr_start = start_addr, mr_end = end_addr, mr_flags = flags, mr_name = name_field 16 (the name)\<rparr>],
                          pr_memory_region_count := (if pr_memory_region_count x \<le> k then k + 1 else pr_memory_region_count x)\<rparr>) s1))))"

end
