(* ===== verification/Scheduler.thy ===== *)
theory Scheduler
  imports Process
begin

text \<open>
  Correctness of the process manager. The invariant \<open>sched_ok\<close> ties the links of the two queues to lists
  and relates them to the states of the processes, the running process and the idle process; every
  operation preserves it, none of them waits for the lock of the process table when it is free at the
  start. On top of it: the round-robin order of yielding processes, the round trip of blocking and
  unblocking, creation and look-up, and the cases in which the code does not do what it intends.
\<close>

section \<open>Frames\<close>

text \<open>The part of the state the scheduler decides on.\<close>

definition sched_view :: "'a proc_state_scheme \<Rightarrow>
    process_t list \<times> nat option \<times> nat option \<times> nat option \<times> nat option \<times> nat option \<times> u32" where
  "sched_view s = (process_table s, ready_queue_head s, ready_queue_tail s, blocked_queue_head s, current_process s, idle_process s, next_pid s)"

lemma sched_view_eq:
  "sched_view s = sched_view t \<longleftrightarrow> process_table s = process_table t \<and> ready_queue_head s = ready_queue_head t \<and>
     ready_queue_tail s = ready_queue_tail t \<and> blocked_queue_head s = blocked_queue_head t \<and> current_process s = current_process t \<and>
     idle_process s = idle_process t \<and> next_pid s = next_pid t"
  by (simp add: sched_view_def)

definition but_memory :: "'a kernel_state_scheme \<Rightarrow> 'a kernel_state_scheme" where
  "but_memory s = s\<lparr>kvm := undefined, kmem := (\<lambda>_. 0)\<rparr>"

lemma but_memory_upd [simp]: "but_memory (s\<lparr>kvm := v\<rparr>) = but_memory s" "but_memory (s\<lparr>kmem := m\<rparr>) = but_memory s"
  by (simp_all add: but_memory_def)

lemma but_memory_callbacks [simp]:
  "process_alloc_pages n s = (a, t) \<Longrightarrow> but_memory t = but_memory s" "but_memory (process_free_pages a n s) = but_memory s"
  by (auto simp: process_alloc_pages_def process_free_pages_def split: prod.splits)

lemma but_memory_parse:
  "parse_program_headers process_alloc_pages ctx s = (b, ctx', t) \<Longrightarrow> but_memory t = but_memory s"
  "parse_section_headers process_alloc_pages ctx s = (b, ctx', t) \<Longrightarrow> but_memory t = but_memory s"
  by (auto simp: parse_program_headers_def parse_section_headers_def Let_def split: prod.splits if_splits)

lemma but_memory_free_segments: "free_segments process_free_pages is ctx s = (ctx', t) \<Longrightarrow> but_memory t = but_memory s"
proof (induction "process_free_pages :: 'a kernel_state_scheme free_fn" "is" ctx s rule: free_segments.induct)
  case (2 i "is" ctx s)
  then show ?case by (auto split: prod.splits if_splits)
qed simp

lemma but_memory_cleanup: "elf_cleanup process_free_pages ctx s = (ctx', t) \<Longrightarrow> but_memory t = but_memory s"
  by (auto simp: elf_cleanup_def Let_def split: prod.splits if_splits dest!: but_memory_free_segments)

lemma but_memory_init: "elf_init process_alloc_pages process_free_pages ctx0 data sz s = (b, ctx', t) \<Longrightarrow> but_memory t = but_memory s"
  unfolding elf_init_def Let_def
  by (auto split: prod.splits if_splits bool.splits dest!: but_memory_parse but_memory_cleanup)

lemma but_memory_segment: "load_segment process_alloc_pages process_free_pages bias ph ctx s = (b, ctx', t) \<Longrightarrow> but_memory t = but_memory s"
  by (auto simp: load_segment_def Let_def split: prod.splits if_splits)

lemma but_memory_segments:
  "load_segments process_alloc_pages process_free_pages bias is ctx s = (b, ctx', t) \<Longrightarrow> but_memory t = but_memory s"
proof (induction "is" arbitrary: ctx s)
  case (Cons i "is")
  then show ?case by (auto simp: Let_def split: prod.splits if_splits bool.splits dest!: but_memory_segment)
qed simp

lemma but_memory_load: "elf_load process_alloc_pages process_free_pages ctx base s = (b, ctx', t) \<Longrightarrow> but_memory t = but_memory s"
  by (auto simp: elf_load_def Let_def split: prod.splits if_splits bool.splits dest!: but_memory_segments)

lemma but_memory_view: "but_memory t = but_memory s \<Longrightarrow> sched_view t = sched_view s \<and> locks t = locks s"
proof -
  assume b: "but_memory t = but_memory s"
  show ?thesis
    using arg_cong [OF b, of process_table] arg_cong [OF b, of ready_queue_head] arg_cong [OF b, of ready_queue_tail]
      arg_cong [OF b, of blocked_queue_head] arg_cong [OF b, of current_process] arg_cong [OF b, of idle_process] arg_cong [OF b, of next_pid]
      arg_cong [OF b, of locks]
    by (simp add: but_memory_def sched_view_def)
qed

text \<open>Taking and giving back the lock of the process table.\<close>

definition lock_free :: "process_env \<Rightarrow> 'a proc_state_scheme \<Rightarrow> bool" where
  "lock_free env s \<longleftrightarrow> process_lock env \<noteq> 0 \<and> locks s (process_lock env) = \<lparr>sl_value = 0, sl_owner = 0\<rparr>"

lemma proc_lock_free:
  assumes "lock_free env s"
  obtains tr where "proc_lock env s = Some (s\<lparr>locks := (locks s)(process_lock env := \<lparr>sl_value = 1, sl_owner = return_addr env\<rparr>), spinlock_tracking := tr\<rparr>)"
proof -
  have "\<exists>tr. proc_lock env s = Some (s\<lparr>locks := (locks s)(process_lock env := \<lparr>sl_value = 1, sl_owner = return_addr env\<rparr>), spinlock_tracking := tr\<rparr>)"
  proof (cases "tracking_entry (lock_track_base env) (process_lock env)
      (s\<lparr>locks := (locks s)(process_lock env := \<lparr>sl_value = 1, sl_owner = return_addr env\<rparr>)\<rparr>)")
    case None
    with assms show ?thesis
      by (intro exI [of _ "spinlock_tracking s"])
        (simp add: lock_free_def proc_lock_def spinlock_acquire_def atomic_test_and_set_def set_lock_def Let_def)
  next
    case (Some i)
    with assms show ?thesis
      by (auto simp: lock_free_def proc_lock_def spinlock_acquire_def atomic_test_and_set_def set_lock_def Let_def)
  qed
  with that show thesis by blast
qed

lemma proc_unlock_eq:
  "process_lock env \<noteq> 0 \<Longrightarrow> proc_unlock env s = s\<lparr>locks := (locks s)(process_lock env := \<lparr>sl_value = 0, sl_owner = 0\<rparr>)\<rparr>"
  by (cases "locks s (process_lock env)") (simp add: proc_unlock_def spinlock_release_def set_lock_def Let_def)

lemma proc_lock_held:
  "process_lock env \<noteq> 0 \<Longrightarrow> bit (sl_value (locks s (process_lock env))) 0 \<Longrightarrow> proc_lock env s = None"
  by (simp add: proc_lock_def spinlock_acquire_taken)

lemma proj_upd: "(\<And>x. g (f x) = g x) \<Longrightarrow> g (proc (upd i f s) j) = g (proc s j)"
  by (cases "i < slots s") (auto simp: proc_def upd_def nth_list_update list_update_beyond)

lemma upd_beyond: "\<not> i < slots s \<Longrightarrow> upd i f s = s"
  by (simp add: upd_def list_update_beyond)

text \<open>The fields of a process that neither the queues nor the states touch.\<close>

definition pids :: "'a proc_state_scheme \<Rightarrow> nat \<Rightarrow> u32" where
  "pids s i = pr_pid (proc s i)"

definition same_links :: "'a proc_state_scheme \<Rightarrow> 'a proc_state_scheme \<Rightarrow> bool" where
  "same_links s t \<longleftrightarrow> slots t = slots s \<and> nexts t = nexts s \<and> prevs t = prevs s \<and> pids t = pids s \<and> ready_queue_head t = ready_queue_head s \<and>
     ready_queue_tail t = ready_queue_tail s \<and> blocked_queue_head t = blocked_queue_head s \<and> idle_process t = idle_process s \<and>
     next_pid t = next_pid s \<and> locks t = locks s"

lemma same_links_refl [simp]: "same_links s s"
  by (simp add: same_links_def)

lemma same_links_trans: "same_links s t \<Longrightarrow> same_links t u \<Longrightarrow> same_links s u"
  by (simp add: same_links_def)

lemma same_links_queues: "same_links s t \<Longrightarrow> queues rs bs t = queues rs bs s"
  by (simp add: same_links_def queues_def)

lemma same_links_upd:
  "(\<And>x. pr_next (f x) = pr_next x) \<Longrightarrow> (\<And>x. pr_prev (f x) = pr_prev x) \<Longrightarrow> (\<And>x. pr_pid (f x) = pr_pid x) \<Longrightarrow> same_links s (upd i f s)"
  by (simp add: same_links_def nexts_def prevs_def pids_def fun_eq_iff proj_upd)

lemma view_frame [simp]:
  "nexts (s\<lparr>cpu := r\<rparr>) = nexts s" "prevs (s\<lparr>cpu := r\<rparr>) = prevs s" "states (s\<lparr>cpu := r\<rparr>) = states s" "pids (s\<lparr>cpu := r\<rparr>) = pids s"
  "nexts (s\<lparr>interrupt_flag := b\<rparr>) = nexts s" "prevs (s\<lparr>interrupt_flag := b\<rparr>) = prevs s" "states (s\<lparr>interrupt_flag := b\<rparr>) = states s"
  "pids (s\<lparr>interrupt_flag := b\<rparr>) = pids s"
  "nexts (s\<lparr>kvm := v\<rparr>) = nexts s" "prevs (s\<lparr>kvm := v\<rparr>) = prevs s" "states (s\<lparr>kvm := v\<rparr>) = states s" "pids (s\<lparr>kvm := v\<rparr>) = pids s"
  "nexts (s\<lparr>current_process := c\<rparr>) = nexts s" "prevs (s\<lparr>current_process := c\<rparr>) = prevs s" "states (s\<lparr>current_process := c\<rparr>) = states s"
  "pids (s\<lparr>current_process := c\<rparr>) = pids s"
  by (simp_all add: nexts_def prevs_def states_def pids_def proc_def fun_eq_iff)

lemma same_links_prims [simp]:
  "same_links s (s\<lparr>cpu := r\<rparr>)" "same_links s (s\<lparr>interrupt_flag := b\<rparr>)" "same_links s (s\<lparr>kvm := v\<rparr>)" "same_links s (s\<lparr>current_process := c\<rparr>)"
  "same_links s (upd i (pr_state_update g) s)" "same_links s (upd i (pr_context_update h) s)"
  "same_links s (upd i (\<lambda>x. x\<lparr>pr_last_schedule := k x\<rparr>) s)" "same_links s (upd i (\<lambda>x. x\<lparr>pr_cpu_time := k x\<rparr>) s)"
  by (simp_all add: same_links_upd) (simp_all add: same_links_def)

lemma same_links_steps:
  assumes "same_links s t"
  shows "same_links s (t\<lparr>cpu := r\<rparr>)" "same_links s (t\<lparr>interrupt_flag := b\<rparr>)" "same_links s (t\<lparr>kvm := v\<rparr>)" "same_links s (t\<lparr>current_process := c\<rparr>)"
  "same_links s (upd i (pr_state_update g) t)" "same_links s (upd i (pr_context_update h) t)"
  "same_links s (upd i (\<lambda>x. x\<lparr>pr_last_schedule := k x\<rparr>) t)" "same_links s (upd i (\<lambda>x. x\<lparr>pr_cpu_time := k x\<rparr>) t)"
  by (rule same_links_trans [OF assms], simp)+

lemma switch_frame:
  "same_links s (process_switch_context env i j s)" "states (process_switch_context env i j s) = states s"
  "current_process (process_switch_context env i j s) = current_process s"
  "same_links s (process_restore_context env j s)" "states (process_restore_context env j s) = states s"
  "current_process (process_restore_context env j s) = current_process s"
proof -
  let ?r = "(cpu s)\<lparr>c_rdi := context_addr env i, c_rsi := context_addr env j\<rparr>"
  obtain f r b where e: "process_switch_context env i j s = (upd i (pr_context_update f) s)\<lparr>cpu := r, interrupt_flag := b\<rparr>"
    unfolding process_switch_context_def Let_def by blast
  have st: "states (upd i (pr_context_update f) s) = states s" by (simp add: states_def fun_eq_iff proj_upd)
  show "same_links s (process_switch_context env i j s)"
    unfolding e by (intro same_links_steps same_links_refl)
  show "states (process_switch_context env i j s) = states s" "current_process (process_switch_context env i j s) = current_process s"
    unfolding e by (simp_all add: st)
  show "same_links s (process_restore_context env j s)"
    unfolding process_restore_context_def Let_def by (intro same_links_steps same_links_refl)
  show "states (process_restore_context env j s) = states s" "current_process (process_restore_context env j s) = current_process s"
    by (simp_all add: process_restore_context_def Let_def)
qed

section \<open>The invariant\<close>

definition after_switch :: "nat \<Rightarrow> nat option \<Rightarrow> (nat \<Rightarrow> process_state_t) \<Rightarrow> nat \<Rightarrow> process_state_t" where
  "after_switch n c st i =
     (if c = Some n then st i
      else if i = n then PROCESS_STATE_RUNNING
      else if c = Some i \<and> st i = PROCESS_STATE_RUNNING then PROCESS_STATE_READY
      else st i)"

lemma after_switch_simps:
  "st n \<noteq> PROCESS_STATE_BLOCKED \<Longrightarrow> after_switch n c st i = PROCESS_STATE_BLOCKED \<longleftrightarrow> st i = PROCESS_STATE_BLOCKED"
  "st n \<noteq> PROCESS_STATE_TERMINATED \<Longrightarrow> after_switch n c st i = PROCESS_STATE_TERMINATED \<longleftrightarrow> st i = PROCESS_STATE_TERMINATED"
  "i \<noteq> n \<Longrightarrow> st i = PROCESS_STATE_READY \<Longrightarrow> after_switch n c st i = PROCESS_STATE_READY"
  by (auto simp: after_switch_def)

lemma context_switch_effect:
  assumes "n < slots s" "\<forall>c. current_process s = Some c \<longrightarrow> c < slots s"
  shows "same_links s (context_switch env n s)" "current_process (context_switch env n s) = Some n"
    "states (context_switch env n s) = after_switch n (current_process s) (states s)"
proof -
  have ls: "states (upd i (\<lambda>x. x\<lparr>pr_last_schedule := k x\<rparr>) s) = states s" for i k and s :: "'a proc_state_scheme"
    by (simp add: states_def fun_eq_iff proj_upd)
  have *: "same_links s (context_switch env n s) \<and> current_process (context_switch env n s) = Some n \<and>
      states (context_switch env n s) = after_switch n (current_process s) (states s)"
  proof (cases "current_process s")
    case None
    let ?s4 = "upd n (\<lambda>x. x\<lparr>pr_last_schedule := pr_cpu_time x\<rparr>) (upd n (pr_state_update (\<lambda>_. PROCESS_STATE_RUNNING)) (s\<lparr>current_process := Some n\<rparr>))"
    have e: "context_switch env n s = process_restore_context env n (switch_space (pr_page_table (proc ?s4 n)) ?s4)"
      using None by (simp add: context_switch_def Let_def)
    have "same_links s ?s4" by (intro same_links_steps same_links_refl)
    then have "same_links s (context_switch env n s)" unfolding e switch_space_def by (rule same_links_trans [OF same_links_steps(3) switch_frame(4)])
    moreover have "states ?s4 = (states s)(n := PROCESS_STATE_RUNNING)" "current_process ?s4 = Some n" using assms(1) by (simp_all add: ls)
    ultimately show ?thesis using None unfolding e by (auto simp: switch_frame switch_space_def after_switch_def fun_eq_iff)
  next
    case (Some p)
    show ?thesis
    proof (cases "p = n")
      case False
      let ?s2 = "(if states s p = PROCESS_STATE_RUNNING then upd p (pr_state_update (\<lambda>_. PROCESS_STATE_READY)) (s\<lparr>current_process := Some n\<rparr>) else s\<lparr>current_process := Some n\<rparr>)"
      let ?s4 = "upd n (\<lambda>x. x\<lparr>pr_last_schedule := pr_cpu_time x\<rparr>) (upd n (pr_state_update (\<lambda>_. PROCESS_STATE_RUNNING)) ?s2)"
      have e: "context_switch env n s = process_switch_context env p n (switch_space (pr_page_table (proc ?s4 n)) ?s4)"
        using Some False by (simp add: context_switch_def Let_def states_def)
      have "same_links s ?s2" by (simp add: same_links_steps)
      then have "same_links s ?s4" by (intro same_links_steps same_links_refl)
      then have "same_links s (context_switch env n s)" unfolding e switch_space_def by (rule same_links_trans [OF same_links_steps(3) switch_frame(1)])
      moreover have "states ?s2 = (if states s p = PROCESS_STATE_RUNNING then (states s)(p := PROCESS_STATE_READY) else states s)" "slots ?s2 = slots s"
        using assms Some by simp_all
      then have "states ?s4 = (if states s p = PROCESS_STATE_RUNNING then (states s)(p := PROCESS_STATE_READY) else states s)(n := PROCESS_STATE_RUNNING)"
        using assms(1) by (simp only: ls links_upd)
      moreover have "current_process ?s4 = Some n" by simp
      ultimately show ?thesis using Some False unfolding e by (auto simp: switch_frame switch_space_def after_switch_def fun_eq_iff)
    qed (simp add: Some context_switch_def after_switch_def fun_eq_iff)
  qed
  then show "same_links s (context_switch env n s)" "current_process (context_switch env n s) = Some n"
    "states (context_switch env n s) = after_switch n (current_process s) (states s)" by blast+
qed

text \<open>
  \<open>sched_pre\<close> leaves open where the current process is; it holds when the scheduler is entered.
  \<open>sched_ok\<close> says that the current process is in no queue.
\<close>

definition sched_pre :: "nat list \<Rightarrow> nat list \<Rightarrow> 'a proc_state_scheme \<Rightarrow> bool" where
  "sched_pre rs bs s \<longleftrightarrow> queues rs bs s \<and> slots s = 64 \<and> idle_process s = Some 0 \<and> 0 \<notin> set bs \<and> states s 0 \<noteq> PROCESS_STATE_TERMINATED \<and>
     (\<forall>i\<in>set rs. states s i = PROCESS_STATE_READY) \<and> (\<forall>i<64. states s i = PROCESS_STATE_BLOCKED \<longleftrightarrow> i \<in> set bs) \<and>
     (\<forall>i\<in>set (rs @ bs). i \<noteq> 0 \<longrightarrow> pids s i \<noteq> 0) \<and> next_pid s \<noteq> 0 \<and> (\<forall>c. current_process s = Some c \<longrightarrow> c < 64)"

definition sched_ok :: "nat list \<Rightarrow> nat list \<Rightarrow> nat \<Rightarrow> 'a proc_state_scheme \<Rightarrow> bool" where
  "sched_ok rs bs c s \<longleftrightarrow> sched_pre rs bs s \<and> current_process s = Some c \<and> c \<notin> set (rs @ bs) \<and>
     states s c \<noteq> PROCESS_STATE_TERMINATED \<and> (c \<noteq> 0 \<longrightarrow> pids s c \<noteq> 0)"

lemma sched_view_pre: "sched_view s = sched_view t \<Longrightarrow> sched_pre rs bs s = sched_pre rs bs t"
  by (simp add: sched_view_eq sched_pre_def queues_def nexts_def [abs_def] prevs_def [abs_def] states_def pids_def proc_def)

lemma sched_view_ok: "sched_view s = sched_view t \<Longrightarrow> sched_ok rs bs c s = sched_ok rs bs c t"
  using sched_view_pre [of s t] by (simp add: sched_ok_def sched_view_eq states_def pids_def proc_def)

lemma queue_only_pids: "queue_only s t \<Longrightarrow> i < slots s \<Longrightarrow> pids t i = pids s i"
  by (simp add: pids_def queue_only_core)

lemma queues_ranges: "queues rs bs s \<Longrightarrow> i \<in> set (rs @ bs) \<Longrightarrow> i < slots s"
  by (auto simp: queues_def)

text \<open>Where the scheduler goes: to the head of the ready queue, or to the idle process.\<close>

definition chosen :: "nat list \<Rightarrow> nat" where
  "chosen rs = (case rs of [] \<Rightarrow> 0 | r # _ \<Rightarrow> r)"

lemma schedule_next_ok:
  assumes pre: "sched_pre rs bs s"
  shows "sched_ok (tl rs) bs (chosen rs) (schedule_next env s)" "locks (schedule_next env s) = locks s"
    "states (schedule_next env s) = after_switch (chosen rs) (current_process s) (states s)"
proof -
  let ?s1 = "s\<lparr>interrupt_flag := False\<rparr>"
  have q: "queues rs bs ?s1" using pre same_links_queues [OF same_links_prims(2)] by (auto simp: sched_pre_def)
  have *: "sched_ok (tl rs) bs (chosen rs) (schedule_next env s) \<and> locks (schedule_next env s) = locks s \<and>
      states (schedule_next env s) = after_switch (chosen rs) (current_process s) (states s)"
  proof (cases rs)
    case Nil
    let ?t = "context_switch env 0 ?s1"
    have e: "schedule_next env s = ?t" using pre Nil q by (simp add: schedule_next_def idt_disable_interrupts_def sched_pre_def queues_def)
    have z: "0 < slots ?s1" using pre by (simp add: sched_pre_def)
    have c: "same_links ?s1 ?t" "current_process ?t = Some 0" "states ?t = after_switch 0 (current_process s) (states s)"
      using context_switch_effect [of 0 ?s1 env, OF z] pre by (auto simp: sched_pre_def)
    have "queues [] bs ?t" using same_links_queues [OF c(1)] q Nil by simp
    with pre c Nil show ?thesis unfolding e
      by (auto simp: sched_ok_def sched_pre_def same_links_def chosen_def after_switch_def)
  next
    case (Cons r vs)
    let ?s2 = "take_ready r ?s1" and ?t = "context_switch env r (take_ready r ?s1)"
    have h: "ready_queue_head ?s1 = Some r" using q Cons by (simp add: queues_def)
    have e: "schedule_next env s = ?t" using h by (simp add: schedule_next_def idt_disable_interrupts_def)
    have qo: "queue_only ?s1 ?s2" by blast
    have q2: "queues vs bs ?s2" using queues_take_ready q Cons by blast
    have f: "slots ?s2 = 64" "current_process ?s2 = current_process s" "idle_process ?s2 = Some 0" "locks ?s2 = locks s" "next_pid ?s2 = next_pid s"
      "states ?s2 = states s"
      using queue_only_fields [OF qo] pre by (simp_all add: sched_pre_def states_ops)
    have pid: "i < 64 \<Longrightarrow> pids ?s2 i = pids s i" for i using queue_only_pids [OF qo] pre by (simp add: sched_pre_def)
    have r: "r < 64" "r \<notin> set (vs @ bs)" using pre Cons by (auto simp: sched_pre_def queues_def)
    have c: "same_links ?s2 ?t" "current_process ?t = Some r" "states ?t = after_switch r (current_process s) (states s)"
      using context_switch_effect [of r ?s2 env] pre r f by (auto simp: sched_pre_def)
    have q3: "queues vs bs ?t" using same_links_queues [OF c(1)] q2 by simp
    have rng: "i \<in> set (vs @ bs) \<Longrightarrow> i < 64" for i using queues_ranges [OF q2] f by auto
    have rst: "states s r = PROCESS_STATE_READY" "\<forall>i\<in>set vs. states s i = PROCESS_STATE_READY" using pre Cons by (auto simp: sched_pre_def)
    have l: "slots ?t = 64" "idle_process ?t = Some 0" "next_pid ?t = next_pid s" "locks ?t = locks s" "pids ?t = pids ?s2"
      using c(1) f by (simp_all add: same_links_def)
    have b: "states ?t i = PROCESS_STATE_BLOCKED \<longleftrightarrow> states s i = PROCESS_STATE_BLOCKED"
      "states ?t i = PROCESS_STATE_TERMINATED \<longleftrightarrow> states s i = PROCESS_STATE_TERMINATED" for i
      using rst(1) unfolding c(3) by (simp_all add: after_switch_simps)
    have "\<forall>i\<in>set vs. states ?t i = PROCESS_STATE_READY"
      using rst r unfolding c(3) by (auto intro!: after_switch_simps(3))
    moreover have "\<forall>i\<in>set (vs @ bs). i \<noteq> 0 \<longrightarrow> pids ?t i \<noteq> 0"
    proof (intro ballI impI)
      fix i
      assume i: "i \<in> set (vs @ bs)" "i \<noteq> 0"
      then have "pids s i \<noteq> 0" using pre Cons by (auto simp: sched_pre_def)
      with i rng [of i] pid [of i] l(5) show "pids ?t i \<noteq> 0" by simp
    qed
    ultimately have "sched_pre vs bs ?t"
      using pre q3 l b r(1) c(2) by (simp add: sched_pre_def)
    moreover have "states ?t r \<noteq> PROCESS_STATE_TERMINATED" using b rst(1) by simp
    moreover have "r \<noteq> 0 \<longrightarrow> pids ?t r \<noteq> 0" using l(5) pid [of r] r(1) pre Cons by (auto simp: sched_pre_def)
    ultimately show ?thesis using c r f Cons unfolding e by (auto simp: sched_ok_def same_links_def chosen_def)
  qed
  then show "sched_ok (tl rs) bs (chosen rs) (schedule_next env s)" "locks (schedule_next env s) = locks s"
    "states (schedule_next env s) = after_switch (chosen rs) (current_process s) (states s)" by blast+
qed

section \<open>The operations keep the invariant\<close>

lemma sched_preD:
  assumes "sched_pre rs bs s"
  shows "queues rs bs s" "slots s = 64" "idle_process s = Some 0" "0 \<notin> set bs" "states s 0 \<noteq> PROCESS_STATE_TERMINATED"
    "\<forall>i\<in>set rs. states s i = PROCESS_STATE_READY" "\<forall>i<64. states s i = PROCESS_STATE_BLOCKED \<longleftrightarrow> i \<in> set bs"
    "\<forall>i\<in>set (rs @ bs). i \<noteq> 0 \<longrightarrow> pids s i \<noteq> 0" "next_pid s \<noteq> 0" "\<forall>c. current_process s = Some c \<longrightarrow> c < 64"
    "\<And>i. i \<in> set (rs @ bs) \<Longrightarrow> i < 64"
  using assms unfolding sched_pre_def by (auto simp: queues_def)

lemma same_links_pre:
  assumes "same_links s t" "states t = states s" "sched_pre rs bs s" "\<forall>c. current_process t = Some c \<longrightarrow> c < 64"
  shows "sched_pre rs bs t"
  using assms same_links_queues [OF assms(1)] by (simp add: sched_pre_def same_links_def)

lemma pre_enqueue:
  fixes st :: process_state_t
  assumes pre: "sched_pre rs bs s" and p: "p < 64" "p \<notin> set (rs @ bs)" "p \<noteq> 0 \<longrightarrow> pids s p \<noteq> 0"
  defines "t \<equiv> add_to_ready_queue p (upd p (pr_state_update (\<lambda>_. st)) s)"
  shows "sched_pre (rs @ [p]) bs t" "states t = (states s)(p := PROCESS_STATE_READY)" "locks t = locks s" "current_process t = current_process s"
proof -
  note D = sched_preD [OF pre]
  let ?s1 = "upd p (pr_state_update (\<lambda>_. st)) s"
  have l: "same_links s ?s1" by simp
  have q: "queues (rs @ [p]) bs t"
    using queues_add_ready [of rs bs ?s1 p] same_links_queues [OF l] D p by (simp add: t_def)
  have st: "states t = (states s)(p := PROCESS_STATE_READY)" using p(1) D(2) by (simp add: t_def states_ops)
  have qo: "queue_only ?s1 t" unfolding t_def by blast
  note f = queue_only_fields [OF qo]
  have pid: "pids t i = pids s i" if "i < 64" for i
    using queue_only_pids [OF qo, of i] that l D(2) by (simp add: same_links_def)
  have "\<forall>i\<in>set ((rs @ [p]) @ bs). i \<noteq> 0 \<longrightarrow> pids t i \<noteq> 0" using D(8,11) p pid by auto
  then show "sched_pre (rs @ [p]) bs t" using q st f D p by (auto simp: sched_pre_def)
  show "states t = (states s)(p := PROCESS_STATE_READY)" "locks t = locks s" "current_process t = current_process s"
    using st f by simp_all
qed

lemma upd_same_state: "upd p (pr_state_update (\<lambda>_. states s p)) s = s"
proof -
  have "pr_state_update (\<lambda>_. pr_state x) x = x" for x by simp
  then show ?thesis by (simp add: upd_def states_def proc_def)
qed

lemmas pre_enqueue_plain = pre_enqueue [where st = "states s p" and s = s and p = p for s p, unfolded upd_same_state]

lemma pre_block:
  fixes st :: process_state_t
  assumes pre: "sched_pre rs bs s" and p: "p < 64" "p \<notin> set (rs @ bs)" "p \<noteq> 0" "pids s p \<noteq> 0"
  defines "t \<equiv> add_to_blocked_queue p (upd p (pr_state_update (\<lambda>_. st)) s)"
  shows "sched_pre rs (p # bs) t" "states t = (states s)(p := PROCESS_STATE_BLOCKED)" "locks t = locks s" "current_process t = current_process s"
proof -
  note D = sched_preD [OF pre]
  let ?s1 = "upd p (pr_state_update (\<lambda>_. st)) s"
  have l: "same_links s ?s1" by simp
  have q: "queues rs (p # bs) t"
    using queues_add_blocked [of rs bs ?s1 p] same_links_queues [OF l] D p by (simp add: t_def)
  have st: "states t = (states s)(p := PROCESS_STATE_BLOCKED)" using p(1) D(2) by (simp add: t_def states_ops)
  have qo: "queue_only ?s1 t" unfolding t_def by blast
  note f = queue_only_fields [OF qo]
  have pid: "pids t i = pids s i" if "i < 64" for i
    using queue_only_pids [OF qo, of i] that l D(2) by (simp add: same_links_def)
  have "\<forall>i\<in>set (rs @ p # bs). i \<noteq> 0 \<longrightarrow> pids t i \<noteq> 0" using D(8,11) p pid by auto
  then show "sched_pre rs (p # bs) t" using q st f D p by (auto simp: sched_pre_def)
  show "states t = (states s)(p := PROCESS_STATE_BLOCKED)" "locks t = locks s" "current_process t = current_process s"
    using st f by simp_all
qed

lemma sched_okD:
  assumes "sched_ok rs bs c s"
  shows "sched_pre rs bs s" "current_process s = Some c" "c \<notin> set (rs @ bs)" "c < 64" "states s c \<noteq> PROCESS_STATE_TERMINATED"
    "c \<noteq> 0 \<longrightarrow> pids s c \<noteq> 0"
  using assms by (auto simp: sched_ok_def sched_pre_def)

lemma view_interrupt [simp]: "sched_view (s\<lparr>interrupt_flag := b\<rparr>) = sched_view s"
  by (simp add: sched_view_def)

lemma process_yield_ok:
  assumes ok: "sched_ok rs bs c s"
  shows "sched_ok (tl (rs @ [c])) bs (hd (rs @ [c])) (process_yield env s)" "locks (process_yield env s) = locks s"
    "states (process_yield env s) = after_switch (hd (rs @ [c])) (Some c) ((states s)(c := PROCESS_STATE_READY))"
proof -
  let ?s1 = "s\<lparr>interrupt_flag := False\<rparr>"
  let ?s2 = "add_to_ready_queue c (upd c (pr_state_update (\<lambda>_. PROCESS_STATE_READY)) ?s1)"
  have ok1: "sched_ok rs bs c ?s1" using ok sched_view_ok [OF view_interrupt] by blast
  note D = sched_okD [OF ok1]
  note E = pre_enqueue [OF D(1,4,3,6), of PROCESS_STATE_READY]
  have e: "process_yield env s = schedule_next env ?s2" using D(2) by (simp add: process_yield_def idt_disable_interrupts_def)
  have "chosen (rs @ [c]) = hd (rs @ [c])" by (cases rs) (simp_all add: chosen_def)
  with schedule_next_ok [OF E(1), of env] E D(2)
  show "sched_ok (tl (rs @ [c])) bs (hd (rs @ [c])) (process_yield env s)" "locks (process_yield env s) = locks s"
    "states (process_yield env s) = after_switch (hd (rs @ [c])) (Some c) ((states s)(c := PROCESS_STATE_READY))"
    unfolding e by simp_all
qed

lemma process_block_ok:
  assumes ok: "sched_ok rs bs c s" and c: "c \<noteq> 0" and st: "st \<noteq> PROCESS_STATE_RUNNING"
  shows "sched_ok (tl rs) (c # bs) (chosen rs) (process_block env st s)" "locks (process_block env st s) = locks s"
    "states (process_block env st s) = after_switch (chosen rs) (Some c) ((states s)(c := PROCESS_STATE_BLOCKED))"
proof -
  let ?s1 = "s\<lparr>interrupt_flag := False\<rparr>"
  let ?s2 = "add_to_blocked_queue c (upd c (pr_state_update (\<lambda>_. st)) ?s1)"
  have ok1: "sched_ok rs bs c ?s1" using ok sched_view_ok [OF view_interrupt] by blast
  note D = sched_okD [OF ok1]
  note E = pre_block [OF D(1,4,3) c, of st]
  have e: "process_block env st s = schedule_next env ?s2" using D(2) st by (simp add: process_block_def idt_disable_interrupts_def)
  show "sched_ok (tl rs) (c # bs) (chosen rs) (process_block env st s)" "locks (process_block env st s) = locks s"
    "states (process_block env st s) = after_switch (chosen rs) (Some c) ((states s)(c := PROCESS_STATE_BLOCKED))"
    using schedule_next_ok [OF E(1), of env] E D c unfolding e by simp_all
qed

text \<open>Taking the lock changes nothing the scheduler looks at, giving it back restores its contents.\<close>

lemma locked:
  assumes "lock_free env s"
  obtains t where "proc_lock env s = Some t" "sched_view t = sched_view s" "proc t = proc s" "slots t = slots s" "kvm t = kvm s" "kmem t = kmem s"
    "cpu t = cpu s" "interrupt_flag t = interrupt_flag s" "locks t = (locks s)(process_lock env := \<lparr>sl_value = 1, sl_owner = return_addr env\<rparr>)"
proof -
  from assms obtain tr where "proc_lock env s =
      Some (s\<lparr>locks := (locks s)(process_lock env := \<lparr>sl_value = 1, sl_owner = return_addr env\<rparr>), spinlock_tracking := tr\<rparr>)"
    by (rule proc_lock_free)
  with that show thesis by (simp add: sched_view_def proc_def fun_eq_iff)
qed

lemma unlocked:
  assumes "process_lock env \<noteq> 0"
  shows "sched_view (proc_unlock env s) = sched_view s" "proc (proc_unlock env s) = proc s" "slots (proc_unlock env s) = slots s" "lock_free env (proc_unlock env s)"
    "locks (proc_unlock env s) = (locks s)(process_lock env := \<lparr>sl_value = 0, sl_owner = 0\<rparr>)" "current_process (proc_unlock env s) = current_process s"
  using assms by (simp_all add: proc_unlock_eq sched_view_def proc_def lock_free_def fun_eq_iff)

lemma get_by_id_Some: "process_get_by_id pid s = Some i \<longleftrightarrow> i = unat pid \<and> i < 64 \<and> pids s i = pid"
  by (auto simp: process_get_by_id_def PROCESS_MAX_COUNT_def pids_def)

lemma states_proc: "pr_state (proc s i) = states s i"
  by (simp add: states_def)

lemma lock_free_cong: "locks s = locks t \<Longrightarrow> lock_free env s = lock_free env t"
  by (simp add: lock_free_def)

lemma if_chain: "P a \<Longrightarrow> P d \<Longrightarrow> P b \<Longrightarrow> P c \<Longrightarrow> P (if A then a else if B then b else if C then c else d)"
  by simp

lemma timer_callback_ok:
  assumes ok: "sched_ok rs bs c s" and free: "lock_free env s"
  shows "\<exists>t rs' c'. timer_callback env s = Some t \<and> sched_ok rs' bs c' t \<and> lock_free env t"
proof -
  note D = sched_okD [OF ok]
  have sch: "\<exists>rs' c'. sched_ok rs' bs c' (schedule_next env u) \<and> lock_free env (schedule_next env u)" if "sched_pre q bs u" "lock_free env u" for q and u :: "'a proc_state_scheme"
    using schedule_next_ok [OF that(1), of env] that(2) lock_free_cong by blast
  let ?s1 = "upd c (\<lambda>x. x\<lparr>pr_cpu_time := pr_cpu_time x + 1\<rparr>) s"
  have l1: "same_links s ?s1" "states ?s1 = states s" "current_process ?s1 = Some c" "lock_free env ?s1"
    using D(2) free by (simp_all add: states_def fun_eq_iff proj_upd lock_free_def)
  have ok1: "sched_ok rs bs c ?s1"
    using same_links_pre [OF l1(1,2) D(1)] D l1 unfolding sched_ok_def by (simp add: same_links_def)
  obtain s2 where s2: "proc_lock env ?s1 = Some s2" "sched_view s2 = sched_view ?s1" by (rule locked [OF l1(4)]) (rule that)
  have ok2: "sched_ok rs bs c s2" using ok1 sched_view_ok [OF s2(2)] by blast
  note D2 = sched_okD [OF ok2]
  have nz: "process_lock env \<noteq> 0" using free by (simp add: lock_free_def)
  let ?s3 = "if current_process s2 \<noteq> idle_process s2 then add_to_ready_queue c (upd c (pr_state_update (\<lambda>_. PROCESS_STATE_READY)) s2) else s2"
  have "\<exists>q. sched_pre q bs ?s3" using pre_enqueue(1) [OF D2(1,4,3,6)] D2(1) by auto
  then obtain q where "sched_pre q bs (proc_unlock env ?s3)" using sched_view_pre [OF unlocked(1) [OF nz]] by blast
  note S = sch [OF this unlocked(4) [OF nz]] and S0 = sch [OF D(1) free]
  have eq: "timer_callback env s =
      (if \<not> idt_are_interrupts_enabled s then Some s
       else if pr_state (proc s c) \<noteq> PROCESS_STATE_RUNNING then Some (schedule_next env s)
       else if pr_quantum (proc ?s1 c) \<le> pr_cpu_time (proc ?s1 c) - pr_last_schedule (proc ?s1 c)
       then Some (schedule_next env (proc_unlock env ?s3)) else Some ?s1)"
    using D(2) s2(1) by (simp only: timer_callback_def Let_def option.case if_not_P) simp
  let ?P = "\<lambda>x. \<exists>t rs' c'. x = Some t \<and> sched_ok rs' bs c' t \<and> lock_free env t"
  have "?P (Some s)" "?P (Some ?s1)" "?P (Some (schedule_next env s))" "?P (Some (schedule_next env (proc_unlock env ?s3)))"
    using ok free ok1 l1(4) S S0 by blast+
  then show ?thesis unfolding eq by (rule if_chain)
qed

lemma process_unblock_ok:
  assumes ok: "sched_ok rs bs c s" and free: "lock_free env s"
  shows "\<exists>b t. process_unblock env pid s = Some (b, t) \<and> lock_free env t \<and>
    (if b then unat pid \<in> set bs \<and> sched_ok (rs @ [unat pid]) (remove1 (unat pid) bs) c t \<and> states t = (states s)(unat pid := PROCESS_STATE_READY)
     else sched_view t = sched_view s \<and> \<not> (unat pid \<in> set bs \<and> pids s (unat pid) = pid))"
proof -
  have nz: "process_lock env \<noteq> 0" using free by (simp add: lock_free_def)
  obtain s1 where s1: "proc_lock env s = Some s1" "sched_view s1 = sched_view s" "proc s1 = proc s" by (rule locked [OF free]) (rule that)
  have ok1: "sched_ok rs bs c s1" using ok sched_view_ok [OF s1(2)] by blast
  note D = sched_okD [OF ok1] and P = sched_preD [OF sched_okD(1) [OF ok1]]
  note fr = unlocked [OF nz]
  have eq: "states s1 = states s" "pids s1 = pids s" using s1(3) by (simp_all add: states_def pids_def fun_eq_iff)
  show ?thesis
  proof (cases "process_get_by_id pid s1 = Some (unat pid) \<and> unat pid \<in> set bs")
    case False
    then have "process_unblock env pid s = Some (False, proc_unlock env s1)"
      using s1(1) P(7) by (auto simp: process_unblock_def get_by_id_Some states_proc split: option.split)
    moreover have "\<not> (unat pid \<in> set bs \<and> pids s (unat pid) = pid)" using False P(11) eq by (auto simp: get_by_id_Some)
    ultimately show ?thesis using s1(2) by (intro exI [of _ False] exI [of _ "proc_unlock env s1"]) (simp add: fr(1,4))
  next
    case True
    let ?i = "unat pid"
    obtain us vs where bs: "bs = us @ ?i # vs" using True split_list by metis
    have di: "distinct (rs @ bs)" using P(1) by (simp add: queues_def)
    have rm: "remove1 ?i bs = us @ vs" using bs di by (simp add: remove1_append)
    obtain s2 where s2: "remove_from_blocked_queue ?i s1 = Some s2" "queues rs (us @ vs) s2" "states s2 = states s1" "queue_only s1 s2"
      using queues_remove_blocked [of rs us ?i vs s1] P(1) bs by blast
    note f = queue_only_fields [OF s2(4)]
    let ?s3 = "upd ?i (pr_state_update (\<lambda>_. PROCESS_STATE_READY)) s2"
    let ?t = "add_to_ready_queue ?i ?s3"
    have i: "?i < 64" "?i \<noteq> 0" "?i \<notin> set (rs @ us @ vs)" using P(11,4) True bs di by auto
    have pid: "pids s2 k = pids s1 k" if "k < 64" for k using queue_only_pids [OF s2(4), of k] P(2) that by simp
    have "sched_pre rs (us @ vs) ?s3"
      using P s2 f pid i bs by (auto simp: sched_pre_def same_links_queues [OF same_links_prims(5)] pids_def proj_upd)
    moreover have "pids ?s3 ?i \<noteq> 0" using pid [OF i(1)] P(8) bs i by (simp add: pids_def proj_upd)
    ultimately have E: "sched_pre (rs @ [?i]) (us @ vs) ?t" "states ?t = (states s1)(?i := PROCESS_STATE_READY)" "current_process ?t = Some c"
      using pre_enqueue_plain [where s = ?s3 and p = ?i] i D(2) f s2(3) P(2) by simp_all
    have pt: "pids ?t c = pids s1 c"
      using queue_only_pids [OF queue_only_ops(1), of c ?s3 ?i] f P(2) D(4) pid [of c] by (simp add: pids_def proj_upd)
    have e: "process_unblock env pid s = Some (True, proc_unlock env ?t)"
      using s1(1) True s2(1) P(7) i(1) by (simp add: process_unblock_def states_proc)
    have ok2: "sched_ok (rs @ [?i]) (us @ vs) c ?t"
      using E D i(3) bs pt by (auto simp: sched_ok_def)
    then have "sched_ok (rs @ [?i]) (us @ vs) c (proc_unlock env ?t)" using sched_view_ok [OF fr(1)] by blast
    moreover have "states (proc_unlock env ?t) = (states s)(?i := PROCESS_STATE_READY)" using E(2) s2(3) eq by (simp add: states_def [abs_def] fr(2) fun_eq_iff)
    ultimately show ?thesis using e rm True by (intro exI [of _ True] exI [of _ "proc_unlock env ?t"]) (simp add: fr(4))
  qed
qed

lemma same_links_ok:
  assumes "same_links s t" "states t = states s" "current_process t = current_process s" "sched_ok rs bs c s"
  shows "sched_ok rs bs c t"
  using same_links_pre [OF assms(1,2) sched_okD(1) [OF assms(4)]] assms sched_okD [OF assms(4)] by (simp add: sched_ok_def same_links_def)

lemma frame_upd:
  assumes "\<And>x. pr_next (f x) = pr_next x" "\<And>x. pr_prev (f x) = pr_prev x" "\<And>x. pr_pid (f x) = pr_pid x" "\<And>x. pr_state (f x) = pr_state x"
  shows "same_links s (upd i f s)" "states (upd i f s) = states s"
  using assms by (simp_all add: same_links_upd states_def fun_eq_iff proj_upd)

lemma process_set_priority_ok:
  assumes ok: "sched_ok rs bs c s" and free: "lock_free env s"
  shows "\<exists>b t. process_set_priority env pid prio s = Some (b, t) \<and> sched_ok rs bs c t \<and> lock_free env t"
proof -
  have nz: "process_lock env \<noteq> 0" using free by (simp add: lock_free_def)
  obtain s1 where s1: "proc_lock env s = Some s1" "sched_view s1 = sched_view s" by (rule locked [OF free]) (rule that)
  have ok1: "sched_ok rs bs c s1" using ok sched_view_ok [OF s1(2)] by blast
  have "sched_ok rs bs c (upd i (\<lambda>x. x\<lparr>pr_base_priority := prio, pr_dynamic_priority := prio\<rparr>) s1)" for i
    by (rule same_links_ok [OF frame_upd _ ok1]) simp_all
  with ok1 s1(1) show ?thesis
    by (auto simp: process_set_priority_def unlocked(4) [OF nz] sched_view_ok [OF unlocked(1) [OF nz]] split: option.split)
qed

lemma process_add_memory_region_ok:
  assumes ok: "sched_ok rs bs c s" and free: "lock_free env s"
  shows "\<exists>b t. process_add_memory_region env pid a e fl nm s = Some (b, t) \<and> sched_ok rs bs c t \<and> lock_free env t"
proof -
  have nz: "process_lock env \<noteq> 0" using free by (simp add: lock_free_def)
  obtain s1 where s1: "proc_lock env s = Some s1" "sched_view s1 = sched_view s" by (rule locked [OF free]) (rule that)
  have ok1: "sched_ok rs bs c s1" using ok sched_view_ok [OF s1(2)] by blast
  have "sched_ok rs bs c (upd i (\<lambda>x. x\<lparr>pr_memory_regions := (pr_memory_regions x)[k := r], pr_memory_region_count := n x\<rparr>) s1)" for i k r n
    by (rule same_links_ok [OF frame_upd _ ok1]) simp_all
  with ok free ok1 s1(1) show ?thesis
    unfolding process_add_memory_region_def
    by (auto simp: unlocked(4) [OF nz] sched_view_ok [OF unlocked(1) [OF nz]] split: option.split)
qed

text \<open>Releasing the resources of a process.\<close>

lemma but_memory_links: "but_memory t = but_memory s \<Longrightarrow> same_links s t \<and> states t = states s \<and> current_process t = current_process s"
  using but_memory_view [of t s]
  by (auto simp: sched_view_eq same_links_def nexts_def prevs_def states_def pids_def proc_def fun_eq_iff)

lemma free_process_resources_frame:
  "same_links s (free_process_resources i s)" "states (free_process_resources i s) = states s"
  "current_process (free_process_resources i s) = current_process s"
proof -
  obtain ctx s1 where c: "elf_cleanup process_free_pages (pr_elf_ctx (proc s i)) s = (ctx, s1)" by fastforce
  note b = but_memory_links [OF but_memory_cleanup [OF c]]
  let ?s2 = "upd i (pr_elf_ctx_update (\<lambda>_. ctx)) s1"
  have 2: "same_links s ?s2" "states ?s2 = states s" "current_process ?s2 = current_process s"
    using b frame_upd [where f = "pr_elf_ctx_update (\<lambda>_. ctx)" and s = s1 and i = i] same_links_trans by simp_all blast
  let ?s3 = "if pr_page_table (proc ?s2 i) \<noteq> 0 then upd i (pr_page_table_update (\<lambda>_. 0)) (delete_space (pr_page_table (proc ?s2 i)) ?s2) else ?s2"
  have d: "same_links s (delete_space v ?s2)" "states (delete_space v ?s2) = states s" "current_process (delete_space v ?s2) = current_process s" for v
    using 2 by (simp_all add: delete_space_def same_links_steps)
  have p: "same_links t (upd i (pr_page_table_update f) t)" "states (upd i (pr_page_table_update f) t) = states t"
    "same_links t (upd i (pr_memory_region_count_update g) t)" "states (upd i (pr_memory_region_count_update g) t) = states t"
    for f g and t :: "'a proc_state_scheme" by (simp_all add: frame_upd)
  have 3: "same_links s ?s3" "states ?s3 = states s" "current_process ?s3 = current_process s"
    using 2 d p by (simp_all add: same_links_trans [OF d(1) p(1)])
  have e: "free_process_resources i s = upd i (pr_memory_region_count_update (\<lambda>_. 0)) ?s3"
    by (simp add: free_process_resources_def c Let_def)
  show "same_links s (free_process_resources i s)" unfolding e by (rule same_links_trans [OF 3(1) p(3)])
  show "states (free_process_resources i s) = states s" "current_process (free_process_resources i s) = current_process s"
    unfolding e using 3 p(4) by (simp_all only: upd_fields)
qed

lemma leave_queues_ok:
  assumes pre: "sched_pre rs bs s" and i: "i < 64"
  shows "\<exists>t. leave_queues i s = Some t \<and> queues (remove1 i rs) (remove1 i bs) t \<and> states t = states s \<and> queue_only s t"
proof -
  note P = sched_preD [OF pre]
  have di: "distinct (rs @ bs)" using P(1) by (simp add: queues_def)
  consider "i \<in> set rs" "states s i = PROCESS_STATE_READY" | "i \<notin> set rs" "states s i = PROCESS_STATE_READY"
    | "states s i = PROCESS_STATE_BLOCKED" | "states s i \<noteq> PROCESS_STATE_BLOCKED" "states s i \<noteq> PROCESS_STATE_READY"
    by blast
  then show ?thesis
  proof cases
    case 1
    then obtain us vs where r: "rs = us @ i # vs" using split_list by metis
    then have "remove1 i rs = us @ vs" "remove1 i bs = bs" using di by (auto simp: remove1_append remove1_idem)
    with r P(1) 1 show ?thesis by (auto simp: leave_queues_def states_proc queues_remove_ready states_ops)
  next
    case 2
    then have "i \<notin> set bs" using P(7) i by auto
    with 2 P(1,2) i show ?thesis
      by (auto simp: leave_queues_def states_proc states_ops remove1_idem intro!: queues_absent)
  next
    case 3
    then have "i \<in> set bs" using P(7) i by blast
    then obtain us vs where b: "bs = us @ i # vs" using split_list by metis
    then have "remove1 i bs = us @ vs" "remove1 i rs = rs" using di by (auto simp: remove1_append remove1_idem)
    with b P(1) 3 queues_remove_blocked [of rs us i vs s] show ?thesis by (auto simp: leave_queues_def states_proc)
  next
    case 4
    then have "i \<notin> set rs" "i \<notin> set bs" using P(6,7) i by auto
    with 4 P(1) show ?thesis by (simp add: leave_queues_def states_proc remove1_idem)
  qed
qed

lemma process_terminate_ok:
  assumes ok: "sched_ok rs bs c s" and free: "lock_free env s" and id: "pid \<noteq> 0" "process_get_by_id pid s = Some i"
  shows "\<exists>t. process_terminate env pid code s = Some (True, t) \<and> lock_free env t \<and> states t i = PROCESS_STATE_TERMINATED \<and>
    (if i = c then sched_ok (tl rs) bs (chosen rs) t else sched_ok (remove1 i rs) (remove1 i bs) c t)"
proof -
  have nz: "process_lock env \<noteq> 0" using free by (simp add: lock_free_def)
  obtain s1 where s1: "proc_lock env s = Some s1" "sched_view s1 = sched_view s" "proc s1 = proc s" by (rule locked [OF free]) (rule that)
  have ok1: "sched_ok rs bs c s1" using ok sched_view_ok [OF s1(2)] by blast
  note D = sched_okD [OF ok1] and P = sched_preD [OF sched_okD(1) [OF ok1]]
  have i: "i < 64" "i \<noteq> 0" using id by (auto simp: get_by_id_Some unat_gt_0)
  have id1: "process_get_by_id pid s1 = Some i" using id(2) s1(3) by (auto simp: get_by_id_Some pids_def)
  obtain s2 where s2: "leave_queues i s1 = Some s2" "queues (remove1 i rs) (remove1 i bs) s2" "states s2 = states s1" "queue_only s1 s2"
    using leave_queues_ok [OF D(1) i(1)] by blast
  note f = queue_only_fields [OF s2(4)]
  let ?s3 = "upd i (\<lambda>x. x\<lparr>pr_exit_code := code, pr_state := PROCESS_STATE_TERMINATED\<rparr>) s2" and ?rs = "remove1 i rs" and ?bs = "remove1 i bs"
  have l3: "same_links s2 ?s3" by (rule same_links_upd) simp_all
  have st3: "states ?s3 = (states s1)(i := PROCESS_STATE_TERMINATED)" using s2(3) i(1) f(1) P(2) by (auto simp: states_def fun_eq_iff)
  let ?s4 = "free_process_resources i ?s3"
  note F = free_process_resources_frame [where s = ?s3 and i = i]
  have l4: "same_links s2 ?s4" by (rule same_links_trans [OF l3 F(1)])
  have st4: "states ?s4 = (states s1)(i := PROCESS_STATE_TERMINATED)" using F(2) st3 by simp
  have c4: "current_process ?s4 = Some c" using F(3) f(2) D(2) by simp
  have pid: "pids ?s4 k = pids s1 k" if "k < 64" for k
    using queue_only_pids [OF s2(4), of k] l4 P(2) that by (simp add: same_links_def)
  have di: "distinct rs" "distinct bs" using P(1) by (auto simp: queues_def)
  have sub: "set ?rs = set rs - {i}" "set ?bs = set bs - {i}" using di by (simp_all add: set_remove1_eq)
  have "sched_pre ?rs ?bs ?s4"
    using P pid st4 l4 s2(2) f c4 D(4) i same_links_queues [OF l4] unfolding sched_pre_def same_links_def sub set_append by auto
  note pre4 = this
  show ?thesis
  proof (cases "i = c")
    case True
    let ?u = "proc_unlock env (?s4\<lparr>current_process := None\<rparr>)"
    have nq: "?rs = rs" "?bs = bs" using D(3) True by (simp_all add: remove1_idem)
    have "sched_pre rs bs (?s4\<lparr>current_process := None\<rparr>)" by (rule same_links_pre [OF _ _ pre4 [unfolded nq]]) simp_all
    then have "sched_pre rs bs ?u" using sched_view_pre [OF unlocked(1) [OF nz]] by blast
    note S = schedule_next_ok [OF this, of env]
    have e: "process_terminate env pid code s = Some (True, schedule_next env ?u)"
      using id(1) s1(1) id1 s2(1) c4 True by (simp add: process_terminate_def Let_def)
    have "states ?u = states ?s4" by (simp add: states_def [abs_def] unlocked(2) [OF nz])
    moreover have "chosen rs \<noteq> i" using D(3) True i(2) by (cases rs) (simp_all add: chosen_def)
    ultimately have "states (schedule_next env ?u) i = PROCESS_STATE_TERMINATED" unfolding S(3) using st4
      by (simp add: after_switch_def unlocked(6) [OF nz])
    moreover have "lock_free env (schedule_next env ?u)" using S(2) unlocked(4) [OF nz] lock_free_cong by blast
    ultimately show ?thesis using e S(1) True by simp
  next
    case False
    have e: "process_terminate env pid code s = Some (True, proc_unlock env ?s4)"
      using id(1) s1(1) id1 s2(1) c4 False by (simp add: process_terminate_def Let_def)
    have "sched_ok ?rs ?bs c ?s4" using pre4 c4 D False pid [OF D(4)] st4 sub by (auto simp: sched_ok_def)
    then have "sched_ok ?rs ?bs c (proc_unlock env ?s4)" using sched_view_ok [OF unlocked(1) [OF nz]] by blast
    moreover have "states (proc_unlock env ?s4) i = PROCESS_STATE_TERMINATED" using st4 by (simp add: states_def unlocked(2) [OF nz] fun_eq_iff)
    ultimately show ?thesis using e unlocked(4) [OF nz] False by simp
  qed
qed

text \<open>A slot that is neither in a queue nor current nor that of the idle process.\<close>

definition unused :: "nat list \<Rightarrow> nat list \<Rightarrow> nat \<Rightarrow> nat \<Rightarrow> 'a proc_state_scheme \<Rightarrow> bool" where
  "unused rs bs c i s \<longleftrightarrow> sched_ok rs bs c s \<and> i < 64 \<and> i \<noteq> 0 \<and> i \<noteq> c \<and> i \<notin> set (rs @ bs)"

lemma unused_view: "sched_view t = sched_view s \<Longrightarrow> unused rs bs c i s \<Longrightarrow> unused rs bs c i t"
  using sched_view_ok [of t s] by (simp add: unused_def)

lemma unused_upd:
  assumes u: "unused rs bs c i s" and f: "pr_next (f (proc s i)) = None" "pr_prev (f (proc s i)) = None" "pr_state (f (proc s i)) \<noteq> PROCESS_STATE_BLOCKED"
  shows "unused rs bs c i (upd i f s)"
proof -
  note D = sched_okD [OF u [unfolded unused_def, THEN conjunct1]]
  note P = sched_preD [OF D(1)]
  have i: "i < 64" "i \<noteq> 0" "i \<noteq> c" "i \<notin> set (rs @ bs)" using u by (auto simp: unused_def)
  have li: "nexts s i = None" "prevs s i = None" using P(1,2) i by (auto simp: queues_def)
  have n: "nexts (upd i f s) = nexts s" "prevs (upd i f s) = prevs s"
    using i(1) P(2) f li by (auto simp: nexts_def prevs_def fun_eq_iff)
  have o: "states (upd i f s) = (states s)(i := pr_state (f (proc s i)))" "pids (upd i f s) = (pids s)(i := pr_pid (f (proc s i)))"
    using i(1) P(2) by (auto simp: states_def pids_def fun_eq_iff)
  have "queues rs bs (upd i f s)" using P(1) n by (simp add: queues_def)
  then show ?thesis using P D i o f(3) by (auto simp: unused_def sched_ok_def sched_pre_def)
qed

lemma unused_links:
  assumes u: "unused rs bs c i s"
  shows "pr_next (proc s i) = None" "pr_prev (proc s i) = None" "pr_state (proc s i) \<noteq> PROCESS_STATE_BLOCKED" "slots s = 64" "i < 64"
proof -
  note P = sched_preD [OF sched_okD(1) [OF u [unfolded unused_def, THEN conjunct1]]]
  show "pr_next (proc s i) = None" "pr_prev (proc s i) = None" "pr_state (proc s i) \<noteq> PROCESS_STATE_BLOCKED" "slots s = 64" "i < 64"
    using P u unfolding unused_def by (auto simp: queues_def nexts_def prevs_def states_def)
qed

lemma unused_step:
  assumes u: "unused rs bs c i s" and f: "\<And>x. pr_next (f x) = pr_next x" "\<And>x. pr_prev (f x) = pr_prev x" "\<And>x. pr_state (f x) = pr_state x"
  shows "unused rs bs c i (upd i f s)" "pids (upd i f s) i = pr_pid (f (proc s i))"
  using unused_upd [OF u, of f] unused_links [OF u] f by (simp_all add: pids_def)

lemma unused_memory: "unused rs bs c i s \<Longrightarrow> but_memory t = but_memory s \<Longrightarrow> unused rs bs c i t \<and> pids t i = pids s i \<and> locks t = locks s"
  using but_memory_view [of t s] unused_view [of t s] by (auto simp: pids_def proc_def sched_view_eq)

lemma but_memory_spaces [simp]: "but_memory (switch_space v s) = but_memory s" "but_memory (delete_space v s) = but_memory s"
  by (simp_all add: switch_space_def delete_space_def)

lemma unused_abandon: "unused rs bs c i s \<Longrightarrow> unused rs bs c i (abandon i s) \<and> locks (abandon i s) = locks s"
  using unused_memory [of rs bs c i s "delete_space (pr_page_table (proc s i)) s"]
    unused_step(1) [of rs bs c i "delete_space (pr_page_table (proc s i)) s" "pr_pid_update (\<lambda>_. 0)"]
  by (simp add: abandon_def)

lemma load_image_unused:
  assumes u: "unused rs bs c i s" and l: "load_image i data sz s = (b, t)"
  shows "unused rs bs c i t \<and> locks t = locks s \<and> (b \<longrightarrow> pids t i = pids s i)"
proof -
  obtain b1 ctx s1 where 1: "elf_init process_alloc_pages process_free_pages (pr_elf_ctx (proc s i)) data sz s = (b1, ctx, s1)"
    by (metis prod_cases3)
  note u1 = unused_memory [OF u but_memory_init [OF 1]]
  have el: "unused rs bs c i (upd i (pr_elf_ctx_update (\<lambda>_. k)) w)" if "unused rs bs c i w" for w :: "'a proc_state_scheme" and k
    using unused_step(1) [OF that] by simp
  show ?thesis
  proof (cases b1)
    case False
    then have t: "t = abandon i (upd i (pr_elf_ctx_update (\<lambda>_. ctx)) s1)" "\<not> b" using 1 l by (simp_all add: load_image_def)
    then show ?thesis using unused_abandon [OF el] u1 by simp
  next
    case True
    let ?o = "vmm_get_current_address_space (kvm s1)" and ?s2 = "switch_space (pr_page_table (proc s1 i)) s1"
    obtain b2 ctx1 s3 where 2: "elf_load process_alloc_pages process_free_pages ctx 0 ?s2 = (b2, ctx1, s3)" by (metis prod_cases3)
    have m3: "but_memory s3 = but_memory s1" using but_memory_load [OF 2] by simp
    note u3 = unused_memory [OF conjunct1 [OF u1] m3]
    show ?thesis
    proof (cases b2)
      case False
      obtain ctx2 s4 where 4: "elf_cleanup process_free_pages ctx1 (switch_space ?o s3) = (ctx2, s4)" by fastforce
      have "but_memory s4 = but_memory s1" using but_memory_cleanup [OF 4] m3 by simp
      note u4 = unused_memory [OF conjunct1 [OF u1] this]
      have t: "t = abandon i (upd i (pr_elf_ctx_update (\<lambda>_. ctx2)) s4)" "\<not> b" using 1 2 4 l True False by (simp_all add: load_image_def Let_def)
      then show ?thesis using unused_abandon [OF el] u4 u1 by simp
    next
      case b2: True
      let ?f = "\<lambda>x. init_process_context (elf_get_entry_point ctx1) (pr_stack_top x) (x\<lparr>pr_elf_ctx := ctx1, pr_entry_point := elf_get_entry_point ctx1\<rparr>)"
      have t: "t = switch_space ?o (upd i ?f s3)" "b" using 1 2 l True b2 by (simp_all add: load_image_def Let_def)
      have u5: "unused rs bs c i (upd i ?f s3)" "pids (upd i ?f s3) i = pids s3 i"
        using unused_step [OF conjunct1 [OF u3], of ?f] by (simp_all add: init_process_context_def pids_def)
      then show ?thesis using unused_memory [OF u5(1), of t] t u1 u3 by simp
    qed
  qed
qed

lemma unused_keep:
  assumes u: "unused rs bs c i s" and f: "\<And>x. pr_next (f x) = pr_next x" "\<And>x. pr_prev (f x) = pr_prev x" "\<And>x. pr_state (f x) = pr_state x" "\<And>x. pr_pid (f x) = pr_pid x"
  shows "unused rs bs c i (upd i f (s\<lparr>kvm := v\<rparr>))" "pids (upd i f (s\<lparr>kvm := v\<rparr>)) i = pids s i" "locks (upd i f (s\<lparr>kvm := v\<rparr>)) = locks s"
proof -
  note m = unused_memory [OF u, of "s\<lparr>kvm := v\<rparr>"]
  then have "unused rs bs c i (s\<lparr>kvm := v\<rparr>)" by simp
  from unused_step [OF this f(1-3)] show "unused rs bs c i (upd i f (s\<lparr>kvm := v\<rparr>))" "pids (upd i f (s\<lparr>kvm := v\<rparr>)) i = pids s i"
    "locks (upd i f (s\<lparr>kvm := v\<rparr>)) = locks s"
    using m f(4) by (simp_all add: pids_def proc_def)
qed

lemma build_process_ok:
  assumes u: "unused rs bs c i s" and b: "build_process i data sz params s = (b, t)"
  shows "locks t = locks s \<and> (if b then sched_ok (rs @ [i]) bs c t \<and> pids t i = next_pid s \<and> states t i = PROCESS_STATE_READY else sched_ok rs bs c t)"
proof -
  let ?pid = "next_pid s"
  obtain n where a: "allocate_pid s = (?pid, s\<lparr>next_pid := n\<rparr>)" "n \<noteq> 0"
    by (cases "next_pid s + 1 = 0") (simp_all add: allocate_pid_def)
  have nz: "?pid \<noteq> 0" using u by (auto simp: unused_def sched_ok_def sched_pre_def)
  let ?s1 = "s\<lparr>next_pid := n\<rparr>" and ?s2 = "upd i (\<lambda>_. new_entry params ?pid) (s\<lparr>next_pid := n\<rparr>)"
  have "unused rs bs c i ?s1"
    using u a(2) by (auto simp: unused_def sched_ok_def sched_pre_def queues_def nexts_def [abs_def] prevs_def [abs_def] states_def pids_def proc_def)
  from unused_upd [OF this, of "\<lambda>_. new_entry params ?pid"] unused_links(4,5) [OF this]
  have u2: "unused rs bs c i ?s2" "pids ?s2 i = ?pid" "locks ?s2 = locks s" by (simp_all add: new_entry_def zero_process_def pids_def)
  obtain pt v where cs: "create_process_address_space (kvm ?s2) = (pt, v)" by fastforce
  let ?s3 = "upd i (pr_page_table_update (\<lambda>_. pt)) (?s2\<lparr>kvm := v\<rparr>)"
  have u3: "unused rs bs c i ?s3" "pids ?s3 i = ?pid" "locks ?s3 = locks s"
    using unused_keep [OF u2(1), of "pr_page_table_update (\<lambda>_. pt)" v] u2(2,3) by simp_all
  show ?thesis
  proof (cases "pt = 0")
    case True
    then have "b = False" "t = ?s3" using b a cs by (simp_all add: build_process_def Let_def)
    then show ?thesis using u3 by (simp add: unused_def)
  next
    case False
    let ?ss = "if pp_stack_size params \<noteq> 0 then pp_stack_size params else PROCESS_DEFAULT_STACK_SIZE"
    obtain top v1 where st: "create_process_stack ?ss pt (kvm ?s3) = (top, v1)" by fastforce
    let ?f = "\<lambda>x. x\<lparr>pr_stack_top := top, pr_stack_size := ?ss\<rparr>"
    let ?s4 = "upd i ?f (?s3\<lparr>kvm := v1\<rparr>)"
    have u4: "unused rs bs c i ?s4" "pids ?s4 i = ?pid" "locks ?s4 = locks s" using unused_keep [OF u3(1), of ?f v1] u3(2,3) by simp_all
    show ?thesis
    proof (cases "top = 0")
      case True
      then have "b = False" "t = abandon i ?s4" using b a cs st \<open>pt \<noteq> 0\<close> by (simp_all add: build_process_def Let_def)
      then show ?thesis using unused_abandon [OF u4(1)] u4(3) by (simp add: unused_def)
    next
      case nz_top: False
      obtain b5 s5 where li: "load_image i data sz ?s4 = (b5, s5)" by fastforce
      note u5 = load_image_unused [OF u4(1) li]
      show ?thesis
      proof (cases b5)
        case False
        then have "b = False" "t = s5" using b a cs st \<open>pt \<noteq> 0\<close> nz_top li by (simp_all add: build_process_def Let_def)
        then show ?thesis using u5 u4(3) by (simp add: unused_def)
      next
        case b5: True
        let ?s6 = "add_to_ready_queue i (upd i (pr_state_update (\<lambda>_. PROCESS_STATE_READY)) s5)"
        have t: "b" "t = upd i (pr_start_time_update (\<lambda>_. timer_get_ticks ?s6)) ?s6"
          using b a cs st \<open>pt \<noteq> 0\<close> nz_top li b5 by (simp_all add: build_process_def Let_def)
        have k: "sched_ok rs bs c s5" "i < 64" "i \<noteq> c" "i \<notin> set (rs @ bs)" "pids s5 i = ?pid" using u5 u4 b5 by (auto simp: unused_def)
        note D5 = sched_okD [OF k(1)]
        note E = pre_enqueue [OF D5(1) k(2,4), of PROCESS_STATE_READY]
        have qp: "pids ?s6 j = pids s5 j" if "j < 64" for j
          using queue_only_pids [OF queue_only_ops(1), of j "upd i (pr_state_update (\<lambda>_. PROCESS_STATE_READY)) s5" i] sched_preD(2) [OF D5(1)] that
          by (simp add: pids_def proj_upd)
        have "sched_ok (rs @ [i]) bs c ?s6" using E k nz D5 qp [OF D5(4)] by (auto simp: sched_ok_def)
        moreover have "same_links ?s6 t" "states t = states ?s6" "current_process t = current_process ?s6"
          unfolding t(2) by (rule frame_upd, simp_all)+
        ultimately have "sched_ok (rs @ [i]) bs c t" by (metis same_links_ok)
        moreover have "pids t i = ?pid" "states t i = PROCESS_STATE_READY" "locks t = locks s"
          using qp [OF k(2)] k(5) E(2,3) nz u5 u4(3) unfolding t(2) by (simp_all add: pids_def states_def proj_upd fun_eq_iff)
        ultimately show ?thesis using t(1) by simp
      qed
    qed
  qed
qed

lemma free_slot_unused:
  assumes ok: "sched_ok rs bs c s" and f: "free_slot s = Some i"
  shows "unused rs bs c i s"
proof -
  note D = sched_okD [OF ok] and P = sched_preD [OF sched_okD(1) [OF ok]]
  obtain j where j: "i = Suc j" "j < length (tl (process_table s))" "pr_state (tl (process_table s) ! j) = PROCESS_STATE_TERMINATED \<or> pr_pid (tl (process_table s) ! j) = 0"
    using f by (auto simp: free_slot_def slot_simps)
  then have i: "0 < i" "i < 64" "states s i = PROCESS_STATE_TERMINATED \<or> pids s i = 0"
    using P(2) by (auto simp: states_def pids_def proc_def nth_tl)
  have "i \<notin> set rs" using P(6,8) i by auto
  moreover have "i \<notin> set bs" using P(7,8) i by auto
  moreover have "i \<noteq> c" using D(5,6) i by auto
  ultimately show ?thesis using ok i by (simp add: unused_def)
qed

lemma process_create_ok:
  assumes ok: "sched_ok rs bs c s" and free: "lock_free env s"
  shows "\<exists>pid t. process_create env data sz params s = Some (pid, t) \<and> lock_free env t \<and>
    (if pid \<noteq> 0
     then \<exists>i. free_slot s = Some i \<and> sched_ok (rs @ [i]) bs c t \<and> pid = next_pid s \<and> pids t i = pid \<and> states t i = PROCESS_STATE_READY
     else sched_ok rs bs c t)"
proof (cases "\<exists>p. params = Some p \<and> data \<noteq> 0 \<and> sz \<noteq> 0 \<and> pp_name p \<noteq> None \<and> elf_is_valid (kmem s) data sz")
  case False
  then have "process_create env data sz params s = Some (0, s)" by (auto simp: process_create_def split: option.split)
  then show ?thesis using ok free by simp
next
  case True
  then obtain p where p: "params = Some p" "data \<noteq> 0" "sz \<noteq> 0" "pp_name p \<noteq> None" "elf_is_valid (kmem s) data sz" by blast
  have nz: "process_lock env \<noteq> 0" using free by (simp add: lock_free_def)
  obtain s1 where s1: "proc_lock env s = Some s1" "sched_view s1 = sched_view s" by (rule locked [OF free]) (rule that)
  have ok1: "sched_ok rs bs c s1" using ok sched_view_ok [OF s1(2)] by blast
  have un: "sched_ok q bs c (proc_unlock env u) = sched_ok q bs c u" for q and u :: "'a proc_state_scheme" by (rule sched_view_ok [OF unlocked(1) [OF nz]])
  have fs: "free_slot s1 = free_slot s" "next_pid s1 = next_pid s" using s1(2) by (simp_all add: free_slot_def sched_view_eq)
  show ?thesis
  proof (cases "free_slot s1")
    case None
    then have "process_create env data sz params s = Some (0, proc_unlock env s1)" using p s1(1) by (auto simp: process_create_def)
    then show ?thesis using ok1 un unlocked(4) [OF nz] by simp
  next
    case (Some i)
    obtain b s2 where b: "build_process i data sz p s1 = (b, s2)" by fastforce
    note B = build_process_ok [OF free_slot_unused [OF ok1 Some] b]
    have e: "process_create env data sz params s = Some (if b then pr_pid (proc s2 i) else 0, proc_unlock env s2)"
      using p s1(1) Some b by (cases b) (auto simp: process_create_def)
    have "pids (proc_unlock env s2) i = pids s2 i" "states (proc_unlock env s2) i = states s2 i"
      by (simp_all add: pids_def states_def unlocked(2) [OF nz])
    moreover have "next_pid s \<noteq> 0" using ok by (simp add: sched_ok_def sched_pre_def)
    ultimately show ?thesis using B e un unlocked(4) [OF nz, of s2] Some fs by (cases b) (auto simp: pids_def)
  qed
qed

end
