(* ===== verification/Proc_Correct.thy ===== *)
theory Proc_Correct
  imports Scheduler
begin

text \<open>
  What the process manager guarantees, and where it does not do what it means to: properties of the
  system from its start, the order in which processes run, blocking, creation and the user stack.
\<close>

section \<open>From the start of the system\<close>

text \<open>One call of the process manager; the idle process never blocks.\<close>

inductive proc_step :: "process_env \<Rightarrow> proc_state \<Rightarrow> proc_state \<Rightarrow> bool" for env where
  yields: "proc_step env s (process_yield env s)"
| blocks: "current_process s \<noteq> idle_process s \<Longrightarrow> proc_step env s (process_block env st s)"
| ticks: "timer_callback env s = Some t \<Longrightarrow> proc_step env s t"
| unblocks: "process_unblock env pid s = Some (b, t) \<Longrightarrow> proc_step env s t"
| creates: "process_create env data sz params s = Some (pid, t) \<Longrightarrow> proc_step env s t"
| terminates: "process_terminate env pid code s = Some (b, t) \<Longrightarrow> proc_step env s t"
| prioritises: "process_set_priority env pid prio s = Some (b, t) \<Longrightarrow> proc_step env s t"
| adds_region: "process_add_memory_region env pid a e fl nm s = Some (b, t) \<Longrightarrow> proc_step env s t"

inductive_cases proc_stepE: "proc_step env s t"

definition proc_inv :: "process_env \<Rightarrow> 'a proc_state_scheme \<Rightarrow> bool" where
  "proc_inv env s \<longleftrightarrow> (\<exists>rs bs c. sched_ok rs bs c s) \<and> lock_free env s"

lemma proc_inv_terminate:
  assumes "proc_inv env s"
  shows "\<exists>b t. process_terminate env pid code s = Some (b, t) \<and> proc_inv env t"
proof -
  obtain rs bs c where ok: "sched_ok rs bs c s" and free: "lock_free env s" using assms by (auto simp: proc_inv_def)
  obtain s1 where s1: "proc_lock env s = Some s1" "sched_view s1 = sched_view s" "proc s1 = proc s" by (rule locked [OF free]) (rule that)
  have nz: "process_lock env \<noteq> 0" using free by (simp add: lock_free_def)
  consider "pid = 0" | "pid \<noteq> 0" "process_get_by_id pid s = None" | i where "pid \<noteq> 0" "process_get_by_id pid s = Some i" by (cases "process_get_by_id pid s") auto
  then show ?thesis
  proof cases
    case 2
    then have "process_get_by_id pid s1 = None" using s1(3) by (simp add: process_get_by_id_def split: if_splits)
    with 2 s1(1) have "process_terminate env pid code s = Some (False, proc_unlock env s1)" by (simp add: process_terminate_def)
    moreover have "sched_ok rs bs c (proc_unlock env s1)" using ok by (simp add: sched_view_ok [OF s1(2)] sched_view_ok [OF unlocked(1) [OF nz]])
    ultimately show ?thesis by (auto simp: proc_inv_def unlocked(4) [OF nz])
  next
    case 3
    obtain t where "process_terminate env pid code s = Some (True, t)" "lock_free env t"
      "if i = c then sched_ok (tl rs) bs (chosen rs) t else sched_ok (remove1 i rs) (remove1 i bs) c t"
      using process_terminate_ok [OF ok free 3, of code] by blast
    moreover from this(3) have "\<exists>rs bs c. sched_ok rs bs c t" by (cases "i = c") auto
    ultimately show ?thesis by (auto simp: proc_inv_def)
  qed (use assms in \<open>auto simp: process_terminate_def\<close>)
qed

lemma proc_inv_step:
  assumes inv: "proc_inv env s" and step: "proc_step env s t"
  shows "proc_inv env t"
proof -
  obtain rs bs c where ok: "sched_ok rs bs c s" and free: "lock_free env s" using inv by (auto simp: proc_inv_def)
  note D = sched_okD [OF ok]
  from step show ?thesis
  proof cases
    case yields
    then show ?thesis using process_yield_ok [OF ok, of env] free lock_free_cong by (auto simp: proc_inv_def)
  next
    case (blocks st)
    then have c: "c \<noteq> 0" using D(2) sched_preD(3) [OF D(1)] by simp
    show ?thesis
    proof (cases "st = PROCESS_STATE_RUNNING")
      case True
      then have "t = s" using blocks by (simp add: process_block_def D(2))
      then show ?thesis using inv by simp
    next
      case False
      then show ?thesis using process_block_ok [OF ok c False, of env] blocks(1) free lock_free_cong by (auto simp: proc_inv_def)
    qed
  next
    case ticks
    then show ?thesis using timer_callback_ok [OF ok free] by (auto simp: proc_inv_def)
  next
    case (unblocks pid b)
    then show ?thesis using process_unblock_ok [OF ok free, of pid] ok sched_view_ok [of t s] by (auto simp: proc_inv_def split: if_splits)
  next
    case (creates data sz params pid)
    then show ?thesis using process_create_ok [OF ok free, of data sz params] by (auto simp: proc_inv_def split: if_splits)
  next
    case (terminates pid code b)
    then show ?thesis using proc_inv_terminate [OF inv, of pid code] by auto
  next
    case (prioritises pid prio b)
    then show ?thesis using process_set_priority_ok [OF ok free, of pid prio] by (auto simp: proc_inv_def)
  next
    case (adds_region pid a e fl nm b)
    then show ?thesis using process_add_memory_region_ok [OF ok free, of pid a e fl nm] by (auto simp: proc_inv_def)
  qed
qed

lemma proc_inv_reachable: "(proc_step env)\<^sup>*\<^sup>* s t \<Longrightarrow> proc_inv env s \<Longrightarrow> proc_inv env t"
  by (induction rule: rtranclp_induct) (auto intro: proc_inv_step)

text \<open>Booting: the table is cleared, the scheduler's callback registered, the running code made the idle process.\<close>

lemma timer_register_frame:
  assumes "timer_register_callback cb ctx ms s = Some (b, t)"
  shows "sched_view t = sched_view s \<and> locks t = locks s"
  using assms by (auto simp: timer_register_callback_def sched_view_def split: if_splits option.splits)

lemma spinlock_name_frame: "sched_view (spinlock_set_name tb l nm s) = sched_view s \<and> locks (spinlock_set_name tb l nm s) = locks s"
  by (auto simp: spinlock_set_name_def sched_view_def split: option.split)

lemma spinlock_init_frame: "l \<noteq> 0 \<Longrightarrow> sched_view (spinlock_init l s) = sched_view s \<and> locks (spinlock_init l s) l = \<lparr>sl_value = 0, sl_owner = 0\<rparr>"
  by (simp add: spinlock_init_def spinlock_init_flags_def set_lock_def sched_view_def Let_def)

lemma process_boot:
  assumes env: "process_lock env \<noteq> 0"
    and q: "ready_queue_head s = None" "ready_queue_tail s = None" "blocked_queue_head s = None" "next_pid s = 1"
    and i: "process_init env s = Some (b, s1)"
  shows "\<exists>s2. process_register_kernel_idle env s1 = Some (True, s2) \<and> sched_ok [] [] 0 s2 \<and> lock_free env s2"
proof -
  let ?t = "s\<lparr>process_table := replicate PROCESS_MAX_COUNT zero_process\<rparr>"
  have f: "sched_view s1 = sched_view ?t" "lock_free env s1"
    using timer_register_frame [OF i [unfolded process_init_def Let_def process_scheduler_init_def]] env
    by (simp_all add: spinlock_name_frame spinlock_init_frame lock_free_def)
  obtain s3 where s3: "proc_lock env s1 = Some s3" "sched_view s3 = sched_view s1" by (rule locked [OF f(2)]) (rule that)
  have v: "process_table s3 = replicate 64 zero_process" "ready_queue_head s3 = None" "ready_queue_tail s3 = None" "blocked_queue_head s3 = None" "next_pid s3 = 1"
    using s3(2) f(1) q by (simp_all add: sched_view_eq PROCESS_MAX_COUNT_def)
  define idle where "idle = zero_process\<lparr>pr_pid := 0, pr_state := PROCESS_STATE_READY,
    pr_name := name_field 32 [0x6B, 0x65, 0x72, 0x6E, 0x65, 0x6C, 0x5F, 0x69, 0x64, 0x6C, 0x65],
    pr_context := zero_regs\<lparr>c_cr3 := vmm_get_current_address_space (kvm s3)\<rparr>,
    pr_quantum := - 1, pr_base_priority := - 20, pr_dynamic_priority := - 20\<rparr>"
  have id: "pr_state idle = PROCESS_STATE_READY" "pr_next idle = None" "pr_prev idle = None"
    by (simp_all add: idle_def zero_process_def)
  define s4 where "s4 = (upd 0 (\<lambda>_. idle) s3)\<lparr>idle_process := Some 0, current_process := Some 0\<rparr>"
  have p: "proc s4 j = (if j = 0 then idle else zero_process)" if "j < 64" for j
    using that v(1) by (simp add: s4_def proc_def upd_def nth_list_update)
  have z: "pr_state zero_process = PROCESS_STATE_NEW" "pr_next zero_process = None" "pr_prev zero_process = None" by (simp_all add: zero_process_def)
  have "sched_ok [] [] 0 s4"
    using v p id z by (simp add: sched_ok_def sched_pre_def queues_def nexts_def prevs_def states_def) (simp add: s4_def)
  then have "sched_ok [] [] 0 (proc_unlock env s4)" using sched_view_ok [OF unlocked(1) [OF env]] by blast
  moreover have "process_register_kernel_idle env s1 = Some (True, proc_unlock env s4)"
    using s3(1) by (simp add: process_register_kernel_idle_def idle_def s4_def Let_def)
  ultimately show ?thesis using unlocked(4) [OF env] by blast
qed


definition env_demo :: process_env where
  "env_demo = \<lparr>process_lock = 0x4000, lock_track_base = 0x9000, return_addr = 0x1234, timer_callback_addr = 0x5000,
     context_addr = (\<lambda>i. 0x10000 + 4096 * of_nat i), restore_regs = (\<lambda>c r. c)\<rparr>"

definition boot_demo :: proc_state where
  "boot_demo = kernel_state.extend kernel_demo
     \<lparr>process_table = [], next_pid = 1, current_process = None, idle_process = None, ready_queue_head = None, ready_queue_tail = None,
      blocked_queue_head = None, cpu = zero_regs\<rparr>"

lemma boot_demo_fields:
  "ready_queue_head boot_demo = None" "ready_queue_tail boot_demo = None" "blocked_queue_head boot_demo = None" "next_pid boot_demo = 1"
  by (simp_all add: boot_demo_def kernel_state.defs)

lemma boot_demo_init: "\<exists>b s1. process_init env_demo boot_demo = Some (b, s1)"
proof -
  have f: "timer_callbacks_lock boot_demo = False"
    by (simp add: boot_demo_def kernel_state.defs kernel_demo_def lock_state.defs lock_demo_def mouse_state.defs mouse_demo_def keyboard_state.defs keyboard_demo_def timer_state.defs timer_demo_def irq_state.defs)
  have "timer_callbacks_lock (spinlock_set_name tb l nm (spinlock_init l2 s)) = timer_callbacks_lock s" for tb l nm l2 and s :: proc_state
    by (simp add: spinlock_set_name_def spinlock_init_def spinlock_init_flags_def set_lock_def Let_def split: option.split)
  with f show ?thesis by (auto simp: process_init_def Let_def process_scheduler_init_def timer_register_callback_def split: option.split)
qed


section \<open>The order of turns\<close>

lemma mset_rotate: "mset (rotate k xs) = mset xs"
proof -
  have "mset (rotate1 ys) = mset ys" for ys :: "'a list" by (cases ys) simp_all
  then show ?thesis by (induction k) simp_all
qed

text \<open>
  The contract behind a round-robin order: in a configuration of a running element and a waiting list,
  yielding puts the running element at the end of the list and runs its head.
\<close>

locale rotation =
  fixes at :: "'s \<Rightarrow> 'p \<Rightarrow> 'p list \<Rightarrow> bool" and yield :: "'s \<Rightarrow> 's"
  assumes step: "at s c ws \<Longrightarrow> at (yield s) (hd (ws @ [c])) (tl (ws @ [c]))"
begin

lemma rotated: "at s c ws \<Longrightarrow> at ((yield ^^ k) s) (hd (rotate k (c # ws))) (tl (rotate k (c # ws)))"
proof (induction k)
  case (Suc k)
  let ?r = "rotate k (c # ws)"
  have "?r \<noteq> []" by (metis length_rotate list.size(3) length_0_conv list.distinct(1))
  then have "rotate (Suc k) (c # ws) = tl ?r @ [hd ?r]" by (simp add: rotate1_hd_tl)
  with step [OF Suc.IH [OF Suc.prems]] show ?case by simp
qed simp

lemma turn: "at s c ws \<Longrightarrow> \<exists>rest. at ((yield ^^ k) s) ((c # ws) ! (k mod Suc (length ws))) rest"
proof -
  assume "at s c ws"
  moreover have "hd (rotate k (c # ws)) = (c # ws) ! (k mod Suc (length ws))" by (subst hd_rotate_conv_nth) simp_all
  ultimately show ?thesis using rotated by metis
qed

end

interpretation rr: rotation "\<lambda>s c rs. sched_ok rs bs c s" "process_yield env" for bs env
  by unfold_locales (rule process_yield_ok)

text \<open>
  C13. Fairness of yielding: when every process that runs gives up the processor, the processes of the
  ready queue and the current one run in turn, each exactly once in every round, in the order of
  the queue; the blocked queue stays as it is.
\<close>

theorem process_yield_round_robin:
  assumes "sched_ok rs bs c s"
  shows "current_process ((process_yield env ^^ k) s) = Some ((c # rs) ! (k mod Suc (length rs))) \<and>
    (\<exists>rs'. queues rs' bs ((process_yield env ^^ k) s) \<and> mset (hd (rotate k (c # rs)) # rs') = mset (c # rs))"
proof -
  let ?t = "(process_yield env ^^ k) s" and ?r = "rotate k (c # rs)"
  have nn: "?r \<noteq> []" by (metis length_rotate list.size(3) length_0_conv list.distinct(1))
  have ok: "sched_ok (tl ?r) bs (hd ?r) ?t" by (rule rr.rotated [OF assms])
  have "mset (hd ?r # tl ?r) = mset (c # rs)" using nn mset_rotate [of k "c # rs"] by (metis list.collapse)
  moreover obtain rest where "sched_ok rest bs ((c # rs) ! (k mod Suc (length rs))) ?t" using rr.turn [OF assms] by blast
  ultimately show ?thesis using ok sched_okD(2) sched_preD(1) sched_okD(1) by metis
qed

definition ready_demo :: "u32 \<Rightarrow> process_state_t \<Rightarrow> nat option \<Rightarrow> nat option \<Rightarrow> process_t" where
  "ready_demo pid st nx pv = zero_process\<lparr>pr_pid := pid, pr_state := st, pr_next := nx, pr_prev := pv, pr_quantum := 20\<rparr>"

definition sched_demo :: proc_state where
  "sched_demo = boot_demo\<lparr>process_table :=
       [ready_demo 0 PROCESS_STATE_READY None None\<lparr>pr_quantum := - 1\<rparr>, ready_demo 1 PROCESS_STATE_READY (Some 2) None,
        ready_demo 2 PROCESS_STATE_READY None (Some 1), ready_demo 3 PROCESS_STATE_RUNNING None None] @ replicate 60 zero_process,
     next_pid := 4, current_process := Some 3, idle_process := Some 0, ready_queue_head := Some 1, ready_queue_tail := Some 2,
     locks := (\<lambda>_. \<lparr>sl_value = 0, sl_owner = 0\<rparr>)\<rparr>"

lemma sched_demo_ok: "sched_ok [1, 2] [] 3 sched_demo" "lock_free env_demo sched_demo"
proof -
  have z: "pr_next zero_process = None" "pr_prev zero_process = None" "pr_state zero_process = PROCESS_STATE_NEW" by (simp_all add: zero_process_def)
  have p: "proc sched_demo j = (if j = 0 then ready_demo 0 PROCESS_STATE_READY None None\<lparr>pr_quantum := - 1\<rparr>
      else if j = 1 then ready_demo 1 PROCESS_STATE_READY (Some 2) None else if j = 2 then ready_demo 2 PROCESS_STATE_READY None (Some 1)
      else if j = 3 then ready_demo 3 PROCESS_STATE_RUNNING None None else zero_process)" if "j < 64" for j
    using that by (auto simp: proc_def sched_demo_def nth_append nth_Cons')
  have f: "slots sched_demo = 64" "ready_queue_head sched_demo = Some 1" "ready_queue_tail sched_demo = Some 2" "blocked_queue_head sched_demo = None"
    "idle_process sched_demo = Some 0" "current_process sched_demo = Some 3" "next_pid sched_demo = 4"
    by (simp_all add: sched_demo_def boot_demo_fields)
  show "sched_ok [1, 2] [] 3 sched_demo"
    by (simp add: sched_ok_def sched_pre_def queues_def nexts_def prevs_def states_def pids_def f p z) (simp add: ready_demo_def)
  show "lock_free env_demo sched_demo" by (simp add: lock_free_def env_demo_def sched_demo_def)
qed

theorem process_yield_round_robin_witness:
  "current_process ((process_yield env_demo ^^ 4) sched_demo) = Some 1"
  using process_yield_round_robin [OF sched_demo_ok(1), where env = env_demo and k = 4] by simp

section \<open>Yielding alone\<close>

text \<open>
  A process that yields while no other is ready keeps running, but interrupts stay disabled, since
  they are only restored by a context switch, and it is marked as ready although it is in no queue.
  Should interrupts be enabled again, the next tick gives the processor to the idle process, and
  the process is lost: it is ready and not running, but in no queue.
\<close>

theorem process_yield_alone:
  assumes ok: "sched_ok [] bs c s" and c: "c \<noteq> 0"
  shows "current_process (process_yield env s) = Some c \<and> \<not> interrupt_flag (process_yield env s) \<and>
    pr_state (proc (process_yield env s) c) = PROCESS_STATE_READY \<and> queues [] bs (process_yield env s) \<and>
    (\<exists>t. timer_callback env ((process_yield env s)\<lparr>interrupt_flag := True\<rparr>) = Some t \<and> current_process t = Some 0 \<and>
      pr_state (proc t c) = PROCESS_STATE_READY \<and> queues [] bs t)"
proof -
  let ?y = "process_yield env s" and ?s1 = "s\<lparr>interrupt_flag := False\<rparr>"
  let ?s2 = "add_to_ready_queue c (upd c (pr_state_update (\<lambda>_. PROCESS_STATE_READY)) ?s1)"
  note Y = process_yield_ok [OF ok, of env, simplified]
  note D = sched_okD [OF ok] and D1 = sched_okD [OF Y(1)]
  have ok1: "sched_ok [] bs c ?s1" using ok sched_view_ok [OF view_interrupt] by blast
  note E = pre_enqueue [OF sched_okD(1,4,3,6) [OF ok1], of PROCESS_STATE_READY]
  have qo: "queue_only (upd c (pr_state_update (\<lambda>_. PROCESS_STATE_READY)) ?s1) ?s2" by blast
  have hd: "ready_queue_head ?s2 = Some c" "current_process ?s2 = Some c" "interrupt_flag ?s2 = False"
    using E D(2) queue_only_fields [OF qo] by (simp_all add: sched_pre_def queues_def)
  have "queue_only (?s2\<lparr>interrupt_flag := False\<rparr>) (take_ready c (?s2\<lparr>interrupt_flag := False\<rparr>))" by blast
  note tf = queue_only_fields [OF this]
  have "?y = take_ready c (?s2\<lparr>interrupt_flag := False\<rparr>)"
    using D(2) hd tf(2) by (simp add: process_yield_def schedule_next_def idt_disable_interrupts_def context_switch_def)
  then have y: "\<not> interrupt_flag ?y" using tf(5) by simp
  have st: "states ?y c = PROCESS_STATE_READY" using Y(3) by (simp add: after_switch_def)
  let ?u = "?y\<lparr>interrupt_flag := True\<rparr>"
  have oku: "sched_ok [] bs c ?u" using Y(1) sched_view_ok [OF view_interrupt] by blast
  note S = schedule_next_ok [OF sched_okD(1) [OF oku], of env] and Du = sched_okD [OF oku]
  have "timer_callback env ?u = Some (schedule_next env ?u)"
    using Du(2) st by (simp add: timer_callback_def idt_are_interrupts_enabled_def states_proc)
  moreover have "states (schedule_next env ?u) c = PROCESS_STATE_READY" unfolding S(3) using st c Du(2) by (simp add: chosen_def after_switch_def)
  ultimately show ?thesis
    using y st D1(2) sched_preD(1) [OF D1(1)] sched_okD(2) [OF S(1)] sched_preD(1) [OF sched_okD(1) [OF S(1)]]
    by (simp add: states_proc chosen_def)
qed

definition alone_demo :: proc_state where
  "alone_demo = (process_block env_demo PROCESS_STATE_BLOCKED (process_block env_demo PROCESS_STATE_BLOCKED sched_demo))"

theorem process_yield_alone_witness:
  "current_process (process_yield env_demo alone_demo) = Some 2 \<and> \<not> interrupt_flag (process_yield env_demo alone_demo)"
proof -
  have "sched_ok [] [1, 3] 2 alone_demo"
    using process_block_ok(1) [OF process_block_ok(1) [OF sched_demo_ok(1), of PROCESS_STATE_BLOCKED env_demo], of PROCESS_STATE_BLOCKED env_demo]
    by (simp add: chosen_def alone_demo_def)
  from process_yield_alone [OF this, of env_demo] show ?thesis by simp
qed

section \<open>The idle process\<close>

fun ticks_from :: "process_env \<Rightarrow> nat \<Rightarrow> 'a proc_state_scheme \<Rightarrow> 'a proc_state_scheme option" where
  "ticks_from env 0 s = Some s"
| "ticks_from env (Suc n) s = (case timer_callback env s of None \<Rightarrow> None | Some t \<Rightarrow> ticks_from env n t)"

text \<open>
  The idle process is never preempted: once it runs, the ticks of the timer leave it running for
  \<open>2\<^sup>6\<^sup>4 - 2\<close> ticks, however many processes are waiting in the ready queue.
\<close>

theorem idle_never_preempted:
  assumes "sched_ok rs bs 0 s" "pr_state (proc s 0) = PROCESS_STATE_RUNNING" "pr_quantum (proc s 0) = - 1" "interrupt_flag s"
    and "unat (pr_cpu_time (proc s 0) - pr_last_schedule (proc s 0)) + n < 2 ^ 64 - 1"
  shows "\<exists>t. ticks_from env n s = Some t \<and> current_process t = Some 0 \<and> queues rs bs t \<and> pr_state (proc t 0) = PROCESS_STATE_RUNNING"
  using assms
proof (induction n arbitrary: s)
  case 0
  then show ?case using sched_okD(2) [OF 0(1)] sched_preD(1) [OF sched_okD(1) [OF 0(1)]] by simp
next
  case (Suc n)
  note D = sched_okD [OF Suc.prems(1)]
  let ?t = "upd 0 (\<lambda>x. x\<lparr>pr_cpu_time := pr_cpu_time x + 1\<rparr>) s"
  let ?d = "pr_cpu_time (proc s 0) - pr_last_schedule (proc s 0)"
  have sl: "slots s = 64" by (rule sched_preD(2) [OF D(1)])
  have z: "0 < slots s" unfolding sl by simp
  have u: "unat (pr_cpu_time (proc s 0) + 1 - pr_last_schedule (proc s 0)) = unat ?d + 1"
  proof -
    have "pr_cpu_time (proc s 0) + 1 - pr_last_schedule (proc s 0) = ?d + 1" by simp
    then show ?thesis using Suc.prems(5) by (simp only: unat_word_ariths(1)) simp
  qed
  have "timer_callback env s = Some ?t"
    using D(2) Suc.prems(2-5) z u by (simp add: timer_callback_def idt_are_interrupts_enabled_def word_le_nat_alt Let_def unsigned_minus_1_eq_mask mask_eq_exp_minus_1)
  moreover have "sched_ok rs bs 0 ?t"
    by (rule same_links_ok [OF _ _ _ Suc.prems(1)]) (simp_all add: states_def fun_eq_iff proj_upd)
  then have "\<exists>t. ticks_from env n ?t = Some t \<and> current_process t = Some 0 \<and> queues rs bs t \<and> pr_state (proc t 0) = PROCESS_STATE_RUNNING"
    by (rule Suc.IH) (use Suc.prems z u in simp_all)
  ultimately show ?case by simp
qed

definition idle_demo :: proc_state where
  "idle_demo = sched_demo\<lparr>process_table := (process_table sched_demo)[0 := ready_demo 0 PROCESS_STATE_RUNNING None None\<lparr>pr_quantum := - 1\<rparr>],
     current_process := Some 0, interrupt_flag := True\<rparr>"

theorem idle_never_preempted_witness:
  "\<exists>t. ticks_from env_demo 1000000 idle_demo = Some t \<and> current_process t = Some 0 \<and> queues [1, 2] [] t"
proof -
  let ?i = "ready_demo 0 PROCESS_STATE_RUNNING None None\<lparr>pr_quantum := - 1\<rparr>"
  note D = sched_preD [OF sched_okD(1) [OF sched_demo_ok(1)]]
  have p: "proc idle_demo = (proc sched_demo)(0 := ?i)"
    using D(2) by (auto simp: idle_demo_def proc_def nth_list_update fun_eq_iff)
  have n: "nexts idle_demo = nexts sched_demo" "prevs idle_demo = prevs sched_demo" "pids idle_demo = pids sched_demo"
      "states idle_demo = (states sched_demo)(0 := PROCESS_STATE_RUNNING)"
    by (auto simp: fun_eq_iff nexts_def prevs_def pids_def states_def p) (simp_all add: ready_demo_def proc_def sched_demo_def)
  have "slots idle_demo = slots sched_demo" "current_process idle_demo = Some 0" "interrupt_flag idle_demo" by (simp_all add: idle_demo_def)
  moreover from this have "sched_ok [1, 2] [] 0 idle_demo"
    using D n by (simp add: sched_ok_def sched_pre_def queues_def) (simp add: idle_demo_def)
  ultimately show ?thesis using idle_never_preempted [of "[1, 2]" "[]" idle_demo 1000000 env_demo]
    by (auto simp: p ready_demo_def zero_process_def)
qed

section \<open>Blocking\<close>

lemma schedule_next_pids:
  assumes pre: "sched_pre rs bs s" and i: "i < 64"
  shows "pids (schedule_next env s) i = pids s i"
proof -
  note P = sched_preD [OF pre]
  let ?s1 = "s\<lparr>interrupt_flag := False\<rparr>"
  have cs: "pids (context_switch env n u) = pids u" if "n < slots u" "\<forall>c. current_process u = Some c \<longrightarrow> c < slots u" for n and u :: "'a proc_state_scheme"
    using context_switch_effect(1) [OF that, of env] by (simp add: same_links_def)
  have qo: "queue_only ?s1 (take_ready n ?s1)" for n by blast
  show ?thesis
  proof (cases rs)
    case Nil
    have z: "0 < slots s" unfolding P(2) by simp
    with Nil P show ?thesis by (simp add: schedule_next_def idt_disable_interrupts_def queues_def cs)
  next
    case (Cons r vs)
    then have r: "r < 64" "ready_queue_head s = Some r" using P(1,11) by (auto simp: queues_def)
    with P queue_only_fields(1,2) [OF qo] have "pids (context_switch env r (take_ready r ?s1)) = pids (take_ready r ?s1)" by (intro cs) simp_all
    moreover have "pids (take_ready r ?s1) i = pids ?s1 i" using queue_only_pids [OF qo, of i] P(2) i by simp
    ultimately show ?thesis using r by (simp add: schedule_next_def idt_disable_interrupts_def)
  qed
qed

lemma process_block_pids:
  assumes ok: "sched_ok rs bs c s" and c: "c \<noteq> 0" and st: "st \<noteq> PROCESS_STATE_RUNNING" and i: "i < 64"
  shows "pids (process_block env st s) i = pids s i"
proof -
  let ?s1 = "s\<lparr>interrupt_flag := False\<rparr>"
  let ?s2 = "upd c (pr_state_update (\<lambda>_. st)) ?s1"
  have ok1: "sched_ok rs bs c ?s1" using ok sched_view_ok [OF view_interrupt] by blast
  note D = sched_okD [OF ok1]
  note E = pre_block(1) [OF D(1,4,3) c, of st]
  have e: "process_block env st s = schedule_next env (add_to_blocked_queue c ?s2)" using D(2) st by (simp add: process_block_def idt_disable_interrupts_def)
  have "pids (add_to_blocked_queue c ?s2) i = pids ?s2 i"
    using queue_only_pids [OF queue_only_ops(3), of i ?s2] sched_preD(2) [OF D(1)] i by simp
  moreover have "pids ?s2 i = pids s i" using same_links_prims(5) [of ?s1 c "\<lambda>_. st"] by (simp add: same_links_def)
  ultimately show ?thesis unfolding e using schedule_next_pids [OF E i] D(6) c by simp
qed

text \<open>
  C14. Blocking and unblocking: a process that blocks, whatever the state it names, is marked blocked, the
  head of the ready queue (or the idle process) runs, and unblocking the process puts it at the end
  of the ready queue and restores the blocked queue; unblocking it once more is refused. The process
  must be found under its identifier.
\<close>

theorem process_block_unblock:
  assumes ok: "sched_ok rs bs c s" and free: "lock_free env s" and c: "c \<noteq> 0" "process_get_by_id pid s = Some c"
    and st: "st \<noteq> PROCESS_STATE_RUNNING"
  shows "\<exists>u v. pr_state (proc (process_block env st s) c) = PROCESS_STATE_BLOCKED \<and> process_unblock env pid (process_block env st s) = Some (True, u) \<and>
    queues (tl rs @ [c]) bs u \<and> pr_state (proc u c) = PROCESS_STATE_READY \<and> current_process u = Some (chosen rs) \<and>
    process_unblock env pid u = Some (False, v)"
proof -
  let ?t = "process_block env st s"
  note B = process_block_ok [OF ok c(1) st, of env]
  have i: "unat pid = c" "c < 64" "pids s c = pid" using c(2) by (auto simp: get_by_id_Some)
  have ft: "lock_free env ?t" using free B(2) lock_free_cong by blast
  have stc: "states ?t c = PROCESS_STATE_BLOCKED" using sched_preD(7) [OF sched_okD(1) [OF B(1)]] i(2) by simp
  obtain b u where u: "process_unblock env pid ?t = Some (b, u)" "lock_free env u"
    "if b then unat pid \<in> set (c # bs) \<and> sched_ok (tl rs @ [unat pid]) (remove1 (unat pid) (c # bs)) (chosen rs) u \<and> states u = (states ?t)(unat pid := PROCESS_STATE_READY)
     else sched_view u = sched_view ?t \<and> \<not> (unat pid \<in> set (c # bs) \<and> pids ?t (unat pid) = pid)"
    using process_unblock_ok [OF B(1) ft, of pid] by blast
  have pc: "pids ?t c = pids s c" by (rule process_block_pids [OF ok c(1) st i(2)])
  have b: "b"
  proof (rule ccontr)
    assume "\<not> b"
    with u(3) have "\<not> (unat pid \<in> set (c # bs) \<and> pids ?t (unat pid) = pid)" by simp
    then show False unfolding i(1) pc using i(3) by simp
  qed
  with u(3) i have ok2: "sched_ok (tl rs @ [c]) bs (chosen rs) u" "states u c = PROCESS_STATE_READY" by simp_all
  have "c \<notin> set bs" using sched_okD(3) [OF ok] by simp
  with process_unblock_ok [OF ok2(1) u(2), of pid] i(1) have "\<exists>v. process_unblock env pid u = Some (False, v)" by (auto split: if_splits)
  with u(1) b ok2 stc show ?thesis
    using sched_okD(2) [OF ok2(1)] sched_preD(1) [OF sched_okD(1) [OF ok2(1)]] by (auto simp: states_proc)
qed

theorem process_block_unblock_witness:
  "\<exists>u. process_unblock env_demo 3 (process_block env_demo PROCESS_STATE_SUSPENDED sched_demo) = Some (True, u) \<and> current_process u = Some 1"
proof -
  have "process_get_by_id 3 sched_demo = Some 3"
    by (simp add: process_get_by_id_def PROCESS_MAX_COUNT_def proc_def sched_demo_def nth_append nth_Cons' ready_demo_def)
  from process_block_unblock [OF sched_demo_ok _ this, of PROCESS_STATE_SUSPENDED] show ?thesis by (auto simp: chosen_def)
qed

section \<open>Entering user mode\<close>

text \<open>
  A process is entered with the lock of the process table held and the current process unchanged:
  from then on every operation that takes the lock waits forever, and so does the tick handler once
  the quantum of the current process is used up.
\<close>

theorem process_execute_keeps_lock:
  assumes free: "lock_free env s" and e: "process_execute env pid s = Enters_user_mode entry stack pt t"
  shows "current_process t = current_process s \<and> process_unblock env p t = None \<and> process_set_priority env p prio t = None \<and>
    (p \<noteq> 0 \<longrightarrow> process_terminate env p code t = None) \<and> process_execute env p t = Deadlock \<and> process_get_stats env p t = None \<and>
    (\<forall>q. current_process t = Some q \<and> q < slots t \<and> interrupt_flag t \<and> pr_state (proc t q) = PROCESS_STATE_RUNNING \<and>
       pr_quantum (proc t q) \<le> pr_cpu_time (proc t q) + 1 - pr_last_schedule (proc t q) \<longrightarrow> timer_callback env t = None)"
proof -
  have nz: "process_lock env \<noteq> 0" using free by (simp add: lock_free_def)
  obtain s1 where s1: "proc_lock env s = Some s1" "sched_view s1 = sched_view s"
    "locks s1 = (locks s)(process_lock env := \<lparr>sl_value = 1, sl_owner = return_addr env\<rparr>)"
    by (rule locked [OF free]) (rule that)
  have t: "\<exists>pt'. t = switch_space pt' s1" using e s1(1) by (auto simp: process_execute_def Let_def split: option.splits if_splits)
  then have l: "bit (sl_value (locks t (process_lock env))) 0" "current_process t = current_process s"
    using s1(2,3) by (auto simp: switch_space_def sched_view_eq bit_0)
  have none: "proc_lock env u = None" if "locks u = locks t" for u :: "'a proc_state_scheme"
    using proc_lock_held [OF nz, of u] l(1) that by simp
  show ?thesis
    using l(2) none [of t] none [OF upd_fields(10)]
    by (auto simp: process_unblock_def process_set_priority_def process_terminate_def process_execute_def process_get_stats_def
      timer_callback_def idt_are_interrupts_enabled_def Let_def)
qed

theorem process_execute_keeps_lock_witness:
  "\<exists>e st pt t. process_execute env_demo 1 sched_demo = Enters_user_mode e st pt t \<and> process_unblock env_demo 2 t = None"
proof -
  obtain s1 where s1: "proc_lock env_demo sched_demo = Some s1" "proc s1 = proc sched_demo" by (rule locked [OF sched_demo_ok(2)]) (rule that)
  have "process_get_by_id 1 s1 = Some 1" "pr_state (proc s1 1) = PROCESS_STATE_READY"
    using s1(2) by (simp_all add: process_get_by_id_def PROCESS_MAX_COUNT_def proc_def sched_demo_def nth_append nth_Cons' ready_demo_def fun_eq_iff)
  then obtain e st pt t where x: "process_execute env_demo 1 sched_demo = Enters_user_mode e st pt t"
    using s1(1) by (simp add: process_execute_def Let_def)
  from process_execute_keeps_lock [OF sched_demo_ok(2) x, of 2] x show ?thesis by blast
qed

section \<open>Creation and look-up\<close>



text \<open>
  C16. Terminating a process that is found under its identifier succeeds without waiting: it leaves the
  queue it was in, every other process keeps its place, the slot is marked as terminated and its
  memory regions are dropped; when the running process is terminated, the head of the ready queue
  (or the idle process) runs next.
\<close>

theorem process_terminate_spec:
  assumes ok: "sched_ok rs bs c s" and free: "lock_free env s" and id: "pid \<noteq> 0" "process_get_by_id pid s = Some i"
  shows "\<exists>t. process_terminate env pid code s = Some (True, t) \<and> pr_state (proc t i) = PROCESS_STATE_TERMINATED \<and>
    (if i = c then queues (tl rs) bs t \<and> current_process t = Some (chosen rs)
     else queues (remove1 i rs) (remove1 i bs) t \<and> current_process t = Some c) \<and>
    \<not> spinlock_is_held (process_lock env) t"
proof -
  obtain t where t: "process_terminate env pid code s = Some (True, t)" "lock_free env t" "states t i = PROCESS_STATE_TERMINATED"
    "if i = c then sched_ok (tl rs) bs (chosen rs) t else sched_ok (remove1 i rs) (remove1 i bs) c t"
    using process_terminate_ok [OF ok free id, of code] by blast
  moreover from t(4) have "if i = c then queues (tl rs) bs t \<and> current_process t = Some (chosen rs)
     else queues (remove1 i rs) (remove1 i bs) t \<and> current_process t = Some c"
    using sched_okD(1,2) sched_preD(1) by (cases "i = c") (simp_all, blast+)
  ultimately show ?thesis by (auto simp: states_proc spinlock_is_held_def lock_free_def)
qed

theorem process_terminate_spec_witness:
  "\<exists>t. process_terminate env_demo 2 7 sched_demo = Some (True, t) \<and> queues [1] [] t"
proof -
  have "process_get_by_id 2 sched_demo = Some 2"
    by (simp add: process_get_by_id_def PROCESS_MAX_COUNT_def proc_def sched_demo_def nth_append nth_Cons' ready_demo_def)
  from process_terminate_spec [OF sched_demo_ok _ this, of 7] show ?thesis by auto
qed

section \<open>The registers\<close>

lemma find_context:
  assumes "inj_on (context_addr env) {..<n}" "i < n"
  shows "find_slot (\<lambda>k. context_addr env k = context_addr env i) [0..<n] = Some i"
  using assms by (auto simp: slot_simps inj_on_def)

text \<open>
  The context switch does not restore a process: when process \<open>a\<close> switched to process \<open>b\<close> and \<open>b\<close>,
  with whatever register contents \<open>r\<close>, later switches back, \<open>a\<close> runs on with the frame and stack
  pointers, the registers \<open>r8\<close> to \<open>r15\<close> and the flags of \<open>b\<close>. The context saved for \<open>a\<close> is intact, but
  it is read through the saved \<open>rsi\<close>, which points to the context of \<open>b\<close>.
\<close>

theorem switch_back_keeps_stack:
  assumes inj: "inj_on (context_addr env) {..< slots s}" and ab: "a < slots s" "b < slots s" "a \<noteq> b"
    and t: "t = (process_switch_context env a b s)\<lparr>cpu := r\<rparr>"
  shows "c_rsp (pr_context (proc t a)) = c_rsp (cpu s) \<and>
    c_rsp (cpu (process_switch_context env b a t)) = c_rsp r + 8 \<and> c_rbp (cpu (process_switch_context env b a t)) = c_rbp r \<and>
    c_r12 (cpu (process_switch_context env b a t)) = c_r12 r \<and> c_rflags (cpu (process_switch_context env b a t)) = c_rflags r \<and>
    c_rbx (cpu (process_switch_context env b a t)) = c_rbx (cpu s)"
proof -
  have a: "c_rsp (pr_context (proc t a)) = c_rsp (cpu s)" "c_rsi (pr_context (proc t a)) = context_addr env b"
    "c_rbx (pr_context (proc t a)) = c_rbx (cpu s)" "slots t = slots s" "cpu t = r"
    using ab(1) by (simp_all add: t process_switch_context_def Let_def proc_def upd_def)
  have f: "find_slot (\<lambda>k. context_addr env k = context_addr env b) [0..< slots s] = Some b" by (rule find_context [OF inj ab(2)])
  have "cpu (process_switch_context env b a t) = (cpu (process_switch_context env b a t))" by simp
  then show ?thesis
    using ab a(1) by (simp add: process_switch_context_def Let_def saved_word_def a(2-5) f)
qed

theorem switch_back_keeps_stack_witness:
  "c_rsp (cpu (process_switch_context env_demo 2 1 ((process_switch_context env_demo 1 2 sched_demo)\<lparr>cpu := zero_regs\<lparr>c_rsp := 0x7000\<rparr>\<rparr>))) = 0x7008"
proof -
  have s: "slots sched_demo = 64" by (rule sched_preD(2) [OF sched_okD(1) [OF sched_demo_ok(1)]])
  have "inj_on (context_addr env_demo) {..< slots sched_demo}"
  proof (rule inj_onI)
    fix x y
    assume "x \<in> {..< slots sched_demo}" "y \<in> {..< slots sched_demo}" "context_addr env_demo x = context_addr env_demo y"
    then have xy: "x < 64" "y < 64" "(4096 * of_nat x :: u64) = 4096 * of_nat y" by (simp_all add: s env_demo_def)
    then have "unat (4096 * of_nat x :: u64) = unat (4096 * of_nat y :: u64)" by simp
    then show "x = y" using xy(1,2) by (simp add: unat_word_ariths unat_of_nat)
  qed
  from switch_back_keeps_stack [OF this, of 1 2 _ "zero_regs\<lparr>c_rsp := 0x7000\<rparr>"] show ?thesis by (simp add: s)
qed


section \<open>The user stack\<close>

definition stack_pages :: "u64 \<Rightarrow> nat" where
  "stack_pages sz = (unat sz + 4095) div 4096"

lemma switch_pmm: "vmm_switch_address_space pt (v\<lparr>vmm_pmm := p\<rparr>) = (vmm_switch_address_space pt v)\<lparr>vmm_pmm := p\<rparr>"
  by (simp add: vmm_switch_address_space_def write_cr3_def)

text \<open>The loop that maps the stack is the one of \<open>vmm_map_pages\<close>.\<close>

lemma stack_map_pages:
  assumes "fl AND VMM_FLAG_HUGE = 0"
  shows "map_loop virt phys PAGE_SIZE_4K fl [0..<unat n] v = (None, w) \<Longrightarrow> vmm_map_pages virt phys n fl v = (True, w)"
proof -
  have "fl AND NOT VMM_FLAG_HUGE = fl"
    by (rule bit_word_eqI) (use assms in \<open>metis and.right_neutral and_eq_not_not_or bit_and_iff bit_not_iff bit_0_eq bot_apply bot_bool_def bit.compl_zero\<close>)
  with assms show "map_loop virt phys PAGE_SIZE_4K fl [0..<unat n] v = (None, w) \<Longrightarrow> vmm_map_pages virt phys n fl v = (True, w)"
    by (simp add: vmm_map_pages_def)
qed

lemma vmm_map_page_null: "vmm_map_page virt 0 fl v = (False, v)"
  by (simp add: vmm_map_page_def)

text \<open>
  C17. The stack of a process: when it is created, its top is the address \<open>0xF0000000\<close>, whatever its size; in the
  address space of the process exactly its pages below that address are newly mapped, to a run of
  free physical pages, writable for the user; the address space that was active stays active. The
  guard page below the stack is never mapped.
\<close>

theorem process_stack_spec:
  assumes wf: "vmm_wf (vmm_switch_address_space pt v)" and sz: "unat sz + 4095 < 2 ^ 32"
    and fresh: "\<forall>j< stack_pages sz. translation (vmm_switch_address_space pt v) (0xF0000000 - of_nat (stack_pages sz) * 4096 + of_nat j * 4096) = None"
    and c: "create_process_stack sz pt v = (tp, t)" "tp \<noteq> 0" and root: "current_pml4_phys v \<noteq> 0"
  shows "tp = 0xF0000000 \<and> current_pml4_phys t = current_pml4_phys v \<and>
    (\<exists>a w. t = vmm_switch_address_space (current_pml4_phys v) w \<and> vmm_wf w \<and>
      (\<forall>j< stack_pages sz. pmm_is_page_free (vmm_pmm v) (a + of_nat j * 4096) \<and>
        translation w (0xF0000000 - of_nat (stack_pages sz) * 4096 + of_nat j * 4096) =
          Some (Page_4K, ((a + of_nat j * 4096) AND PAGE_ADDR_MASK) OR hw_flags v 7)) \<and>
      (\<forall>x. (\<forall>j< stack_pages sz. \<not> same_page Page_4K (0xF0000000 - of_nat (stack_pages sz) * 4096 + of_nat j * 4096) x) \<longrightarrow>
        translation w x = translation (vmm_switch_address_space pt v) x))"
proof -
  let ?s = "(sz + PAGE_SIZE_4K - 1) AND NOT (PAGE_SIZE_4K - 1)" and ?fl = "VMM_FLAG_PRESENT OR VMM_FLAG_WRITABLE OR VMM_FLAG_USER"
  let ?n = "?s div PAGE_SIZE_4K"
  have sz64: "unat sz + 4095 < 2 ^ 64" using sz by simp
  have u: "unat ?s = stack_pages sz * 4096" "unat ?n = stack_pages sz"
    unfolding PAGE_SIZE_4K_def stack_pages_def by (rule unat_round_up [OF sz64])+
  have "?s = of_nat (unat ?s)" by simp
  then have sv: "?s = of_nat (stack_pages sz) * 4096" unfolding u(1) by simp
  let ?W = "vmm_switch_address_space pt v" and ?v = "\<lambda>j. 0xF0000000 - of_nat (stack_pages sz) * 4096 + of_nat j * 4096 :: u64"
  have W: "vmm_pmm ?W = vmm_pmm v" "vmm_config ?W = vmm_config v" by (simp_all add: vmm_switch_address_space_def write_cr3_def)
  obtain a p where al: "pmm_alloc_pages ?n (vmm_pmm v) = (a, p)" by fastforce
  have nz: "a \<noteq> 0" using c al by (auto simp: create_process_stack_def Let_def)
  let ?k = "kernel_demo\<lparr>kvm := ?W\<rparr>"
  have pa: "process_alloc_pages ?n ?k = (a, ?k\<lparr>kvm := ?W\<lparr>vmm_pmm := p\<rparr>\<rparr>)" using al by (simp add: process_alloc_pages_def W(1))
  have wk: "vmm_wf (kvm ?k)" using wf by simp
  note A = process_alloc_pages_some [OF wk pa nz, unfolded u(2)]
  have e: "0xEFFFF000 - ?s + PAGE_SIZE_4K = ?v 0" unfolding sv by (simp add: PAGE_SIZE_4K_def)
  obtain v3 where m: "map_loop (?v 0) a PAGE_SIZE_4K ?fl [0..<unat ?n] (?W\<lparr>vmm_pmm := p\<rparr>) = (None, v3)"
    and t: "t = vmm_switch_address_space (current_pml4_phys v) v3" "tp = ?v 0 + ?s"
    using c al nz e by (auto simp: create_process_stack_def Let_def switch_pmm vmm_map_page_null vmm_get_current_address_space_def split: prod.splits option.splits)
  have fl: "?fl AND VMM_FLAG_HUGE = 0" "?fl = 7" by (simp_all add: vmm_flag_defs)
  have mp: "vmm_map_pages (?v 0) a ?n ?fl (?W\<lparr>vmm_pmm := p\<rparr>) = (True, v3)" by (rule stack_map_pages [OF fl(1) m])
  have tp: "tp = 0xF0000000" unfolding t(2) sv by simp
  have vnz: "?v j \<noteq> 0" if "j < stack_pages sz" for j
  proof
    assume z: "?v j = 0"
    have "?v j = 0xF0000000 - of_nat ((stack_pages sz - j) * 4096)" using that by (simp add: of_nat_diff algebra_simps)
    with z have "(of_nat ((stack_pages sz - j) * 4096) :: u64) = 0xF0000000" by simp
    then have "unat (of_nat ((stack_pages sz - j) * 4096) :: u64) = 0xF0000000" by simp
    moreover have "(stack_pages sz - j) * 4096 < 2 ^ 64" using A(6) by simp
    ultimately have "(stack_pages sz - j) * 4096 = 0xF0000000" by (simp only: unat_of_nat) simp
    then show False using A(6) by simp
  qed
  have "\<forall>j<unat ?n. ?v 0 + of_nat j * 4096 \<noteq> 0 \<and> a + of_nat j * 4096 \<noteq> 0 \<and> translation (?W\<lparr>vmm_pmm := p\<rparr>) (?v 0 + of_nat j * 4096) = None"
    using fresh run_nonzero [OF nz A(5)] vnz A(2) unfolding u(2) by simp
  from vmm_map_pages_range [OF _ fl(1) _ this mp] A(1,6)
  have R: "vmm_wf v3" "\<forall>j< stack_pages sz. translation v3 (?v j) = Some (Page_4K, ((a + of_nat j * 4096) AND PAGE_ADDR_MASK) OR hw_flags v 7)"
    "\<forall>x. (\<forall>j< stack_pages sz. \<not> same_page Page_4K (?v j) x) \<longrightarrow> translation v3 x = translation ?W x"
    using A(2,3) unfolding u(2) by (simp_all add: hw_flags_def W(2) fl(2))
  have "current_pml4_phys t = current_pml4_phys v" using root by (simp add: t(1) vmm_switch_address_space_def write_cr3_def)
  with tp t(1) R A(8) W(1) show ?thesis by (intro conjI exI [of _ a] exI [of _ v3]) simp_all
qed

lemma stack_demo: "fst (create_process_stack 4096 (current_pml4_phys vmm_demo) vmm_demo) = 0xF0000000"
proof -
  have "[0..<unat (1 :: u64)] = [0]" by (simp add: upt_rec)
  then show ?thesis
    unfolding create_process_stack_def vmm_demo_def
    by (simp add: demo_eval vmm_map_page_def map_page_internal_def hw_flags_def invlpg_def pmm_alloc_pages_def vmm_switch_address_space_def)
qed

theorem process_stack_spec_witness:
  "\<exists>a w. translation w 0xEFFFF000 = Some (Page_4K, (a AND PAGE_ADDR_MASK) OR hw_flags vmm_demo 7) \<and> translation w 0xEFFFE000 = None"
proof -
  let ?r = "create_process_stack 4096 (current_pml4_phys vmm_demo) vmm_demo"
  have W: "vmm_switch_address_space (current_pml4_phys vmm_demo) vmm_demo = vmm_demo" by (simp add: vmm_switch_address_space_def)
  have n: "stack_pages 4096 = 1" by (simp add: stack_pages_def)
  have r: "?r = (fst ?r, snd ?r)" "fst ?r \<noteq> 0" using stack_demo by (simp_all add: prod_eq_iff)
  have h: "vmm_wf (vmm_switch_address_space (current_pml4_phys vmm_demo) vmm_demo)" "unat (4096 :: u64) + 4095 < 2 ^ 32"
    "\<forall>j< stack_pages 4096. translation (vmm_switch_address_space (current_pml4_phys vmm_demo) vmm_demo) (0xF0000000 - of_nat (stack_pages 4096) * 4096 + of_nat j * 4096) = None"
    by (simp_all add: W vmm_demo_wf vmm_demo_translation)
  have "current_pml4_phys vmm_demo \<noteq> 0" by (simp add: vmm_demo_def)
  from process_stack_spec [OF h r this, unfolded W n] obtain a w where
    w: "translation w 0xEFFFF000 = Some (Page_4K, (a AND PAGE_ADDR_MASK) OR hw_flags vmm_demo 7)"
      "\<forall>x. \<not> same_page Page_4K 0xEFFFF000 x \<longrightarrow> translation w x = translation vmm_demo x"
    by (elim conjE exE) (simp, blast)
  have "\<not> same_page Page_4K 0xEFFFF000 0xEFFFE000"
    by (simp add: same_page_simps PML4_INDEX_def PDPT_INDEX_def PD_INDEX_def PT_INDEX_def)
  with w show ?thesis by (intro exI [of _ a] exI [of _ w]) (simp add: vmm_demo_translation)
qed

end
