(* ===== verification/Gdt.thy ===== *)
theory Gdt
  imports Machine
begin

text \<open>
  The global descriptor table, \<open>src/src/src/syncos/gdt.c\<close>: building the descriptors, loading them, the
  checksum and the periodic verification with its recovery. The addresses of the table and of the
  task state segment are parameters. The two loading instructions do not change the carry flag that
  the code tests after them; its value before each of them is a parameter too. Loading the task
  register marks the descriptor in the table as busy and raises a general protection fault when it
  is not an available one. A result is a state, or the reason why there is none.
\<close>

section \<open>State\<close>

definition GDT_ENTRIES :: nat where "GDT_ENTRIES = 6"
definition GDT_KERNEL_CODE :: u16 where "GDT_KERNEL_CODE = 0x08"
definition GDT_KERNEL_DATA :: u16 where "GDT_KERNEL_DATA = 0x10"
definition GDT_TSS :: u16 where "GDT_TSS = 0x28"
definition GDT_KERNEL_CODE_ACCESS :: u8 where "GDT_KERNEL_CODE_ACCESS = 0x9A"
definition GDT_KERNEL_DATA_ACCESS :: u8 where "GDT_KERNEL_DATA_ACCESS = 0x92"
definition GDT_USER_CODE_ACCESS :: u8 where "GDT_USER_CODE_ACCESS = 0xFA"
definition GDT_USER_DATA_ACCESS :: u8 where "GDT_USER_DATA_ACCESS = 0xF2"
definition GDT_TSS_ACCESS :: u8 where "GDT_TSS_ACCESS = 0x89"
definition GDT_KERNEL_CODE_FLAGS :: u8 where "GDT_KERNEL_CODE_FLAGS = 0xA0"
definition GDT_KERNEL_DATA_FLAGS :: u8 where "GDT_KERNEL_DATA_FLAGS = 0xA0"
definition GDT_USER_CODE_FLAGS :: u8 where "GDT_USER_CODE_FLAGS = 0xA0"
definition GDT_USER_DATA_FLAGS :: u8 where "GDT_USER_DATA_FLAGS = 0xA0"
definition GDT_TSS_FLAGS :: u8 where "GDT_TSS_FLAGS = 0"
definition MAX_GDT_RECOVERY_ATTEMPTS :: u32 where "MAX_GDT_RECOVERY_ATTEMPTS = 3"
definition GDT_VERIFICATION_INTERVAL :: u64 where "GDT_VERIFICATION_INTERVAL = 1000"

lemmas gdt_consts = GDT_ENTRIES_def GDT_KERNEL_CODE_def GDT_KERNEL_DATA_def GDT_TSS_def GDT_KERNEL_CODE_ACCESS_def
  GDT_KERNEL_DATA_ACCESS_def GDT_USER_CODE_ACCESS_def GDT_USER_DATA_ACCESS_def GDT_TSS_ACCESS_def GDT_KERNEL_CODE_FLAGS_def
  GDT_KERNEL_DATA_FLAGS_def GDT_USER_CODE_FLAGS_def GDT_USER_DATA_FLAGS_def GDT_TSS_FLAGS_def MAX_GDT_RECOVERY_ATTEMPTS_def
  GDT_VERIFICATION_INTERVAL_def

record gdt_entry_t =
  g_limit_low :: u16
  g_base_low :: u16
  g_base_middle :: u8
  g_access :: u8
  g_granularity :: u8
  g_base_high :: u8

record gdtr_t =
  gdtr_limit :: u16
  gdtr_base :: u64

record tss_t =
  reserved0 :: u32
  tss_rsp0 :: u64
  tss_rsp1 :: u64
  tss_rsp2 :: u64
  reserved1 :: u64
  tss_ist :: "u64 list"
  reserved2 :: u32
  reserved3 :: u32
  reserved4 :: u16
  iomap_base :: u16

text \<open>The last three fields are registers of the processor: the loaded table, the code and data segments, the task register.\<close>

record gdt_state = machine +
  gdt :: "gdt_entry_t list"
  gdt_backup_v :: "gdt_entry_t list"
  gdtr :: gdtr_t
  tss :: tss_t
  gdt_initialized :: bool
  recovery_in_progress :: bool
  gdt_verification_errors :: u32
  last_verification_time :: u64
  gdt_checksum :: u32
  recovery_attempts :: u32
  loaded_gdtr :: "gdtr_t option"
  segments :: "(u16 \<times> u16) option"
  task_register :: "u16 option"

datatype gdt_stop = Halted | General_protection

type_synonym 's gdt_result = "gdt_stop + 's"

record gdt_env =
  gdt_addr :: u64
  tss_addr :: u64
  carry_lgdt :: bool
  carry_ltr :: bool

definition zero_entry :: gdt_entry_t where
  "zero_entry = \<lparr>g_limit_low = 0, g_base_low = 0, g_base_middle = 0, g_access = 0, g_granularity = 0, g_base_high = 0\<rparr>"

definition zero_tss :: tss_t where
  "zero_tss = \<lparr>reserved0 = 0, tss_rsp0 = 0, tss_rsp1 = 0, tss_rsp2 = 0, reserved1 = 0, tss_ist = replicate 7 0,
     reserved2 = 0, reserved3 = 0, reserved4 = 0, iomap_base = 0\<rparr>"

section \<open>Descriptors\<close>

text \<open>The bytes of a packed descriptor.\<close>

definition entry_bytes :: "gdt_entry_t \<Rightarrow> u8 list" where
  "entry_bytes e = [ucast (g_limit_low e), ucast (drop_bit 8 (g_limit_low e)), ucast (g_base_low e), ucast (drop_bit 8 (g_base_low e)),
     g_base_middle e, g_access e, g_granularity e, g_base_high e]"

definition checksum_step :: "u8 \<Rightarrow> u32 \<Rightarrow> u32" where
  "checksum_step b c = (push_bit 5 c OR drop_bit 27 c) XOR ucast b"

definition calculate_gdt_checksum :: "'a gdt_state_scheme \<Rightarrow> u32" where
  "calculate_gdt_checksum s = fold checksum_step (concat (map entry_bytes (gdt s))) 0"

definition is_valid_gdt_entry :: "u32 \<Rightarrow> bool" where
  "is_valid_gdt_entry num \<longleftrightarrow> unat num < GDT_ENTRIES + 1"

definition gdt_set_entry :: "u32 \<Rightarrow> u32 \<Rightarrow> u32 \<Rightarrow> u8 \<Rightarrow> u8 \<Rightarrow> 'a gdt_state_scheme \<Rightarrow> bool \<times> 'a gdt_state_scheme" where
  "gdt_set_entry num base limit acc gran s =
     (if \<not> is_valid_gdt_entry num then (False, s)
      else (True, s\<lparr>gdt := (gdt s)[unat num :=
        \<lparr>g_limit_low = ucast (limit AND 0xFFFF), g_base_low = ucast (base AND 0xFFFF), g_base_middle = ucast (drop_bit 16 base AND 0xFF),
         g_access = acc, g_granularity = ucast (drop_bit 16 limit AND 0x0F) OR (gran AND 0xF0),
         g_base_high = ucast (drop_bit 24 base AND 0xFF)\<rparr>]\<rparr>))"

definition gdt_set_tss :: "u32 \<Rightarrow> u64 \<Rightarrow> u32 \<Rightarrow> 'a gdt_state_scheme \<Rightarrow> bool \<times> 'a gdt_state_scheme" where
  "gdt_set_tss num base limit s =
     (if \<not> is_valid_gdt_entry num \<or> \<not> is_valid_gdt_entry (num + 1) then (False, s)
      else let e = \<lparr>g_limit_low = ucast (limit AND 0xFFFF), g_base_low = ucast (base AND 0xFFFF), g_base_middle = ucast (drop_bit 16 base AND 0xFF),
                    g_access = GDT_TSS_ACCESS, g_granularity = ucast (drop_bit 16 limit AND 0x0F) OR GDT_TSS_FLAGS,
                    g_base_high = ucast (drop_bit 24 base AND 0xFF)\<rparr>;
               base_high32 = ucast (drop_bit 32 base AND 0xFFFFFFFF) :: u32;
               e2 = zero_entry\<lparr>g_limit_low := ucast base_high32, g_base_low := ucast (drop_bit 16 base_high32)\<rparr>
           in (True, s\<lparr>gdt := (gdt s)[unat num := e, unat (num + 1) := e2]\<rparr>))"

section \<open>Loading\<close>

text \<open>
  The body of \<open>gdt_flush\<close>, with the recovery it may call as the argument \<open>recover\<close>; the recovery itself
  calls it only while \<open>recovery_in_progress\<close> is set, where this argument is not used.
\<close>

definition gdt_flush_with :: "('a gdt_state_scheme \<Rightarrow> 'a gdt_state_scheme gdt_result) \<Rightarrow> gdt_env \<Rightarrow> 'a gdt_state_scheme \<Rightarrow> 'a gdt_state_scheme gdt_result" where
  "gdt_flush_with recover env s =
     (let s1 = s\<lparr>interrupt_flag := False, loaded_gdtr := Some (gdtr s)\<rparr>
      in if carry_lgdt env
         then if \<not> recovery_in_progress s1 then recover s1 else Sum_Type.Inl Halted
         else Inr (s1\<lparr>segments := Some (GDT_KERNEL_CODE, GDT_KERNEL_DATA), interrupt_flag := True\<rparr>))"

definition tss_flush :: "gdt_env \<Rightarrow> 'a gdt_state_scheme \<Rightarrow> (bool \<times> 'a gdt_state_scheme) gdt_result" where
  "tss_flush env s =
     (let i = unat (GDT_TSS div 8); e = gdt s ! i
      in if g_access e \<noteq> GDT_TSS_ACCESS then Sum_Type.Inl General_protection
         else let s1 = s\<lparr>gdt := (gdt s)[i := e\<lparr>g_access := g_access e OR 2\<rparr>], task_register := Some GDT_TSS\<rparr>
              in Inr (\<not> carry_ltr env, s1))"

definition gdt_reload_with :: "('a gdt_state_scheme \<Rightarrow> 'a gdt_state_scheme gdt_result) \<Rightarrow> gdt_env \<Rightarrow> 'a gdt_state_scheme \<Rightarrow> 'a gdt_state_scheme gdt_result" where
  "gdt_reload_with recover env s =
     (case gdt_flush_with recover env s of
        Sum_Type.Inl e \<Rightarrow> Sum_Type.Inl e
      | Inr s1 \<Rightarrow> map_sum id snd (tss_flush env s1))"

section \<open>Validation and recovery\<close>

definition validate_gdt :: "'a gdt_state_scheme \<Rightarrow> bool" where
  "validate_gdt s =
     (if gdt s ! 0 \<noteq> zero_entry then False
      else if g_access (gdt s ! unat (GDT_KERNEL_CODE div 8)) \<noteq> GDT_KERNEL_CODE_ACCESS then False
      else if g_access (gdt s ! unat (GDT_KERNEL_DATA div 8)) \<noteq> GDT_KERNEL_DATA_ACCESS then False
      else if g_access (gdt s ! unat (GDT_TSS div 8)) \<noteq> GDT_TSS_ACCESS then False
      else if gdt_initialized s \<and> gdt_checksum s \<noteq> 0 \<and> calculate_gdt_checksum s \<noteq> gdt_checksum s then False
      else True)"

definition gdt_backup :: "'a gdt_state_scheme \<Rightarrow> 'a gdt_state_scheme" where
  "gdt_backup s = s\<lparr>gdt_backup_v := gdt s\<rparr>"

definition nested :: "'a gdt_state_scheme \<Rightarrow> 'a gdt_state_scheme gdt_result" where
  "nested s = Sum_Type.Inl Halted"

definition gdt_restore_from_backup :: "gdt_env \<Rightarrow> 'a gdt_state_scheme \<Rightarrow> (bool \<times> 'a gdt_state_scheme) gdt_result" where
  "gdt_restore_from_backup env s =
     (let s1 = s\<lparr>gdt := gdt_backup_v s\<rparr>
      in if \<not> validate_gdt s1 then Inr (False, s1)
         else map_sum id (\<lambda>t. (True, t)) (gdt_reload_with nested env s1))"

text \<open>Clearing the structures and setting the descriptors, common to the recovery and the initialisation.\<close>

definition gdt_build :: "gdt_env \<Rightarrow> 'a gdt_state_scheme \<Rightarrow> bool \<times> 'a gdt_state_scheme" where
  "gdt_build env s =
     (let s1 = s\<lparr>gdt := replicate (GDT_ENTRIES + 1) zero_entry, tss := zero_tss,
                gdtr := \<lparr>gdtr_limit = of_nat (8 * (GDT_ENTRIES + 1) - 1), gdtr_base = gdt_addr env\<rparr>\<rparr>;
          (ok1, s2) = gdt_set_entry 1 0 0xFFFFF GDT_KERNEL_CODE_ACCESS GDT_KERNEL_CODE_FLAGS s1
      in if \<not> ok1 then (False, s2)
         else let (ok2, s3) = gdt_set_entry 2 0 0xFFFFF GDT_KERNEL_DATA_ACCESS GDT_KERNEL_DATA_FLAGS s2
              in if \<not> ok2 then (False, s3)
         else let (ok3, s4) = gdt_set_entry 3 0 0xFFFFF GDT_USER_CODE_ACCESS GDT_USER_CODE_FLAGS s3
              in if \<not> ok3 then (False, s4)
         else let (ok4, s5) = gdt_set_entry 4 0 0xFFFFF GDT_USER_DATA_ACCESS GDT_USER_DATA_FLAGS s4
              in if \<not> ok4 then (False, s5)
         else let s6 = s5\<lparr>tss := (tss s5)\<lparr>iomap_base := 104\<rparr>\<rparr>;
                  (ok5, s7) = gdt_set_tss 5 (tss_addr env) (104 - 1) s6
              in if \<not> ok5 then (False, s7)
         else (validate_gdt s7, s7))"

text \<open>From the backup of a validated table to the loading of the task register.\<close>

definition gdt_commit :: "('a gdt_state_scheme \<Rightarrow> 'a gdt_state_scheme gdt_result) \<Rightarrow> gdt_env \<Rightarrow> 'a gdt_state_scheme \<Rightarrow> 'a gdt_state_scheme gdt_result" where
  "gdt_commit recover env s =
     (let s1 = gdt_backup s;
          s2 = s1\<lparr>gdt_checksum := calculate_gdt_checksum s1\<rparr>
      in case gdt_flush_with recover env s2 of
           Sum_Type.Inl e \<Rightarrow> Sum_Type.Inl e
         | Inr s3 \<Rightarrow>
             (case tss_flush env s3 of
                Sum_Type.Inl e \<Rightarrow> Sum_Type.Inl e
              | Inr (ok, s4) \<Rightarrow> if ok then Inr s4 else Sum_Type.Inl Halted))"

definition gdt_reinit :: "gdt_env \<Rightarrow> 'a gdt_state_scheme \<Rightarrow> (bool \<times> 'a gdt_state_scheme) gdt_result" where
  "gdt_reinit env s =
     (let (ok, s1) = gdt_build env s
      in if \<not> ok then Sum_Type.Inl Halted
         else case gdt_commit nested env s1 of
                Sum_Type.Inl e \<Rightarrow> Sum_Type.Inl e
              | Inr s2 \<Rightarrow> Inr (True, s2\<lparr>gdt_initialized := True, recovery_in_progress := False\<rparr>))"

definition gdt_recover :: "gdt_env \<Rightarrow> 'a gdt_state_scheme \<Rightarrow> (bool \<times> 'a gdt_state_scheme) gdt_result" where
  "gdt_recover env s =
     (if recovery_in_progress s then Inr (False, s)
      else let s1 = s\<lparr>recovery_in_progress := True, recovery_attempts := recovery_attempts s + 1\<rparr>
           in if MAX_GDT_RECOVERY_ATTEMPTS < recovery_attempts s1 then Sum_Type.Inl Halted
              else if gdt_initialized s1
              then case gdt_restore_from_backup env s1 of
                     Sum_Type.Inl e \<Rightarrow> Sum_Type.Inl e
                   | Inr (True, s2) \<Rightarrow> Inr (True, s2\<lparr>recovery_in_progress := False\<rparr>)
                   | Inr (False, s2) \<Rightarrow> gdt_reinit env s2
              else gdt_reinit env s1)"

definition recover_state :: "gdt_env \<Rightarrow> 'a gdt_state_scheme \<Rightarrow> 'a gdt_state_scheme gdt_result" where
  "recover_state env s = map_sum id snd (gdt_recover env s)"

definition gdt_flush :: "gdt_env \<Rightarrow> 'a gdt_state_scheme \<Rightarrow> 'a gdt_state_scheme gdt_result" where
  "gdt_flush env s = gdt_flush_with (recover_state env) env s"

definition gdt_reload :: "gdt_env \<Rightarrow> 'a gdt_state_scheme \<Rightarrow> 'a gdt_state_scheme gdt_result" where
  "gdt_reload env s = gdt_reload_with (recover_state env) env s"

definition gdt_verify :: "gdt_env \<Rightarrow> u64 \<Rightarrow> 'a gdt_state_scheme \<Rightarrow> 'a gdt_state_scheme gdt_result" where
  "gdt_verify env tick_count s =
     (if \<not> gdt_initialized s \<or> recovery_in_progress s then Inr s
      else if tick_count - last_verification_time s < GDT_VERIFICATION_INTERVAL then Inr s
      else let s1 = s\<lparr>last_verification_time := tick_count\<rparr>
           in if \<not> validate_gdt s1
              then let s2 = s1\<lparr>gdt_verification_errors := gdt_verification_errors s1 + 1\<rparr>
                   in if 3 \<le> gdt_verification_errors s2 then recover_state env s2 else Inr s2
              else Inr (if 0 < gdt_verification_errors s1 then s1\<lparr>gdt_verification_errors := 0\<rparr> else s1))"

section \<open>Initialisation and the kernel stack\<close>

definition gdt_init :: "gdt_env \<Rightarrow> 'a gdt_state_scheme \<Rightarrow> 'a gdt_state_scheme gdt_result" where
  "gdt_init env s =
     (if gdt_initialized s then Inr s
      else let (ok, s1) = gdt_build env (s\<lparr>gdt_initialized := True\<rparr>)
           in if \<not> ok then Sum_Type.Inl Halted
              else case gdt_commit (recover_state env) env s1 of
                     Sum_Type.Inl e \<Rightarrow> Sum_Type.Inl e
                   | Inr s2 \<Rightarrow> Inr (s2\<lparr>last_verification_time := 0\<rparr>))"

definition gdt_set_kernel_stack :: "gdt_env \<Rightarrow> u64 \<Rightarrow> 'a gdt_state_scheme \<Rightarrow> 'a gdt_state_scheme gdt_result" where
  "gdt_set_kernel_stack env stack0 s =
     (let stack = (if stack0 AND 0xF \<noteq> 0 then stack0 AND NOT 0xF else stack0)
      in if stack < 0x1000 \<or> 0xFFFFFFFFFFFF0000 < stack then Inr s
         else case (if \<not> gdt_initialized s then gdt_init env s else Inr s) of
                Sum_Type.Inl e \<Rightarrow> Sum_Type.Inl e
              | Inr s1 \<Rightarrow> Inr (s1\<lparr>tss := (tss s1)\<lparr>tss_rsp0 := stack\<rparr>, interrupt_flag := True\<rparr>))"

definition gdt_get_kernel_stack :: "'a gdt_state_scheme \<Rightarrow> u64" where
  "gdt_get_kernel_stack s = (if \<not> gdt_initialized s then 0 else tss_rsp0 (tss s))"

section \<open>The checksum\<close>

lemma bit_rotated:
  "n < 32 \<Longrightarrow> bit (push_bit 5 c OR drop_bit 27 c :: u32) n \<longleftrightarrow> bit c (if n < 5 then n + 27 else n - 5)"
  by (auto simp: bit_simps add.commute [of 27] dest: bit_imp_le_length)

lemma xor_cancel: "a XOR x = b XOR x \<Longrightarrow> a = (b :: u32)" "x XOR a = x XOR b \<Longrightarrow> a = b"
proof -
  have "(c XOR x) XOR x = c" for c :: u32 by (simp only: xor.assoc xor_self_eq xor.right_neutral)
  then show "a XOR x = b XOR x \<Longrightarrow> a = b" "x XOR a = x XOR b \<Longrightarrow> a = b" by (metis, metis xor.commute)
qed

lemma checksum_step_inj: "checksum_step b c = checksum_step b c' \<Longrightarrow> c = c'" "checksum_step b c = checksum_step b' c \<Longrightarrow> b = b'"
proof -
  assume "checksum_step b c = checksum_step b c'"
  then have e: "push_bit 5 c OR drop_bit 27 c = push_bit 5 c' OR drop_bit 27 c'"
    unfolding checksum_step_def by (rule xor_cancel)
  show "c = c'"
  proof (rule bit_word_eqI)
    fix n
    assume "n < LENGTH(32)"
    then have n: "n < 32" by simp
    let ?k = "if n < 27 then n + 5 else n - 27"
    have "?k < 32" "(if ?k < 5 then ?k + 27 else ?k - 5) = n" using n by auto
    with bit_rotated [of ?k c] bit_rotated [of ?k c'] e show "bit c n = bit c' n" by simp
  qed
next
  assume "checksum_step b c = checksum_step b' c"
  then have "(ucast b :: u32) = ucast b'"
    unfolding checksum_step_def by (rule xor_cancel)
  then have "unat (ucast b :: u32) = unat (ucast b' :: u32)" by simp
  then show "b = b'" by (simp add: unat_ucast_up word_unat_eq_iff)
qed

lemma checksum_fold_inj: "fold checksum_step bs c = fold checksum_step bs c' \<Longrightarrow> c = c'"
  by (induction bs arbitrary: c c') (auto dest: checksum_step_inj)

lemma checksum_differs:
  assumes len: "length xs = length ys" and i: "i < length xs" "xs ! i \<noteq> ys ! i" and same: "\<forall>j<length xs. j \<noteq> i \<longrightarrow> xs ! j = ys ! j"
  shows "fold checksum_step xs c \<noteq> fold checksum_step ys c"
proof
  assume e: "fold checksum_step xs c = fold checksum_step ys c"
  have t: "take i xs = take i ys" "drop (Suc i) xs = drop (Suc i) ys"
    using len i(1) same by (auto intro: nth_equalityI)
  have "xs = take i xs @ xs ! i # drop (Suc i) xs" "ys = take i ys @ ys ! i # drop (Suc i) ys"
    using i(1) len by (simp_all add: id_take_nth_drop [symmetric])
  then have "fold checksum_step (drop (Suc i) xs) (checksum_step (xs ! i) (fold checksum_step (take i xs) c)) =
      fold checksum_step (drop (Suc i) xs) (checksum_step (ys ! i) (fold checksum_step (take i xs) c))"
    using e t by (metis fold_append fold_simps(2) comp_apply)
  from checksum_step_inj(2) [OF checksum_fold_inj [OF this]] i(2) show False by simp
qed

text \<open>
  The verification detects every corruption of a single byte: when the table of an initialised system
  has the recorded checksum, and that is not zero, any table whose bytes differ from it in exactly
  one place fails the validation.
\<close>

theorem gdt_single_byte_detected:
  assumes "gdt_initialized s" "gdt_checksum s = calculate_gdt_checksum s" "gdt_checksum s \<noteq> 0"
    and "length (concat (map entry_bytes (gdt t))) = length (concat (map entry_bytes (gdt s)))"
    and "i < length (concat (map entry_bytes (gdt s)))" "concat (map entry_bytes (gdt s)) ! i \<noteq> concat (map entry_bytes (gdt t)) ! i"
    and "\<forall>j<length (concat (map entry_bytes (gdt s))). j \<noteq> i \<longrightarrow> concat (map entry_bytes (gdt s)) ! j = concat (map entry_bytes (gdt t)) ! j"
    and "gdt_initialized t" "gdt_checksum t = gdt_checksum s"
  shows "\<not> validate_gdt t"
  using checksum_differs [OF assms(4) [symmetric] assms(5-7), of 0] assms(1-3,8,9)
  by (simp add: validate_gdt_def calculate_gdt_checksum_def)

section \<open>The table that is built\<close>

definition std_gdt :: "gdt_env \<Rightarrow> gdt_entry_t list" where
  "std_gdt env =
     [zero_entry,
      \<lparr>g_limit_low = 0xFFFF, g_base_low = 0, g_base_middle = 0, g_access = 0x9A, g_granularity = 0xAF, g_base_high = 0\<rparr>,
      \<lparr>g_limit_low = 0xFFFF, g_base_low = 0, g_base_middle = 0, g_access = 0x92, g_granularity = 0xAF, g_base_high = 0\<rparr>,
      \<lparr>g_limit_low = 0xFFFF, g_base_low = 0, g_base_middle = 0, g_access = 0xFA, g_granularity = 0xAF, g_base_high = 0\<rparr>,
      \<lparr>g_limit_low = 0xFFFF, g_base_low = 0, g_base_middle = 0, g_access = 0xF2, g_granularity = 0xAF, g_base_high = 0\<rparr>,
      \<lparr>g_limit_low = 103, g_base_low = ucast (tss_addr env AND 0xFFFF), g_base_middle = ucast (drop_bit 16 (tss_addr env) AND 0xFF),
       g_access = 0x89, g_granularity = 0, g_base_high = ucast (drop_bit 24 (tss_addr env) AND 0xFF)\<rparr>,
      zero_entry\<lparr>g_limit_low := ucast (ucast (drop_bit 32 (tss_addr env) AND 0xFFFFFFFF) :: u32),
                 g_base_low := ucast (drop_bit 16 (ucast (drop_bit 32 (tss_addr env) AND 0xFFFFFFFF) :: u32))\<rparr>]"

text \<open>The table once the task register is loaded: its descriptor is marked as busy.\<close>

definition busy :: "gdt_entry_t list \<Rightarrow> gdt_entry_t list" where
  "busy g = g[5 := (g ! 5)\<lparr>g_access := 0x8B\<rparr>]"

lemma list_update_numeral [simp]: "(x # xs)[numeral k := y] = x # xs[pred_numeral k := y]" "(x # xs)[1 := y] = x # xs[0 := y]"
  by (simp_all add: numeral_eq_Suc)

lemma replicate_7: "replicate 7 z = [z, z, z, z, z, z, z]"
  by (simp add: numeral_eq_Suc)

lemma gdt_build_eq:
  "gdt_build env s = (let t = s\<lparr>gdtr := \<lparr>gdtr_limit = 55, gdtr_base = gdt_addr env\<rparr>, tss := zero_tss\<lparr>iomap_base := 104\<rparr>, gdt := std_gdt env\<rparr>
    in (validate_gdt t, t))"
  by (simp add: gdt_build_def gdt_set_entry_def gdt_set_tss_def is_valid_gdt_entry_def gdt_consts Let_def std_gdt_def replicate_7)

lemma validate_std:
  "gdt s = std_gdt env \<Longrightarrow> validate_gdt s \<longleftrightarrow> \<not> (gdt_initialized s \<and> gdt_checksum s \<noteq> 0 \<and> calculate_gdt_checksum s \<noteq> gdt_checksum s)"
  by (simp add: validate_gdt_def std_gdt_def gdt_consts)

lemma tss_flush_std:
  assumes "gdt s = std_gdt env" "\<not> carry_ltr env"
  shows "tss_flush env s = Inr (True, s\<lparr>gdt := busy (std_gdt env), task_register := Some GDT_TSS\<rparr>)"
  using assms by (simp add: tss_flush_def std_gdt_def busy_def gdt_consts Let_def)

lemma tss_flush_busy:
  assumes "gdt s = busy (std_gdt env)"
  shows "tss_flush env' s = Sum_Type.Inl General_protection"
  using assms by (simp add: tss_flush_def std_gdt_def busy_def gdt_consts)

text \<open>The base and the limit a descriptor stands for.\<close>

definition entry_base :: "gdt_entry_t \<Rightarrow> u32" where
  "entry_base e = ucast (g_base_low e) OR push_bit 16 (ucast (g_base_middle e)) OR push_bit 24 (ucast (g_base_high e))"

definition entry_limit :: "gdt_entry_t \<Rightarrow> u32" where
  "entry_limit e = ucast (g_limit_low e) OR push_bit 16 (ucast (g_granularity e AND 0x0F))"

text \<open>The base of the task state segment, spread over two entries.\<close>

definition tss_base :: "gdt_entry_t list \<Rightarrow> u64" where
  "tss_base g = ucast (entry_base (g ! 5)) OR push_bit 32 (ucast (g_limit_low (g ! 6))) OR push_bit 48 (ucast (g_base_low (g ! 6)))"

lemma tss_base_std: "tss_base (busy (std_gdt env)) = tss_addr env"
proof -
  define a where "a = tss_addr env"
  let ?h = "ucast (drop_bit 32 a AND 0xFFFFFFFF) :: u32"
  have m: "(0xFFFF :: u64) = mask 16" "(0xFF :: u64) = mask 8" "(0xFFFFFFFF :: u64) = mask 32" by (simp_all add: mask_eq_exp_minus_1)
  have e: "tss_base (busy (std_gdt env)) = ucast (ucast (ucast (a AND 0xFFFF) :: u16) OR push_bit 16 (ucast (ucast (drop_bit 16 a AND 0xFF) :: u8)) OR
      push_bit 24 (ucast (ucast (drop_bit 24 a AND 0xFF) :: u8)) :: u32) OR push_bit 32 (ucast (ucast ?h :: u16)) OR push_bit 48 (ucast (ucast (drop_bit 16 ?h) :: u16))"
    by (simp add: tss_base_def busy_def std_gdt_def zero_entry_def entry_base_def a_def)
  have "bit (tss_base (busy (std_gdt env))) n \<longleftrightarrow> bit a n" if "n < 64" for n
  proof -
    consider "n < 16" | "16 \<le> n" "n < 24" | "24 \<le> n" "n < 32" | "32 \<le> n" "n < 48" | "48 \<le> n" using that by linarith
    then show ?thesis by cases (use that in \<open>simp add: e m bit_simps; arith?\<close>)+
  qed
  then show ?thesis by (intro bit_word_eqI) (simp add: a_def)
qed

definition gdt_ready :: "gdt_env \<Rightarrow> u32 \<Rightarrow> u32 \<Rightarrow> 'a gdt_state_scheme \<Rightarrow> bool" where
  "gdt_ready env e a s \<longleftrightarrow> gdt_initialized s \<and> \<not> recovery_in_progress s \<and> gdt s = busy (std_gdt env) \<and> gdt_backup_v s = std_gdt env \<and>
     gdt_checksum s = fold checksum_step (concat (map entry_bytes (std_gdt env))) 0 \<and> gdt_verification_errors s = e \<and> recovery_attempts s = a"

lemma gdt_init_ready:
  assumes "\<not> gdt_initialized s" "\<not> recovery_in_progress s" "gdt_checksum s = 0" "\<not> carry_lgdt env" "\<not> carry_ltr env"
  obtains t where "gdt_init env s = Inr t" "gdt_ready env (gdt_verification_errors s) (recovery_attempts s) t" "last_verification_time t = 0"
    "interrupt_flag t" "loaded_gdtr t = Some \<lparr>gdtr_limit = 55, gdtr_base = gdt_addr env\<rparr>" "segments t = Some (GDT_KERNEL_CODE, GDT_KERNEL_DATA)"
    "task_register t = Some GDT_TSS" "tss t = zero_tss\<lparr>iomap_base := 104\<rparr>"
proof -
  let ?t = "s\<lparr>gdt_initialized := True, gdtr := \<lparr>gdtr_limit = 55, gdtr_base = gdt_addr env\<rparr>, tss := zero_tss\<lparr>iomap_base := 104\<rparr>, gdt := std_gdt env\<rparr>"
  have b: "gdt_build env (s\<lparr>gdt_initialized := True\<rparr>) = (True, ?t)"
    using assms(3) by (simp add: gdt_build_eq Let_def validate_std)
  have "\<exists>t. gdt_init env s = Inr t \<and> gdt_ready env (gdt_verification_errors s) (recovery_attempts s) t \<and> last_verification_time t = 0 \<and>
    interrupt_flag t \<and> loaded_gdtr t = Some \<lparr>gdtr_limit = 55, gdtr_base = gdt_addr env\<rparr> \<and> segments t = Some (GDT_KERNEL_CODE, GDT_KERNEL_DATA) \<and>
    task_register t = Some GDT_TSS \<and> tss t = zero_tss\<lparr>iomap_base := 104\<rparr>"
    using assms by (simp add: gdt_init_def b gdt_commit_def gdt_backup_def gdt_flush_with_def Let_def tss_flush_std gdt_ready_def calculate_gdt_checksum_def)
  then show thesis using that by blast
qed


definition gdt_env_demo :: gdt_env where
  "gdt_env_demo = \<lparr>gdt_addr = 0xFFFFFFFF80010000, tss_addr = 0xFFFFFFFF80012340, carry_lgdt = False, carry_ltr = False\<rparr>"

definition gdt_demo :: gdt_state where
  "gdt_demo = \<lparr>io_log = [], interrupt_flag = False, gdt = replicate 7 zero_entry, gdt_backup_v = replicate 7 zero_entry,
     gdtr = \<lparr>gdtr_limit = 0, gdtr_base = 0\<rparr>, tss = zero_tss, gdt_initialized = False, recovery_in_progress = False,
     gdt_verification_errors = 0, last_verification_time = 0, gdt_checksum = 0, recovery_attempts = 0, loaded_gdtr = None,
     segments = None, task_register = None\<rparr>"

lemma gdt_demo_hyps:
  "\<not> gdt_initialized gdt_demo" "\<not> recovery_in_progress gdt_demo" "gdt_checksum gdt_demo = 0" "\<not> carry_lgdt gdt_env_demo" "\<not> carry_ltr gdt_env_demo"
  by (simp_all add: gdt_demo_def gdt_env_demo_def)


section \<open>Verification and recovery of a running system\<close>

lemma busy_invalid: "gdt s = busy (std_gdt env) \<Longrightarrow> \<not> validate_gdt s"
  by (simp add: validate_gdt_def busy_def std_gdt_def gdt_consts)

lemma gdt_recover_ready:
  assumes s: "gdt_initialized s" "\<not> recovery_in_progress s" "gdt_backup_v s = std_gdt env" "recovery_attempts s < 3"
    "gdt_checksum s = fold checksum_step (concat (map entry_bytes (std_gdt env))) 0" and c: "\<not> carry_lgdt env" "\<not> carry_ltr env"
  obtains t where "gdt_recover env s = Inr (True, t)" "gdt_ready env (gdt_verification_errors s) (recovery_attempts s + 1) t"
    "last_verification_time t = last_verification_time s" "interrupt_flag t"
proof -
  let ?s = "s\<lparr>recovery_in_progress := True, recovery_attempts := recovery_attempts s + 1, gdt := std_gdt env\<rparr>"
  have v: "validate_gdt ?s" using s(5) by (simp add: validate_std calculate_gdt_checksum_def)
  have a: "\<not> MAX_GDT_RECOVERY_ATTEMPTS < recovery_attempts s + 1"
  proof -
    have "unat (recovery_attempts s) < 3" using s(4) by (simp add: word_less_nat_alt)
    then show ?thesis by (simp add: MAX_GDT_RECOVERY_ATTEMPTS_def word_less_nat_alt unat_word_ariths)
  qed
  have "\<exists>t. gdt_recover env s = Inr (True, t) \<and> gdt_ready env (gdt_verification_errors s) (recovery_attempts s + 1) t \<and>
    last_verification_time t = last_verification_time s \<and> interrupt_flag t"
    using s c a v by (simp add: gdt_recover_def Let_def gdt_restore_from_backup_def gdt_reload_with_def gdt_flush_with_def tss_flush_std gdt_ready_def)
  then show thesis using that by blast
qed

text \<open>
  Recovery: whatever a running system's table has become, a recovery restores it from the copy as long as
  there were fewer than three before it; the result is the table of the initialisation, with the
  descriptor of the task segment marked as busy again.
\<close>

theorem gdt_recover_restores:
  assumes init: "\<not> gdt_initialized s0" "\<not> recovery_in_progress s0" "gdt_checksum s0 = 0" "\<not> carry_lgdt env" "\<not> carry_ltr env"
    and s: "gdt_init env s0 = Inr s" and a: "recovery_attempts s0 < 3"
  shows "\<exists>t. gdt_recover env (s\<lparr>gdt := g\<rparr>) = Inr (True, t) \<and> gdt t = gdt s \<and> gdt_backup_v t = gdt_backup_v s \<and>
    recovery_attempts t = recovery_attempts s + 1 \<and> \<not> recovery_in_progress t"
proof -
  obtain s' where s': "gdt_init env s0 = Inr s'" "gdt_ready env (gdt_verification_errors s0) (recovery_attempts s0) s'"
    by (rule gdt_init_ready [OF init]) (rule that)
  with s have r: "gdt_ready env (gdt_verification_errors s0) (recovery_attempts s0) s" by simp
  obtain t where t: "gdt_recover env (s\<lparr>gdt := g\<rparr>) = Inr (True, t)"
    "gdt_ready env (gdt_verification_errors (s\<lparr>gdt := g\<rparr>)) (recovery_attempts (s\<lparr>gdt := g\<rparr>) + 1) t"
    by (rule gdt_recover_ready [of "s\<lparr>gdt := g\<rparr>" env, rotated -1]; use r a init(4,5) in \<open>simp add: gdt_ready_def\<close>)
  with r show ?thesis by (auto simp: gdt_ready_def)
qed

theorem gdt_recover_restores_witness:
  "\<exists>s t. gdt_init gdt_env_demo gdt_demo = Inr s \<and> gdt_recover gdt_env_demo (s\<lparr>gdt := []\<rparr>) = Inr (True, t) \<and> gdt t = gdt s"
proof -
  obtain s where s: "gdt_init gdt_env_demo gdt_demo = Inr s" by (rule gdt_init_ready [OF gdt_demo_hyps]) (rule that)
  have "recovery_attempts gdt_demo < 3" by (simp add: gdt_demo_def)
  from gdt_recover_restores [OF gdt_demo_hyps s this, of "[]"] s show ?thesis by blast
qed

fun verify_all :: "gdt_env \<Rightarrow> u64 list \<Rightarrow> 'a gdt_state_scheme \<Rightarrow> 'a gdt_state_scheme gdt_result" where
  "verify_all env [] s = Inr s"
| "verify_all env (t # ts) s = (case gdt_verify env t s of Sum_Type.Inl e \<Rightarrow> Sum_Type.Inl e | Inr u \<Rightarrow> verify_all env ts u)"

fun spaced :: "u64 \<Rightarrow> u64 list \<Rightarrow> bool" where
  "spaced p [] \<longleftrightarrow> True"
| "spaced p (t # ts) \<longleftrightarrow> GDT_VERIFICATION_INTERVAL \<le> t - p \<and> spaced t ts"

text \<open>One verification of an intact system: it fails, because the loaded table is marked as busy.\<close>

lemma gdt_verify_ready:
  assumes r: "gdt_ready env e a s" and t: "GDT_VERIFICATION_INTERVAL \<le> t - last_verification_time s" and c: "\<not> carry_lgdt env" "\<not> carry_ltr env"
  shows "if 3 \<le> e + 1
    then if a < 3 then \<exists>u. gdt_verify env t s = Inr u \<and> gdt_ready env (e + 1) (a + 1) u \<and> last_verification_time u = t
         else a = 3 \<longrightarrow> gdt_verify env t s = Sum_Type.Inl Halted
    else \<exists>u. gdt_verify env t s = Inr u \<and> gdt_ready env (e + 1) a u \<and> last_verification_time u = t"
proof -
  let ?s2 = "s\<lparr>last_verification_time := t, gdt_verification_errors := e + 1\<rparr>"
  have bad: "\<not> validate_gdt (s\<lparr>last_verification_time := t\<rparr>)" using r by (intro busy_invalid) (simp add: gdt_ready_def)
  have v: "gdt_verify env t s = (if 3 \<le> e + 1 then recover_state env ?s2 else Inr ?s2)"
    using r leD [OF t] bad by (simp add: gdt_verify_def Let_def gdt_ready_def)
  have "\<exists>u. gdt_verify env t s = Inr u \<and> gdt_ready env (e + 1) (a + 1) u \<and> last_verification_time u = t" if h: "3 \<le> e + 1" "a < 3"
  proof -
    obtain u where "gdt_recover env ?s2 = Inr (True, u)" "gdt_ready env (gdt_verification_errors ?s2) (recovery_attempts ?s2 + 1) u"
      "last_verification_time u = last_verification_time ?s2"
      by (rule gdt_recover_ready [of ?s2 env, rotated -1]; use r h c in \<open>simp add: gdt_ready_def\<close>)
    with v h(1) r show ?thesis by (auto simp: recover_state_def gdt_ready_def)
  qed
  moreover have "gdt_verify env t s = Sum_Type.Inl Halted" if "3 \<le> e + 1" "a = 3"
    using v that r by (simp add: recover_state_def gdt_recover_def gdt_ready_def MAX_GDT_RECOVERY_ATTEMPTS_def)
  moreover have "gdt_ready env (e + 1) a ?s2" using r by (simp add: gdt_ready_def)
  ultimately show ?thesis using v by simp
qed

text \<open>
  The verification stops an intact system: after initialisation, with nothing corrupting the table, every
  verification fails, because loading the task register changed the access byte that is compared;
  the third and each later one starts a recovery, and the sixth halts the machine.
\<close>

theorem gdt_verify_halts_intact_system:
  assumes init: "\<not> gdt_initialized s0" "\<not> recovery_in_progress s0" "gdt_checksum s0 = 0" "\<not> carry_lgdt env" "\<not> carry_ltr env"
    and z: "gdt_verification_errors s0 = 0" "recovery_attempts s0 = 0"
    and s: "gdt_init env s0 = Inr s" and ts: "spaced 0 [t1, t2, t3, t4, t5, t6]"
  shows "verify_all env [t1, t2, t3, t4, t5, t6] s = Sum_Type.Inl Halted \<and> (\<exists>u. verify_all env [t1, t2, t3, t4, t5] s = Inr u)"
proof -
  obtain s' where s': "gdt_init env s0 = Inr s'" "gdt_ready env (gdt_verification_errors s0) (recovery_attempts s0) s'" "last_verification_time s' = 0"
    by (rule gdt_init_ready [OF init]) (rule that)
  with s z have r: "gdt_ready env 0 0 s" "last_verification_time s = 0" by simp_all
  note step = gdt_verify_ready [OF _ _ init(4,5)]
  from step [OF r(1), of t1] ts r(2) obtain u1 where 1: "gdt_verify env t1 s = Inr u1" "gdt_ready env 1 0 u1" "last_verification_time u1 = t1" by (auto simp: word_le_nat_alt word_less_nat_alt)
  from step [OF 1(2), of t2] ts 1(3) obtain u2 where 2: "gdt_verify env t2 u1 = Inr u2" "gdt_ready env 2 0 u2" "last_verification_time u2 = t2" by (auto simp: word_le_nat_alt word_less_nat_alt)
  from step [OF 2(2), of t3] ts 2(3) obtain u3 where 3: "gdt_verify env t3 u2 = Inr u3" "gdt_ready env 3 1 u3" "last_verification_time u3 = t3" by (auto simp: word_le_nat_alt word_less_nat_alt)
  from step [OF 3(2), of t4] ts 3(3) obtain u4 where 4: "gdt_verify env t4 u3 = Inr u4" "gdt_ready env 4 2 u4" "last_verification_time u4 = t4" by (auto simp: word_le_nat_alt word_less_nat_alt)
  from step [OF 4(2), of t5] ts 4(3) obtain u5 where 5: "gdt_verify env t5 u4 = Inr u5" "gdt_ready env 5 3 u5" "last_verification_time u5 = t5" by (auto simp: word_le_nat_alt word_less_nat_alt)
  from step [OF 5(2), of t6] ts 5(3) have 6: "gdt_verify env t6 u5 = Sum_Type.Inl Halted" by (auto simp: word_le_nat_alt word_less_nat_alt)
  show ?thesis using 1 2 3 4 5 6 by simp
qed

theorem gdt_verify_halts_intact_system_witness:
  "\<exists>s. gdt_init gdt_env_demo gdt_demo = Inr s \<and> verify_all gdt_env_demo [1000, 2000, 3000, 4000, 5000, 6000] s = Sum_Type.Inl Halted"
proof -
  obtain s where s: "gdt_init gdt_env_demo gdt_demo = Inr s" by (rule gdt_init_ready [OF gdt_demo_hyps]) (rule that)
  have z: "gdt_verification_errors gdt_demo = 0" "recovery_attempts gdt_demo = 0" by (simp_all add: gdt_demo_def)
  have "spaced 0 [1000, 2000, 3000, 4000, 5000, 6000]" by (simp add: GDT_VERIFICATION_INTERVAL_def)
  from gdt_verify_halts_intact_system [OF gdt_demo_hyps z s this] s show ?thesis by blast
qed

text \<open>Reloading the table of a running system raises a general protection fault: its task segment is busy.\<close>

lemma gdt_reload_faults:
  assumes "\<not> gdt_initialized s0" "\<not> recovery_in_progress s0" "gdt_checksum s0 = 0" "\<not> carry_lgdt env" "\<not> carry_ltr env"
    and "gdt_init env s0 = Inr s"
  shows "gdt_reload env s = Sum_Type.Inl General_protection"
proof -
  obtain s' where "gdt_init env s0 = Inr s'" "gdt_ready env (gdt_verification_errors s0) (recovery_attempts s0) s'"
    by (rule gdt_init_ready [OF assms(1-5)]) (rule that)
  with assms(6) have "gdt s = busy (std_gdt env)" by (simp add: gdt_ready_def)
  then show ?thesis using assms(4) by (simp add: gdt_reload_def gdt_reload_with_def gdt_flush_with_def Let_def tss_flush_busy)
qed

section \<open>The kernel stack\<close>

text \<open>
  The kernel stack that is read back is the one that was set, rounded down to a multiple of 16, when
  the table is initialised and the address lies in the accepted range.
\<close>

lemma gdt_kernel_stack_roundtrip:
  assumes "gdt_initialized s" "0x1000 \<le> stack AND NOT 0xF" "stack AND NOT 0xF \<le> 0xFFFFFFFFFFFF0000"
  shows "\<exists>t. gdt_set_kernel_stack env stack s = Inr t \<and> gdt_get_kernel_stack t = stack AND NOT 0xF \<and> gdt t = gdt s"
proof -
  have "stack AND NOT 0xF = stack" if "stack AND 0xF = 0"
  proof (rule bit_word_eqI)
    fix n
    assume "n < LENGTH(64)"
    have "bit (stack AND 0xF) n = False" using that by simp
    then have "\<not> (bit stack n \<and> bit (0xF :: u64) n)" by (simp only: bit_and_iff) simp
    then show "bit (stack AND NOT 0xF) n = bit stack n" using \<open>n < LENGTH(64)\<close> by (auto simp only: bit_and_iff bit_not_iff possible_bit_word)
  qed
  with assms show ?thesis by (auto simp: gdt_set_kernel_stack_def gdt_get_kernel_stack_def Let_def not_less)
qed

text \<open>The standard table with the limit of its last segment changed.\<close>

theorem gdt_single_byte_detected_witness:
  "\<not> validate_gdt (gdt_demo\<lparr>gdt_initialized := True, gdt_checksum := fold checksum_step (concat (map entry_bytes (std_gdt gdt_env_demo))) 0,
     gdt := (std_gdt gdt_env_demo)[4 := (std_gdt gdt_env_demo ! 4)\<lparr>g_granularity := 0xA7\<rparr>]\<rparr>)"
proof -
  let ?g = "std_gdt gdt_env_demo" and ?h = "(std_gdt gdt_env_demo)[4 := (std_gdt gdt_env_demo ! 4)\<lparr>g_granularity := 0xA7\<rparr>]"
  have b: "concat (map entry_bytes ?g) = [0, 0, 0, 0, 0, 0, 0, 0, 0xFF, 0xFF, 0, 0, 0, 0x9A, 0xAF, 0, 0xFF, 0xFF, 0, 0, 0, 0x92, 0xAF, 0,
      0xFF, 0xFF, 0, 0, 0, 0xFA, 0xAF, 0, 0xFF, 0xFF, 0, 0, 0, 0xF2, 0xAF, 0, 103, 0, 0x40, 0x23, 1, 0x89, 0, 0x80, 0xFF, 0xFF, 0xFF, 0xFF, 0, 0, 0, 0]"
    by (simp add: std_gdt_def gdt_env_demo_def entry_bytes_def zero_entry_def)
  have c: "concat (map entry_bytes ?h) = (concat (map entry_bytes ?g))[38 := 0xA7]"
    by (simp add: std_gdt_def gdt_env_demo_def entry_bytes_def zero_entry_def)
  have nz: "fold checksum_step (concat (map entry_bytes ?g)) 0 \<noteq> 0" unfolding b by (simp add: checksum_step_def)
  let ?s = "gdt_demo\<lparr>gdt_initialized := True, gdt_checksum := fold checksum_step (concat (map entry_bytes ?g)) 0, gdt := ?g\<rparr>"
  let ?t = "?s\<lparr>gdt := ?h\<rparr>"
  have "\<not> validate_gdt ?t"
  proof (rule gdt_single_byte_detected [of ?s ?t 38])
    have "length (concat (map entry_bytes ?g)) = 56" "concat (map entry_bytes ?g) ! 38 = 0xAF" by (simp_all add: b)
    then show "38 < length (concat (map entry_bytes (gdt ?s)))" "concat (map entry_bytes (gdt ?s)) ! 38 \<noteq> concat (map entry_bytes (gdt ?t)) ! 38"
      by (simp_all add: c)
    show "length (concat (map entry_bytes (gdt ?t))) = length (concat (map entry_bytes (gdt ?s)))" by (simp add: c)
    show "\<forall>j<length (concat (map entry_bytes (gdt ?s))). j \<noteq> 38 \<longrightarrow> concat (map entry_bytes (gdt ?s)) ! j = concat (map entry_bytes (gdt ?t)) ! j"
      by (simp add: c)
  qed (use nz in \<open>simp_all add: calculate_gdt_checksum_def\<close>)
  then show ?thesis by simp
qed

end
