(* ===== verification/Pci.thy ===== *)
theory Pci
  imports Elf
begin

text \<open>
  The PCI bus, \<open>src/src/src/core/drivers/pci.c\<close>: access to the configuration space through the two ports of
  the host bridge, the enumeration of the devices and the decoding of base address registers. The
  answers of the bridge are those of the device parameter \<open>dev\<close>.
\<close>

section \<open>State\<close>

definition MAX_PCI_DEVICES :: nat where "MAX_PCI_DEVICES = 32"
definition PCI_CONFIG_ADDRESS :: u16 where "PCI_CONFIG_ADDRESS = 0xCF8"
definition PCI_CONFIG_DATA :: u16 where "PCI_CONFIG_DATA = 0xCFC"
definition PCI_CONFIG_COMMAND :: u8 where "PCI_CONFIG_COMMAND = 0x04"
definition PCI_CONFIG_BAR0 :: u8 where "PCI_CONFIG_BAR0 = 0x10"
definition PCI_COMMAND_IO :: u16 where "PCI_COMMAND_IO = 1"
definition PCI_COMMAND_MEMORY :: u16 where "PCI_COMMAND_MEMORY = 2"
definition PCI_COMMAND_MASTER :: u16 where "PCI_COMMAND_MASTER = 4"
definition PCI_HEADER_TYPE_MULTI_FUNC :: u8 where "PCI_HEADER_TYPE_MULTI_FUNC = 0x80"
definition PCI_BAR_TYPE_MASK :: u32 where "PCI_BAR_TYPE_MASK = 1"
definition PCI_BAR_TYPE_MEMORY :: u32 where "PCI_BAR_TYPE_MEMORY = 0"
definition PCI_BAR_MEMORY_TYPE_MASK :: u32 where "PCI_BAR_MEMORY_TYPE_MASK = 6"
definition PCI_BAR_MEMORY_TYPE_64 :: u32 where "PCI_BAR_MEMORY_TYPE_64 = 4"
definition PCI_BAR_IO_MASK :: u32 where "PCI_BAR_IO_MASK = 0xFFFFFFFC"
definition PCI_BAR_MEMORY_MASK :: u32 where "PCI_BAR_MEMORY_MASK = 0xFFFFFFF0"

lemmas pci_consts = MAX_PCI_DEVICES_def PCI_CONFIG_ADDRESS_def PCI_CONFIG_DATA_def PCI_CONFIG_COMMAND_def PCI_CONFIG_BAR0_def
  PCI_COMMAND_IO_def PCI_COMMAND_MEMORY_def PCI_COMMAND_MASTER_def PCI_HEADER_TYPE_MULTI_FUNC_def PCI_BAR_TYPE_MASK_def
  PCI_BAR_TYPE_MEMORY_def PCI_BAR_MEMORY_TYPE_MASK_def PCI_BAR_MEMORY_TYPE_64_def PCI_BAR_IO_MASK_def PCI_BAR_MEMORY_MASK_def

record pci_device_t =
  pci_bus :: u8
  pci_dev :: u8
  pci_function :: u8
  vendor_id :: u16
  device_id :: u16
  class_code :: u8
  sub_class :: u8
  prog_if :: u8
  revision_id :: u8
  header_type :: u8
  interrupt_line :: u8
  interrupt_pin :: u8

record pci_state = kernel_state +
  pci_devices :: "pci_device_t list"
  pci_device_count :: u32

section \<open>Configuration space\<close>

definition pci_make_address :: "u8 \<Rightarrow> u8 \<Rightarrow> u8 \<Rightarrow> u8 \<Rightarrow> u32" where
  "pci_make_address bus device function offset =
     0x80000000 OR push_bit 16 (ucast bus) OR push_bit 11 (ucast device) OR push_bit 8 (ucast function) OR ucast (offset AND 0xFC)"

definition pci_select :: "u8 \<Rightarrow> u8 \<Rightarrow> u8 \<Rightarrow> u8 \<Rightarrow> 'a machine_scheme \<Rightarrow> 'a machine_scheme" where
  "pci_select bus device function offset s = outl PCI_CONFIG_ADDRESS (pci_make_address bus device function offset) s"

definition pci_read_config_byte :: "device \<Rightarrow> pci_device_t \<Rightarrow> u8 \<Rightarrow> 'a machine_scheme \<Rightarrow> u8 \<times> 'a machine_scheme" where
  "pci_read_config_byte dev d offset s =
     inb dev (PCI_CONFIG_DATA + ucast (offset AND 3)) (pci_select (pci_bus d) (pci_dev d) (pci_function d) offset s)"

definition pci_read_config_word :: "device \<Rightarrow> pci_device_t \<Rightarrow> u8 \<Rightarrow> 'a machine_scheme \<Rightarrow> u16 \<times> 'a machine_scheme" where
  "pci_read_config_word dev d offset s =
     inw dev (PCI_CONFIG_DATA + ucast (offset AND 2)) (pci_select (pci_bus d) (pci_dev d) (pci_function d) offset s)"

definition pci_read_config_dword :: "device \<Rightarrow> pci_device_t \<Rightarrow> u8 \<Rightarrow> 'a machine_scheme \<Rightarrow> u32 \<times> 'a machine_scheme" where
  "pci_read_config_dword dev d offset s =
     inl dev PCI_CONFIG_DATA (pci_select (pci_bus d) (pci_dev d) (pci_function d) offset s)"

definition pci_write_config_byte :: "pci_device_t \<Rightarrow> u8 \<Rightarrow> u8 \<Rightarrow> 'a machine_scheme \<Rightarrow> 'a machine_scheme" where
  "pci_write_config_byte d offset v s =
     outb (PCI_CONFIG_DATA + ucast (offset AND 3)) v (pci_select (pci_bus d) (pci_dev d) (pci_function d) offset s)"

definition pci_write_config_word :: "pci_device_t \<Rightarrow> u8 \<Rightarrow> u16 \<Rightarrow> 'a machine_scheme \<Rightarrow> 'a machine_scheme" where
  "pci_write_config_word d offset v s =
     outw (PCI_CONFIG_DATA + ucast (offset AND 2)) v (pci_select (pci_bus d) (pci_dev d) (pci_function d) offset s)"

definition pci_write_config_dword :: "pci_device_t \<Rightarrow> u8 \<Rightarrow> u32 \<Rightarrow> 'a machine_scheme \<Rightarrow> 'a machine_scheme" where
  "pci_write_config_dword d offset v s =
     outl PCI_CONFIG_DATA v (pci_select (pci_bus d) (pci_dev d) (pci_function d) offset s)"

section \<open>Enumeration\<close>

definition pci_device_exists :: "device \<Rightarrow> u8 \<Rightarrow> u8 \<Rightarrow> u8 \<Rightarrow> 'a machine_scheme \<Rightarrow> bool \<times> 'a machine_scheme" where
  "pci_device_exists dev bus device function s =
     (let (vendor, s1) = inw dev PCI_CONFIG_DATA (pci_select bus device function 0 s) in (vendor \<noteq> 0xFFFF, s1))"

definition pci_read_device_info :: "device \<Rightarrow> u8 \<Rightarrow> u8 \<Rightarrow> u8 \<Rightarrow> 'a machine_scheme \<Rightarrow> pci_device_t \<times> 'a machine_scheme" where
  "pci_read_device_info dev bus device function s =
     (let (id_reg, s1) = inl dev PCI_CONFIG_DATA (pci_select bus device function 0 s);
          (class_reg, s2) = inl dev PCI_CONFIG_DATA (pci_select bus device function 8 s1);
          (header_reg, s3) = inl dev PCI_CONFIG_DATA (pci_select bus device function 0x0C s2);
          (int_reg, s4) = inl dev PCI_CONFIG_DATA (pci_select bus device function 0x3C s3)
      in (\<lparr>pci_bus = bus, pci_dev = device, pci_function = function,
           vendor_id = ucast (id_reg AND 0xFFFF), device_id = ucast (drop_bit 16 id_reg AND 0xFFFF),
           class_code = ucast (drop_bit 24 class_reg AND 0xFF), sub_class = ucast (drop_bit 16 class_reg AND 0xFF),
           prog_if = ucast (drop_bit 8 class_reg AND 0xFF), revision_id = ucast (class_reg AND 0xFF),
           header_type = ucast (drop_bit 16 header_reg AND 0xFF),
           interrupt_line = ucast (int_reg AND 0xFF), interrupt_pin = ucast (drop_bit 8 int_reg AND 0xFF)\<rparr>, s4))"

definition pci_is_multifunction :: "device \<Rightarrow> u8 \<Rightarrow> u8 \<Rightarrow> 'a machine_scheme \<Rightarrow> bool \<times> 'a machine_scheme" where
  "pci_is_multifunction dev bus device s =
     (let (h, s1) = inb dev PCI_CONFIG_DATA (pci_select bus device 0 0x0E s) in (h AND PCI_HEADER_TYPE_MULTI_FUNC \<noteq> 0, s1))"

text \<open>The test and the entry of one function, common to function 0 and the others.\<close>

definition pci_probe :: "device \<Rightarrow> u8 \<Rightarrow> u8 \<Rightarrow> u8 \<Rightarrow> 'a pci_state_scheme \<Rightarrow> 'a pci_state_scheme" where
  "pci_probe dev bus device function s =
     (let (found, s1) = pci_device_exists dev bus device function s
      in if found \<and> unat (pci_device_count s1) < MAX_PCI_DEVICES
         then let (d, s2) = pci_read_device_info dev bus device function s1
              in s2\<lparr>pci_devices := (pci_devices s2)[unat (pci_device_count s2) := d], pci_device_count := pci_device_count s2 + 1\<rparr>
         else s1)"

definition pci_scan_device :: "device \<Rightarrow> u8 \<Rightarrow> u8 \<Rightarrow> 'a pci_state_scheme \<Rightarrow> 'a pci_state_scheme" where
  "pci_scan_device dev bus device s =
     (let (is_multifunction, s1) = pci_is_multifunction dev bus device s;
          s2 = pci_probe dev bus device 0 s1
      in if is_multifunction then fold (\<lambda>f. pci_probe dev bus device (of_nat f)) [1..<8] s2 else s2)"

definition pci_enumerate_devices :: "device \<Rightarrow> 'a pci_state_scheme \<Rightarrow> 'a pci_state_scheme" where
  "pci_enumerate_devices dev s =
     fold (\<lambda>bus. fold (\<lambda>device. pci_scan_device dev (of_nat bus) (of_nat device)) [0..<32]) [0..<256] (s\<lparr>pci_device_count := 0\<rparr>)"

definition pci_init :: "device \<Rightarrow> 'a pci_state_scheme \<Rightarrow> 'a pci_state_scheme" where
  "pci_init dev s = pci_enumerate_devices dev s"

text \<open>The matching devices; their number is stored in the caller's variable.\<close>

definition pci_find_devices :: "u8 \<Rightarrow> u8 \<Rightarrow> 'a pci_state_scheme \<Rightarrow> pci_device_t list" where
  "pci_find_devices cl sub s =
     take MAX_PCI_DEVICES (filter (\<lambda>d. class_code d = cl \<and> sub_class d = sub) (take (unat (pci_device_count s)) (pci_devices s)))"

definition pci_find_device :: "u16 \<Rightarrow> u16 \<Rightarrow> 'a pci_state_scheme \<Rightarrow> nat option" where
  "pci_find_device vendor did s =
     find_slot (\<lambda>d. vendor_id d = vendor \<and> device_id d = did) (take (unat (pci_device_count s)) (pci_devices s))"

section \<open>Base address registers and the command register\<close>

definition pci_get_bar_address :: "device \<Rightarrow> pci_device_t \<Rightarrow> u8 \<Rightarrow> 'a machine_scheme \<Rightarrow> u64 \<times> 'a machine_scheme" where
  "pci_get_bar_address dev d bar s =
     (if 5 < bar then (0, s)
      else let (bar_value, s1) = pci_read_config_dword dev d (PCI_CONFIG_BAR0 + bar * 4) s
           in if bar_value AND PCI_BAR_TYPE_MASK = PCI_BAR_TYPE_MEMORY
              then let address = ucast (bar_value AND PCI_BAR_MEMORY_MASK)
                   in if bar_value AND PCI_BAR_MEMORY_TYPE_MASK = PCI_BAR_MEMORY_TYPE_64 \<and> bar < 5
                      then let (high_dword, s2) = pci_read_config_dword dev d (PCI_CONFIG_BAR0 + (bar + 1) * 4) s1
                           in (address OR push_bit 32 (ucast high_dword), s2)
                      else (address, s1)
              else (ucast (bar_value AND PCI_BAR_IO_MASK), s1))"

definition pci_get_bar_size :: "device \<Rightarrow> pci_device_t \<Rightarrow> u8 \<Rightarrow> 'a machine_scheme \<Rightarrow> u32 \<times> 'a machine_scheme" where
  "pci_get_bar_size dev d bar s =
     (if 5 < bar then (0, s)
      else let bar_offset = PCI_CONFIG_BAR0 + bar * 4;
               (original, s1) = pci_read_config_dword dev d bar_offset s;
               s2 = pci_write_config_dword d bar_offset 0xFFFFFFFF s1;
               (size_mask0, s3) = pci_read_config_dword dev d bar_offset s2;
               s4 = pci_write_config_dword d bar_offset original s3;
               size_mask = size_mask0 AND (if original AND PCI_BAR_TYPE_MASK = PCI_BAR_TYPE_MEMORY then PCI_BAR_MEMORY_MASK else PCI_BAR_IO_MASK)
           in (if size_mask = 0 then 0 else NOT size_mask + 1, s4))"

definition pci_enable_bus_mastering :: "device \<Rightarrow> pci_device_t \<Rightarrow> 'a machine_scheme \<Rightarrow> bool \<times> 'a machine_scheme" where
  "pci_enable_bus_mastering dev d s =
     (let (command, s1) = pci_read_config_word dev d PCI_CONFIG_COMMAND s;
          s2 = pci_write_config_word d PCI_CONFIG_COMMAND (command OR PCI_COMMAND_MASTER) s1;
          (command2, s3) = pci_read_config_word dev d PCI_CONFIG_COMMAND s2
      in (command2 AND PCI_COMMAND_MASTER \<noteq> 0, s3))"

definition pci_enable_device :: "device \<Rightarrow> pci_device_t \<Rightarrow> 'a machine_scheme \<Rightarrow> 'a machine_scheme" where
  "pci_enable_device dev d s =
     (let (command, s1) = pci_read_config_word dev d PCI_CONFIG_COMMAND s
      in pci_write_config_word d PCI_CONFIG_COMMAND (command OR (PCI_COMMAND_MEMORY OR PCI_COMMAND_IO OR PCI_COMMAND_MASTER)) s1)"

text \<open>The accesses made while the registers of a device are printed; a 64-bit register takes two places.\<close>

fun dump_bars :: "device \<Rightarrow> pci_device_t \<Rightarrow> nat list \<Rightarrow> 'a machine_scheme \<Rightarrow> 'a machine_scheme" where
  "dump_bars dev d [] s = s"
| "dump_bars dev d (b # bs) s =
     (let bar = of_nat b;
          (bar_value, s1) = pci_read_config_dword dev d (PCI_CONFIG_BAR0 + bar * 4) s
      in if bar_value = 0 then dump_bars dev d bs s1
         else let (_, s2) = pci_get_bar_address dev d bar s1;
                  (_, s3) = pci_get_bar_size dev d bar s2
              in if bar_value AND PCI_BAR_TYPE_MASK = PCI_BAR_TYPE_MEMORY \<and> bar_value AND PCI_BAR_MEMORY_TYPE_MASK = PCI_BAR_MEMORY_TYPE_64
                 then dump_bars dev d (tl bs) s3
                 else dump_bars dev d bs s3)"

definition pci_dump_device_info :: "device \<Rightarrow> pci_device_t \<Rightarrow> 'a machine_scheme \<Rightarrow> 'a machine_scheme" where
  "pci_dump_device_info dev d s = dump_bars dev d [0..<6] s"

section \<open>The host bridge\<close>

text \<open>
  The bridge in front of a configuration space \<open>cfg\<close>: a read from the data ports returns the bytes of the
  register whose address was written last.
\<close>

fun selected :: "io_event list \<Rightarrow> u32" where
  "selected [] = 0"
| "selected (e # es) = (case e of Outl p v \<Rightarrow> if p = PCI_CONFIG_ADDRESS then v else selected es | _ \<Rightarrow> selected es)"

definition host_bridge :: "(u32 \<Rightarrow> u32) \<Rightarrow> device" where
  "host_bridge cfg log port = drop_bit (8 * unat (port - PCI_CONFIG_DATA)) (cfg (selected log))"

definition answers :: "(u32 \<Rightarrow> u32) \<Rightarrow> device \<Rightarrow> bool" where
  "answers cfg dev \<longleftrightarrow> (\<forall>log k. k < 4 \<longrightarrow> dev log (PCI_CONFIG_DATA + of_nat k) = drop_bit (8 * k) (cfg (selected log)))"

definition present_function :: "(u32 \<Rightarrow> u32) \<Rightarrow> u8 \<Rightarrow> u8 \<Rightarrow> u8 \<Rightarrow> bool" where
  "present_function cfg bus device function \<longleftrightarrow> (ucast (cfg (pci_make_address bus device function 0)) :: u16) \<noteq> 0xFFFF"

text \<open>What the enumeration takes for a device with several functions: bit 7 of its cache line size, the byte at offset 0x0C.\<close>

definition cache_line_bit :: "(u32 \<Rightarrow> u32) \<Rightarrow> u8 \<Rightarrow> u8 \<Rightarrow> bool" where
  "cache_line_bit cfg bus device \<longleftrightarrow> bit (cfg (pci_make_address bus device 0 0x0C)) 7"

definition described :: "(u32 \<Rightarrow> u32) \<Rightarrow> u8 \<Rightarrow> u8 \<Rightarrow> u8 \<Rightarrow> pci_device_t" where
  "described cfg bus device function =
     (let r = \<lambda>off. cfg (pci_make_address bus device function off)
      in \<lparr>pci_bus = bus, pci_dev = device, pci_function = function,
          vendor_id = ucast (r 0), device_id = ucast (drop_bit 16 (r 0)),
          class_code = ucast (drop_bit 24 (r 8)), sub_class = ucast (drop_bit 16 (r 8)), prog_if = ucast (drop_bit 8 (r 8)), revision_id = ucast (r 8),
          header_type = ucast (drop_bit 16 (r 0x0C)), interrupt_line = ucast (r 0x3C), interrupt_pin = ucast (drop_bit 8 (r 0x3C))\<rparr>)"

definition found_functions :: "(u32 \<Rightarrow> u32) \<Rightarrow> u8 \<Rightarrow> u8 \<Rightarrow> pci_device_t list" where
  "found_functions cfg bus device =
     map (\<lambda>f. described cfg bus device (of_nat f))
       (filter (\<lambda>f. present_function cfg bus device (of_nat f)) (0 # (if cache_line_bit cfg bus device then [1..<8] else [])))"

lemma host_bridge_answers: "answers cfg (host_bridge cfg)"
proof -
  have "unat (PCI_CONFIG_DATA + of_nat k - PCI_CONFIG_DATA) = k" if "k < 4" for k
    using that by (simp add: unat_of_nat)
  then show ?thesis by (simp add: answers_def host_bridge_def)
qed

text \<open>Reads of the selected register, with the only change to the state an entry of the log.\<close>

lemma answers_reads:
  assumes "answers cfg dev"
  shows "inl dev PCI_CONFIG_DATA (pci_select b d f off s) = (cfg (pci_make_address b d f off), snd (inl dev PCI_CONFIG_DATA (pci_select b d f off s)))"
    "inw dev PCI_CONFIG_DATA (pci_select b d f off s) = (ucast (cfg (pci_make_address b d f off)), snd (inw dev PCI_CONFIG_DATA (pci_select b d f off s)))"
    "inb dev PCI_CONFIG_DATA (pci_select b d f off s) = (ucast (cfg (pci_make_address b d f off)), snd (inb dev PCI_CONFIG_DATA (pci_select b d f off s)))"
proof -
  have "dev (io_log (pci_select b d f off s)) PCI_CONFIG_DATA = cfg (pci_make_address b d f off)"
    using assms [unfolded answers_def, rule_format, of 0 "io_log (pci_select b d f off s)"]
    by (simp add: pci_select_def port_defs)
  then show "inl dev PCI_CONFIG_DATA (pci_select b d f off s) = (cfg (pci_make_address b d f off), snd (inl dev PCI_CONFIG_DATA (pci_select b d f off s)))"
    "inw dev PCI_CONFIG_DATA (pci_select b d f off s) = (ucast (cfg (pci_make_address b d f off)), snd (inw dev PCI_CONFIG_DATA (pci_select b d f off s)))"
    "inb dev PCI_CONFIG_DATA (pci_select b d f off s) = (ucast (cfg (pci_make_address b d f off)), snd (inb dev PCI_CONFIG_DATA (pci_select b d f off s)))"
    by (simp_all add: inl_def inw_def inb_def Let_def)
qed

definition log_only :: "'a pci_state_scheme \<Rightarrow> 'a pci_state_scheme \<Rightarrow> bool" where
  "log_only s t \<longleftrightarrow> pci_devices t = pci_devices s \<and> pci_device_count t = pci_device_count s"

lemma log_only_reads [simp]:
  "log_only s (snd (inl dev p (pci_select b d f off s)))" "log_only s (snd (inw dev p (pci_select b d f off s)))"
  "log_only s (snd (inb dev p (pci_select b d f off s)))"
  by (simp_all add: log_only_def pci_select_def port_defs Let_def)

lemma log_only_trans: "log_only s t \<Longrightarrow> log_only t u \<Longrightarrow> log_only s u"
  by (simp add: log_only_def)

lemma ucast_masks:
  "(ucast (x AND 0xFFFF :: u32) :: u16) = ucast x" "(ucast (x AND 0xFF :: u32) :: u8) = ucast x"
proof -
  have m: "(0xFFFF :: u32) = mask 16" "(0xFF :: u32) = mask 8" by (simp_all add: mask_eq_exp_minus_1)
  show "(ucast (x AND 0xFFFF :: u32) :: u16) = ucast x" "(ucast (x AND 0xFF :: u32) :: u8) = ucast x"
    unfolding m by (rule bit_word_eqI, simp add: bit_simps)+
qed

lemma read_info:
  assumes a: "answers cfg dev"
  obtains t where "pci_read_device_info dev b d f s = (described cfg b d f, t)" "log_only s t"
proof -
  note r = answers_reads(1) [OF a]
  let ?r = "\<lambda>off s. snd (inl dev PCI_CONFIG_DATA (pci_select b d f off s))"
  have "pci_read_device_info dev b d f s = (described cfg b d f, ?r 0x3C (?r 0x0C (?r 8 (?r 0 s))))"
    unfolding pci_read_device_info_def
    by (subst r, simp only: Let_def prod.case, subst r, simp only: Let_def prod.case, subst r, simp only: Let_def prod.case, subst r)
      (simp add: described_def Let_def ucast_masks)
  moreover have "log_only s (?r 0x3C (?r 0x0C (?r 8 (?r 0 s))))" by (meson log_only_reads log_only_trans)
  ultimately show thesis by (rule that)
qed

text \<open>The list of the devices found so far.\<close>

definition known :: "'a pci_state_scheme \<Rightarrow> pci_device_t list" where
  "known s = take (unat (pci_device_count s)) (pci_devices s)"

definition pci_ok :: "'a pci_state_scheme \<Rightarrow> bool" where
  "pci_ok s \<longleftrightarrow> length (pci_devices s) = MAX_PCI_DEVICES \<and> unat (pci_device_count s) \<le> MAX_PCI_DEVICES"

lemma log_only_known: "log_only s t \<Longrightarrow> known t = known s \<and> pci_ok t = pci_ok s"
  by (simp add: log_only_def known_def pci_ok_def)

lemma pci_probe_known:
  assumes a: "answers cfg dev" and ok: "pci_ok s"
  shows "pci_ok (pci_probe dev b d f s) \<and>
    known (pci_probe dev b d f s) = take MAX_PCI_DEVICES (known s @ (if present_function cfg b d f then [described cfg b d f] else []))"
proof -
  let ?s1 = "snd (inw dev PCI_CONFIG_DATA (pci_select b d f 0 s))"
  have e: "pci_device_exists dev b d f s = (present_function cfg b d f, ?s1)"
    unfolding pci_device_exists_def by (subst answers_reads(2) [OF a]) (simp add: present_function_def)
  have k: "known ?s1 = known s" "pci_ok ?s1" using ok by (simp_all add: log_only_known [OF log_only_reads(2)])
  have full: "take MAX_PCI_DEVICES (known s @ xs) = known s" if "\<not> unat (pci_device_count s) < MAX_PCI_DEVICES" for xs
    using that ok by (simp add: known_def pci_ok_def)
  show ?thesis
  proof (cases "present_function cfg b d f \<and> unat (pci_device_count ?s1) < MAX_PCI_DEVICES")
    case True
    obtain t where t: "pci_read_device_info dev b d f ?s1 = (described cfg b d f, t)" "log_only ?s1 t" by (rule read_info [OF a])
    let ?n = "unat (pci_device_count t)" and ?u = "t\<lparr>pci_devices := (pci_devices t)[unat (pci_device_count t) := described cfg b d f], pci_device_count := pci_device_count t + 1\<rparr>"
    have p: "pci_probe dev b d f s = ?u" using e True t(1) by (simp add: pci_probe_def)
    have n: "?n < 32" "length (pci_devices t) = 32" "known t = known s" using True t(2) k log_only_known [OF t(2)] by (auto simp: log_only_def pci_ok_def MAX_PCI_DEVICES_def)
    have u: "unat (pci_device_count t + 1) = Suc ?n" using n(1) by (simp add: unat_word_ariths)
    have "known ?u = known t @ [described cfg b d f]"
      unfolding known_def using n by (simp add: u take_Suc_conv_app_nth)
    moreover have "length (take ?n (pci_devices t)) = ?n" using n(1,2) by (simp only: length_take)
    then have "length (known t) = ?n" by (simp only: known_def)
    then have "length (known s @ [described cfg b d f]) \<le> 32" using n by simp
    ultimately show ?thesis unfolding p using True n u by (simp add: pci_ok_def MAX_PCI_DEVICES_def)
  next
    case False
    then have p: "pci_probe dev b d f s = ?s1" using e by (auto simp: pci_probe_def)
    have "pci_device_count ?s1 = pci_device_count s" using log_only_reads(2) [of s] by (simp add: log_only_def)
    then show ?thesis using False k full unfolding p by (auto simp: known_def pci_ok_def)
  qed
qed

text \<open>Scans that each add what they find at the end of the table, until it is full.\<close>

lemma fold_known:
  assumes "\<And>x s. pci_ok s \<Longrightarrow> pci_ok (g x s) \<and> known (g x s) = take MAX_PCI_DEVICES (known s @ h x)"
  shows "pci_ok s \<Longrightarrow> pci_ok (fold g xs s) \<and> known (fold g xs s) = take MAX_PCI_DEVICES (known s @ concat (map h xs))"
proof (induction xs arbitrary: s)
  case Nil
  then show ?case by (simp add: known_def pci_ok_def)
next
  case (Cons x xs)
  have p: "pci_ok (g x s)" "known (g x s) = take MAX_PCI_DEVICES (known s @ h x)" using assms [OF Cons.prems] by simp_all
  have "take n (take n as @ bs) = take n (as @ bs)" for n and as bs :: "pci_device_t list"
    by (cases "length as \<le> n") simp_all
  with Cons.IH [OF p(1)] p(2) show ?case by (simp del: take_append)
qed

lemma concat_map_if_filter: "concat (map (\<lambda>x. if P x then [f x] else []) xs) = map f (filter P xs)"
  by (induction xs) simp_all

lemma pci_scan_known:
  assumes a: "answers cfg dev" and ok: "pci_ok s"
  shows "pci_ok (pci_scan_device dev b d s) \<and> known (pci_scan_device dev b d s) = take MAX_PCI_DEVICES (known s @ found_functions cfg b d)"
proof -
  let ?s1 = "snd (inb dev PCI_CONFIG_DATA (pci_select b d 0 0x0E s))"
  have k: "known ?s1 = known s" "pci_ok ?s1" using ok by (simp_all add: log_only_known [OF log_only_reads(3)])
  have "(0x0E :: u8) AND 0xFC = 0x0C" "(0x0C :: u8) AND 0xFC = 0x0C" by simp_all
  then have off: "pci_make_address b d 0 0x0E = pci_make_address b d 0 0x0C" by (simp add: pci_make_address_def)
  have "bit (ucast (c :: u32) :: u8) 7 = bit c 7" for c by (simp add: bit_simps)
  then have m: "((ucast (c :: u32) :: u8) AND 0x80 \<noteq> 0) = bit c 7" for c
    using and_single_bit(1) [of "ucast c :: u8" 7] by simp
  have e: "pci_is_multifunction dev b d s = (cache_line_bit cfg b d, ?s1)"
    unfolding pci_is_multifunction_def by (subst answers_reads(3) [OF a]) (simp add: cache_line_bit_def PCI_HEADER_TYPE_MULTI_FUNC_def off m)
  let ?fs = "0 # (if cache_line_bit cfg b d then [1..<8] else [])"
  have "pci_scan_device dev b d s = fold (\<lambda>f. pci_probe dev b d (of_nat f)) ?fs ?s1"
    using e by (simp add: pci_scan_device_def)
  moreover have "concat (map (\<lambda>f. if present_function cfg b d (of_nat f) then [described cfg b d (of_nat f)] else []) ?fs) = found_functions cfg b d"
    by (simp add: found_functions_def concat_map_if_filter)
  ultimately show ?thesis using fold_known [where xs = ?fs, OF pci_probe_known [OF a] k(2)] k(1) by (simp only:)
qed

lemma pci_init_known:
  assumes "answers cfg dev" "length (pci_devices s) = MAX_PCI_DEVICES"
  shows "known (pci_init dev s) = take MAX_PCI_DEVICES (concat (map (\<lambda>bus. concat (map (\<lambda>d. found_functions cfg (of_nat bus) (of_nat d)) [0..<32])) [0..<256])) \<and>
    pci_ok (pci_init dev s)"
proof -
  have ok: "pci_ok (s\<lparr>pci_device_count := 0\<rparr>)" "known (s\<lparr>pci_device_count := 0\<rparr>) = []" using assms(2) by (simp_all add: pci_ok_def known_def)
  from fold_known [where xs = "[0..<256]", OF fold_known [where xs = "[0..<32]", OF pci_scan_known [OF assms(1)]] ok(1)] ok(2)
  show ?thesis by (simp only: pci_init_def pci_enumerate_devices_def append_Nil)
qed


definition pci_demo :: pci_state where
  "pci_demo = kernel_state.extend kernel_demo \<lparr>pci_devices = replicate 32 undefined, pci_device_count = 7\<rparr>"


end
