(* ===== verification/E1000.thy ===== *)
theory E1000
  imports Pci Vmm Byte_Fields
begin

text \<open>
  The network card, \<open>src/src/src/core/drivers/net/e1000.c\<close>: registers behind I/O ports, and rings of transmit
  and receive descriptors in memory. The rings hold addresses; an access through the null pointer is an access to
  address 0 of the memory. What the card itself writes to memory happens between the operations.
\<close>

section \<open>State\<close>

definition E1000_REG_CTRL :: u16 where "E1000_REG_CTRL = 0x0000"
definition E1000_REG_ICR :: u16 where "E1000_REG_ICR = 0x00C0"
definition E1000_REG_IMC :: u16 where "E1000_REG_IMC = 0x00D8"
definition E1000_REG_RCTL :: u16 where "E1000_REG_RCTL = 0x0100"
definition E1000_REG_TCTL :: u16 where "E1000_REG_TCTL = 0x0400"
definition E1000_REG_TDT :: u16 where "E1000_REG_TDT = 0x3818"
definition E1000_REG_RDT :: u16 where "E1000_REG_RDT = 0x2818"
definition E1000_REG_RAL :: u16 where "E1000_REG_RAL = 0x5400"
definition E1000_REG_RAH :: u16 where "E1000_REG_RAH = 0x5404"
definition E1000_CTRL_RESET :: u32 where "E1000_CTRL_RESET = 0x04000000"
definition E1000_CTRL_SLU :: u32 where "E1000_CTRL_SLU = 0x00000040"
definition MMU_PROT_WRITE :: u64 where "MMU_PROT_WRITE = 2"

record e1000_state = pci_state +
  nic_mem :: mem
  e1000_base :: u64
  iobase :: u16
  tx_buffers :: "u64 list"
  tx_descs :: "u64 list"
  rx_buffers :: "u64 list"
  rx_descs :: "u64 list"
  tx_index :: u8
  rx_index :: u8

section \<open>Operations\<close>

definition e1000_read :: "device \<Rightarrow> u16 \<Rightarrow> 'a e1000_state_scheme \<Rightarrow> u32 \<times> 'a e1000_state_scheme" where
  "e1000_read dev index s = inl dev (iobase s + index) s"

definition e1000_write :: "u16 \<Rightarrow> u32 \<Rightarrow> 'a e1000_state_scheme \<Rightarrow> 'a e1000_state_scheme" where
  "e1000_write index v s = outl (iobase s + index) v s"

text \<open>The wait for the end of the reset: the remaining value of \<open>timeout\<close> and the state.\<close>

fun reset_wait :: "device \<Rightarrow> nat \<Rightarrow> 'a e1000_state_scheme \<Rightarrow> nat \<times> 'a e1000_state_scheme" where
  "reset_wait dev 0 s = (0, s)"
| "reset_wait dev (Suc n) s =
     (let (v, s1) = e1000_read dev E1000_REG_CTRL s
      in if v AND E1000_CTRL_RESET \<noteq> 0 then reset_wait dev n s1 else (Suc n, s1))"

definition e1000_init :: "device \<Rightarrow> vmm_state \<times> 'a e1000_state_scheme \<Rightarrow> vmm_state \<times> 'a e1000_state_scheme" where
  "e1000_init dev ks =
     (let (k, s) = ks
      in case pci_find_device 0x8086 0x100E s of
           None \<Rightarrow> (k, s)
         | Some i \<Rightarrow>
             let d = pci_devices s ! i;
                 (cmd, s1) = pci_read_config_word dev d 0x04 s;
                 s2 = pci_write_config_word d 0x04 (cmd OR 7) s1;
                 (bar, s3) = pci_read_config_dword dev d 0x10 s2;
                 bar0 = bar AND NOT 0xF;
                 (base, k1) = vmm_map_physical (ucast bar0) 0x20000 MMU_PROT_WRITE k;
                 s4 = e1000_write E1000_REG_IMC 0xFFFFFFFF (s3\<lparr>e1000_base := base\<rparr>);
                 (_, s5) = e1000_read dev E1000_REG_ICR s4;
                 (ctrl, s6) = e1000_read dev E1000_REG_CTRL s5;
                 s7 = e1000_write E1000_REG_CTRL (ctrl OR E1000_CTRL_RESET) s6;
                 (timeout, s8) = reset_wait dev 10000 s7
             in if timeout = 0 then (k1, s8)
                else let (ctrl2, s9) = e1000_read dev E1000_REG_CTRL s8;
                         s10 = e1000_write E1000_REG_CTRL (ctrl2 OR E1000_CTRL_SLU) s9;
                         s11 = e1000_write E1000_REG_TCTL 0x0003A007 s10
                     in (k1, e1000_write E1000_REG_RCTL 4 s11))"

text \<open>The six bytes of the address; the registers are read into a 16-bit variable.\<close>

definition e1000_read_mac :: "device \<Rightarrow> 'a e1000_state_scheme \<Rightarrow> u8 list \<times> 'a e1000_state_scheme" where
  "e1000_read_mac dev s =
     (let (rah, s1) = e1000_read dev E1000_REG_RAH s;
          (ral, s2) = e1000_read dev E1000_REG_RAL s1;
          hi = ucast rah :: u16; lo = ucast ral :: u16
      in ([ucast (drop_bit 8 hi), ucast hi, ucast (drop_bit 24 lo), ucast (drop_bit 16 lo), ucast (drop_bit 8 lo), ucast lo], s2))"

definition e1000_transmit :: "u64 \<Rightarrow> u32 \<Rightarrow> 'a e1000_state_scheme \<Rightarrow> 'a e1000_state_scheme" where
  "e1000_transmit data len s =
     (let i = unat (tx_index s);
          m1 = memcpy (tx_buffers s ! i) data (ucast len) (nic_mem s);
          m2 = st16 (tx_descs s ! i + 8) (ucast len) m1;
          next_index = (tx_index s + 1) mod 8
      in e1000_write E1000_REG_TDT (ucast next_index) (s\<lparr>nic_mem := m2, tx_index := next_index\<rparr>))"

definition e1000_receive :: "u64 \<Rightarrow> 'a e1000_state_scheme \<Rightarrow> u32 \<times> 'a e1000_state_scheme" where
  "e1000_receive buffer s =
     (let i = unat (rx_index s); desc = rx_descs s ! i
      in if nic_mem s (desc + 12) AND 1 = 0 then (0, s)
         else let len = le16 (nic_mem s) (desc + 8);
                  m1 = memcpy buffer (rx_buffers s ! i) (ucast len) (nic_mem s);
                  m2 = m1(desc + 12 := 0);
                  next_index = (rx_index s + 1) mod 32
              in (ucast len, e1000_write E1000_REG_RDT (ucast next_index) (s\<lparr>nic_mem := m2, rx_index := next_index\<rparr>)))"

section \<open>Rings\<close>

definition rings_ok :: "'a e1000_state_scheme \<Rightarrow> bool" where
  "rings_ok s \<longleftrightarrow> length (tx_buffers s) = 8 \<and> length (tx_descs s) = 8 \<and> length (rx_buffers s) = 32 \<and> length (rx_descs s) = 32 \<and>
     tx_index s < 8 \<and> rx_index s < 32"

lemma mod_index: "(x :: u8) mod 8 < 8" "(x :: u8) mod 32 < 32"
  by (simp_all add: word_less_nat_alt unat_mod)

lemma e1000_transmit_ok: "rings_ok s \<Longrightarrow> rings_ok (e1000_transmit data len s)"
  by (simp add: e1000_transmit_def rings_ok_def e1000_write_def port_defs Let_def mod_index)

lemma e1000_receive_ok: "rings_ok s \<Longrightarrow> rings_ok (snd (e1000_receive buffer s))"
  by (simp add: e1000_receive_def rings_ok_def e1000_write_def port_defs Let_def mod_index)

end
