(* ===== verification/Stdio.thy ===== *)
theory Stdio
  imports Kstring
begin

text \<open>
  Formatted output, \<open>src/src/src/kstd/stdio.c\<close>. The output buffer is a region of the byte-addressed memory; a
  format is the list of its characters before the terminator, so a format that overlaps the buffer is
  outside the model. The variable arguments are the list of their 64-bit slots; taking an argument
  from the empty list is undefined in C and \<open>None\<close> here, as is the search for the end of a string
  that has none. Positions in the buffer are natural numbers: they are compared with the size of the buffer before
  they are increased and cannot wrap. Values of type \<open>int\<close> are 32-bit words whose arithmetic wraps.
\<close>

section \<open>Numbers and strings\<close>

definition FLAG_LEFT_JUSTIFY :: u32 where "FLAG_LEFT_JUSTIFY = 1"
definition FLAG_PLUS_SIGN :: u32 where "FLAG_PLUS_SIGN = 2"
definition FLAG_SPACE :: u32 where "FLAG_SPACE = 4"
definition FLAG_HASH :: u32 where "FLAG_HASH = 8"
definition FLAG_ZERO_PAD :: u32 where "FLAG_ZERO_PAD = 16"
definition FLAG_UPPERCASE :: u32 where "FLAG_UPPERCASE = 32"

lemmas format_flags = FLAG_LEFT_JUSTIFY_def FLAG_PLUS_SIGN_def FLAG_SPACE_def FLAG_HASH_def FLAG_ZERO_PAD_def FLAG_UPPERCASE_def

abbreviation ch :: "char \<Rightarrow> u8" where "ch \<equiv> of_char"

abbreviation flagged :: "u32 \<Rightarrow> u32 \<Rightarrow> bool" where "flagged flags f \<equiv> flags AND f \<noteq> 0"

definition is_digit :: "char \<Rightarrow> bool" where
  "is_digit c \<longleftrightarrow> ch CHR ''0'' \<le> ch c \<and> ch c \<le> ch CHR ''9''"

definition to_digit :: "char \<Rightarrow> u32" where
  "to_digit c = ucast (ch c) - ucast (ch CHR ''0'')"

text \<open>One guarded store, \<open>if (written < size) str[written++] = c\<close>, on the memory and the position.\<close>

definition put :: "u64 \<Rightarrow> nat \<Rightarrow> u8 \<Rightarrow> mem \<times> nat \<Rightarrow> mem \<times> nat" where
  "put str n c x = (if snd x < n then ((fst x)(str + of_nat (snd x) := c), Suc (snd x)) else x)"

primrec pad_loop :: "u64 \<Rightarrow> nat \<Rightarrow> u8 \<Rightarrow> nat \<Rightarrow> mem \<times> nat \<Rightarrow> mem \<times> nat" where
  "pad_loop str n c 0 x = x"
| "pad_loop str n c (Suc k) x = (if snd x < n then pad_loop str n c k (put str n c x) else x)"

definition digit_char :: "bool \<Rightarrow> nat \<Rightarrow> u8" where
  "digit_char upper d = ch ((if upper then ''0123456789ABCDEF'' else ''0123456789abcdef'') ! d)"

text \<open>The digits in reverse order; the loop ends because every caller passes a base of at least 8.\<close>

fun reverse_digits :: "bool \<Rightarrow> nat \<Rightarrow> nat \<Rightarrow> u8 list" where
  "reverse_digits upper base num =
     (if num = 0 \<or> base < 2 then [] else digit_char upper (num mod base) # reverse_digits upper base (num div base))"

declare reverse_digits.simps [simp del]

definition digit_buffer :: "bool \<Rightarrow> nat \<Rightarrow> nat \<Rightarrow> u8 list" where
  "digit_buffer upper base num = (if num = 0 then [ch CHR ''0''] else reverse_digits upper base num)"

text \<open>The prefix of a hexadecimal number, written only when both characters fit, and the sign.\<close>

definition put_prefix :: "u64 \<Rightarrow> nat \<Rightarrow> u32 \<Rightarrow> mem \<times> nat \<Rightarrow> mem \<times> nat" where
  "put_prefix str n flags x =
     put str n (if flagged flags FLAG_UPPERCASE then ch CHR ''X'' else ch CHR ''x'') (put str n (ch CHR ''0'') x)"

definition sign_char :: "u32 \<Rightarrow> u8 option" where
  "sign_char flags =
     (if flagged flags FLAG_PLUS_SIGN then Some (ch CHR ''+'') else if flagged flags FLAG_SPACE then Some (ch CHR '' '') else None)"

definition put_sign :: "u64 \<Rightarrow> nat \<Rightarrow> u8 option \<Rightarrow> mem \<times> nat \<Rightarrow> mem \<times> nat" where
  "put_sign str n sign x = (case sign of None \<Rightarrow> x | Some c \<Rightarrow> put str n c x)"

definition write_num :: "u64 \<Rightarrow> nat \<Rightarrow> u64 \<Rightarrow> nat \<Rightarrow> u32 \<Rightarrow> u32 \<Rightarrow> u32 \<Rightarrow> mem \<Rightarrow> u32 \<times> mem" where
  "write_num str n num base width prec flags m =
     (let buffer = digit_buffer (flagged flags FLAG_UPPERCASE) base (unat num);
          prefixed = (flagged flags FLAG_HASH \<and> base = 16);
          sign = sign_char flags;
          len = of_nat (length buffer) + (if prefixed then 2 else 0) + (if sign \<noteq> None then 1 else 0) :: u32;
          padding = (if sint len < sint width then width - len else 0);
          total_len = len + padding;
          left = flagged flags FLAG_LEFT_JUSTIFY;
          zero = flagged flags FLAG_ZERO_PAD;
          (x1, sign1, prefixed1) =
            (if \<not> left
             then let (xz, signz, prefixedz) =
                        (if zero
                         then let (xs, ss) = (if sign \<noteq> None \<and> 0 < n then (put_sign str n sign (m, 0), None) else ((m, 0), sign));
                                  (xp, pp) = (if prefixed \<and> snd xs + 1 < n then (put_prefix str n flags xs, False) else (xs, prefixed))
                              in (xp, ss, pp)
                         else ((m, 0), sign, prefixed))
                  in (pad_loop str n (if zero then ch CHR ''0'' else ch CHR '' '') (unat padding) xz, signz, prefixedz)
             else ((m, 0), sign, prefixed));
          x2 = put_sign str n sign1 x1;
          x3 = (if prefixed1 \<and> snd x2 + 1 < n then put_prefix str n flags x2 else x2);
          x4 = fold (put str n) (rev buffer) x3;
          x5 = (if left then pad_loop str n (ch CHR '' '') (unat padding) x4 else x4)
      in (total_len, fst x5))"

text \<open>The characters of a string argument; the null pointer stands for the text \<open>(null)\<close>.\<close>

definition string_byte :: "mem \<Rightarrow> u64 \<Rightarrow> u64 \<Rightarrow> u8" where
  "string_byte m src i = (if src = 0 then (if i < 6 then ch (''(null)'' ! unat i) else 0) else m (src + i))"

partial_function (option) bounded_len :: "mem \<Rightarrow> u64 \<Rightarrow> u32 \<Rightarrow> u64 \<Rightarrow> u64 option" where
  "bounded_len m src prec len =
     (if string_byte m src len \<noteq> 0 \<and> (sint prec < 0 \<or> len < scast prec) then bounded_len m src prec (len + 1) else Some len)"

definition write_string :: "u64 \<Rightarrow> nat \<Rightarrow> u64 \<Rightarrow> u32 \<Rightarrow> u32 \<Rightarrow> u32 \<Rightarrow> mem \<Rightarrow> (u32 \<times> mem) option" where
  "write_string dest n src width prec flags m =
     (case bounded_len m src prec 0 of
        None \<Rightarrow> None
      | Some len \<Rightarrow>
          let padding = (if sint (ucast len :: u32) < sint width then width - ucast len else 0);
              total_len = ucast len + padding;
              left = flagged flags FLAG_LEFT_JUSTIFY;
              x1 = (if \<not> left then pad_loop dest n (if flagged flags FLAG_ZERO_PAD then ch CHR ''0'' else ch CHR '' '') (unat padding) (m, 0) else (m, 0));
              x2 = fold (\<lambda>i x. put dest n (string_byte (fst x) src (of_nat i)) x) [0..<unat len] x1;
              x3 = (if left then pad_loop dest n (ch CHR '' '') (unat padding) x2 else x2)
          in Some (total_len, fst x3))"

section \<open>Directives\<close>

fun va_arg :: "u64 list \<Rightarrow> (u64 \<times> u64 list) option" where
  "va_arg [] = None"
| "va_arg (a # as) = Some (a, as)"

datatype length_modifier = LENGTH_NONE | LENGTH_HH | LENGTH_H | LENGTH_L | LENGTH_LL | LENGTH_J | LENGTH_Z | LENGTH_T | LENGTH_CAPITAL_L

fun parse_flags :: "u32 \<Rightarrow> string \<Rightarrow> u32 \<times> string" where
  "parse_flags flags [] = (flags, [])"
| "parse_flags flags (c # cs) =
     (if c = CHR ''-'' then parse_flags (flags OR FLAG_LEFT_JUSTIFY) cs
      else if c = CHR ''+'' then parse_flags (flags OR FLAG_PLUS_SIGN) cs
      else if c = CHR '' '' then parse_flags (flags OR FLAG_SPACE) cs
      else if c = CHR ''#'' then parse_flags (flags OR FLAG_HASH) cs
      else if c = CHR ''0'' then parse_flags (flags OR FLAG_ZERO_PAD) cs
      else (flags, c # cs))"

fun parse_number :: "u32 \<Rightarrow> string \<Rightarrow> u32 \<times> string" where
  "parse_number v [] = (v, [])"
| "parse_number v (c # cs) = (if is_digit c then parse_number (v * 10 + to_digit c) cs else (v, c # cs))"

definition starts :: "char \<Rightarrow> string \<Rightarrow> bool" where
  "starts c cs \<longleftrightarrow> cs \<noteq> [] \<and> hd cs = c"

definition parse_width :: "u32 \<Rightarrow> string \<Rightarrow> u64 list \<Rightarrow> (u32 \<times> u32 \<times> string \<times> u64 list) option" where
  "parse_width flags cs args =
     (if starts CHR ''*'' cs
      then map_option (\<lambda>(a, args'). let width = ucast a :: u32
             in if sint width < 0 then (flags OR FLAG_LEFT_JUSTIFY, - width, tl cs, args') else (flags, width, tl cs, args')) (va_arg args)
      else let (width, rest) = parse_number 0 cs in Some (flags, width, rest, args))"

definition parse_precision :: "string \<Rightarrow> u64 list \<Rightarrow> (u32 \<times> string \<times> u64 list) option" where
  "parse_precision cs args =
     (if starts CHR ''.'' cs
      then if starts CHR ''*'' (tl cs) then map_option (\<lambda>(a, args'). (ucast a, tl (tl cs), args')) (va_arg args)
           else let (prec, rest) = parse_number 0 (tl cs) in Some (prec, rest, args)
      else Some (- 1, cs, args))"

definition parse_length :: "string \<Rightarrow> length_modifier \<times> string" where
  "parse_length cs =
     (if starts CHR ''h'' cs then if starts CHR ''h'' (tl cs) then (LENGTH_HH, tl (tl cs)) else (LENGTH_H, tl cs)
      else if starts CHR ''l'' cs then if starts CHR ''l'' (tl cs) then (LENGTH_LL, tl (tl cs)) else (LENGTH_L, tl cs)
      else if starts CHR ''j'' cs then (LENGTH_J, tl cs)
      else if starts CHR ''z'' cs then (LENGTH_Z, tl cs)
      else if starts CHR ''t'' cs then (LENGTH_T, tl cs)
      else if starts CHR ''L'' cs then (LENGTH_CAPITAL_L, tl cs)
      else (LENGTH_NONE, cs))"

record directive =
  d_flags :: u32
  d_width :: u32
  d_precision :: u32
  d_length :: length_modifier

text \<open>What stands between the percent sign and the conversion character.\<close>

definition parse_directive :: "string \<Rightarrow> u64 list \<Rightarrow> (directive \<times> string \<times> u64 list) option" where
  "parse_directive cs args =
     (let (flags0, cs1) = parse_flags 0 cs
      in case parse_width flags0 cs1 args of
           None \<Rightarrow> None
         | Some (flags, width, cs2, args1) \<Rightarrow>
             (case parse_precision cs2 args1 of
                None \<Rightarrow> None
              | Some (prec, cs3, args2) \<Rightarrow>
                  let (len, cs4) = parse_length cs3
                  in Some (\<lparr>d_flags = flags, d_width = width, d_precision = prec, d_length = len\<rparr>, cs4, args2)))"

definition signed_arg :: "length_modifier \<Rightarrow> u64 \<Rightarrow> u64" where
  "signed_arg len a =
     (case len of
        LENGTH_HH \<Rightarrow> scast (ucast a :: u8)
      | LENGTH_H \<Rightarrow> scast (ucast a :: u16)
      | LENGTH_NONE \<Rightarrow> scast (ucast a :: u32)
      | LENGTH_CAPITAL_L \<Rightarrow> scast (ucast a :: u32)
      | _ \<Rightarrow> a)"

definition unsigned_arg :: "length_modifier \<Rightarrow> u64 \<Rightarrow> u64" where
  "unsigned_arg len a =
     (case len of
        LENGTH_HH \<Rightarrow> ucast (ucast a :: u8)
      | LENGTH_H \<Rightarrow> ucast (ucast a :: u16)
      | LENGTH_NONE \<Rightarrow> ucast (ucast a :: u32)
      | LENGTH_CAPITAL_L \<Rightarrow> ucast (ucast a :: u32)
      | _ \<Rightarrow> a)"

text \<open>The bytes stored by \<open>%n\<close>: the count, at the width of the target.\<close>

definition count_bytes :: "length_modifier \<Rightarrow> u32 \<Rightarrow> u8 list" where
  "count_bytes len total_written =
     (let k = (case len of LENGTH_HH \<Rightarrow> 1 | LENGTH_H \<Rightarrow> 2 | LENGTH_NONE \<Rightarrow> 4 | LENGTH_CAPITAL_L \<Rightarrow> 4 | _ \<Rightarrow> 8)
      in map (\<lambda>i. ucast (drop_bit (8 * i) (scast total_written :: u64))) [0..<k])"

fun store_bytes :: "u64 \<Rightarrow> u8 list \<Rightarrow> mem \<Rightarrow> mem" where
  "store_bytes p [] m = m"
| "store_bytes p (b # bs) m = store_bytes (p + 1) bs (m(p := b))"

text \<open>The state of the formatting loop: memory, \<open>written\<close> and \<open>total_written\<close>.\<close>

type_synonym fmt_state = "mem \<times> nat \<times> u32"

definition out_char :: "u64 \<Rightarrow> nat \<Rightarrow> u8 \<Rightarrow> fmt_state \<Rightarrow> fmt_state" where
  "out_char str max_size c s =
     (case s of (m, w, t) \<Rightarrow> let x = put str max_size c (m, w) in (fst x, snd x, t + 1))"

primrec space_loop :: "u64 \<Rightarrow> nat \<Rightarrow> nat \<Rightarrow> fmt_state \<Rightarrow> fmt_state" where
  "space_loop str max_size 0 s = s"
| "space_loop str max_size (Suc k) s =
     (if fst (snd s) < max_size then space_loop str max_size k (out_char str max_size (ch CHR '' '') s) else s)"

definition advance :: "nat \<Rightarrow> fmt_state \<Rightarrow> u32 \<times> mem \<Rightarrow> fmt_state" where
  "advance max_size s r =
     (case s of (_, w, t) \<Rightarrow> (snd r, w + min (unat (scast (fst r) :: u64)) (max_size - w), t + fst r))"

definition convert_number :: "u64 \<Rightarrow> nat \<Rightarrow> directive \<Rightarrow> u32 \<Rightarrow> u64 \<Rightarrow> nat \<Rightarrow> fmt_state \<Rightarrow> fmt_state" where
  "convert_number str max_size d flags num base s =
     (case s of (m, w, t) \<Rightarrow>
        advance max_size s (write_num (str + of_nat w) (max_size - w) num base (d_width d) (d_precision d) flags m))"

definition convert_signed :: "u64 \<Rightarrow> nat \<Rightarrow> directive \<Rightarrow> u64 \<Rightarrow> fmt_state \<Rightarrow> fmt_state" where
  "convert_signed str max_size d a s =
     (let num = signed_arg (d_length d) a
      in if sint num < 0
         then convert_number str max_size d (d_flags d AND NOT (FLAG_PLUS_SIGN OR FLAG_SPACE)) (- num) 10 (out_char str max_size (ch CHR ''-'') s)
         else convert_number str max_size d (d_flags d) num 10 s)"

definition convert_char :: "u64 \<Rightarrow> nat \<Rightarrow> directive \<Rightarrow> u64 \<Rightarrow> fmt_state \<Rightarrow> fmt_state" where
  "convert_char str max_size d a s =
     (let left = flagged (d_flags d) FLAG_LEFT_JUSTIFY;
          k = (if 0 < sint (d_width d - 1) then unat (d_width d - 1) else 0);
          s1 = (if \<not> left then space_loop str max_size k s else s);
          s2 = out_char str max_size (ucast a) s1;
          k2 = (if left then k else 0)
      in space_loop str max_size k2 s2)"

definition convert_string :: "u64 \<Rightarrow> nat \<Rightarrow> directive \<Rightarrow> u64 \<Rightarrow> fmt_state \<Rightarrow> fmt_state option" where
  "convert_string str max_size d a s =
     (case s of (m, w, t) \<Rightarrow>
        map_option (advance max_size s) (write_string (str + of_nat w) (max_size - w) a (d_width d) (d_precision d) (d_flags d) m))"

definition store_count :: "directive \<Rightarrow> u64 \<Rightarrow> fmt_state \<Rightarrow> fmt_state" where
  "store_count d a s = (case s of (m, w, t) \<Rightarrow> (store_bytes a (count_bytes (d_length d) t) m, w, t))"

definition convert :: "u64 \<Rightarrow> nat \<Rightarrow> char \<Rightarrow> directive \<Rightarrow> u64 list \<Rightarrow> fmt_state \<Rightarrow> (fmt_state \<times> u64 list) option" where
  "convert str max_size c d args s =
     (if c \<in> set ''diuoxXcspn''
      then case va_arg args of
             None \<Rightarrow> None
           | Some (a, args') \<Rightarrow>
               map_option (\<lambda>s'. (s', args'))
                 (if c = CHR ''d'' \<or> c = CHR ''i'' then Some (convert_signed str max_size d a s)
                  else if c = CHR ''u'' then Some (convert_number str max_size d (d_flags d) (unsigned_arg (d_length d) a) 10 s)
                  else if c = CHR ''o'' then Some (convert_number str max_size d (d_flags d) (unsigned_arg (d_length d) a) 8 s)
                  else if c = CHR ''x'' then Some (convert_number str max_size d (d_flags d) (unsigned_arg (d_length d) a) 16 s)
                  else if c = CHR ''X'' then Some (convert_number str max_size d (d_flags d OR FLAG_UPPERCASE) (unsigned_arg (d_length d) a) 16 s)
                  else if c = CHR ''c'' then Some (convert_char str max_size d a s)
                  else if c = CHR ''s'' then convert_string str max_size d a s
                  else if c = CHR ''p'' then Some (convert_number str max_size d (d_flags d OR FLAG_HASH) a 16 s)
                  else Some (store_count d a s))
      else Some (out_char str max_size (ch c) (out_char str max_size (ch CHR ''%'') s), args))"

lemma parse_flags_length: "length (snd (parse_flags flags cs)) \<le> length cs"
  by (induction flags cs rule: parse_flags.induct) auto

lemma parse_number_length: "length (snd (parse_number v cs)) \<le> length cs"
  by (induction v cs rule: parse_number.induct) auto

lemma parse_directive_length:
  assumes "parse_directive cs args = Some (d, rest, args')"
  shows "length rest \<le> length cs"
proof -
  have w: "length r \<le> length cs" if "parse_width f cs as = Some (f', v, r, as')" for f cs as f' v r as'
    using that parse_number_length [of 0 cs] by (auto simp: parse_width_def Let_def split: if_splits prod.splits)
  have p: "length r \<le> length cs" if "parse_precision cs as = Some (v, r, as')" for cs as v r as'
    using that parse_number_length [of 0 "tl cs"] by (auto simp: parse_precision_def Let_def split: if_splits prod.splits)
  have l: "length (snd (parse_length cs)) \<le> length cs" for cs by (simp add: parse_length_def)
  show ?thesis using assms parse_flags_length [of 0 cs]
    by (auto simp: parse_directive_def Let_def split: option.splits prod.splits dest!: w p) (metis l le_trans snd_conv)
qed

function fmt_loop :: "u64 \<Rightarrow> nat \<Rightarrow> string \<Rightarrow> u64 list \<Rightarrow> fmt_state \<Rightarrow> fmt_state option" where
  "fmt_loop str max_size fmt args s =
     (case fmt of
        [] \<Rightarrow> Some s
      | c # cs \<Rightarrow>
          if c \<noteq> CHR ''%'' then fmt_loop str max_size cs args (out_char str max_size (ch c) s)
          else if starts CHR ''%'' cs then fmt_loop str max_size (tl cs) args (out_char str max_size (ch CHR ''%'') s)
          else case parse_directive cs args of
                 None \<Rightarrow> None
               | Some (d, rest, args1) \<Rightarrow>
                   (case rest of
                      [] \<Rightarrow> Some s
                    | conv # rest' \<Rightarrow>
                        (case convert str max_size conv d args1 s of
                           None \<Rightarrow> None
                         | Some (s', args2) \<Rightarrow> fmt_loop str max_size rest' args2 s')))"
  by pat_completeness auto
termination
  by (relation "measure (\<lambda>(_, _, fmt, _, _). length fmt)") (auto dest: parse_directive_length)

declare fmt_loop.simps [simp del]

lemma fmt_loop_simps:
  "fmt_loop str n [] args s = Some s"
  "c \<noteq> CHR ''%'' \<Longrightarrow> fmt_loop str n (c # cs) args s = fmt_loop str n cs args (out_char str n (ch c) s)"
  "starts CHR ''%'' cs \<Longrightarrow> fmt_loop str n (CHR ''%'' # cs) args s = fmt_loop str n (tl cs) args (out_char str n (ch CHR ''%'') s)"
  "\<not> starts CHR ''%'' cs \<Longrightarrow> fmt_loop str n (CHR ''%'' # cs) args s =
     Option.bind (parse_directive cs args) (\<lambda>(d, rest, args1).
       case rest of [] \<Rightarrow> Some s
       | conv # rest' \<Rightarrow> Option.bind (convert str n conv d args1 s) (\<lambda>(s', args2). fmt_loop str n rest' args2 s'))"
  by (subst fmt_loop.simps, simp split: option.split list.split)+

definition vsnprintf :: "u64 \<Rightarrow> u64 \<Rightarrow> string option \<Rightarrow> u64 list \<Rightarrow> mem \<Rightarrow> (u32 \<times> mem) option" where
  "vsnprintf str n format args m =
     (if format = None \<or> str = 0 \<or> n = 0 then Some (- 1, m)
      else case fmt_loop str (unat (n - 1)) (the format) args (m, 0, 0) of
             None \<Rightarrow> None
           | Some (m', written, total_written) \<Rightarrow> Some (total_written, m'(str + of_nat written := 0)))"

definition snprintf :: "u64 \<Rightarrow> u64 \<Rightarrow> string option \<Rightarrow> u64 list \<Rightarrow> mem \<Rightarrow> (u32 \<times> mem) option" where
  "snprintf str n format args m = vsnprintf str n format args m"

section \<open>Standard streams\<close>

text \<open>
  The registered functions are addresses, zero the null pointer; \<open>calls\<close> records the calls made to them, the latest first.
  What they return is the parameter \<open>answer\<close>.
\<close>

record stdio =
  stdin_getchar_func :: u64
  stdout_putchar_func :: u64
  stderr_putchar_func :: u64
  stdio_mem :: mem
  calls :: "(u64 \<times> u32 option) list"

definition call_func :: "u64 \<Rightarrow> u32 option \<Rightarrow> 'a stdio_scheme \<Rightarrow> 'a stdio_scheme" where
  "call_func f arg s = s\<lparr>calls := (f, arg) # calls s\<rparr>"

definition stdio_set_stdin_getchar :: "u64 \<Rightarrow> 'a stdio_scheme \<Rightarrow> 'a stdio_scheme" where
  "stdio_set_stdin_getchar func s = s\<lparr>stdin_getchar_func := func\<rparr>"

definition stdio_set_stdout_putchar :: "u64 \<Rightarrow> 'a stdio_scheme \<Rightarrow> 'a stdio_scheme" where
  "stdio_set_stdout_putchar func s = s\<lparr>stdout_putchar_func := func\<rparr>"

definition stdio_set_stderr_putchar :: "u64 \<Rightarrow> 'a stdio_scheme \<Rightarrow> 'a stdio_scheme" where
  "stdio_set_stderr_putchar func s = s\<lparr>stderr_putchar_func := func\<rparr>"

definition getchar :: "(u64 \<Rightarrow> u32 option \<Rightarrow> u32) \<Rightarrow> 'a stdio_scheme \<Rightarrow> u32 \<times> 'a stdio_scheme" where
  "getchar answer s =
     (if stdin_getchar_func s \<noteq> 0 then (answer (stdin_getchar_func s) None, call_func (stdin_getchar_func s) None s) else (- 1, s))"

definition putchar :: "(u64 \<Rightarrow> u32 option \<Rightarrow> u32) \<Rightarrow> u32 \<Rightarrow> 'a stdio_scheme \<Rightarrow> u32 \<times> 'a stdio_scheme" where
  "putchar answer c s =
     (if stdout_putchar_func s \<noteq> 0 then (answer (stdout_putchar_func s) (Some c), call_func (stdout_putchar_func s) (Some c) s) else (- 1, s))"

text \<open>The loops over a terminated string: every character is passed as a signed \<open>char\<close> to the action.\<close>

partial_function (option) each_char :: "(u32 \<Rightarrow> 'a stdio_scheme \<Rightarrow> 'a stdio_scheme) \<Rightarrow> u64 \<Rightarrow> u32 \<Rightarrow> 'a stdio_scheme \<Rightarrow> (u32 \<times> 'a stdio_scheme) option" where
  "each_char act p count s =
     (if stdio_mem s p \<noteq> 0 then each_char act (p + 1) (count + 1) (act (scast (stdio_mem s p)) s) else Some (count, s))"

definition puts :: "u64 \<Rightarrow> 'a stdio_scheme \<Rightarrow> (u32 \<times> 'a stdio_scheme) option" where
  "puts str s =
     (if str = 0 \<or> stdout_putchar_func s = 0 then Some (- 1, s)
      else map_option (\<lambda>(count, s1). (count + 1, call_func (stdout_putchar_func s1) (Some 10) s1))
             (each_char (\<lambda>c s. call_func (stdout_putchar_func s) (Some c) s) str 0 s))"

text \<open>\<open>buffer\<close> is the address of the static buffer of 1024 bytes of the function.\<close>

definition print_with :: "u64 \<Rightarrow> (u32 \<Rightarrow> 'a stdio_scheme \<Rightarrow> 'a stdio_scheme) \<Rightarrow> string option \<Rightarrow> u64 list \<Rightarrow> 'a stdio_scheme \<Rightarrow> (u32 \<times> 'a stdio_scheme) option" where
  "print_with buffer act format args s =
     (case vsnprintf buffer 1024 format args (stdio_mem s) of
        None \<Rightarrow> None
      | Some (ret, m) \<Rightarrow>
          let s1 = s\<lparr>stdio_mem := m\<rparr>
          in if 0 < sint ret then map_option (\<lambda>(_, s2). (ret, s2)) (each_char act buffer 0 s1) else Some (ret, s1))"

definition printf :: "u64 \<Rightarrow> (u64 \<Rightarrow> u32 option \<Rightarrow> u32) \<Rightarrow> string option \<Rightarrow> u64 list \<Rightarrow> 'a stdio_scheme \<Rightarrow> (u32 \<times> 'a stdio_scheme) option" where
  "printf buffer answer format args s = print_with buffer (\<lambda>c s. snd (putchar answer c s)) format args s"

definition fd_putchar :: "u32 \<Rightarrow> u32 \<Rightarrow> 'a stdio_scheme \<Rightarrow> 'a stdio_scheme" where
  "fd_putchar fd c s =
     (if fd = 1 then (if stdout_putchar_func s \<noteq> 0 then call_func (stdout_putchar_func s) (Some c) s else s)
      else if fd = 2 then (if stderr_putchar_func s \<noteq> 0 then call_func (stderr_putchar_func s) (Some c) s else s)
      else s)"

definition fprintf :: "u64 \<Rightarrow> u32 \<Rightarrow> string option \<Rightarrow> u64 list \<Rightarrow> 'a stdio_scheme \<Rightarrow> (u32 \<times> 'a stdio_scheme) option" where
  "fprintf buffer fd format args s = print_with buffer (fd_putchar fd) format args s"

section \<open>Stores stay in the buffer\<close>

definition frame :: "u64 \<Rightarrow> nat \<Rightarrow> mem \<Rightarrow> mem \<Rightarrow> bool" where
  "frame str n m m' \<longleftrightarrow> (\<forall>a. (\<forall>i<n. a \<noteq> str + of_nat i) \<longrightarrow> m' a = m a)"

lemma frame_refl [simp]: "frame str n m m"
  by (simp add: frame_def)

lemma frame_trans: "frame str n m m1 \<Longrightarrow> frame str n m1 m2 \<Longrightarrow> frame str n m m2"
  by (simp add: frame_def)

lemma frame_sub: "frame (str + of_nat w) (n - w) m m' \<Longrightarrow> frame str n m m'"
  unfolding frame_def
proof (intro allI impI)
  fix a
  assume f: "\<forall>a. (\<forall>i<n - w. a \<noteq> str + of_nat w + of_nat i) \<longrightarrow> m' a = m a" and a: "\<forall>i<n. a \<noteq> str + of_nat i"
  have "a \<noteq> str + of_nat w + of_nat i" if "i < n - w" for i
    using a [rule_format, of "w + i"] that by (simp add: add.assoc)
  with f show "m' a = m a" by blast
qed

lemma frame_put: "frame str n m (fst x) \<Longrightarrow> frame str n m (fst (put str n c x))"
  by (auto simp: put_def frame_def)

lemma frame_pad: "frame str n m (fst x) \<Longrightarrow> frame str n m (fst (pad_loop str n c k x))"
  by (induction k arbitrary: x) (simp_all add: frame_put)

lemma frame_fold: "frame str n m (fst x) \<Longrightarrow> frame str n m (fst (fold (\<lambda>i x. put str n (h i x) x) is x))"
  by (induction "is" arbitrary: x) (simp_all add: frame_put)

lemma write_string_frame:
  "write_string dest n src width prec flags m = Some r \<Longrightarrow> frame dest n m (snd r)"
  by (auto simp: write_string_def Let_def split: option.splits if_splits intro!: frame_fold frame_pad)

section \<open>Text of a number\<close>

text \<open>The output so far as a list: what exceeds the buffer is not stored.\<close>

definition emit :: "u64 \<Rightarrow> nat \<Rightarrow> mem \<Rightarrow> u8 list \<Rightarrow> mem \<times> nat" where
  "emit str n m xs = (poke str (take n xs) m, length (take n xs))"

lemma poke_append: "poke d (xs @ ys) m = poke (d + of_nat (length xs)) ys (poke d xs m)"
  by (induction xs arbitrary: d m) (simp_all add: algebra_simps)

lemma emit_Nil: "(m, 0) = emit str n m []"
  by (simp add: emit_def)

lemma put_emit: "put str n c (emit str n m xs) = emit str n m (xs @ [c])"
proof (cases "length xs < n")
  case True
  then show ?thesis by (simp add: put_def emit_def poke_append)
next
  case False
  then show ?thesis by (simp add: put_def emit_def)
qed

lemma pad_emit: "pad_loop str n c k (emit str n m xs) = emit str n m (xs @ replicate k c)"
proof (induction k arbitrary: xs)
  case (Suc k)
  show ?case
  proof (cases "length xs < n")
    case True
    then show ?thesis using Suc [of "xs @ [c]"] by (simp add: put_emit) (simp add: emit_def)
  next
    case False
    then show ?thesis by (simp add: emit_def)
  qed
qed simp

lemma fold_emit: "fold (put str n) cs (emit str n m xs) = emit str n m (xs @ cs)"
  by (induction cs arbitrary: xs) (simp_all add: put_emit)

lemma sign_emit: "put_sign str n sign (emit str n m xs) = emit str n m (xs @ (case sign of None \<Rightarrow> [] | Some c \<Rightarrow> [c]))"
  by (simp add: put_sign_def put_emit split: option.split)

definition prefix_text :: "u32 \<Rightarrow> u8 list" where
  "prefix_text flags = [ch CHR ''0'', if flagged flags FLAG_UPPERCASE then ch CHR ''X'' else ch CHR ''x'']"

lemma prefix_emit: "put_prefix str n flags (emit str n m xs) = emit str n m (xs @ prefix_text flags)"
  by (simp add: put_prefix_def put_emit prefix_text_def)

lemma snd_emit: "Suc (snd (emit str n m xs)) < n \<longleftrightarrow> Suc (length xs) < n"
  by (auto simp: emit_def)

lemmas emits = put_emit pad_emit fold_emit sign_emit prefix_emit snd_emit

text \<open>The complete field: digits, sign, prefix and padding to the width.\<close>

definition pad_count :: "u32 \<Rightarrow> nat \<Rightarrow> nat" where
  "pad_count width k = (if int k < sint width then unat width - k else 0)"

definition num_field :: "(nat \<Rightarrow> bool) \<Rightarrow> nat \<Rightarrow> nat \<Rightarrow> u32 \<Rightarrow> u32 \<Rightarrow> u8 list" where
  "num_field fits num base width flags =
     (let ds = rev (digit_buffer (flagged flags FLAG_UPPERCASE) base num);
          sg = (case sign_char flags of None \<Rightarrow> [] | Some c \<Rightarrow> [c]);
          p = (if flagged flags FLAG_HASH \<and> base = 16 then prefix_text flags else []);
          k = pad_count width (length ds + length sg + length p);
          p' = (\<lambda>w. if fits w then p else [])
      in if flagged flags FLAG_LEFT_JUSTIFY then sg @ p' (length sg) @ ds @ replicate k (ch CHR '' '')
         else if flagged flags FLAG_ZERO_PAD then sg @ p' (length sg) @ replicate k (ch CHR ''0'') @ ds
         else replicate k (ch CHR '' '') @ sg @ p' (k + length sg) @ ds)"

abbreviation num_text :: "nat \<Rightarrow> nat \<Rightarrow> u32 \<Rightarrow> u32 \<Rightarrow> u8 list" where
  "num_text \<equiv> num_field (\<lambda>_. True)"

lemma reverse_digits_length: "num < 2 ^ k \<Longrightarrow> length (reverse_digits upper base num) \<le> k"
proof (induction upper base num arbitrary: k rule: reverse_digits.induct)
  case (1 upper base num)
  show ?case
  proof (cases "num = 0 \<or> base < 2")
    case False
    obtain j where k: "k = Suc j" using False 1(2) by (cases k) auto
    have "num div base \<le> num div 2" using False by (simp add: div_le_mono2)
    also have "\<dots> < 2 ^ j" using 1(2) k by simp
    finally have "length (reverse_digits upper base (num div base)) \<le> j" using 1(1) [OF False] by blast
    then show ?thesis using k by (subst reverse_digits.simps) simp
  qed (simp add: reverse_digits.simps)
qed

lemma digit_buffer_length: "num < 2 ^ 64 \<Longrightarrow> length (digit_buffer upper base num) \<le> 64"
  using reverse_digits_length [of num 64 upper base] by (simp add: digit_buffer_def)

lemma padding_nat:
  assumes "k < 2 ^ 31"
  shows "unat (if sint (of_nat k :: u32) < sint width then width - of_nat k else 0) = pad_count width k"
    "(of_nat k + (if sint (of_nat k :: u32) < sint width then width - of_nat k else 0) :: u32) = of_nat (k + pad_count width k)"
    "k + pad_count width k < 2 ^ 31"
proof -
  have k: "sint (of_nat k :: u32) = int k" using assms by (simp add: signed_of_nat signed_take_bit_int_eq_self)
  have w: "k < unat width \<and> unat width < 2 ^ 31 \<and> unat (of_nat k :: u32) = k" if "int k < sint width"
  proof -
    have "\<not> bit width 31" using that bit_last_iff [of width] by simp
    have "sint width = uint width"
    proof (rule bit_eqI)
      fix j
      show "bit (sint width) j = bit (uint width) j"
        using \<open>\<not> bit width 31\<close> by (cases "j < 31"; cases "j = 31") (auto simp: bit_simps min_def dest: bit_imp_le_length)
    qed
    then have "sint width = int (unat width)" by simp
    moreover have "sint width < 2 ^ 31" using sint_less [of width] by simp
    ultimately have "int k < int (unat width)" "int (unat width) < int (2 ^ 31)" using that by simp_all
    then have "k < unat width" "unat width < 2 ^ 31" by (simp_all only: of_nat_less_iff)
    then show ?thesis using assms by (simp add: unat_of_nat)
  qed
  then show "unat (if sint (of_nat k :: u32) < sint width then width - of_nat k else 0) = pad_count width k"
    by (auto simp: k pad_count_def unat_sub word_le_nat_alt)
  show "(of_nat k + (if sint (of_nat k :: u32) < sint width then width - of_nat k else 0) :: u32) = of_nat (k + pad_count width k)"
    using w by (auto simp: k pad_count_def)
  show "k + pad_count width k < 2 ^ 31" using w assms by (auto simp: pad_count_def)
qed

text \<open>
  \<open>write_num\<close> stores the field, cut at the end of the buffer, and returns its length. The prefix is left
  out when there is no room for both of its characters.
\<close>

lemma write_num_emit:
  "write_num str n num base width prec flags m =
     (of_nat (length (num_text (unat num) base width flags)), fst (emit str n m (num_field (\<lambda>w. w + 1 < n) (unat num) base width flags)))"
  and num_text_length: "length (num_text (unat num) base width flags) < 2 ^ 31"
proof -
  define ds where "ds = digit_buffer (flagged flags FLAG_UPPERCASE) base (unat num)"
  define p where "p = (if flagged flags FLAG_HASH \<and> base = 16 then prefix_text flags else [])"
  define sg where "sg = (case sign_char flags of None \<Rightarrow> [] | Some c \<Rightarrow> [c])"
  let ?k = "length ds + length sg + length p"
  have "length ds \<le> 64" unfolding ds_def using unsigned_less [of num] by (intro digit_buffer_length) simp
  then have k: "?k < 2 ^ 31" by (simp add: p_def sg_def prefix_text_def split: option.split)
  have len: "(of_nat (length ds) + (if flagged flags FLAG_HASH \<and> base = 16 then 2 else 0) + (if sign_char flags \<noteq> None then 1 else 0) :: u32) = of_nat ?k"
    by (simp add: p_def sg_def prefix_text_def split: option.split)
  have full: "length (num_text (unat num) base width flags) = ?k + pad_count width ?k"
    by (simp add: num_field_def Let_def ds_def [symmetric] p_def [symmetric] sg_def [symmetric])
  then show "length (num_text (unat num) base width flags) < 2 ^ 31" using padding_nat(3) [OF k] by simp
  note pad = padding_nat [OF k, of width]
  show "write_num str n num base width prec flags m =
     (of_nat (length (num_text (unat num) base width flags)), fst (emit str n m (num_field (\<lambda>w. w + 1 < n) (unat num) base width flags)))"
  proof (cases "n = 0")
    case True
    have "put_sign str 0 s x = x" "put str 0 c x = x" "pad_loop str 0 c j x = x" "fold (put str 0) cs x = x" for s c j x cs
      by (simp add: put_sign_def put_def split: option.split, simp add: put_def, cases j, simp, simp, induction cs, simp, simp add: put_def)
    then show ?thesis unfolding full True write_num_def Let_def ds_def [symmetric] len pad
      by (simp add: emit_def)
  next
    case False
    then show ?thesis unfolding full write_num_def Let_def ds_def [symmetric] len pad
      unfolding emit_Nil [of m str n] num_field_def Let_def ds_def [symmetric] p_def [symmetric] sg_def [symmetric]
      by (cases "sign_char flags"; cases "flagged flags FLAG_HASH \<and> base = 16"; cases "flagged flags FLAG_LEFT_JUSTIFY"; cases "flagged flags FLAG_ZERO_PAD")
        (simp_all add: emits p_def sg_def, simp_all add: prefix_text_def, blast+)
  qed
qed

lemma write_num_frame: "frame str n m (snd (write_num str n num base width prec flags m))"
  by (auto simp: write_num_emit emit_def frame_def intro!: poke_outside)

section \<open>Bounds\<close>

text \<open>The conversion characters of a format, found by the parser with two arguments for the widths given by stars.\<close>

function conversions :: "string \<Rightarrow> string" where
  "conversions fmt =
     (case fmt of
        [] \<Rightarrow> []
      | c # cs \<Rightarrow>
          if c \<noteq> CHR ''%'' then conversions cs
          else if starts CHR ''%'' cs then conversions (tl cs)
          else case parse_directive cs [0, 0] of
                 None \<Rightarrow> []
               | Some (d, rest, args1) \<Rightarrow> (case rest of [] \<Rightarrow> [] | conv # rest' \<Rightarrow> conv # conversions rest'))"
  by pat_completeness auto
termination
  by (relation "measure length") (auto dest: parse_directive_length)

declare conversions.simps [simp del]

lemma conversions_simps:
  "c \<noteq> CHR ''%'' \<Longrightarrow> conversions (c # cs) = conversions cs"
  "starts CHR ''%'' cs \<Longrightarrow> conversions (CHR ''%'' # cs) = conversions (tl cs)"
  "\<not> starts CHR ''%'' cs \<Longrightarrow> parse_directive cs [0, 0] = Some (d, conv # rest, as) \<Longrightarrow> conversions (CHR ''%'' # cs) = conv # conversions rest"
  by (subst conversions.simps, simp)+

lemma parse_directive_rest:
  assumes "parse_directive cs args = Some (d, rest, args')"
  shows "\<exists>d' as. parse_directive cs [0, 0] = Some (d', rest, as)"
proof -
  obtain f cs1 where f: "parse_flags 0 cs = (f, cs1)" by fastforce
  obtain f1 w cs2 a1 where w: "parse_width f cs1 args = Some (f1, w, cs2, a1)"
    using assms f by (auto simp: parse_directive_def split: option.splits)
  obtain p cs3 a2 where p: "parse_precision cs2 a1 = Some (p, cs3, a2)"
    using assms f w by (auto simp: parse_directive_def split: option.splits)
  have r: "rest = snd (parse_length cs3)"
    using assms f w p by (auto simp: parse_directive_def split: prod.splits)
  obtain f1' w' a1' where w': "parse_width f cs1 [0, 0] = Some (f1', w', cs2, a1')" "a1' \<noteq> []"
    using w by (auto simp: parse_width_def Let_def split: if_splits prod.splits)
  obtain p' a2' where p': "parse_precision cs2 a1' = Some (p', cs3, a2')"
    using p w'(2) by (cases a1') (auto simp: parse_precision_def Let_def split: if_splits prod.splits)
  show ?thesis using f w' p' r by (auto simp: parse_directive_def split: prod.splits)
qed

definition fmt_ok :: "u64 \<Rightarrow> nat \<Rightarrow> mem \<Rightarrow> fmt_state \<Rightarrow> bool" where
  "fmt_ok str max_size m s \<longleftrightarrow> frame str max_size m (fst s) \<and> fst (snd s) \<le> max_size"

lemma out_char_ok: "fmt_ok str n m s \<Longrightarrow> fmt_ok str n m (out_char str n c s)"
  by (auto simp: fmt_ok_def out_char_def put_def frame_def Let_def split: prod.split)

lemma space_loop_ok: "fmt_ok str n m s \<Longrightarrow> fmt_ok str n m (space_loop str n k s)"
  by (induction k arbitrary: s) (simp_all add: out_char_ok)

lemma advance_ok:
  assumes "fmt_ok str n m (m1, w, t)" "frame (str + of_nat w) (n - w) m1 (snd r)"
  shows "fmt_ok str n m (advance n (m1, w, t) r)"
  using assms frame_sub [OF assms(2)] by (auto simp: fmt_ok_def advance_def intro: frame_trans)

lemma convert_number_ok: "fmt_ok str n m s \<Longrightarrow> fmt_ok str n m (convert_number str n d flags num base s)"
  by (cases s) (simp add: convert_number_def advance_ok write_num_frame)

lemma convert_ok:
  assumes ok: "fmt_ok str n m s" and c: "convert str n c d args s = Some (s', args')" "c \<noteq> CHR ''n''"
  shows "fmt_ok str n m s'"
proof -
  have s: "fmt_ok str n m (convert_signed str n d a s)" for a
    using ok by (simp add: convert_signed_def Let_def convert_number_ok out_char_ok)
  have k: "fmt_ok str n m (convert_char str n d a s)" for a
    using ok by (simp add: convert_char_def Let_def out_char_ok space_loop_ok)
  have t: "pred_option (fmt_ok str n m) (convert_string str n d a s)" for a
    using ok by (cases s) (simp add: convert_string_def pred_option_def option.set_map ball_simps(9) advance_ok write_string_frame)
  have "pred_option (\<lambda>r. fmt_ok str n m (fst r)) (convert str n c d args s)"
    using c(2) ok by (cases args) (simp_all add: convert_def option.pred_map o_def s k t convert_number_ok out_char_ok)
  then show ?thesis using c(1) by simp
qed

lemma fmt_loop_ok:
  "fmt_loop str n fmt args s = Some s' \<Longrightarrow> fmt_ok str n m s \<Longrightarrow> CHR ''n'' \<notin> set (conversions fmt) \<Longrightarrow> fmt_ok str n m s'"
proof (induction str n fmt args s rule: fmt_loop.induct)
  case (1 str n fmt args s)
  show ?case
  proof (cases fmt)
    case Nil
    then show ?thesis using "1.prems" by (simp add: fmt_loop_simps)
  next
    case (Cons c cs)
    consider "c \<noteq> CHR ''%''" | "c = CHR ''%''" "starts CHR ''%'' cs" | "c = CHR ''%''" "\<not> starts CHR ''%'' cs" by blast
    then show ?thesis
    proof cases
      case 1
      have p: "fmt_loop str n cs args (out_char str n (ch c) s) = Some s'" "CHR ''n'' \<notin> set (conversions cs)"
        using "1.prems" 1 Cons by (simp_all add: fmt_loop_simps conversions_simps)
      show ?thesis by (rule "1.IH"(1) [OF Cons 1 p(1) out_char_ok [OF "1.prems"(2)] p(2)])
    next
      case 2
      have p: "fmt_loop str n (tl cs) args (out_char str n (ch CHR ''%'') s) = Some s'" "CHR ''n'' \<notin> set (conversions (tl cs))"
        using "1.prems" 2 Cons by (simp_all add: fmt_loop_simps conversions_simps)
      show ?thesis using "1.IH"(2) [OF Cons _ 2(2) p(1) out_char_ok [OF "1.prems"(2)] p(2)] 2(1) by simp
    next
      case 3
      obtain d rest args1 where d: "parse_directive cs args = Some (d, rest, args1)"
        using "1.prems" 3 Cons by (auto simp: fmt_loop_simps bind_eq_Some_conv)
      then obtain d' as where d': "parse_directive cs [0, 0] = Some (d', rest, as)" using parse_directive_rest by blast
      show ?thesis
      proof (cases rest)
        case Nil
        then show ?thesis using "1.prems" 3 Cons d by (simp add: fmt_loop_simps)
      next
        case (Cons conv rest')
        obtain s1 args2 where s1: "convert str n conv d args1 s = Some (s1, args2)" "fmt_loop str n rest' args2 s1 = Some s'"
          using "1.prems" 3 \<open>fmt = c # cs\<close> Cons d by (auto simp: fmt_loop_simps bind_eq_Some_conv)
        have n: "conv \<noteq> CHR ''n''" "CHR ''n'' \<notin> set (conversions rest')"
          using "1.prems"(3) 3 \<open>fmt = c # cs\<close> Cons d' by (auto simp: conversions_simps)
        show ?thesis using "1.IH"(3) [OF \<open>fmt = c # cs\<close> _ 3(2) d refl refl Cons s1(1) refl s1(2) convert_ok [OF "1.prems"(2) s1(1) n(1)] n(2)] 3(1)
          by simp
      qed
    qed
  qed
qed

text \<open>
  C37. Formatted output stays in its buffer: whatever the format without \<open>%n\<close>, the arguments and the size, when \<open>vsnprintf\<close> returns it has
  changed no byte outside the given region, and the region holds a terminator. The null pointer and the
  empty buffer are refused.
\<close>

theorem vsnprintf_bounds:
  assumes "vsnprintf str n (Some fmt) args m = Some (ret, m')" "CHR ''n'' \<notin> set (conversions fmt)"
  shows "(\<forall>a. (\<forall>i<unat n. a \<noteq> str + of_nat i) \<longrightarrow> m' a = m a) \<and>
    (str = 0 \<or> n = 0 \<longrightarrow> ret = - 1 \<and> m' = m) \<and> (str \<noteq> 0 \<and> n \<noteq> 0 \<longrightarrow> (\<exists>w<unat n. m' (str + of_nat w) = 0))"
proof (cases "str = 0 \<or> n = 0")
  case True
  then show ?thesis using assms(1) by (auto simp: vsnprintf_def)
next
  case False
  then have n: "unat n = Suc (unat (n - 1))" by (simp add: unat_minus_one unat_gt_0)
  obtain m1 w t where r: "fmt_loop str (unat (n - 1)) fmt args (m, 0, 0) = Some (m1, w, t)" "m' = m1(str + of_nat w := 0)"
    using assms(1) False by (auto simp: vsnprintf_def split: option.splits)
  have "fmt_ok str (unat (n - 1)) m (m1, w, t)"
    by (rule fmt_loop_ok [OF r(1) _ assms(2)]) (simp add: fmt_ok_def)
  then have f: "frame str (unat (n - 1)) m m1" "w < unat n" by (simp_all add: fmt_ok_def n)
  have "m' a = m a" if "\<forall>i<unat n. a \<noteq> str + of_nat i" for a
    using that f r(2) by (simp add: frame_def n)
  then show ?thesis using False r(2) f(2) by auto
qed

theorem vsnprintf_bounds_witness:
  "\<exists>ret m'. vsnprintf 0x100 3 (Some ''a%5ub'') [7] (\<lambda>_. 0xFF) = Some (ret, m') \<and> m' 0x103 = 0xFF \<and> m' 0xFF = 0xFF"
proof -
  have "vsnprintf 0x100 3 (Some ''a%5ub'') [7] (\<lambda>_. 0xFF) \<noteq> None" by code_simp
  then obtain ret m' where r: "vsnprintf 0x100 3 (Some ''a%5ub'') [7] (\<lambda>_. 0xFF) = Some (ret, m')" by auto
  moreover have "CHR ''n'' \<notin> set (conversions ''a%5ub'')" by code_simp
  ultimately have "\<forall>a. (\<forall>i<unat (3 :: u64). a \<noteq> 0x100 + of_nat i) \<longrightarrow> m' a = 0xFF"
    using vsnprintf_bounds [where fmt = "''a%5ub''"] by blast
  moreover have "(0x103 :: u64) \<noteq> 0x100 + of_nat i \<and> (0xFF :: u64) \<noteq> 0x100 + of_nat i" if i: "i < unat (3 :: u64)" for i
  proof -
    consider "i = 0" | "i = 1" | "i = 2" using i by fastforce
    then show ?thesis by cases simp_all
  qed
  ultimately show ?thesis using r by blast
qed

section \<open>The text of a format\<close>

text \<open>
  The reference: the text that a format and its arguments stand for, as a list, without a buffer. The strings
  that the pointers stand for are given by \<open>\<sigma>\<close>; \<open>%n\<close> has no text.
\<close>

definition signed_text :: "directive \<Rightarrow> u64 \<Rightarrow> u8 list" where
  "signed_text d a =
     (let num = signed_arg (d_length d) a
      in if sint num < 0 then ch CHR ''-'' # num_text (unat (- num)) 10 (d_width d) (d_flags d AND NOT (FLAG_PLUS_SIGN OR FLAG_SPACE))
         else num_text (unat num) 10 (d_width d) (d_flags d))"

definition char_text :: "directive \<Rightarrow> u64 \<Rightarrow> u8 list" where
  "char_text d a =
     (let blanks = replicate (if 0 < sint (d_width d - 1) then unat (d_width d - 1) else 0) (ch CHR '' '')
      in if flagged (d_flags d) FLAG_LEFT_JUSTIFY then ucast a # blanks else blanks @ [ucast a])"

definition string_text :: "u8 list \<Rightarrow> u32 \<Rightarrow> u32 \<Rightarrow> u8 list" where
  "string_text xs width flags =
     (let k = pad_count width (length xs)
      in if flagged flags FLAG_LEFT_JUSTIFY then xs @ replicate k (ch CHR '' '')
         else replicate k (if flagged flags FLAG_ZERO_PAD then ch CHR ''0'' else ch CHR '' '') @ xs)"

definition convert_text :: "(u64 \<Rightarrow> u32 \<Rightarrow> u8 list option) \<Rightarrow> char \<Rightarrow> directive \<Rightarrow> u64 list \<Rightarrow> (u8 list \<times> u64 list) option" where
  "convert_text \<sigma> c d args =
     (if c \<in> set ''diuoxXcsp''
      then Option.bind (va_arg args) (\<lambda>(a, args').
             map_option (\<lambda>t. (t, args'))
               (if c = CHR ''d'' \<or> c = CHR ''i'' then Some (signed_text d a)
                else if c = CHR ''u'' then Some (num_text (unat (unsigned_arg (d_length d) a)) 10 (d_width d) (d_flags d))
                else if c = CHR ''o'' then Some (num_text (unat (unsigned_arg (d_length d) a)) 8 (d_width d) (d_flags d))
                else if c = CHR ''x'' then Some (num_text (unat (unsigned_arg (d_length d) a)) 16 (d_width d) (d_flags d))
                else if c = CHR ''X'' then Some (num_text (unat (unsigned_arg (d_length d) a)) 16 (d_width d) (d_flags d OR FLAG_UPPERCASE))
                else if c = CHR ''c'' then Some (char_text d a)
                else if c = CHR ''s'' then map_option (\<lambda>xs. string_text xs (d_width d) (d_flags d)) (\<sigma> a (d_precision d))
                else Some (num_text (unat a) 16 (d_width d) (d_flags d OR FLAG_HASH))))
      else if c = CHR ''n'' then None
      else Some ([ch CHR ''%'', ch c], args))"

function fmt_text :: "(u64 \<Rightarrow> u32 \<Rightarrow> u8 list option) \<Rightarrow> string \<Rightarrow> u64 list \<Rightarrow> u8 list option" where
  "fmt_text \<sigma> fmt args =
     (case fmt of
        [] \<Rightarrow> Some []
      | c # cs \<Rightarrow>
          if c \<noteq> CHR ''%'' then map_option ((#) (ch c)) (fmt_text \<sigma> cs args)
          else if starts CHR ''%'' cs then map_option ((#) (ch CHR ''%'')) (fmt_text \<sigma> (tl cs) args)
          else case parse_directive cs args of
                 None \<Rightarrow> None
               | Some (d, rest, args1) \<Rightarrow>
                   (case rest of
                      [] \<Rightarrow> Some []
                    | conv # rest' \<Rightarrow>
                        (case convert_text \<sigma> conv d args1 of
                           None \<Rightarrow> None
                         | Some (t, args2) \<Rightarrow> map_option (append t) (fmt_text \<sigma> rest' args2))))"
  by pat_completeness auto
termination
  by (relation "measure (\<lambda>(_, fmt, _). length fmt)") (auto dest: parse_directive_length)

declare fmt_text.simps [simp del]

lemma fmt_text_simps:
  "fmt_text \<sigma> [] args = Some []"
  "c \<noteq> CHR ''%'' \<Longrightarrow> fmt_text \<sigma> (c # cs) args = map_option ((#) (ch c)) (fmt_text \<sigma> cs args)"
  "starts CHR ''%'' cs \<Longrightarrow> fmt_text \<sigma> (CHR ''%'' # cs) args = map_option ((#) (ch CHR ''%'')) (fmt_text \<sigma> (tl cs) args)"
  "\<not> starts CHR ''%'' cs \<Longrightarrow> fmt_text \<sigma> (CHR ''%'' # cs) args =
     Option.bind (parse_directive cs args) (\<lambda>(d, rest, args1).
       case rest of [] \<Rightarrow> Some []
       | conv # rest' \<Rightarrow> Option.bind (convert_text \<sigma> conv d args1) (\<lambda>(t, args2). map_option (append t) (fmt_text \<sigma> rest' args2)))"
  by (subst fmt_text.simps, simp split: option.split list.split)+

text \<open>The strings that lie outside the buffer: what the pointer stands for whatever the buffer holds.\<close>

definition string_body :: "mem \<Rightarrow> u64 \<Rightarrow> u32 \<Rightarrow> u8 list option" where
  "string_body m src prec = map_option (\<lambda>len. map (\<lambda>i. string_byte m src (of_nat i)) [0..<unat len]) (bounded_len m src prec 0)"

definition strings_outside :: "u64 \<Rightarrow> nat \<Rightarrow> mem \<Rightarrow> (u64 \<Rightarrow> u32 \<Rightarrow> u8 list option) \<Rightarrow> bool" where
  "strings_outside str n m \<sigma> \<longleftrightarrow>
     (\<forall>m' src prec xs. frame str n m m' \<longrightarrow> \<sigma> src prec = Some xs \<longrightarrow> string_body m' src prec = Some xs)"

text \<open>The state of the loop after a text that fits.\<close>

definition printed :: "u64 \<Rightarrow> mem \<Rightarrow> u8 list \<Rightarrow> fmt_state" where
  "printed str m tx = (poke str tx m, length tx, of_nat (length tx))"

lemma out_char_printed: "length tx < n \<Longrightarrow> out_char str n c (printed str m tx) = printed str m (tx @ [c])"
  by (simp add: printed_def out_char_def put_def poke_append add.commute)

lemma space_loop_printed:
  "length tx + k \<le> n \<Longrightarrow> space_loop str n k (printed str m tx) = printed str m (tx @ replicate k (ch CHR '' ''))"
proof (induction k arbitrary: tx)
  case (Suc k)
  have "fst (snd (printed str m tx)) < n" using Suc.prems by (simp add: printed_def)
  then show ?case using Suc.IH [of "tx @ [ch CHR '' '']"] Suc.prems by (simp add: out_char_printed)
qed simp

lemma num_field_fits:
  assumes "length (num_text num base width flags) \<le> n"
  shows "num_field (\<lambda>w. Suc w < n) num base width flags = num_text num base width flags"
proof (cases "flagged flags FLAG_HASH \<and> base = 16")
  case True
  then show ?thesis using assms
    by (cases "flagged flags FLAG_LEFT_JUSTIFY"; cases "flagged flags FLAG_ZERO_PAD") (simp_all add: num_field_def Let_def prefix_text_def)
next
  case False
  then have e: "(flagged flags FLAG_HASH \<and> base = 16) = False" by blast
  show ?thesis unfolding num_field_def e by (simp add: Let_def)
qed

lemma scast_small:
  assumes "k < 2 ^ 31"
  shows "unat (scast (of_nat k :: u32) :: u64) = k"
proof -
  have "(scast (of_nat k :: u32) :: u64) = of_nat k"
    using assms by (simp add: signed_of_nat signed_take_bit_int_eq_self)
  then show ?thesis using assms by (simp add: unat_of_nat)
qed

lemma advance_printed:
  assumes "length tx + length t \<le> n" "length t < 2 ^ 31"
  shows "advance n (printed str m tx) (of_nat (length t), fst (emit (str + of_nat (length tx)) (n - length tx) (poke str tx m) t)) = printed str m (tx @ t)"
  using assms by (simp add: advance_def printed_def emit_def scast_small poke_append add.commute)

lemma convert_number_printed:
  assumes "length tx + length (num_text (unat num) base (d_width d) flags) \<le> n"
  shows "convert_number str n d flags num base (printed str m tx) = printed str m (tx @ num_text (unat num) base (d_width d) flags)"
  using advance_printed [OF assms num_text_length, of str m] assms
  by (simp add: convert_number_def write_num_emit num_field_fits printed_def)

lemma convert_signed_printed:
  assumes "length tx + length (signed_text d a) \<le> n"
  shows "convert_signed str n d a (printed str m tx) = printed str m (tx @ signed_text d a)"
proof -
  define num where "num = signed_arg (d_length d) a"
  show ?thesis
  proof (cases "sint num < 0")
    case True
    then have t: "signed_text d a = ch CHR ''-'' # num_text (unat (- num)) 10 (d_width d) (d_flags d AND NOT (FLAG_PLUS_SIGN OR FLAG_SPACE))"
      by (simp only: signed_text_def Let_def num_def if_True)
    show ?thesis using True assms convert_number_printed [of "tx @ [ch CHR ''-'']"]
      by (simp only: t convert_signed_def Let_def num_def [symmetric] if_True) (simp add: out_char_printed)
  next
    case False
    then have t: "signed_text d a = num_text (unat num) 10 (d_width d) (d_flags d)"
      by (simp only: signed_text_def Let_def num_def if_False)
    show ?thesis using False assms
      by (simp only: t convert_signed_def Let_def num_def [symmetric] if_False convert_number_printed)
  qed
qed

lemma convert_char_printed:
  "length tx + length (char_text d a) \<le> n \<Longrightarrow> convert_char str n d a (printed str m tx) = printed str m (tx @ char_text d a)"
  by (auto simp: convert_char_def char_text_def Let_def out_char_printed space_loop_printed)

lemma frame_emit: "frame str n m (fst (emit str n m xs))"
  by (auto simp: emit_def frame_def intro!: poke_outside)

lemma fold_string_emit:
  assumes "\<And>i m'. i \<in> set ks \<Longrightarrow> frame str n m m' \<Longrightarrow> string_byte m' src (of_nat i) = g i"
  shows "fold (\<lambda>i x. put str n (string_byte (fst x) src (of_nat i)) x) ks (emit str n m ys) = emit str n m (ys @ map g ks)"
  using assms
proof (induction ks arbitrary: ys)
  case (Cons i ks)
  then have "string_byte (fst (emit str n m ys)) src (of_nat i) = g i" by (simp add: frame_emit)
  then show ?case using Cons by (simp add: put_emit)
qed simp

lemma write_string_emit:
  assumes body: "\<And>m'. frame dest n m m' \<Longrightarrow> string_body m' src prec = Some xs" and len: "length xs < 2 ^ 31"
  shows "write_string dest n src width prec flags m =
    Some (of_nat (length (string_text xs width flags)), fst (emit dest n m (string_text xs width flags)))"
    and "length (string_text xs width flags) < 2 ^ 31"
proof -
  obtain l where l: "bounded_len m src prec 0 = Some l" "unat l = length xs"
    using body [of m] by (auto simp: string_body_def)
  then have u: "(ucast l :: u32) = of_nat (length xs)" by (metis of_nat_unat)
  have b: "string_byte m' src (of_nat i) = xs ! i" if i: "i \<in> set [0..<unat l]" and f: "frame dest n m m'" for i m'
  proof -
    obtain l' :: u64 where "map (\<lambda>i. string_byte m' src (of_nat i)) [0..<unat l'] = xs"
      using body [OF f] unfolding string_body_def map_option_eq_Some by blast
    moreover from this have "unat l' = length xs" by auto
    moreover have "map (\<lambda>i. string_byte m' src (of_nat i)) [0..<unat l'] ! i = string_byte m' src (of_nat i)" if "i < unat l'"
      using that by simp
    ultimately show ?thesis using i l(2) by simp
  qed
  have xs: "map (\<lambda>i. xs ! i) [0..<unat l] = xs" by (simp add: l(2) map_nth)
  note pad = padding_nat [OF len, of width]
  have copy: "fold (\<lambda>i x. put dest n (string_byte (fst x) src (of_nat i)) x) [0..<unat l] (emit dest n m ys) = emit dest n m (ys @ xs)" for ys
    using fold_string_emit [of "[0..<unat l]" dest n m src "\<lambda>i. xs ! i" ys] b unfolding xs by blast
  have full: "length (string_text xs width flags) = length xs + pad_count width (length xs)"
    by (simp add: string_text_def Let_def)
  then show "length (string_text xs width flags) < 2 ^ 31" using pad(3) by simp
  show "write_string dest n src width prec flags m =
    Some (of_nat (length (string_text xs width flags)), fst (emit dest n m (string_text xs width flags)))"
    unfolding write_string_def l(1) option.case Let_def u pad full
    unfolding emit_Nil [of m dest n]
    by (simp add: pad_emit copy string_text_def Let_def)
qed

lemma convert_text_printed:
  assumes t: "convert_text \<sigma> c d args = Some (t, args')" and fits: "length tx + length t \<le> n" "length t < 2 ^ 31"
    and strings: "strings_outside str n m \<sigma>"
  shows "convert str n c d args (printed str m tx) = Some (printed str m (tx @ t), args')"
proof (cases "c = CHR ''s''")
  case True
  obtain a xs where a: "args = a # args'" "\<sigma> a (d_precision d) = Some xs" "t = string_text xs (d_width d) (d_flags d)"
    using t True by (cases args) (auto simp: convert_text_def)
  have "string_body m' a (d_precision d) = Some xs" if "frame (str + of_nat (length tx)) (n - length tx) (poke str tx m) m'" for m'
  proof -
    have "frame str n m (poke str tx m)" using frame_emit [of str n m tx] fits by (simp add: emit_def)
    then have "frame str n m m'" using frame_sub [OF that] by (rule frame_trans)
    then show ?thesis using strings a(2) by (auto simp: strings_outside_def)
  qed
  moreover have "length xs < 2 ^ 31" using fits(2) by (simp add: a(3) string_text_def Let_def split: if_splits)
  ultimately have "write_string (str + of_nat (length tx)) (n - length tx) a (d_width d) (d_precision d) (d_flags d) (poke str tx m) =
      Some (of_nat (length t), fst (emit (str + of_nat (length tx)) (n - length tx) (poke str tx m) t))"
    unfolding a(3) by (rule write_string_emit)
  then have "convert_string str n d a (printed str m tx) = Some (printed str m (tx @ t))"
    using advance_printed [OF fits, of str m] by (simp add: convert_string_def printed_def)
  then show ?thesis using True a(1) by (simp add: convert_def)
next
  case False
  have two: "out_char str n y (out_char str n x (printed str m tx)) = printed str m (tx @ [x, y])" if "t = [x, y]" for x y
    using fits that by (simp add: out_char_printed)
  show ?thesis using False t fits two
    by (cases args) (auto simp: convert_text_def convert_def convert_number_printed convert_signed_printed convert_char_printed simp del: split_paired_Ex split: if_splits)
qed

lemma fmt_text_printed:
  "fmt_text \<sigma> fmt args = Some t \<Longrightarrow> length tx + length t \<le> n \<Longrightarrow> length t < 2 ^ 31 \<Longrightarrow> strings_outside str n m \<sigma> \<Longrightarrow>
   fmt_loop str n fmt args (printed str m tx) = Some (printed str m (tx @ t))"
proof (induction \<sigma> fmt args arbitrary: t tx rule: fmt_text.induct)
  case (1 \<sigma> fmt args)
  show ?case
  proof (cases fmt)
    case Nil
    then show ?thesis using "1.prems" by (simp add: fmt_text_simps fmt_loop_simps)
  next
    case (Cons c cs)
    consider "c \<noteq> CHR ''%''" | "c = CHR ''%''" "starts CHR ''%'' cs" | "c = CHR ''%''" "\<not> starts CHR ''%'' cs" by blast
    then show ?thesis
    proof cases
      case 1
      obtain t' where t': "fmt_text \<sigma> cs args = Some t'" "t = ch c # t'" using "1.prems"(1) 1 Cons by (auto simp: fmt_text_simps)
      show ?thesis using "1.IH"(1) [OF Cons 1 t'(1), of "tx @ [ch c]"] "1.prems" 1 Cons t'(2) by (simp add: fmt_loop_simps out_char_printed)
    next
      case 2
      obtain t' where t': "fmt_text \<sigma> (tl cs) args = Some t'" "t = ch CHR ''%'' # t'" using "1.prems"(1) 2 Cons by (auto simp: fmt_text_simps)
      show ?thesis using "1.IH"(2) [OF Cons _ 2(2) t'(1), of "tx @ [ch CHR ''%'']"] "1.prems" 2 Cons t'(2) by (simp add: fmt_loop_simps out_char_printed)
    next
      case 3
      obtain d rest args1 where d: "parse_directive cs args = Some (d, rest, args1)"
        using "1.prems"(1) 3 Cons by (auto simp: fmt_text_simps bind_eq_Some_conv)
      show ?thesis
      proof (cases rest)
        case Nil
        then show ?thesis using "1.prems" 3 Cons d by (simp add: fmt_text_simps fmt_loop_simps)
      next
        case (Cons conv rest')
        obtain u args2 t' where u: "convert_text \<sigma> conv d args1 = Some (u, args2)" "fmt_text \<sigma> rest' args2 = Some t'" "t = u @ t'"
          using "1.prems"(1) 3 \<open>fmt = c # cs\<close> Cons d by (auto simp: fmt_text_simps bind_eq_Some_conv)
        have c: "convert str n conv d args1 (printed str m tx) = Some (printed str m (tx @ u), args2)"
          using convert_text_printed [OF u(1), of tx n str m] "1.prems" u(3) by simp
        have "fmt_loop str n rest' args2 (printed str m (tx @ u)) = Some (printed str m ((tx @ u) @ t'))"
          using "1.IH"(3) [OF \<open>fmt = c # cs\<close> _ 3(2) d refl refl Cons u(1) refl u(2), of "tx @ u"] 3(1) "1.prems" u(3) by simp
        then show ?thesis using 3 \<open>fmt = c # cs\<close> Cons d c u(3) by (simp add: fmt_loop_simps)
      qed
    qed
  qed
qed

lemma vsnprintf_text_fits:
  assumes "fmt_text \<sigma> fmt args = Some t" "length t < unat n" "length t < 2 ^ 31" "str \<noteq> 0"
    and "strings_outside str (unat n) m \<sigma>"
  shows "vsnprintf str n (Some fmt) args m = Some (of_nat (length t), poke str (t @ [0]) m)"
proof -
  have "0 < unat n" using assms(2) by simp
  then have n: "n \<noteq> 0" "unat n = Suc (unat (n - 1))" by (simp_all add: unat_gt_0 unat_minus_one)
  have "strings_outside str (unat (n - 1)) m \<sigma>"
    using assms(5) by (auto simp: strings_outside_def frame_def n(2) less_Suc_eq)
  then have "fmt_loop str (unat (n - 1)) fmt args (printed str m []) = Some (printed str m t)"
    using fmt_text_printed [OF assms(1), of "[]"] assms(2,3) n(2) by simp
  then show ?thesis using assms(4) n(1) by (simp add: vsnprintf_def printed_def poke_append)
qed

text \<open>
  Formatted output as text: when the text of a format and its arguments fits into the buffer, \<open>vsnprintf\<close> returns its
  length and leaves exactly that text and a terminator in the buffer, for every format without \<open>%n\<close> and
  string arguments outside the buffer.
\<close>

theorem vsnprintf_text:
  assumes "fmt_text \<sigma> fmt args = Some t" "length t < unat n" "length t < 2 ^ 31" "str \<noteq> 0"
    and "strings_outside str (unat n) m \<sigma>"
  shows "vsnprintf str n (Some fmt) args m = Some (of_nat (length t), poke str (t @ [0]) m)"
  by (rule vsnprintf_text_fits [OF assms])

theorem vsnprintf_text_witness:
  "vsnprintf 0x100 32 (Some ''pid %04u'') [7] (\<lambda>_. 0xFF) = Some (8, poke 0x100 (map ch ''pid 0007'' @ [0]) (\<lambda>_. 0xFF))"
proof -
  have "fmt_text (\<lambda>_ _. None) ''pid %04u'' [7] = Some (map ch ''pid 0007'')" by code_simp
  from vsnprintf_text [OF this, where n = 32 and str = "0x100" and m = "\<lambda>_. 0xFF"] show ?thesis
    by (simp add: strings_outside_def)
qed

section \<open>Numbers read back\<close>

lemma digit_char_decimal: "d < 10 \<Longrightarrow> digit_char upper d = 0x30 + of_nat d"
proof -
  assume "d < 10"
  then have "d \<in> {0, 1, 2, 3, 4, 5, 6, 7, 8, 9}" by auto
  then show ?thesis by (auto simp: digit_char_def)
qed

lemma uint_digit: "d < 10 \<Longrightarrow> uint (0x30 + of_nat d :: u8) = 48 + int d" "d < 10 \<Longrightarrow> digit (0x30 + of_nat d :: u8)"
proof -
  assume d: "d < 10"
  have u: "unat (0x30 + of_nat d :: u8) = 48 + d" using d by (simp add: unat_word_ariths unat_of_nat)
  then show "uint (0x30 + of_nat d :: u8) = 48 + int d" by (metis int_ops(3) of_nat_add of_nat_numeral uint_nat)
  show "digit (0x30 + of_nat d :: u8)" using d by (simp add: word_le_nat_alt u)
qed

lemma decimal_snoc: "decimal (ds @ [d]) = 10 * decimal ds + (uint d - 48)"
  by (simp add: decimal_def)

lemma reverse_digits_decimal:
  "decimal (rev (reverse_digits upper 10 num)) = int num \<and> (\<forall>d\<in>set (reverse_digits upper 10 num). digit d)"
proof (induction num rule: less_induct)
  case (less num)
  show ?case
  proof (cases "num = 0")
    case True
    then show ?thesis by (simp add: reverse_digits.simps decimal_def)
  next
    case False
    have r: "reverse_digits upper 10 num = (0x30 + of_nat (num mod 10)) # reverse_digits upper 10 (num div 10)"
      using False by (subst reverse_digits.simps) (simp add: digit_char_decimal)
    have "int num = 10 * int (num div 10) + int (num mod 10)" by (simp add: zdiv_int zmod_int)
    moreover have "uint (0x30 + of_nat (num mod 10) :: u8) = 48 + int (num mod 10)" "digit (0x30 + of_nat (num mod 10))"
      by (rule uint_digit; simp)+
    ultimately show ?thesis using less [of "num div 10"] False unfolding r rev.simps decimal_snoc set_simps by auto
  qed
qed

lemma digit_buffer_decimal:
  "decimal (rev (digit_buffer upper 10 num)) = int num" "\<forall>d\<in>set (digit_buffer upper 10 num). digit d" "digit_buffer upper 10 num \<noteq> []"
proof -
  have "reverse_digits upper 10 num \<noteq> []" if "num \<noteq> 0" using that by (subst reverse_digits.simps) simp
  then show "decimal (rev (digit_buffer upper 10 num)) = int num" "\<forall>d\<in>set (digit_buffer upper 10 num). digit d" "digit_buffer upper 10 num \<noteq> []"
    using reverse_digits_decimal [of upper num] by (simp_all add: digit_buffer_def decimal_def)
qed

lemma reverse_digits_bound: "num < base ^ k \<Longrightarrow> length (reverse_digits upper base num) \<le> k"
proof (induction upper base num arbitrary: k rule: reverse_digits.induct)
  case (1 upper base num)
  show ?case
  proof (cases "num = 0 \<or> base < 2")
    case False
    obtain j where k: "k = Suc j" using False 1(2) by (cases k) auto
    have "num div base < base ^ j" using 1(2) False by (simp add: k less_mult_imp_div_less mult.commute)
    then have "length (reverse_digits upper base (num div base)) \<le> j" using 1(1) [OF False] by blast
    then show ?thesis using k by (subst reverse_digits.simps) simp
  qed (simp add: reverse_digits.simps)
qed

lemma num_text_plain: "num_text num 10 0 0 = rev (digit_buffer False 10 num)"
  by (simp add: num_field_def Let_def sign_char_def pad_count_def)

lemma signed_abs:
  fixes x :: u64
  shows "0 \<le> sint x \<Longrightarrow> unat x = nat (sint x)" "sint x < 0 \<Longrightarrow> unat (- x) = nat (- sint x)"
proof -
  have b: "- (2 ^ 63) \<le> sint x" "sint x < 2 ^ 63" using sint_ge [of x] sint_less [of x] by simp_all
  have w: "nat (uint (word_of_int k :: u64)) = nat k" if "0 \<le> k" "k < 2 ^ 64" for k
    using that by (simp only: uint_word_of_int) simp
  have "x = word_of_int (sint x)" "- x = word_of_int (- sint x)" by simp_all
  then have "unat x = nat (uint (word_of_int (sint x) :: u64))" "unat (- x) = nat (uint (word_of_int (- sint x) :: u64))"
    by (simp_all only: unat_eq_nat_uint)
  then show "0 \<le> sint x \<Longrightarrow> unat x = nat (sint x)" "sint x < 0 \<Longrightarrow> unat (- x) = nat (- sint x)"
    using w [of "sint x"] w [of "- sint x"] b by simp_all
qed

lemma sint_scast: "sint (scast (w :: u32) :: u64) = sint w"
  by (rule bit_eqI) (auto simp: bit_simps min_def)

text \<open>
  Numbers read back: for every argument, \<open>snprintf\<close> with the format \<open>%d\<close> into a buffer of at least 12
  bytes succeeds, and \<open>atoi\<close> returns the argument from that buffer, for the smallest integer as well.
\<close>

theorem snprintf_atoi:
  assumes "12 \<le> n" "str \<noteq> 0"
  shows "\<exists>ret m'. snprintf str n (Some ''%d'') [a] m = Some (ret, m') \<and> atoi m' str = Some (ucast a)"
proof -
  let ?d = "\<lparr>d_flags = 0, d_width = 0, d_precision = - 1, d_length = LENGTH_NONE\<rparr>"
  define x where "x = (scast (ucast a :: u32) :: u64)"
  define sg where "sg = (if sint x < 0 then [0x2D :: u8] else [])"
  define ds where "ds = rev (digit_buffer False 10 (nat \<bar>sint x\<bar>))"
  have "unat (if sint x < 0 then - x else x) = nat \<bar>sint x\<bar>" using signed_abs [of x] by auto
  then have t: "signed_text ?d a = sg @ ds"
    by (auto simp: signed_text_def Let_def signed_arg_def x_def [symmetric] num_text_plain sg_def ds_def)
  have "parse_directive ''d'' [a] = Some (?d, ''d'', [a])"
    by (simp add: parse_directive_def parse_width_def parse_precision_def parse_length_def starts_def is_digit_def)
  then have f: "fmt_text (\<lambda>_ _. None) ''%d'' [a] = Some (sg @ ds)"
    by (simp add: fmt_text_simps starts_def convert_text_def t)
  have sx: "sint x = sint (ucast a :: u32)" by (simp add: x_def sint_scast)
  have "\<bar>sint x\<bar> \<le> 2 ^ 31" using sint_ge [of "ucast a :: u32"] sint_less [of "ucast a :: u32"] by (simp add: sx)
  then have "nat \<bar>sint x\<bar> < 10 ^ 10" by simp
  then have len: "length (sg @ ds) \<le> 11"
    using reverse_digits_bound [of "nat \<bar>sint x\<bar>" 10 10 False]
    by (simp add: ds_def sg_def digit_buffer_def del: nat_abs_int_diff) (auto simp: abs_if split: if_splits)
  have n: "11 < unat n" using assms(1) by (simp add: word_le_nat_alt)
  have p: "snprintf str n (Some ''%d'') [a] m = Some (of_nat (length (sg @ ds)), poke str ((sg @ ds) @ [0]) m)"
    unfolding snprintf_def by (rule vsnprintf_text_fits [OF f]) (use len n assms(2) in \<open>auto simp: strings_outside_def\<close>)
  have dg: "\<forall>d\<in>set ds. digit d" "ds \<noteq> []" "decimal ds = \<bar>sint x\<bar>"
    using digit_buffer_decimal [of False "nat \<bar>sint x\<bar>"] by (simp_all add: ds_def)
  have "0 \<notin> set (sg @ ds)" using dg(1) by (auto simp: sg_def)
  then have c: "cstr (poke str ((sg @ ds) @ [0]) m) str ([] @ sg @ ds @ [])" using poke_cstr [of "sg @ ds" str m] len by simp
  have "atoi (poke str ((sg @ ds) @ [0]) m) str = Some (word_of_int (if sg = [0x2D] then - decimal ds else decimal ds))"
    by (rule atoi_decimal [OF c]) (use dg in \<open>simp_all add: sg_def\<close>)
  also have "(if sg = [0x2D] then - decimal ds else decimal ds) = sint (ucast a :: u32)" by (simp add: dg(3) sg_def sx)
  finally show ?thesis using p by simp
qed

theorem snprintf_atoi_witness:
  "\<exists>ret m'. snprintf 0x100 12 (Some ''%d'') [0x80000000] (\<lambda>_. 0) = Some (ret, m') \<and> atoi m' 0x100 = Some 0x80000000"
  using snprintf_atoi [where n = 12 and str = "0x100" and a = "0x80000000" and m = "\<lambda>_. 0"] by simp

end
