(* ===== verification/Net.thy ===== *)
theory Net
  imports E1000 Stdio
begin

text \<open>
  The network stack, \<open>src/src/src/syncos/net/net.c\<close>: Ethernet frames through the card, IPv4 and TCP headers, the table
  of connections and the HTTP client on top of it. A packet that the code builds or receives in a
  local structure is a memory of its own, indexed by the offset in the structure. What the stack holds before a
  local structure is written, the addresses of the static buffers, the waiting for an interrupt and the name
  resolver, which is declared and defined nowhere, are the parameters in \<open>net_env\<close>. An operation that writes past the end of
  a buffer has the result \<open>None\<close>, as does one that never returns.
\<close>

section \<open>Constants and state\<close>

definition TCP_FLAG_FIN :: u8 where "TCP_FLAG_FIN = 0x01"
definition TCP_FLAG_SYN :: u8 where "TCP_FLAG_SYN = 0x02"
definition TCP_FLAG_RST :: u8 where "TCP_FLAG_RST = 0x04"
definition TCP_FLAG_ACK :: u8 where "TCP_FLAG_ACK = 0x10"
definition ETHERTYPE_IPV4 :: u16 where "ETHERTYPE_IPV4 = 0x0800"
definition IP_PROTOCOL_TCP :: u8 where "IP_PROTOCOL_TCP = 6"
definition TCP_OPTION_END :: u8 where "TCP_OPTION_END = 0"
definition TCP_OPTION_MSS :: u8 where "TCP_OPTION_MSS = 2"
definition TCP_STATE_CLOSED :: u8 where "TCP_STATE_CLOSED = 0"
definition TCP_STATE_SYN_SENT :: u8 where "TCP_STATE_SYN_SENT = 1"
definition TCP_STATE_ESTABLISHED :: u8 where "TCP_STATE_ESTABLISHED = 2"
definition TCP_STATE_FIN_WAIT_1 :: u8 where "TCP_STATE_FIN_WAIT_1 = 3"
definition TCP_STATE_FIN_WAIT_2 :: u8 where "TCP_STATE_FIN_WAIT_2 = 4"
definition TCP_STATE_TIME_WAIT :: u8 where "TCP_STATE_TIME_WAIT = 5"
definition TCP_STATE_CLOSE_WAIT :: u8 where "TCP_STATE_CLOSE_WAIT = 6"
definition TCP_STATE_LAST_ACK :: u8 where "TCP_STATE_LAST_ACK = 7"
definition TCP_TIME_WAIT_TIMEOUT :: u64 where "TCP_TIME_WAIT_TIMEOUT = 2000"
definition MAX_TCP_CONNECTIONS :: nat where "MAX_TCP_CONNECTIONS = 8"

lemmas tcp_states = TCP_STATE_CLOSED_def TCP_STATE_SYN_SENT_def TCP_STATE_ESTABLISHED_def TCP_STATE_FIN_WAIT_1_def TCP_STATE_FIN_WAIT_2_def
  TCP_STATE_TIME_WAIT_def TCP_STATE_CLOSE_WAIT_def TCP_STATE_LAST_ACK_def

lemmas tcp_flags = TCP_FLAG_FIN_def TCP_FLAG_SYN_def TCP_FLAG_RST_def TCP_FLAG_ACK_def

definition HTONS :: "u16 \<Rightarrow> u16" where
  "HTONS n = push_bit 8 (n AND 0xFF) OR drop_bit 8 (n AND 0xFF00)"

definition HTONL :: "u32 \<Rightarrow> u32" where
  "HTONL n = push_bit 24 (n AND 0xFF) OR push_bit 8 (n AND 0xFF00) OR drop_bit 8 (n AND 0xFF0000) OR drop_bit 24 (n AND 0xFF000000)"

record tcp_connection =
  remote_ip :: u32
  remote_port :: u16
  local_port :: u16
  seq_num :: u32
  ack_num :: u32
  tcp_state :: u8
  window_size :: u16
  timeout_timestamp :: u64

record net_state = e1000_state +
  local_mac :: "u8 list"
  local_ip :: u32
  gateway_mac :: "u8 list"
  net_random_state :: u32
  tcp_connections :: "tcp_connection list"
  next_local_port :: u32

record 's net_env =
  ne_dev :: device
  ne_tx_buffer :: u64
  ne_rx_buffer :: u64
  ne_http_buffer :: u64
  ne_response_buffer :: u64
  ne_stack :: "'s \<Rightarrow> mem"
  ne_tsc :: "nat \<Rightarrow> u64"
  ne_hlt :: "'s \<Rightarrow> 's"
  ne_resolve :: "u64 \<Rightarrow> 's \<Rightarrow> u32"

section \<open>Checksums\<close>

text \<open>The sum of the 16-bit words of \<open>n\<close> bytes, with a last odd byte, and the folding of the carries.\<close>

fun sum_words :: "mem \<Rightarrow> u64 \<Rightarrow> nat \<Rightarrow> u32 \<Rightarrow> u32" where
  "sum_words p a 0 s = s"
| "sum_words p a (Suc 0) s = s + ucast (p a)"
| "sum_words p a (Suc (Suc n)) s = sum_words p (a + 2) n (s + ucast (le16 p a))"

lemma fold_carry_less:
  assumes "drop_bit 16 (s :: u32) \<noteq> 0"
  shows "unat ((s AND 0xFFFF) + drop_bit 16 s) < unat s" and "unat ((s AND 0xFFFF) + drop_bit 16 s) = unat s mod 65536 + unat s div 65536"
proof -
  have m: "(0xFFFF :: u32) = mask 16" by (simp add: mask_eq_exp_minus_1)
  have lo: "unat (s AND 0xFFFF) = unat s mod 65536" unfolding m by (simp add: take_bit_eq_mask [symmetric] unsigned_take_bit_eq take_bit_eq_mod unat_mod)
  have hi: "unat (drop_bit 16 s) = unat s div 65536" by (simp add: drop_bit_eq_div unat_div)
  have "unat s < 2 ^ 32" using unsigned_less [of s] by simp
  then have "unat s mod 65536 + unat s div 65536 < 2 ^ 32" by linarith
  then show e: "unat ((s AND 0xFFFF) + drop_bit 16 s) = unat s mod 65536 + unat s div 65536"
    by (subst unat_add_lem [THEN iffD1]) (simp_all add: lo hi)
  have "unat s div 65536 \<noteq> 0" using assms hi by (metis unat_eq_0)
  then show "unat ((s AND 0xFFFF) + drop_bit 16 s) < unat s" unfolding e using div_mult_mod_eq [of "unat s" 65536] by linarith
qed

function fold_carry :: "u32 \<Rightarrow> u32" where
  "fold_carry s = (if drop_bit 16 s \<noteq> 0 then fold_carry ((s AND 0xFFFF) + drop_bit 16 s) else s)"
  by pat_completeness auto
termination
  by (relation "measure unat") (use fold_carry_less in auto)

declare fold_carry.simps [simp del]

definition calculate_checksum :: "mem \<Rightarrow> u64 \<Rightarrow> u16 \<Rightarrow> u16" where
  "calculate_checksum p a len = ucast (NOT (fold_carry (sum_words p a (unat len) 0)))"

text \<open>\<open>ip\<close> and \<open>tcp\<close> are the offsets of the two headers in the packet.\<close>

definition calculate_tcp_checksum :: "mem \<Rightarrow> u64 \<Rightarrow> u64 \<Rightarrow> u16 \<Rightarrow> u16" where
  "calculate_tcp_checksum p ip tcp tcp_len =
     (let src = le32 p (ip + 12); dst = le32 p (ip + 16);
          s = (drop_bit 16 src AND 0xFFFF) + (src AND 0xFFFF) + (drop_bit 16 dst AND 0xFFFF) + (dst AND 0xFFFF) +
              ucast (HTONS (ucast IP_PROTOCOL_TCP)) + ucast (HTONS tcp_len)
      in ucast (NOT (fold_carry (sum_words p tcp (unat tcp_len) s))))"

section \<open>Frames\<close>

definition expire_connection :: "u64 \<Rightarrow> tcp_connection \<Rightarrow> tcp_connection" where
  "expire_connection now c =
     (if tcp_state c = TCP_STATE_TIME_WAIT \<and> timeout_timestamp c \<le> now then c\<lparr>tcp_state := TCP_STATE_CLOSED\<rparr> else c)"

definition tcp_timeout_checker :: "'a net_state_scheme \<Rightarrow> 'a net_state_scheme" where
  "tcp_timeout_checker s = s\<lparr>tcp_connections := map (expire_connection (timer_get_uptime_ms s)) (tcp_connections s)\<rparr>"

text \<open>\<open>checker\<close> is the address of the timeout checker.\<close>

definition net_init :: "'a net_state_scheme net_env \<Rightarrow> u64 \<Rightarrow> 'a net_state_scheme \<Rightarrow> 'a net_state_scheme option" where
  "net_init env checker s =
     (let (mac, s1) = e1000_read_mac (ne_dev env) s;
          s2 = s1\<lparr>local_mac := mac, tcp_connections := map (\<lambda>c. c\<lparr>tcp_state := TCP_STATE_CLOSED\<rparr>) (tcp_connections s1)\<rparr>;
          s3 = s2\<lparr>net_random_state := ucast (timer_get_ticks s2)\<rparr>
      in map_option snd (timer_register_callback checker 0 100 s3))"

definition net_send_ethernet :: "'a net_state_scheme net_env \<Rightarrow> mem \<Rightarrow> u32 \<Rightarrow> 'a net_state_scheme \<Rightarrow> 'a net_state_scheme option" where
  "net_send_ethernet env fr len s =
     (if 2048 < len then None
      else Some (e1000_transmit (ne_tx_buffer env) len (s\<lparr>nic_mem := copy_block (ne_tx_buffer env) fr 0 (unat len) (nic_mem s)\<rparr>)))"

text \<open>The frame is copied to a local structure of \<open>room\<close> bytes.\<close>

definition net_receive_ethernet :: "'a net_state_scheme net_env \<Rightarrow> nat \<Rightarrow> 'a net_state_scheme \<Rightarrow> (u16 \<times> mem \<times> 'a net_state_scheme) option" where
  "net_receive_ethernet env room s =
     (let (n, s1) = e1000_receive (ne_rx_buffer env) s;
          len = ucast n :: u16
      in if 2048 < unat len \<or> room < unat len then None
         else Some (len, copy_block 0 (nic_mem s1) (ne_rx_buffer env) (unat len) (ne_stack env s1), s1))"

section \<open>Segments\<close>

definition find_free_tcp_connection :: "'a net_state_scheme \<Rightarrow> nat option" where
  "find_free_tcp_connection s = find_slot (\<lambda>c. tcp_state c = TCP_STATE_CLOSED) (tcp_connections s)"

text \<open>
  The packet that \<open>tcp_send_packet\<close> builds over what the stack held: the Ethernet header at offset 0, the IP header at 14, the
  TCP header at 34, the options at 54 and the data at 66. The low half of the byte at 46 holds two bit fields that are
  not assigned, like the ports, the numbers, the window and the urgent pointer.
\<close>

definition put_mac :: "u64 \<Rightarrow> u8 list \<Rightarrow> mem \<Rightarrow> mem" where
  "put_mac a mac p = fold (\<lambda>i p. p(a + of_nat i := mac ! i)) [0..<6] p"

definition segment_length :: "u8 \<Rightarrow> u8" where
  "segment_length flags = (if flags AND TCP_FLAG_SYN \<noteq> 0 then 28 else 20)"

definition put_options :: "u8 \<Rightarrow> mem \<Rightarrow> mem" where
  "put_options flags p =
     (if flags AND TCP_FLAG_SYN \<noteq> 0
      then (st16 56 (HTONS 1460) (p(54 := TCP_OPTION_MSS, 55 := 4)))(58 := TCP_OPTION_END, 59 := 0, 60 := 0, 61 := 0)
      else p)"

definition put_ip :: "u16 \<Rightarrow> u32 \<Rightarrow> u32 \<Rightarrow> mem \<Rightarrow> mem" where
  "put_ip total_ip_len src dst p =
     (let p1 = p(22 := 64, 23 := IP_PROTOCOL_TCP, 20 := 0, 21 := 0);
          p2 = st16 18 0 (st16 16 (HTONS total_ip_len) p1);
          p3 = st16 24 0 (st32 30 dst (st32 26 src p2))
      in st16 24 (calculate_checksum p3 14 20) p3)"

definition build_packet :: "'a net_state_scheme \<Rightarrow> u32 \<Rightarrow> u8 \<Rightarrow> mem \<Rightarrow> u64 \<Rightarrow> u16 \<Rightarrow> mem \<Rightarrow> mem" where
  "build_packet s dst flags m data data_len junk =
     (let hl = segment_length flags;
          total_ip_len = (if flags AND TCP_FLAG_SYN \<noteq> 0 then 48 else 40) + data_len;
          p1 = st16 12 (HTONS ETHERTYPE_IPV4) (put_mac 6 (local_mac s) (put_mac 0 (gateway_mac s) junk));
          p2 = p1(14 := 0x45, 15 := 0);
          p3 = put_options flags p2;
          p4 = p3(46 := (p3 46 AND 0x0F) OR push_bit 4 (hl div 4));
          p5 = (if 0 < data_len \<and> data \<noteq> 0 then copy_block 66 m data (unat data_len) p4 else p4);
          p6 = put_ip total_ip_len (local_ip s) dst p5;
          p7 = p6(47 := flags)
      in st16 50 (calculate_tcp_checksum p7 14 34 (ucast hl + data_len)) p7)"

definition tcp_send_packet :: "'a net_state_scheme net_env \<Rightarrow> u8 \<Rightarrow> u64 \<Rightarrow> u16 \<Rightarrow> tcp_connection \<Rightarrow> 'a net_state_scheme \<Rightarrow>
    (tcp_connection \<times> 'a net_state_scheme) option" where
  "tcp_send_packet env flags data data_len conn s =
     (if 1024 < data_len then None
      else let total_ip_len = (if flags AND TCP_FLAG_SYN \<noteq> 0 then 48 else 40) + data_len :: u16;
               p = build_packet s (remote_ip conn) flags (nic_mem s) data data_len (ne_stack env s);
               conn1 = (if 0 < data_len then conn\<lparr>seq_num := seq_num conn + ucast data_len\<rparr> else conn);
               conn2 = (if flags AND (TCP_FLAG_SYN OR TCP_FLAG_FIN) \<noteq> 0 then conn1\<lparr>seq_num := seq_num conn1 + 1\<rparr> else conn1)
           in map_option (\<lambda>t. (conn2, t)) (net_send_ethernet env p (14 + ucast total_ip_len) s))"

text \<open>Sending for the connection in slot \<open>i\<close> of the table.\<close>

definition send_slot :: "'a net_state_scheme net_env \<Rightarrow> u8 \<Rightarrow> u64 \<Rightarrow> u16 \<Rightarrow> nat \<Rightarrow> 'a net_state_scheme \<Rightarrow> 'a net_state_scheme option" where
  "send_slot env flags data data_len i s =
     map_option (\<lambda>(c, t). t\<lparr>tcp_connections := (tcp_connections t)[i := c]\<rparr>) (tcp_send_packet env flags data data_len (tcp_connections s ! i) s)"

definition set_conn :: "nat \<Rightarrow> (tcp_connection \<Rightarrow> tcp_connection) \<Rightarrow> 'a net_state_scheme \<Rightarrow> 'a net_state_scheme" where
  "set_conn i f s = s\<lparr>tcp_connections := (tcp_connections s)[i := f (tcp_connections s ! i)]\<rparr>"

definition enter_time_wait :: "'a net_state_scheme net_env \<Rightarrow> nat \<Rightarrow> 'a net_state_scheme \<Rightarrow> 'a net_state_scheme option" where
  "enter_time_wait env i s =
     map_option (\<lambda>t. set_conn i (\<lambda>c. c\<lparr>tcp_state := TCP_STATE_TIME_WAIT, timeout_timestamp := timer_get_uptime_ms t + TCP_TIME_WAIT_TIMEOUT\<rparr>) t)
       (send_slot env TCP_FLAG_ACK 0 0 i (set_conn i (\<lambda>c. c\<lparr>ack_num := ack_num c + 1\<rparr>) s))"

text \<open>The switch over the state of an existing connection.\<close>

definition tcp_existing :: "'a net_state_scheme net_env \<Rightarrow> u8 \<Rightarrow> u32 \<Rightarrow> u16 \<Rightarrow> nat \<Rightarrow> 'a net_state_scheme \<Rightarrow> 'a net_state_scheme option" where
  "tcp_existing env flags seq data_len i s =
     (let st = tcp_state (tcp_connections s ! i);
          syn = flags AND TCP_FLAG_SYN \<noteq> 0; ack = flags AND TCP_FLAG_ACK \<noteq> 0; fin = flags AND TCP_FLAG_FIN \<noteq> 0
      in if st = TCP_STATE_SYN_SENT
         then if syn \<and> ack then send_slot env TCP_FLAG_ACK 0 0 i (set_conn i (\<lambda>c. c\<lparr>ack_num := seq + 1, tcp_state := TCP_STATE_ESTABLISHED\<rparr>) s)
              else Some s
         else if st = TCP_STATE_ESTABLISHED
         then Option.bind
                (if 0 < data_len then send_slot env TCP_FLAG_ACK 0 0 i (set_conn i (\<lambda>c. c\<lparr>ack_num := seq + ucast data_len\<rparr>) s) else Some s)
                (\<lambda>s1. if fin
                      then Option.bind (send_slot env TCP_FLAG_ACK 0 0 i (set_conn i (\<lambda>c. c\<lparr>ack_num := ack_num c + 1, tcp_state := TCP_STATE_CLOSE_WAIT\<rparr>) s1))
                             (\<lambda>s2. map_option (set_conn i (\<lambda>c. c\<lparr>tcp_state := TCP_STATE_LAST_ACK\<rparr>)) (send_slot env (TCP_FLAG_FIN OR TCP_FLAG_ACK) 0 0 i s2))
                      else Some s1)
         else if st = TCP_STATE_FIN_WAIT_1
         then let s1 = (if ack then set_conn i (\<lambda>c. c\<lparr>tcp_state := TCP_STATE_FIN_WAIT_2\<rparr>) s else s)
              in if fin then enter_time_wait env i s1 else Some s1
         else if st = TCP_STATE_FIN_WAIT_2
         then if fin then enter_time_wait env i s else Some s
         else if st = TCP_STATE_LAST_ACK
         then Some (if ack then set_conn i (\<lambda>c. c\<lparr>tcp_state := TCP_STATE_CLOSED\<rparr>) s else s)
         else if st = TCP_STATE_TIME_WAIT
         then Some (if timeout_timestamp (tcp_connections s ! i) \<le> timer_get_uptime_ms s then set_conn i (\<lambda>c. c\<lparr>tcp_state := TCP_STATE_CLOSED\<rparr>) s else s)
         else Some s)"

definition matches :: "u32 \<Rightarrow> u16 \<Rightarrow> u16 \<Rightarrow> tcp_connection \<Rightarrow> bool" where
  "matches src sport dport c \<longleftrightarrow> tcp_state c \<noteq> TCP_STATE_CLOSED \<and> remote_ip c = src \<and> remote_port c = sport \<and> local_port c = dport"

text \<open>The reset that answers a segment for which there is no connection.\<close>

definition reset_connection :: "u32 \<Rightarrow> u16 \<Rightarrow> u16 \<Rightarrow> u32 \<Rightarrow> u16 \<Rightarrow> tcp_connection" where
  "reset_connection src sport dport seq data_len =
     \<lparr>remote_ip = src, remote_port = sport, local_port = dport, seq_num = 0, ack_num = seq + ucast data_len, tcp_state = 0, window_size = 0,
      timeout_timestamp = 0\<rparr>"

definition handle_tcp_packet :: "'a net_state_scheme net_env \<Rightarrow> mem \<Rightarrow> u64 \<Rightarrow> u64 \<Rightarrow> u16 \<Rightarrow> 'a net_state_scheme \<Rightarrow> 'a net_state_scheme option" where
  "handle_tcp_packet env p ip tcp data_len s =
     (let src_port = HTONS (le16 p tcp); dst_port = HTONS (le16 p (tcp + 2)); seq = HTONL (le32 p (tcp + 4));
          flags = 0 :: u8; src = le32 p (ip + 12)
      in case find_slot (matches src src_port dst_port) (tcp_connections s) of
           None \<Rightarrow>
             if flags AND TCP_FLAG_SYN = 0
             then if flags AND TCP_FLAG_RST = 0
                  then map_option snd (tcp_send_packet env (TCP_FLAG_RST OR TCP_FLAG_ACK) 0 0 (reset_connection src src_port dst_port seq data_len) s)
                  else Some s
             else Some s
         | Some i \<Rightarrow> tcp_existing env flags seq data_len i s)"

definition payload_length :: "mem \<Rightarrow> u64 \<Rightarrow> u64 \<Rightarrow> u16" where
  "payload_length p ip tcp = HTONS (le16 p (ip + 2)) - ucast (p ip AND 0x0F) * 4 - ucast (drop_bit 4 (p (tcp + 12))) * 4"

definition tcp_offset :: "mem \<Rightarrow> u64" where
  "tcp_offset p = 14 + ucast (p 14 AND 0x0F) * 4"

definition net_process_packet :: "'a net_state_scheme net_env \<Rightarrow> 'a net_state_scheme \<Rightarrow> 'a net_state_scheme option" where
  "net_process_packet env s =
     Option.bind (net_receive_ethernet env 2048 s) (\<lambda>(n, p, s1).
       if n = 0 then Some s1
       else if le16 p 12 = HTONS ETHERTYPE_IPV4 \<and> le32 p 30 = local_ip s1 \<and> p 23 = IP_PROTOCOL_TCP
       then handle_tcp_packet env p 14 (tcp_offset p) (payload_length p 14 (tcp_offset p)) s1
       else Some s1)"

section \<open>Connections\<close>

definition net_random :: "'a net_state_scheme \<Rightarrow> u32 \<times> 'a net_state_scheme" where
  "net_random s =
     (let r1 = net_random_state s XOR (ucast (timer_get_ticks s) AND 0xFFFF);
          r2 = (214013 * r1 + 2531011) AND 0x7FFFFFFF
      in (r2, s\<lparr>net_random_state := r2\<rparr>))"

definition sleep_10ms :: "'a net_state_scheme net_env \<Rightarrow> 'a net_state_scheme \<Rightarrow> 'a net_state_scheme option" where
  "sleep_10ms env s = timer_sleep_ms (ne_tsc env) (ne_hlt env) 10 s"

text \<open>The loops that process packets until the state of the connection leaves \<open>states\<close> or the time has come.\<close>

partial_function (option) wait_loop :: "'a net_state_scheme net_env \<Rightarrow> (u8 \<Rightarrow> bool) \<Rightarrow> nat \<Rightarrow> u64 \<Rightarrow> 'a net_state_scheme \<Rightarrow> 'a net_state_scheme option" where
  "wait_loop env states i timeout s =
     (if states (tcp_state (tcp_connections s ! i)) \<and> timer_get_uptime_ms s < timeout
      then Option.bind (net_process_packet env s) (\<lambda>s1. Option.bind (sleep_10ms env s1) (wait_loop env states i timeout))
      else Some s)"

text \<open>The result is the slot of the connection, \<open>None\<close> for -1.\<close>

definition net_http_connect :: "'a net_state_scheme net_env \<Rightarrow> u64 \<Rightarrow> u16 \<Rightarrow> 'a net_state_scheme \<Rightarrow> (nat option \<times> 'a net_state_scheme) option" where
  "net_http_connect env hostname port s =
     (let ip = ne_resolve env hostname s
      in if ip = 0 then Some (None, s)
         else case find_free_tcp_connection s of
                None \<Rightarrow> Some (None, s)
              | Some i \<Rightarrow>
                  let lport = next_local_port s;
                      s1 = s\<lparr>next_local_port := (if 65535 < sint (lport + 1) then 49152 else lport + 1)\<rparr>;
                      (isn, s2) = net_random s1;
                      s3 = set_conn i (\<lambda>c. c\<lparr>remote_ip := ip, remote_port := port, local_port := ucast lport, seq_num := isn, ack_num := 0,
                                             tcp_state := TCP_STATE_SYN_SENT, window_size := 8192\<rparr>) s2
                  in Option.bind (send_slot env TCP_FLAG_SYN 0 0 i s3) (\<lambda>s4.
                     Option.bind (wait_loop env (\<lambda>st. st = TCP_STATE_SYN_SENT) i (timer_get_uptime_ms s4 + 5000) s4) (\<lambda>s5.
                       if tcp_state (tcp_connections s5 ! i) \<noteq> TCP_STATE_ESTABLISHED
                       then Some (None, set_conn i (\<lambda>c. c\<lparr>tcp_state := TCP_STATE_CLOSED\<rparr>) s5)
                       else Some (Some i, s5))))"

definition net_http_close :: "'a net_state_scheme net_env \<Rightarrow> int \<Rightarrow> 'a net_state_scheme \<Rightarrow> 'a net_state_scheme option" where
  "net_http_close env sock s =
     (if sock < 0 \<or> int MAX_TCP_CONNECTIONS \<le> sock then Some s
      else let i = nat sock
           in Option.bind
                (if tcp_state (tcp_connections s ! i) = TCP_STATE_ESTABLISHED
                 then Option.bind (send_slot env (TCP_FLAG_FIN OR TCP_FLAG_ACK) 0 0 i s) (\<lambda>s1.
                        let s2 = set_conn i (\<lambda>c. c\<lparr>tcp_state := TCP_STATE_FIN_WAIT_1\<rparr>) s1
                        in wait_loop env (\<lambda>st. st \<noteq> TCP_STATE_CLOSED \<and> st \<noteq> TCP_STATE_TIME_WAIT) i (timer_get_uptime_ms s2 + 3000) s2)
                 else Some s)
                (\<lambda>s3. Some (set_conn i (\<lambda>c. c\<lparr>tcp_state := TCP_STATE_CLOSED\<rparr>) s3)))"

section \<open>HTTP\<close>

record http_request =
  req_method :: u64
  req_path :: u64
  req_version :: u64
  req_headers :: u64
  req_body :: u64

record http_response =
  resp_version :: u64
  resp_status_code :: u32
  resp_status_text :: u64
  resp_headers :: u64
  resp_body :: u64

text \<open>\<open>crlf\<close> is the address of the literal that is appended.\<close>

definition net_http_send_request :: "'a net_state_scheme net_env \<Rightarrow> u64 \<Rightarrow> int \<Rightarrow> http_request \<Rightarrow> 'a net_state_scheme \<Rightarrow> 'a net_state_scheme option" where
  "net_http_send_request env crlf sock req s =
     (if sock < 0 \<or> int MAX_TCP_CONNECTIONS \<le> sock then Some s
      else if tcp_state (tcp_connections s ! nat sock) \<noteq> TCP_STATE_ESTABLISHED then Some s
      else let buffer = ne_http_buffer env
           in Option.bind (snprintf buffer 1024 (Some (''%s %s %s'' @ [CHR 0x0D, CHR 0x0A])) [req_method req, req_path req, req_version req] (nic_mem s)) (\<lambda>(_, m1).
              Option.bind (strcat buffer (req_headers req) m1) (\<lambda>m2.
              Option.bind (strcat buffer crlf m2) (\<lambda>m3.
              Option.bind (strlen m3 buffer) (\<lambda>len.
                send_slot env TCP_FLAG_ACK buffer (ucast len) (nat sock) (s\<lparr>nic_mem := m3\<rparr>))))))"

text \<open>The answer is parsed in place, at the end of the headers found by \<open>strstr\<close>; \<open>pat\<close> is the address of the literal of two line ends.\<close>

definition parse_response :: "u64 \<Rightarrow> u64 \<Rightarrow> http_response \<Rightarrow> mem \<Rightarrow> (http_response \<times> mem) option" where
  "parse_response buffer headers_end resp m =
     (let m1 = m(headers_end := 0)
      in Option.bind (strchr m1 buffer 32) (\<lambda>space1.
           case space1 of
             None \<Rightarrow> Some (resp\<lparr>resp_headers := 1, resp_body := headers_end + 4\<rparr>, m1(headers_end := 0x0D))
           | Some a \<Rightarrow>
               let m2 = m1(a := 0); resp1 = resp\<lparr>resp_version := buffer\<rparr>
               in Option.bind (strchr m2 (a + 1) 32) (\<lambda>space2.
                  Option.bind (case space2 of
                                 None \<Rightarrow> Some (resp1, m2)
                               | Some b \<Rightarrow> let m3 = m2(b := 0)
                                          in map_option (\<lambda>code. (resp1\<lparr>resp_status_code := code, resp_status_text := b + 1\<rparr>, m3)) (atoi m3 (a + 1)))
                    (\<lambda>(resp2, m4). Some (resp2\<lparr>resp_headers := a + 1, resp_body := headers_end + 4\<rparr>, m4(headers_end := 0x0D))))))"

text \<open>One segment of the answer: appended to the buffer when it fits, and acknowledged.\<close>

definition take_segment :: "'a net_state_scheme net_env \<Rightarrow> mem \<Rightarrow> nat \<Rightarrow> nat \<Rightarrow> 'a net_state_scheme \<Rightarrow> (nat \<times> 'a net_state_scheme) option" where
  "take_segment env p i buffer_pos s =
     (let tcp = tcp_offset p; data_len = payload_length p 14 tcp; buffer = ne_response_buffer env;
          data = tcp + ucast (drop_bit 4 (p (tcp + 12))) * 4;
          (pos, s1) = (if buffer_pos + unat data_len < 4096
                       then (buffer_pos + unat data_len,
                             s\<lparr>nic_mem := (copy_block (buffer + of_nat buffer_pos) p data (unat data_len) (nic_mem s))(buffer + of_nat (buffer_pos + unat data_len) := 0)\<rparr>)
                       else (buffer_pos, s))
      in map_option (\<lambda>s2. (pos, s2))
           (send_slot env TCP_FLAG_ACK 0 0 i (set_conn i (\<lambda>c. c\<lparr>ack_num := HTONL (le32 p (tcp + 4)) + ucast data_len\<rparr>) s1)))"

definition for_connection :: "mem \<Rightarrow> tcp_connection \<Rightarrow> bool" where
  "for_connection p c \<longleftrightarrow>
     (let tcp = tcp_offset p
      in le32 p 26 = remote_ip c \<and> HTONS (le16 p tcp) = remote_port c \<and> HTONS (le16 p (tcp + 2)) = local_port c \<and> 0 < payload_length p 14 tcp)"

partial_function (option) response_loop :: "'a net_state_scheme net_env \<Rightarrow> u64 \<Rightarrow> nat \<Rightarrow> u64 \<Rightarrow> nat \<Rightarrow> http_response \<Rightarrow> 'a net_state_scheme \<Rightarrow>
    (http_response \<times> 'a net_state_scheme) option" where
  "response_loop env pat i timeout buffer_pos resp s =
     (if \<not> timer_get_uptime_ms s < timeout then Some (resp\<lparr>resp_status_code := 0\<rparr>, s)
      else Option.bind (net_process_packet env s) (\<lambda>s1.
           Option.bind (net_receive_ethernet env 2102 s1) (\<lambda>r.
             let n = fst r; p = fst (snd r); s2 = snd (snd r)
             in if n = 0 \<or> le16 p 12 \<noteq> HTONS ETHERTYPE_IPV4 \<or> p 23 \<noteq> IP_PROTOCOL_TCP \<or> \<not> for_connection p (tcp_connections s2 ! i)
                then Option.bind (sleep_10ms env s2) (response_loop env pat i timeout buffer_pos resp)
                else Option.bind (take_segment env p i buffer_pos s2) (\<lambda>q.
                     Option.bind (strstr (nic_mem (snd q)) (ne_response_buffer env) pat) (\<lambda>found.
                       if found = None
                       then Option.bind (sleep_10ms env (snd q)) (response_loop env pat i timeout (fst q) resp)
                       else map_option (\<lambda>(resp', m). (resp', (snd q)\<lparr>nic_mem := m\<rparr>))
                              (parse_response (ne_response_buffer env) (the found) resp (nic_mem (snd q))))))))"

definition net_http_receive_response :: "'a net_state_scheme net_env \<Rightarrow> u64 \<Rightarrow> int \<Rightarrow> http_response \<Rightarrow> 'a net_state_scheme \<Rightarrow>
    (http_response \<times> 'a net_state_scheme) option" where
  "net_http_receive_response env pat sock resp s =
     (if sock < 0 \<or> int MAX_TCP_CONNECTIONS \<le> sock then Some (resp, s)
      else if tcp_state (tcp_connections s ! nat sock) \<noteq> TCP_STATE_ESTABLISHED then Some (resp\<lparr>resp_status_code := 0\<rparr>, s)
      else response_loop env pat (nat sock) (timer_get_uptime_ms s + 5000) 0 resp s)"

section \<open>The header checksum\<close>

text \<open>The sum of the words as a number.\<close>

fun word_total :: "mem \<Rightarrow> u64 \<Rightarrow> nat \<Rightarrow> nat" where
  "word_total p a 0 = 0"
| "word_total p a (Suc 0) = unat (p a)"
| "word_total p a (Suc (Suc n)) = unat (le16 p a) + word_total p (a + 2) n"

lemma word_total_bound: "word_total p a n \<le> 65535 * n"
proof (induction p a n rule: word_total.induct)
  case (2 p a)
  have "unat (p a) < 2 ^ 8" using unsigned_less [of "p a"] by simp
  then show ?case by simp
next
  case (3 p a n)
  have "unat (le16 p a) < 2 ^ 16" using unsigned_less [of "le16 p a"] by simp
  then show ?case using 3 by simp
qed simp

lemma unat_add_ucast: "unat s + unat x < 2 ^ 32 \<Longrightarrow> unat ((s :: u32) + ucast (x :: u16)) = unat s + unat x"
  "unat s + unat y < 2 ^ 32 \<Longrightarrow> unat ((s :: u32) + ucast (y :: u8)) = unat s + unat y"
  by (subst unat_add_lem [THEN iffD1]; simp add: unat_ucast_up)+

lemma sum_words_total: "unat s + word_total p a n < 2 ^ 32 \<Longrightarrow> unat (sum_words p a n s) = unat s + word_total p a n"
  by (induction p a n s rule: sum_words.induct) (simp_all add: unat_add_ucast)

lemma word_total_cong: "(\<And>i. i < n \<Longrightarrow> p (a + of_nat i) = q (a + of_nat i)) \<Longrightarrow> word_total p a n = word_total q a n"
proof (induction p a n rule: word_total.induct)
  case (2 p a)
  then show ?case using 2 [of 0] by simp
next
  case (3 p a n)
  have "p a = q a" "p (a + 1) = q (a + 1)" using 3(2) [of 0] 3(2) [of 1] by simp_all
  moreover have "word_total p (a + 2) n = word_total q (a + 2) n"
  proof (rule 3(1))
    fix i
    assume "i < n"
    then show "p (a + 2 + of_nat i) = q (a + 2 + of_nat i)" using 3(2) [of "i + 2"] by (simp add: algebra_simps)
  qed
  ultimately show ?case by (simp add: le16_def)
qed simp

definition carry_value :: "nat \<Rightarrow> nat" where
  "carry_value k = (if k = 0 then 0 else if k mod 65535 = 0 then 65535 else k mod 65535)"

lemma mod_65535_split: "k mod 65535 = (k mod 65536 + k div 65536) mod (65535 :: nat)"
proof -
  have "k = (k mod 65536 + k div 65536) + 65535 * (k div 65536)" using div_mult_mod_eq [of k 65536] by linarith
  then show ?thesis by (metis mod_mult_self2)
qed

lemma fold_carry_value: "unat (fold_carry s) = carry_value (unat s)"
proof (induction s rule: fold_carry.induct)
  case (1 s)
  show ?case
  proof (cases "drop_bit 16 s \<noteq> 0")
    case True
    have e: "unat s = 65536 * (unat s div 65536) + unat s mod 65536" by simp
    have "unat s mod 65535 = (unat s mod 65536 + unat s div 65536) mod 65535"
      using mod_65535_split [of "unat s"] .
    moreover have "unat s \<noteq> 0" "unat s mod 65536 + unat s div 65536 \<noteq> 0" using fold_carry_less [OF True] e by linarith+
    ultimately show ?thesis using 1 [OF True] fold_carry_less(2) [OF True] True
      by (subst fold_carry.simps) (simp add: carry_value_def)
  next
    case False
    then have "unat (drop_bit 16 s) = 0" by simp
    then have "unat s div 65536 = 0" by (simp add: drop_bit_eq_div unat_div)
    then have "unat s < 65535 \<or> unat s = 65535" by auto
    then show ?thesis using False by (subst fold_carry.simps) (auto simp: carry_value_def)
  qed
qed

lemma checksum_value:
  assumes "n \<le> 65535"
  shows "unat (calculate_checksum p a (of_nat n)) = 65535 - carry_value (word_total p a n)"
proof -
  let ?f = "fold_carry (sum_words p a n 0)"
  have "word_total p a n < 2 ^ 32" using word_total_bound [of p a n] assms by simp
  then have f: "unat ?f = carry_value (word_total p a n)" by (simp add: fold_carry_value sum_words_total)
  have "(ucast (NOT ?f) :: u16) = NOT (ucast ?f)" by (rule bit_word_eqI) (simp add: bit_simps)
  moreover have "unat (NOT (ucast ?f :: u16)) = 65535 - unat (ucast ?f :: u16)"
  proof -
    have "NOT w = - 1 - w" "unat (- 1 - w) = unat (- 1 :: u16) - unat w" "unat (- 1 :: u16) = 65535" for w :: u16
      by (simp add: not_eq_complement, rule unat_sub, simp, simp add: unsigned_minus_1_eq_mask mask_eq_exp_minus_1)
    then show ?thesis by (simp only:)
  qed
  moreover have "carry_value (word_total p a n) \<le> 65535" by (simp add: carry_value_def)
  then have "unat (ucast ?f :: u16) = carry_value (word_total p a n)" using f by (simp add: unsigned_ucast_eq take_bit_nat_eq_self)
  ultimately show ?thesis using assms by (simp add: calculate_checksum_def unat_of_nat)
qed

lemma header_words:
  "word_total p a 20 = unat (le16 p a) + unat (le16 p (a + 2)) + unat (le16 p (a + 4)) + unat (le16 p (a + 6)) + unat (le16 p (a + 8)) +
     unat (le16 p (a + 10)) + unat (le16 p (a + 12)) + unat (le16 p (a + 14)) + unat (le16 p (a + 16)) + unat (le16 p (a + 18))"
  by (simp add: eval_nat_numeral add.assoc)

lemma header_checksum_valid:
  assumes "le16 p 24 = 0"
  shows "calculate_checksum (st16 24 (calculate_checksum p 14 20) p) 14 20 = 0"
proof -
  define c where "c = calculate_checksum p 14 20"
  have v: "unat (calculate_checksum q 14 20) = 65535 - carry_value (word_total q 14 20)" for q
    using checksum_value [of 20 q 14] by simp
  have "word_total (st16 24 c p) 14 20 = word_total p 14 20 + unat c"
    using assms by (simp add: header_words le16_st16_other)
  moreover have "unat c = 65535 - carry_value (word_total p 14 20)" unfolding c_def by (rule v)
  moreover have "carry_value (k + (65535 - carry_value k)) = 65535" for k
  proof -
    have "carry_value k \<le> 65535" "carry_value k mod 65535 = k mod 65535" by (simp_all add: carry_value_def)
    then have "(k + (65535 - carry_value k)) mod 65535 = 0"
      by (metis add.commute le_add_diff_inverse2 mod_add_right_eq mod_self)
    moreover have "k + (65535 - carry_value k) \<noteq> 0" using mod_less_divisor [of 65535 k] by (auto simp: carry_value_def simp del: mod_less_divisor)
    ultimately show ?thesis by (simp add: carry_value_def)
  qed
  ultimately have "unat (calculate_checksum (st16 24 c p) 14 20) = 0" using v [of "st16 24 c p"] by simp
  then show ?thesis unfolding c_def by (simp only: unat_0_iff)
qed

lemma HTONS_HTONS [simp]: "HTONS (HTONS x) = x"
proof -
  have m: "(0xFF :: u16) = mask 8" "(0xFF00 :: u16) = push_bit 8 (mask 8)" by (simp_all add: mask_eq_exp_minus_1)
  show ?thesis unfolding HTONS_def m by (rule bit_word_eqI) (auto simp: bit_simps)
qed

lemma checksum_cong: "(\<And>i. i < 20 \<Longrightarrow> p (14 + of_nat i) = q (14 + of_nat i)) \<Longrightarrow> calculate_checksum p 14 20 = calculate_checksum q 14 20"
  using word_total_cong [of 20 p 14 q] checksum_value [of 20 p 14] checksum_value [of 20 q 14] by (simp add: word_unat_eq_iff)

lemma copy_data_below: "unat a < 66 \<Longrightarrow> copy_block 66 m src (unat (n :: u16)) p a = p a"
proof (rule copy_block_outside, intro allI impI notI)
  fix i
  assume a: "unat a < 66" "i < unat n" "a = 66 + of_nat i"
  have "unat n < 2 ^ 16" using unsigned_less [of n] by simp
  then have "unat (66 + of_nat i :: u64) = 66 + i" using a(2) by (simp add: unat_word_ariths unat_of_nat)
  then show False using a by simp
qed


section \<open>The state of a connection\<close>

text \<open>The transitions for a segment with the given flags; \<open>expired\<close> tells whether the time of a waiting connection is over.\<close>

definition next_state :: "u8 \<Rightarrow> bool \<Rightarrow> u8 \<Rightarrow> u8" where
  "next_state flags expired st =
     (let syn = flags AND TCP_FLAG_SYN \<noteq> 0; ack = flags AND TCP_FLAG_ACK \<noteq> 0; fin = flags AND TCP_FLAG_FIN \<noteq> 0
      in if st = TCP_STATE_SYN_SENT \<and> syn \<and> ack then TCP_STATE_ESTABLISHED
         else if st = TCP_STATE_ESTABLISHED \<and> fin then TCP_STATE_LAST_ACK
         else if st \<in> {TCP_STATE_FIN_WAIT_1, TCP_STATE_FIN_WAIT_2} \<and> fin then TCP_STATE_TIME_WAIT
         else if st = TCP_STATE_FIN_WAIT_1 \<and> ack then TCP_STATE_FIN_WAIT_2
         else if st = TCP_STATE_LAST_ACK \<and> ack \<or> st = TCP_STATE_TIME_WAIT \<and> expired then TCP_STATE_CLOSED
         else st)"

text \<open>Two states of the system that differ in connection \<open>i\<close> only, which has moved to \<open>st\<close>.\<close>

definition moved :: "nat \<Rightarrow> u8 \<Rightarrow> 'a net_state_scheme \<Rightarrow> 'a net_state_scheme \<Rightarrow> bool" where
  "moved i st s t \<longleftrightarrow> length (tcp_connections t) = length (tcp_connections s) \<and> tcp_state (tcp_connections t ! i) = st \<and>
     (\<forall>j. j \<noteq> i \<longrightarrow> tcp_connections t ! j = tcp_connections s ! j)"

lemma moved_refl: "moved i (tcp_state (tcp_connections s ! i)) s s"
  by (simp add: moved_def)

lemma moved_set_conn: "moved i st s t \<Longrightarrow> i < length (tcp_connections s) \<Longrightarrow> tcp_state (f (tcp_connections t ! i)) = st' \<Longrightarrow> moved i st' s (set_conn i f t)"
  by (auto simp: moved_def set_conn_def)

lemma send_slot_moved:
  assumes "moved i st s t" "i < length (tcp_connections s)"
  shows "\<exists>u. send_slot env flags d 0 i t = Some u \<and> moved i st s u"
proof -
  have "tcp_state (fst r) = tcp_state c \<and> tcp_connections (snd r) = tcp_connections t"
    if "tcp_send_packet env flags d 0 c t = Some r" for c r
    using that by (auto simp: tcp_send_packet_def Let_def net_send_ethernet_def e1000_transmit_def e1000_write_def port_defs split: if_splits)
  moreover have "\<exists>r. tcp_send_packet env flags d 0 c t = Some r" for c
    by (simp add: tcp_send_packet_def Let_def net_send_ethernet_def)
  ultimately obtain r where r: "tcp_send_packet env flags d 0 (tcp_connections t ! i) t = Some r"
    "tcp_state (fst r) = tcp_state (tcp_connections t ! i)" "tcp_connections (snd r) = tcp_connections t" by blast
  then show ?thesis using assms by (cases r) (auto simp: send_slot_def moved_def)
qed

lemma enter_time_wait_moved:
  assumes "moved i st s t" "i < length (tcp_connections s)"
  shows "\<exists>u. enter_time_wait env i t = Some u \<and> moved i TCP_STATE_TIME_WAIT s u"
proof -
  have "moved i st s (set_conn i (\<lambda>c. c\<lparr>ack_num := ack_num c + 1\<rparr>) t)"
    by (rule moved_set_conn [OF assms]) (use assms(1) in \<open>simp add: moved_def\<close>)
  from send_slot_moved [OF this assms(2), of env TCP_FLAG_ACK 0] obtain u where
    "send_slot env TCP_FLAG_ACK 0 0 i (set_conn i (\<lambda>c. c\<lparr>ack_num := ack_num c + 1\<rparr>) t) = Some u" "moved i st s u" by blast
  then show ?thesis using assms(2) by (auto simp: enter_time_wait_def intro: moved_set_conn)
qed

lemma tcp_existing_moved:
  assumes i: "i < length (tcp_connections s)"
  shows "\<exists>t. tcp_existing env flags seq data_len i s = Some t \<and>
    moved i (next_state flags (timeout_timestamp (tcp_connections s ! i) \<le> timer_get_uptime_ms s) (tcp_state (tcp_connections s ! i))) s t"
proof -
  define st where "st = tcp_state (tcp_connections s ! i)"
  have m: "moved i st s s" unfolding st_def by (rule moved_refl)
  have set: "moved i (tcp_state (f (tcp_connections s ! i))) s (set_conn i f s)" for f by (rule moved_set_conn [OF m i refl])
  note send = send_slot_moved [OF _ i]
  consider "st = TCP_STATE_SYN_SENT" | "st = TCP_STATE_ESTABLISHED" | "st = TCP_STATE_FIN_WAIT_1" | "st = TCP_STATE_FIN_WAIT_2"
    | "st \<notin> {TCP_STATE_SYN_SENT, TCP_STATE_ESTABLISHED, TCP_STATE_FIN_WAIT_1, TCP_STATE_FIN_WAIT_2}" by blast
  then show ?thesis
  proof cases
    case 1
    then show ?thesis unfolding tcp_existing_def next_state_def Let_def st_def [symmetric]
      using m send [OF set [of "\<lambda>c. c\<lparr>ack_num := seq + 1, tcp_state := TCP_STATE_ESTABLISHED\<rparr>"], of env TCP_FLAG_ACK 0]
      by (simp add: tcp_states)
  next
    case 2
    obtain s1 where s1: "(if 0 < data_len then send_slot env TCP_FLAG_ACK 0 0 i (set_conn i (\<lambda>c. c\<lparr>ack_num := seq + ucast data_len\<rparr>) s) else Some s) = Some s1"
      "moved i st s s1"
      using m send [OF set [of "\<lambda>c. c\<lparr>ack_num := seq + ucast data_len\<rparr>"], of env TCP_FLAG_ACK 0]
      by (cases "0 < data_len") (auto simp: st_def)
    have "moved i TCP_STATE_CLOSE_WAIT s (set_conn i (\<lambda>c. c\<lparr>ack_num := ack_num c + 1, tcp_state := TCP_STATE_CLOSE_WAIT\<rparr>) s1)"
      by (rule moved_set_conn [OF s1(2) i]) simp
    from send [OF this, of env TCP_FLAG_ACK 0] obtain s2 where s2:
      "send_slot env TCP_FLAG_ACK 0 0 i (set_conn i (\<lambda>c. c\<lparr>ack_num := ack_num c + 1, tcp_state := TCP_STATE_CLOSE_WAIT\<rparr>) s1) = Some s2"
      "moved i TCP_STATE_CLOSE_WAIT s s2" by blast
    from send [OF s2(2), of env "TCP_FLAG_FIN OR TCP_FLAG_ACK" 0] obtain s3 where s3:
      "send_slot env (TCP_FLAG_FIN OR TCP_FLAG_ACK) 0 0 i s2 = Some s3" "moved i TCP_STATE_CLOSE_WAIT s s3" by blast
    have "moved i TCP_STATE_LAST_ACK s (set_conn i (\<lambda>c. c\<lparr>tcp_state := TCP_STATE_LAST_ACK\<rparr>) s3)"
      by (rule moved_set_conn [OF s3(2) i]) simp
    then show ?thesis unfolding tcp_existing_def next_state_def Let_def st_def [symmetric] s1(1)
      using 2 s1(2) s2(1) s3(1) by (simp add: tcp_states)
  next
    case 3
    have f2: "moved i TCP_STATE_FIN_WAIT_2 s (set_conn i (\<lambda>c. c\<lparr>tcp_state := TCP_STATE_FIN_WAIT_2\<rparr>) s)" using set [of "\<lambda>c. c\<lparr>tcp_state := TCP_STATE_FIN_WAIT_2\<rparr>"] by simp
    show ?thesis unfolding tcp_existing_def next_state_def Let_def st_def [symmetric]
      using 3 m f2 enter_time_wait_moved [OF m i, of env] enter_time_wait_moved [OF f2 i, of env] by (simp add: tcp_states)
  next
    case 4
    then show ?thesis unfolding tcp_existing_def next_state_def Let_def st_def [symmetric]
      using m enter_time_wait_moved [OF m i, of env] by (simp add: tcp_states)
  next
    case 5
    then show ?thesis unfolding tcp_existing_def next_state_def Let_def st_def [symmetric]
      using m set [of "\<lambda>c. c\<lparr>tcp_state := TCP_STATE_CLOSED\<rparr>"] by (auto simp: tcp_states)
  qed
qed

text \<open>A system with one connection that waits for the answer to its first segment.\<close>

definition net_demo :: net_state where
  "net_demo = e1000_state.extend (pci_state.extend pci_demo
     \<lparr>nic_mem = (\<lambda>_. 0), e1000_base = 0, iobase = 0, tx_buffers = replicate 8 0, tx_descs = replicate 8 0, rx_buffers = replicate 32 0,
      rx_descs = replicate 32 0, tx_index = 0, rx_index = 0\<rparr>)
     \<lparr>local_mac = replicate 6 0, local_ip = 0xC0A80002, gateway_mac = [0x12, 0x34, 0x56, 0x78, 0x9A, 0xBC], net_random_state = 1,
      tcp_connections = replicate 8 \<lparr>remote_ip = 0x08080808, remote_port = 80, local_port = 49152, seq_num = 7, ack_num = 0, tcp_state = 1,
        window_size = 8192, timeout_timestamp = 0\<rparr>, next_local_port = 49153\<rparr>"

definition net_demo_env :: "net_state net_env" where
  "net_demo_env = \<lparr>ne_dev = (\<lambda>_ _. 0), ne_tx_buffer = 0x10000, ne_rx_buffer = 0x11000, ne_http_buffer = 0x12000, ne_response_buffer = 0x13000,
     ne_stack = (\<lambda>_ _. 0), ne_tsc = (\<lambda>n. of_nat n), ne_hlt = (\<lambda>s. s\<lparr>timer_tick_count := timer_tick_count s + 1\<rparr>), ne_resolve = (\<lambda>_ _. 0x08080808)\<rparr>"

lemma net_demo_fields:
  "tcp_connections net_demo = replicate 8 \<lparr>remote_ip = 0x08080808, remote_port = 80, local_port = 49152, seq_num = 7, ack_num = 0, tcp_state = 1,
     window_size = 8192, timeout_timestamp = 0\<rparr>"
  by (simp add: net_demo_def e1000_state.defs)



section \<open>Opening a connection\<close>

definition dormant :: "nat \<Rightarrow> 'a net_state_scheme \<Rightarrow> bool" where
  "dormant i s \<longleftrightarrow> i < length (tcp_connections s) \<and> tcp_state (tcp_connections s ! i) \<in> {TCP_STATE_SYN_SENT, TCP_STATE_CLOSED}"

lemma tcp_send_keeps: "tcp_send_packet env flags d n c s = Some (c', t) \<Longrightarrow> tcp_connections t = tcp_connections s"
  by (auto simp: tcp_send_packet_def Let_def net_send_ethernet_def e1000_transmit_def e1000_write_def port_defs split: if_splits)

lemma handle_tcp_packet_dormant:
  assumes "dormant i s" "handle_tcp_packet env p ip tcp n s = Some t"
  shows "dormant i t"
proof (cases "find_slot (matches (le32 p (ip + 12)) (HTONS (le16 p tcp)) (HTONS (le16 p (tcp + 2)))) (tcp_connections s)")
  case None
  then obtain c c' where "tcp_send_packet env (TCP_FLAG_RST OR TCP_FLAG_ACK) 0 0 c s = Some (c', t)"
    using assms(2) by (auto simp: handle_tcp_packet_def Let_def)
  then have "tcp_connections t = tcp_connections s" using tcp_send_keeps by blast
  then show ?thesis using assms(1) by (simp add: dormant_def)
next
  case (Some j)
  then have j: "j < length (tcp_connections s)" by (rule find_slot_lt)
  have e: "tcp_existing env 0 (HTONL (le32 p (tcp + 4))) n j s = Some t" using assms(2) Some by (simp add: handle_tcp_packet_def Let_def)
  from tcp_existing_moved [OF j, of env 0 "HTONL (le32 p (tcp + 4))" n] e have
    "moved j (next_state 0 (timeout_timestamp (tcp_connections s ! j) \<le> timer_get_uptime_ms s) (tcp_state (tcp_connections s ! j))) s t" by simp
  then show ?thesis using assms(1) by (cases "j = i") (auto simp: moved_def dormant_def next_state_def tcp_states)
qed

lemma net_process_packet_dormant:
  assumes "dormant i s" "net_process_packet env s = Some t"
  shows "dormant i t"
proof -
  have "dormant i s1" if "net_receive_ethernet env room s = Some (n, p, s1)" for room n p s1
    using assms(1) that
    by (auto simp: net_receive_ethernet_def e1000_receive_def e1000_write_def port_defs dormant_def Let_def split: if_splits)
  note received = this
  obtain n p s1 where r: "net_receive_ethernet env 2048 s = Some (n, p, s1)"
    using assms(2) by (auto simp: net_process_packet_def bind_eq_Some_conv)
  then show ?thesis using assms(2) handle_tcp_packet_dormant [OF received [OF r]] received [OF r]
    by (auto simp: net_process_packet_def split: if_splits)
qed

text \<open>Waiting for an interrupt may close connections but does nothing else to them.\<close>

definition only_closes :: "'a net_state_scheme net_env \<Rightarrow> bool" where
  "only_closes env \<longleftrightarrow> (\<forall>s. length (tcp_connections (ne_hlt env s)) = length (tcp_connections s) \<and>
     (\<forall>i. tcp_state (tcp_connections (ne_hlt env s) ! i) \<in> {tcp_state (tcp_connections s ! i), TCP_STATE_CLOSED}))"

lemma timer_sleep_loop_inv:
  assumes step: "\<And>s. I s \<Longrightarrow> I (hlt (s\<lparr>interrupt_flag := True\<rparr>))"
  shows "timer_sleep_loop hlt target s = Some t \<Longrightarrow> I s \<Longrightarrow> I t"
proof -
  have "h = hlt \<longrightarrow> I s \<longrightarrow> I t" if "timer_sleep_loop h target s = Some t" for h target s t
    using that
  proof (rule timer_sleep_loop.raw_induct [rotated])
    fix loop :: "('a timer_state_scheme \<Rightarrow> 'a timer_state_scheme) \<Rightarrow> u64 \<Rightarrow> 'a timer_state_scheme \<Rightarrow> 'a timer_state_scheme option" and h target s t
    assume "\<And>h target s t. loop h target s = Some t \<Longrightarrow> h = hlt \<longrightarrow> I s \<longrightarrow> I t"
      and "(if timer_get_ticks s < target then loop h target (h (s\<lparr>interrupt_flag := True\<rparr>)) else Some s) = Some t"
    then show "h = hlt \<longrightarrow> I s \<longrightarrow> I t" using step by (auto split: if_splits)
  qed
  then show "timer_sleep_loop hlt target s = Some t \<Longrightarrow> I s \<Longrightarrow> I t" by blast
qed

lemma sleep_dormant:
  assumes h: "only_closes env" and d: "dormant i s" and r: "sleep_10ms env s = Some t"
  shows "dormant i t"
proof -
  have "dormant i (ne_hlt env (s\<lparr>interrupt_flag := True\<rparr>))" if "dormant i s" for s
  proof -
    let ?u = "s\<lparr>interrupt_flag := True\<rparr>"
    have "length (tcp_connections (ne_hlt env ?u)) = length (tcp_connections s)"
      "tcp_state (tcp_connections (ne_hlt env ?u) ! i) \<in> {tcp_state (tcp_connections s ! i), TCP_STATE_CLOSED}"
      using h [unfolded only_closes_def, rule_format, of ?u] by auto
    then show ?thesis using that by (auto simp: dormant_def)
  qed
  from timer_sleep_loop_inv [of "dormant i" "ne_hlt env", OF this] show ?thesis using d r
    by (auto simp: sleep_10ms_def timer_sleep_ms_def split: if_splits)
qed

lemma wait_loop_dormant:
  assumes h: "only_closes env"
  shows "wait_loop env states i timeout s = Some t \<Longrightarrow> dormant i s \<Longrightarrow> dormant i t"
proof -
  have "e = env \<longrightarrow> dormant i s \<longrightarrow> dormant i t" if "wait_loop e states i timeout s = Some t" for e states i timeout s t
    using that
  proof (rule wait_loop.raw_induct [rotated])
    fix loop :: "'a net_state_scheme net_env \<Rightarrow> (u8 \<Rightarrow> bool) \<Rightarrow> nat \<Rightarrow> u64 \<Rightarrow> 'a net_state_scheme \<Rightarrow> 'a net_state_scheme option" and e states i timeout s t
    assume "\<And>e states i timeout s t. loop e states i timeout s = Some t \<Longrightarrow> e = env \<longrightarrow> dormant i s \<longrightarrow> dormant i t"
      and "(if states (tcp_state (tcp_connections s ! i)) \<and> timer_get_uptime_ms s < timeout
            then Option.bind (net_process_packet e s) (\<lambda>s1. Option.bind (sleep_10ms e s1) (loop e states i timeout)) else Some s) = Some t"
    then show "e = env \<longrightarrow> dormant i s \<longrightarrow> dormant i t"
      by (auto simp: bind_eq_Some_conv split: if_splits) (metis net_process_packet_dormant sleep_dormant [OF h])
  qed
  then show "wait_loop env states i timeout s = Some t \<Longrightarrow> dormant i s \<Longrightarrow> dormant i t" by blast
qed

text \<open>
  Opening a connection: no packet, whatever its content, establishes a connection, because the flags of a received
  segment are never read; so \<open>net_http_connect\<close> never returns a connection, and the slot it used is free again.
\<close>

theorem net_connect_never_succeeds:
  assumes "only_closes env" "net_http_connect env hostname port s = Some (r, t)"
  shows "r = None \<and> (find_free_tcp_connection s \<noteq> None \<and> ne_resolve env hostname s \<noteq> 0 \<longrightarrow>
    tcp_state (tcp_connections t ! the (find_free_tcp_connection s)) = TCP_STATE_CLOSED)"
proof (cases "ne_resolve env hostname s = 0 \<or> find_free_tcp_connection s = None")
  case True
  then show ?thesis using assms(2) by (auto simp: net_http_connect_def Let_def split: if_splits)
next
  case False
  then obtain i where i: "find_free_tcp_connection s = Some i" by auto
  then have len: "i < length (tcp_connections s)" by (auto simp: find_free_tcp_connection_def intro: find_slot_lt)
  let ?s3 = "\<lambda>isn s2. set_conn i (\<lambda>c. c\<lparr>remote_ip := ne_resolve env hostname s, remote_port := port, local_port := ucast (next_local_port s), seq_num := isn,
      ack_num := 0, tcp_state := TCP_STATE_SYN_SENT, window_size := 8192\<rparr>) s2"
  define s1 where "s1 = s\<lparr>next_local_port := (if 65535 < sint (next_local_port s + 1) then 49152 else next_local_port s + 1)\<rparr>"
  have s2: "tcp_connections (snd (net_random s1)) = tcp_connections s" by (simp add: net_random_def Let_def s1_def)
  define s3 where "s3 = ?s3 (fst (net_random s1)) (snd (net_random s1))"
  have d3: "moved i TCP_STATE_SYN_SENT s3 s3" "i < length (tcp_connections s3)" using len by (simp_all add: s3_def set_conn_def s2 moved_def)
  obtain s4 where s4: "send_slot env TCP_FLAG_SYN 0 0 i s3 = Some s4" "moved i TCP_STATE_SYN_SENT s3 s4" using send_slot_moved [OF d3] by blast
  have d4: "dormant i s4" using s4(2) d3(2) by (simp add: moved_def dormant_def)
  obtain s5 where s5: "wait_loop env (\<lambda>st. st = TCP_STATE_SYN_SENT) i (timer_get_uptime_ms s4 + 5000) s4 = Some s5"
      "(if tcp_state (tcp_connections s5 ! i) \<noteq> TCP_STATE_ESTABLISHED then Some (None, set_conn i (\<lambda>c. c\<lparr>tcp_state := TCP_STATE_CLOSED\<rparr>) s5)
        else Some (Some i, s5)) = Some (r, t)"
    using assms(2) False i s4(1)
    by (auto simp: net_http_connect_def Let_def s3_def s1_def [symmetric] bind_eq_Some_conv split: prod.splits)
  have "dormant i s5" by (rule wait_loop_dormant [OF assms(1) s5(1) d4])
  then show ?thesis using s5(2) i by (auto simp: dormant_def set_conn_def tcp_states)
qed

text \<open>Without any packet the wait ends when the time is over; here the table is full and the call fails at once.\<close>

theorem net_connect_never_succeeds_witness:
  "only_closes net_demo_env \<and> net_http_connect net_demo_env 0x5000 80 net_demo = Some (None, net_demo)"
proof -
  have o: "only_closes net_demo_env" by (simp add: only_closes_def net_demo_env_def)
  have "find_free_tcp_connection net_demo = None"
    by (simp add: find_free_tcp_connection_def net_demo_fields slot_simps TCP_STATE_CLOSED_def)
  then have c: "net_http_connect net_demo_env 0x5000 80 net_demo = Some (None, net_demo)"
    by (simp add: net_http_connect_def Let_def net_demo_env_def)
  from net_connect_never_succeeds [OF o c] o c show ?thesis by simp
qed

end
