(* ===== verification/Ext4.thy ===== *)
theory Ext4
  imports Vmm Spinlock Byte_Fields "HOL-Library.Monad_Syntax"
begin

text \<open>
  The file system, \<open>src/src/src/syncos/fs/ext4.c\<close>, on the disk drivers, whose functions are the parameter \<open>drv\<close> on a state of
  their own. A structure that is read from the disk, and the buffer of a block, is a memory of its own, indexed by the offset; what such
  a buffer holds beyond what has been read into it is what the allocation left there, the parameter \<open>fresh\<close>. Pages come from and go
  back to the virtual memory manager. The result \<open>None\<close> is a division by zero, a call of a null pointer or a loop that does not end.
\<close>

section \<open>Structures\<close>

definition EXT4_SUPER_MAGIC :: u16 where "EXT4_SUPER_MAGIC = 0xEF53"
definition EXT4_SUPERBLOCK_OFFSET :: u64 where "EXT4_SUPERBLOCK_OFFSET = 1024"
definition EXT4_EXTENTS_FL :: u32 where "EXT4_EXTENTS_FL = 0x00080000"

text \<open>Fields of the superblock, a group descriptor and an inode, and the sizes of the structures.\<close>

definition s_blocks_count_lo :: "mem \<Rightarrow> u32" where "s_blocks_count_lo sb = le32 sb 4"
definition s_first_data_block :: "mem \<Rightarrow> u32" where "s_first_data_block sb = le32 sb 20"
definition s_log_block_size :: "mem \<Rightarrow> u32" where "s_log_block_size sb = le32 sb 24"
definition s_blocks_per_group :: "mem \<Rightarrow> u32" where "s_blocks_per_group sb = le32 sb 32"
definition s_inodes_per_group :: "mem \<Rightarrow> u32" where "s_inodes_per_group sb = le32 sb 40"
definition s_magic :: "mem \<Rightarrow> u16" where "s_magic sb = le16 sb 56"
definition s_inode_size :: "mem \<Rightarrow> u16" where "s_inode_size sb = le16 sb 88"
definition s_blocks_count_hi :: "mem \<Rightarrow> u32" where "s_blocks_count_hi sb = le32 sb 336"
definition bg_inode_table_lo :: "mem \<Rightarrow> u32 \<Rightarrow> u32" where "bg_inode_table_lo gd g = le32 gd (64 * ucast g + 8)"
definition bg_inode_table_hi :: "mem \<Rightarrow> u32 \<Rightarrow> u32" where "bg_inode_table_hi gd g = le32 gd (64 * ucast g + 40)"
definition i_mode :: "mem \<Rightarrow> u16" where "i_mode ino = le16 ino 0"
definition i_size_lo :: "mem \<Rightarrow> u32" where "i_size_lo ino = le32 ino 4"
definition i_flags :: "mem \<Rightarrow> u32" where "i_flags ino = le32 ino 32"
definition i_block :: "mem \<Rightarrow> nat \<Rightarrow> u32" where "i_block ino k = le32 ino (40 + 4 * of_nat k)"
definition i_size_high :: "mem \<Rightarrow> u32" where "i_size_high ino = le32 ino 108"
definition eh_magic :: "mem \<Rightarrow> u16" where "eh_magic ino = le16 ino 40"
definition eh_entries :: "mem \<Rightarrow> u16" where "eh_entries ino = le16 ino 42"
definition eh_depth :: "mem \<Rightarrow> u16" where "eh_depth ino = le16 ino 46"
definition ee_len :: "mem \<Rightarrow> nat \<Rightarrow> u16" where "ee_len ino k = le16 ino (52 + 12 * of_nat k + 4)"
definition ee_start_hi :: "mem \<Rightarrow> nat \<Rightarrow> u16" where "ee_start_hi ino k = le16 ino (52 + 12 * of_nat k + 6)"
definition ee_start_lo :: "mem \<Rightarrow> nat \<Rightarrow> u32" where "ee_start_lo ino k = le32 ino (52 + 12 * of_nat k + 8)"
definition de_inode :: "mem \<Rightarrow> u32 \<Rightarrow> u32" where "de_inode b off = le32 b (ucast off)"
definition de_rec_len :: "mem \<Rightarrow> u32 \<Rightarrow> u16" where "de_rec_len b off = le16 b (ucast off + 4)"
definition de_name_len :: "mem \<Rightarrow> u32 \<Rightarrow> u8" where "de_name_len b off = b (ucast off + 6)"
definition de_name :: "mem \<Rightarrow> u32 \<Rightarrow> nat \<Rightarrow> u8 list" where "de_name b off n = map (\<lambda>i. b (ucast off + 8 + of_nat i)) [0..<n]"

definition sizeof_superblock :: u64 where "sizeof_superblock = 1024"
definition sizeof_group_desc :: u32 where "sizeof_group_desc = 64"
definition sizeof_inode :: nat where "sizeof_inode = 160"
definition sizeof_fs :: u64 where "sizeof_fs = 1112"
definition sizeof_file :: u64 where "sizeof_file = 200"

datatype storage_type_t = STORAGE_TYPE_NONE | STORAGE_TYPE_NVME | STORAGE_TYPE_SATA

text \<open>The three function pointers of a device are set together; \<open>sd_ops\<close> tells whose they are.\<close>

record storage_device_t =
  sd_type :: storage_type_t
  sd_device_id :: u32
  sd_namespace_id :: u32
  sd_sector_size :: u32
  sd_sector_count :: u64
  sd_ops :: storage_type_t

record 'd drivers =
  nvme_read :: "u32 \<Rightarrow> u32 \<Rightarrow> u64 \<Rightarrow> mem \<Rightarrow> u32 \<Rightarrow> 'd \<Rightarrow> (bool \<times> mem) \<times> 'd"
  nvme_write :: "u32 \<Rightarrow> u32 \<Rightarrow> u64 \<Rightarrow> mem \<Rightarrow> u32 \<Rightarrow> 'd \<Rightarrow> bool \<times> 'd"
  nvme_flush :: "u32 \<Rightarrow> u32 \<Rightarrow> 'd \<Rightarrow> bool \<times> 'd"
  nvme_get_namespace_info :: "u32 \<Rightarrow> u32 \<Rightarrow> 'd \<Rightarrow> (u64 \<times> u32) option \<times> 'd"
  nvme_get_device_count :: "'d \<Rightarrow> u32"
  sata_read :: "u32 \<Rightarrow> u64 \<Rightarrow> mem \<Rightarrow> u32 \<Rightarrow> 'd \<Rightarrow> (bool \<times> mem) \<times> 'd"
  sata_write :: "u32 \<Rightarrow> u64 \<Rightarrow> mem \<Rightarrow> u32 \<Rightarrow> 'd \<Rightarrow> bool \<times> 'd"
  sata_flush :: "u32 \<Rightarrow> 'd \<Rightarrow> bool \<times> 'd"
  sata_get_port_count :: "'d \<Rightarrow> u32"
  sata_get_port_info :: "u32 \<Rightarrow> 'd \<Rightarrow> bool \<times> 'd"

record 'd world =
  w_vmm :: vmm_state
  w_drv :: 'd
  detected_devices :: "storage_device_t list"
  storage_device_count :: u32

record ext4_fs_t =
  fs_addr :: u64
  fs_device :: storage_device_t
  fs_superblock :: mem
  block_size :: u32
  block_count :: u64
  blocks_per_group :: u32
  inodes_per_group :: u32
  inode_size :: u32
  groups_count :: u32
  group_desc_addr :: u64
  group_desc :: mem
  fs_lock :: spinlock_t
  block_buffer_addr :: u64
  block_buffer :: mem
  block_buffer_block :: u64
  block_buffer_dirty :: bool

record ext4_file_t =
  file_addr :: u64
  file_inode_num :: u32
  file_inode :: mem
  file_position :: u64
  file_lock :: spinlock_t

section \<open>Devices\<close>

definition alloc :: "u64 \<Rightarrow> 'd world \<Rightarrow> u64 \<times> 'd world" where
  "alloc n w = (let (p, v) = vmm_allocate n VMM_FLAG_WRITABLE (w_vmm w) in (p, w\<lparr>w_vmm := v\<rparr>))"

definition release :: "u64 \<Rightarrow> u64 \<Rightarrow> 'd world \<Rightarrow> 'd world" where
  "release p n w = w\<lparr>w_vmm := vmm_free p n (w_vmm w)\<rparr>"

definition nvme_storage_read :: "'d drivers \<Rightarrow> storage_device_t \<Rightarrow> u64 \<Rightarrow> mem \<Rightarrow> u32 \<Rightarrow> 'd \<Rightarrow> (bool \<times> mem) \<times> 'd" where
  "nvme_storage_read drv dev lba buf n d = nvme_read drv (sd_device_id dev) (sd_namespace_id dev) lba buf n d"

definition nvme_storage_write :: "'d drivers \<Rightarrow> storage_device_t \<Rightarrow> u64 \<Rightarrow> mem \<Rightarrow> u32 \<Rightarrow> 'd \<Rightarrow> bool \<times> 'd" where
  "nvme_storage_write drv dev lba buf n d = nvme_write drv (sd_device_id dev) (sd_namespace_id dev) lba buf n d"

definition nvme_storage_flush :: "'d drivers \<Rightarrow> storage_device_t \<Rightarrow> 'd \<Rightarrow> bool \<times> 'd" where
  "nvme_storage_flush drv dev d = nvme_flush drv (sd_device_id dev) (sd_namespace_id dev) d"

definition sata_storage_read :: "'d drivers \<Rightarrow> storage_device_t \<Rightarrow> u64 \<Rightarrow> mem \<Rightarrow> u32 \<Rightarrow> 'd \<Rightarrow> (bool \<times> mem) \<times> 'd" where
  "sata_storage_read drv dev lba buf n d = sata_read drv (sd_device_id dev) lba buf n d"

definition sata_storage_write :: "'d drivers \<Rightarrow> storage_device_t \<Rightarrow> u64 \<Rightarrow> mem \<Rightarrow> u32 \<Rightarrow> 'd \<Rightarrow> bool \<times> 'd" where
  "sata_storage_write drv dev lba buf n d = sata_write drv (sd_device_id dev) lba buf n d"

definition sata_storage_flush :: "'d drivers \<Rightarrow> storage_device_t \<Rightarrow> 'd \<Rightarrow> bool \<times> 'd" where
  "sata_storage_flush drv dev d = sata_flush drv (sd_device_id dev) d"

text \<open>Calls through the function pointers of a device.\<close>

definition dev_read :: "'d drivers \<Rightarrow> storage_device_t \<Rightarrow> u64 \<Rightarrow> mem \<Rightarrow> u32 \<Rightarrow> 'd world \<Rightarrow> (bool \<times> mem \<times> 'd world) option" where
  "dev_read drv dev lba buf n w =
     (let call = (\<lambda>f. let ((ok, b), d) = f drv dev lba buf n (w_drv w) in Some (ok, b, w\<lparr>w_drv := d\<rparr>))
      in case sd_ops dev of STORAGE_TYPE_NONE \<Rightarrow> None | STORAGE_TYPE_NVME \<Rightarrow> call nvme_storage_read | STORAGE_TYPE_SATA \<Rightarrow> call sata_storage_read)"

definition dev_write :: "'d drivers \<Rightarrow> storage_device_t \<Rightarrow> u64 \<Rightarrow> mem \<Rightarrow> u32 \<Rightarrow> 'd world \<Rightarrow> (bool \<times> 'd world) option" where
  "dev_write drv dev lba buf n w =
     (let call = (\<lambda>f. let (ok, d) = f drv dev lba buf n (w_drv w) in Some (ok, w\<lparr>w_drv := d\<rparr>))
      in case sd_ops dev of STORAGE_TYPE_NONE \<Rightarrow> None | STORAGE_TYPE_NVME \<Rightarrow> call nvme_storage_write | STORAGE_TYPE_SATA \<Rightarrow> call sata_storage_write)"

definition dev_flush :: "'d drivers \<Rightarrow> storage_device_t \<Rightarrow> 'd world \<Rightarrow> bool \<times> 'd world" where
  "dev_flush drv dev w =
     (let call = (\<lambda>f. let (ok, d) = f drv dev (w_drv w) in (ok, w\<lparr>w_drv := d\<rparr>))
      in case sd_ops dev of STORAGE_TYPE_NONE \<Rightarrow> (True, w) | STORAGE_TYPE_NVME \<Rightarrow> call nvme_storage_flush | STORAGE_TYPE_SATA \<Rightarrow> call sata_storage_flush)"

text \<open>The result is the number of the slot.\<close>

definition storage_device_create :: "'d drivers \<Rightarrow> u32 \<Rightarrow> storage_type_t \<Rightarrow> 'd world \<Rightarrow> nat option \<times> 'd world" where
  "storage_device_create drv did ty w =
     (case find_slot (\<lambda>d. sd_type d = STORAGE_TYPE_NONE) (detected_devices w) of
        None \<Rightarrow> (None, w)
      | Some i \<Rightarrow>
          let upd = (\<lambda>d w. w\<lparr>detected_devices := (detected_devices w)[i := d]\<rparr>);
              dev = (detected_devices w ! i)\<lparr>sd_type := ty, sd_device_id := did\<rparr>
          in case ty of
               STORAGE_TYPE_NVME \<Rightarrow>
                 let dev1 = dev\<lparr>sd_namespace_id := 1\<rparr>; (info, d) = nvme_get_namespace_info drv did 1 (w_drv w); w1 = w\<lparr>w_drv := d\<rparr>
                 in (case info of
                       None \<Rightarrow> (None, upd (dev1\<lparr>sd_type := STORAGE_TYPE_NONE\<rparr>) w1)
                     | Some (cnt, sz) \<Rightarrow> (Some i, upd (dev1\<lparr>sd_sector_count := cnt, sd_sector_size := sz, sd_ops := STORAGE_TYPE_NVME\<rparr>) w1))
             | STORAGE_TYPE_SATA \<Rightarrow>
                 if sata_get_port_count drv (w_drv w) \<le> did then (None, upd (dev\<lparr>sd_type := STORAGE_TYPE_NONE\<rparr>) w)
                 else let (_, d) = sata_get_port_info drv did (w_drv w)
                      in (Some i, upd (dev\<lparr>sd_sector_size := 512, sd_sector_count := 0, sd_ops := STORAGE_TYPE_SATA\<rparr>) (w\<lparr>w_drv := d\<rparr>))
             | STORAGE_TYPE_NONE \<Rightarrow> (None, upd (dev\<lparr>sd_type := STORAGE_TYPE_NONE\<rparr>) w))"

definition storage_device_destroy :: "nat \<Rightarrow> 'd world \<Rightarrow> 'd world" where
  "storage_device_destroy i w = w\<lparr>detected_devices := (detected_devices w)[i := (detected_devices w ! i)\<lparr>sd_type := STORAGE_TYPE_NONE\<rparr>]\<rparr>"

definition count_device :: "'d drivers \<Rightarrow> storage_type_t \<Rightarrow> nat \<Rightarrow> 'd world \<Rightarrow> 'd world" where
  "count_device drv ty i w =
     (let (r, w1) = storage_device_create drv (of_nat i) ty w
      in if r = None then w1 else w1\<lparr>storage_device_count := storage_device_count w1 + 1\<rparr>)"

definition storage_detect_all_devices :: "'d drivers \<Rightarrow> 'd world \<Rightarrow> 'd world" where
  "storage_detect_all_devices drv w =
     (let w1 = w\<lparr>detected_devices := map (\<lambda>d. d\<lparr>sd_type := STORAGE_TYPE_NONE\<rparr>) (detected_devices w)\<rparr>;
          w2 = fold (count_device drv STORAGE_TYPE_NVME) [0..<unat (nvme_get_device_count drv (w_drv w1))] w1
      in fold (count_device drv STORAGE_TYPE_SATA) [0..<unat (sata_get_port_count drv (w_drv w2))] w2)"

definition ext4_init :: "'d drivers \<Rightarrow> 'd world \<Rightarrow> 'd world" where
  "ext4_init drv w = storage_detect_all_devices drv w"

section \<open>Blocks\<close>

text \<open>Division, with \<open>None\<close> for the trap of the processor.\<close>

definition quotient :: "'a :: len word \<Rightarrow> 'a word \<Rightarrow> 'a word option" where
  "quotient a b = (if b = 0 then None else Some (a div b))"

definition remainder :: "'a :: len word \<Rightarrow> 'a word \<Rightarrow> 'a word option" where
  "remainder a b = (if b = 0 then None else Some (a mod b))"

definition overlay :: "u64 \<Rightarrow> mem \<Rightarrow> mem \<Rightarrow> mem" where
  "overlay n src dst = (\<lambda>i. if i < n then src i else dst i)"

definition sector_to_block :: "ext4_fs_t \<Rightarrow> u64 \<Rightarrow> u64 option" where
  "sector_to_block fs sector = quotient (sector * ucast (sd_sector_size (fs_device fs))) (ucast (block_size fs))"

definition block_to_sector :: "ext4_fs_t \<Rightarrow> u64 \<Rightarrow> u64 option" where
  "block_to_sector fs block = quotient (block * ucast (block_size fs)) (ucast (sd_sector_size (fs_device fs)))"

definition blocks_sectors :: "ext4_fs_t \<Rightarrow> u32 \<Rightarrow> u32 option" where
  "blocks_sectors fs n = quotient (n * block_size fs + sd_sector_size (fs_device fs) - 1) (sd_sector_size (fs_device fs))"

definition read_blocks :: "'d drivers \<Rightarrow> ext4_fs_t \<Rightarrow> u64 \<Rightarrow> u32 \<Rightarrow> mem \<Rightarrow> 'd world \<Rightarrow> (bool \<times> mem \<times> 'd world) option" where
  "read_blocks drv fs block n buf w = do {
     start_sector \<leftarrow> block_to_sector fs block;
     sector_count \<leftarrow> blocks_sectors fs n;
     dev_read drv (fs_device fs) start_sector buf sector_count w }"

definition write_blocks :: "'d drivers \<Rightarrow> ext4_fs_t \<Rightarrow> u64 \<Rightarrow> u32 \<Rightarrow> mem \<Rightarrow> 'd world \<Rightarrow> (bool \<times> 'd world) option" where
  "write_blocks drv fs block n buf w = do {
     start_sector \<leftarrow> block_to_sector fs block;
     sector_count \<leftarrow> blocks_sectors fs n;
     dev_write drv (fs_device fs) start_sector buf sector_count w }"

definition read_superblock :: "'d drivers \<Rightarrow> storage_device_t \<Rightarrow> mem \<Rightarrow> 'd world \<Rightarrow> (bool \<times> mem \<times> 'd world) option" where
  "read_superblock drv dev buf w = do {
     sb_sector \<leftarrow> quotient EXT4_SUPERBLOCK_OFFSET (ucast (sd_sector_size dev));
     sector_count \<leftarrow> quotient (sizeof_superblock + ucast (sd_sector_size dev) - 1) (ucast (sd_sector_size dev));
     dev_read drv dev sb_sector buf (ucast sector_count) w }"

definition ext4_detect :: "'d drivers \<Rightarrow> ('d world \<Rightarrow> mem) \<Rightarrow> storage_device_t \<Rightarrow> 'd world \<Rightarrow> (bool \<times> 'd world) option" where
  "ext4_detect drv fresh dev w =
     (if sd_type dev = STORAGE_TYPE_NONE then Some (False, w)
      else let (p, w1) = alloc 4096 w
           in if p = 0 then Some (False, w1)
              else do {
                (ok, sb, w2) \<leftarrow> read_superblock drv dev (fresh w1) w1;
                Some (ok \<and> s_magic sb = EXT4_SUPER_MAGIC, release p 4096 w2) })"

definition gdt_location :: "mem \<Rightarrow> u64" where
  "gdt_location sb = (if s_first_data_block sb = 0 then 1 else ucast (s_first_data_block sb + 1))"

text \<open>The parameters computed from the superblock. The shift by \<open>s_log_block_size\<close> uses the low five bits, as the processor does.\<close>

definition fs_parameters :: "u64 \<Rightarrow> storage_device_t \<Rightarrow> mem \<Rightarrow> ext4_fs_t option" where
  "fs_parameters p dev sb = do {
     groups \<leftarrow> quotient ((ucast (s_blocks_count_lo sb) OR push_bit 32 (ucast (s_blocks_count_hi sb))) + ucast (s_blocks_per_group sb) - 1)
                 (ucast (s_blocks_per_group sb) :: u64);
     Some \<lparr>fs_addr = p, fs_device = dev, fs_superblock = sb, block_size = push_bit (unat (s_log_block_size sb AND 31)) 1024,
       block_count = ucast (s_blocks_count_lo sb) OR push_bit 32 (ucast (s_blocks_count_hi sb)), blocks_per_group = s_blocks_per_group sb,
       inodes_per_group = s_inodes_per_group sb, inode_size = ucast (s_inode_size sb), groups_count = ucast groups, group_desc_addr = 0,
       group_desc = (\<lambda>_. 0), fs_lock = \<lparr>sl_value = 0, sl_owner = 0\<rparr>, block_buffer_addr = 0, block_buffer = (\<lambda>_. 0), block_buffer_block = 0,
       block_buffer_dirty = False\<rparr> }"

definition desc_bytes :: "ext4_fs_t \<Rightarrow> u32" where
  "desc_bytes fs = groups_count fs * sizeof_group_desc"

definition ext4_mount :: "'d drivers \<Rightarrow> ('d world \<Rightarrow> mem) \<Rightarrow> storage_device_t \<Rightarrow> 'd world \<Rightarrow> (ext4_fs_t option \<times> 'd world) option" where
  "ext4_mount drv fresh dev w =
     (if sd_type dev = STORAGE_TYPE_NONE then Some (None, w)
      else let (p, w1) = alloc sizeof_fs w
           in if p = 0 then Some (None, w1)
              else do {
                (ok, sb, w2) \<leftarrow> read_superblock drv dev (\<lambda>_. 0) w1;
                if \<not> ok \<or> s_magic sb \<noteq> EXT4_SUPER_MAGIC then Some (None, release p sizeof_fs w2)
                else do {
                  fs \<leftarrow> fs_parameters p dev sb;
                  let (g, w3) = alloc (ucast (desc_bytes fs)) w2;
                  if g = 0 then Some (None, release p sizeof_fs w3)
                  else do {
                    blocks \<leftarrow> quotient (desc_bytes fs + block_size fs - 1) (block_size fs);
                    (ok2, gd, w4) \<leftarrow> read_blocks drv fs (gdt_location sb) blocks (fresh w3) w3;
                    if \<not> ok2 then Some (None, release p sizeof_fs (release g (ucast (desc_bytes fs)) w4))
                    else let (b, w5) = alloc (ucast (block_size fs)) w4
                         in if b = 0 then Some (None, release p sizeof_fs (release g (ucast (desc_bytes fs)) w5))
                            else Some (Some (fs\<lparr>group_desc_addr := g, group_desc := gd, block_buffer_addr := b, block_buffer := fresh w5,
                                   block_buffer_block := - 1, block_buffer_dirty := False\<rparr>), w5) } } })"

definition ext4_unmount :: "'d drivers \<Rightarrow> ext4_fs_t \<Rightarrow> 'd world \<Rightarrow> 'd world option" where
  "ext4_unmount drv fs w = do {
     w1 \<leftarrow> (if block_buffer_dirty fs then map_option snd (write_blocks drv fs (block_buffer_block fs) 1 (block_buffer fs) w) else Some w);
     let w2 = snd (dev_flush drv (fs_device fs) w1);
     let w3 = (if block_buffer_addr fs \<noteq> 0 then release (block_buffer_addr fs) (ucast (block_size fs)) w2 else w2);
     let w4 = (if group_desc_addr fs \<noteq> 0 then release (group_desc_addr fs) (ucast (groups_count fs) * ucast sizeof_group_desc) w3 else w3);
     Some (release (fs_addr fs) sizeof_fs w4) }"

text \<open>Writing the cached block back when it is dirty.\<close>

definition write_back :: "'d drivers \<Rightarrow> ext4_fs_t \<Rightarrow> 'd world \<Rightarrow> (bool \<times> ext4_fs_t \<times> 'd world) option" where
  "write_back drv fs w =
     (if block_buffer_dirty fs
      then do { (ok, w1) \<leftarrow> write_blocks drv fs (block_buffer_block fs) 1 (block_buffer fs) w;
                Some (ok, (if ok then fs\<lparr>block_buffer_dirty := False\<rparr> else fs), w1) }
      else Some (True, fs, w))"

definition ext4_read_block :: "'d drivers \<Rightarrow> ext4_fs_t \<Rightarrow> u64 \<Rightarrow> mem \<Rightarrow> 'd world \<Rightarrow> (bool \<times> mem \<times> ext4_fs_t \<times> 'd world) option" where
  "ext4_read_block drv fs block_num buf w =
     (if block_count fs \<le> block_num then Some (False, buf, fs, w)
      else if block_num = block_buffer_block fs then Some (True, overlay (ucast (block_size fs)) (block_buffer fs) buf, fs, w)
      else do {
        (ok, fs1, w1) \<leftarrow> write_back drv fs w;
        if \<not> ok then Some (False, buf, fs1, w1)
        else do {
          (ok2, buf2, w2) \<leftarrow> read_blocks drv fs1 block_num 1 buf w1;
          if \<not> ok2 then Some (False, buf2, fs1, w2)
          else Some (True, buf2, fs1\<lparr>block_buffer := overlay (ucast (block_size fs)) buf2 (block_buffer fs1), block_buffer_block := block_num\<rparr>, w2) } })"

definition ext4_write_block :: "'d drivers \<Rightarrow> ext4_fs_t \<Rightarrow> u64 \<Rightarrow> mem \<Rightarrow> 'd world \<Rightarrow> (bool \<times> ext4_fs_t \<times> 'd world) option" where
  "ext4_write_block drv fs block_num buf w =
     (if block_count fs \<le> block_num then Some (False, fs, w)
      else do {
        let fs1 = fs\<lparr>block_buffer := overlay (ucast (block_size fs)) buf (block_buffer fs), block_buffer_block := block_num, block_buffer_dirty := True\<rparr>;
        (ok, w1) \<leftarrow> write_blocks drv fs1 block_num 1 buf w;
        Some (ok, fs1, w1) })"

definition ext4_flush_blocks :: "'d drivers \<Rightarrow> ext4_fs_t \<Rightarrow> 'd world \<Rightarrow> (bool \<times> ext4_fs_t \<times> 'd world) option" where
  "ext4_flush_blocks drv fs w = do {
     (ok, fs1, w1) \<leftarrow> write_back drv fs w;
     if \<not> ok then Some (False, fs1, w1)
     else let (ok2, w2) = dev_flush drv (fs_device fs1) w1 in Some (ok2, fs1, w2) }"

section \<open>Inodes\<close>

text \<open>The block of an inode and its offset there; \<open>Some None\<close> is a number outside the groups.\<close>

definition inode_location :: "ext4_fs_t \<Rightarrow> u32 \<Rightarrow> (u64 \<times> u32) option option" where
  "inode_location fs inode_num = do {
     let n = inode_num - 1;
     group \<leftarrow> quotient n (inodes_per_group fs);
     index \<leftarrow> remainder n (inodes_per_group fs);
     if groups_count fs \<le> group then Some None
     else do {
       let table = (ucast (bg_inode_table_lo (group_desc fs) group) OR push_bit 32 (ucast (bg_inode_table_hi (group_desc fs) group)) :: u64);
       q \<leftarrow> quotient (index * inode_size fs) (block_size fs);
       r \<leftarrow> remainder (index * inode_size fs) (block_size fs);
       Some (Some (table + ucast q, r)) } }"

definition read_inode :: "'d drivers \<Rightarrow> ('d world \<Rightarrow> mem) \<Rightarrow> ext4_fs_t \<Rightarrow> u32 \<Rightarrow> mem \<Rightarrow> 'd world \<Rightarrow> (bool \<times> mem \<times> ext4_fs_t \<times> 'd world) option" where
  "read_inode drv fresh fs inode_num ino w =
     (if inode_num = 0 then Some (False, ino, fs, w)
      else do {
        loc \<leftarrow> inode_location fs inode_num;
        case loc of
          None \<Rightarrow> Some (False, ino, fs, w)
        | Some (block, off) \<Rightarrow>
            let (p, w1) = alloc (ucast (block_size fs)) w
            in if p = 0 then Some (False, ino, fs, w1)
               else do {
                 (ok, blk, fs1, w2) \<leftarrow> ext4_read_block drv fs block (fresh w1) w1;
                 Some (ok, if ok then copy_block 0 blk (ucast off) sizeof_inode ino else ino, fs1, release p (ucast (block_size fs)) w2) } })"

definition write_inode :: "'d drivers \<Rightarrow> ('d world \<Rightarrow> mem) \<Rightarrow> ext4_fs_t \<Rightarrow> u32 \<Rightarrow> mem \<Rightarrow> 'd world \<Rightarrow> (bool \<times> ext4_fs_t \<times> 'd world) option" where
  "write_inode drv fresh fs inode_num ino w =
     (if inode_num = 0 then Some (False, fs, w)
      else do {
        loc \<leftarrow> inode_location fs inode_num;
        case loc of
          None \<Rightarrow> Some (False, fs, w)
        | Some (block, off) \<Rightarrow>
            let (p, w1) = alloc (ucast (block_size fs)) w
            in if p = 0 then Some (False, fs, w1)
               else do {
                 (ok, blk, fs1, w2) \<leftarrow> ext4_read_block drv fs block (fresh w1) w1;
                 if \<not> ok then Some (False, fs1, release p (ucast (block_size fs)) w2)
                 else do {
                   (ok2, fs2, w3) \<leftarrow> ext4_write_block drv fs1 block (copy_block (ucast off) ino 0 sizeof_inode blk) w2;
                   Some (ok2, fs2, release p (ucast (block_size fs)) w3) } } })"

section \<open>Paths\<close>

text \<open>The entries of a directory block: the inode of the first one with the name.\<close>

partial_function (option) scan_entries :: "u32 \<Rightarrow> mem \<Rightarrow> u8 list \<Rightarrow> u32 \<Rightarrow> u32 option option" where
  "scan_entries bs b name off =
     (if \<not> off < bs \<or> de_rec_len b off = 0 then Some None
      else if de_inode b off \<noteq> 0 \<and> unat (de_name_len b off) = length name \<and> de_name b off (length name) = name then Some (Some (de_inode b off))
      else scan_entries bs b name (off + ucast (de_rec_len b off)))"

text \<open>The blocks of a directory in the order in which they are searched, until the name is found.\<close>

fun search_blocks :: "'d drivers \<Rightarrow> u8 list \<Rightarrow> u64 list \<Rightarrow> mem \<Rightarrow> ext4_fs_t \<Rightarrow> 'd world \<Rightarrow> (u32 option \<times> ext4_fs_t \<times> 'd world) option" where
  "search_blocks drv name [] buf fs w = Some (None, fs, w)"
| "search_blocks drv name (b # bs) buf fs w = do {
     (ok, buf1, fs1, w1) \<leftarrow> ext4_read_block drv fs b buf w;
     if \<not> ok then search_blocks drv name bs buf1 fs1 w1
     else do {
       r \<leftarrow> scan_entries (block_size fs1) buf1 name 0;
       if r \<noteq> None then Some (r, fs1, w1) else search_blocks drv name bs buf1 fs1 w1 } }"

definition extent_blocks :: "mem \<Rightarrow> u64 list" where
  "extent_blocks ino =
     concat (map (\<lambda>i. map (\<lambda>j. (ucast (ee_start_lo ino i) OR push_bit 32 (ucast (ee_start_hi ino i))) + of_nat j) [0..<unat (ee_len ino i)])
       [0..<unat (eh_entries ino)])"

definition direct_blocks :: "mem \<Rightarrow> u64 list" where
  "direct_blocks ino = map ucast (filter (\<lambda>b. b \<noteq> 0) (map (i_block ino) [0..<12]))"

text \<open>One step of a path: the inode of a name in the directory \<open>current\<close>, \<open>None\<close> for a failure of the lookup.\<close>

definition lookup_component :: "'d drivers \<Rightarrow> ('d world \<Rightarrow> mem) \<Rightarrow> u32 \<Rightarrow> u8 list \<Rightarrow> ext4_fs_t \<Rightarrow> 'd world \<Rightarrow>
    (u32 option \<times> ext4_fs_t \<times> 'd world) option" where
  "lookup_component drv fresh current name fs w = do {
     (ok, ino, fs1, w1) \<leftarrow> read_inode drv fresh fs current (fresh w) w;
     if \<not> ok \<or> i_mode ino AND 0xF000 \<noteq> 0x4000 then Some (None, fs1, w1)
     else let (p, w2) = alloc (ucast (block_size fs1)) w1
          in if p = 0 then Some (None, fs1, w2)
             else if i_flags ino AND EXT4_EXTENTS_FL \<noteq> 0 \<and> eh_magic ino \<noteq> 0xF30A
             then Some (None, fs1, release p (ucast (block_size fs1)) w2)
             else do {
               let blocks = (if i_flags ino AND EXT4_EXTENTS_FL \<noteq> 0 then (if eh_depth ino = 0 then extent_blocks ino else []) else direct_blocks ino);
               (r, fs2, w3) \<leftarrow> search_blocks drv name blocks (fresh w2) fs1 w2;
               Some (r, fs2, release p (ucast (block_size fs2)) w3) } }"

abbreviation slash :: u8 where "slash \<equiv> 0x2F"

text \<open>The loop over the path: a component of at most 255 characters, and what follows the next slash.\<close>

definition component :: "u8 list \<Rightarrow> u8 list" where
  "component path = take 255 (takeWhile (\<lambda>c. c \<noteq> slash) path)"

definition skip_slash :: "u8 list \<Rightarrow> u8 list" where
  "skip_slash path = (case path of [] \<Rightarrow> [] | c # cs \<Rightarrow> if c = slash then cs else path)"

definition after_component :: "u8 list \<Rightarrow> u8 list" where
  "after_component path = skip_slash (dropWhile (\<lambda>c. c \<noteq> slash) path)"

lemma dropWhile_slash: "dropWhile (\<lambda>c. c \<noteq> slash) p = c # cs \<Longrightarrow> c = slash"
  using dropWhile_eq_Cons_conv [of "\<lambda>c. c \<noteq> slash" p c cs] by simp

lemma after_component_shorter: "path \<noteq> [] \<Longrightarrow> length (after_component path) < length path"
proof -
  assume p: "path \<noteq> []"
  show ?thesis
  proof (cases "dropWhile (\<lambda>c. c \<noteq> slash) path")
    case Nil
    show ?thesis using p unfolding after_component_def Nil by (simp add: skip_slash_def)
  next
    case (Cons c cs)
    then have "c = slash" by (rule dropWhile_slash)
    moreover have "length (c # cs) \<le> length path" using length_dropWhile_le [of "\<lambda>c. c \<noteq> slash" path] unfolding Cons .
    ultimately show ?thesis unfolding after_component_def Cons by (simp add: skip_slash_def)
  qed
qed

function walk_path :: "'d drivers \<Rightarrow> ('d world \<Rightarrow> mem) \<Rightarrow> u8 list \<Rightarrow> u32 \<Rightarrow> ext4_fs_t \<Rightarrow> 'd world \<Rightarrow> (u32 option \<times> ext4_fs_t \<times> 'd world) option" where
  "walk_path drv fresh path current fs w =
     (if path = [] then Some (Some current, fs, w)
      else if component path = [] then walk_path drv fresh (after_component path) current fs w
      else case lookup_component drv fresh current (component path) fs w of
             None \<Rightarrow> None
           | Some (r, fs1, w1) \<Rightarrow>
               (case r of None \<Rightarrow> Some (None, fs1, w1) | Some ino \<Rightarrow> walk_path drv fresh (after_component path) ino fs1 w1))"
  by pat_completeness auto
termination
  by (relation "measure (\<lambda>(_, _, path, _). length path)") (auto simp: after_component_shorter)

declare walk_path.simps [simp del]

definition find_inode_by_path :: "'d drivers \<Rightarrow> ('d world \<Rightarrow> mem) \<Rightarrow> ext4_fs_t \<Rightarrow> u8 list \<Rightarrow> 'd world \<Rightarrow> (u32 option \<times> ext4_fs_t \<times> 'd world) option" where
  "find_inode_by_path drv fresh fs path w =
     (if path = [slash] then Some (Some 2, fs, w) else walk_path drv fresh (skip_slash path) 2 fs w)"

section \<open>Files\<close>

definition ext4_open :: "'d drivers \<Rightarrow> ('d world \<Rightarrow> mem) \<Rightarrow> ext4_fs_t \<Rightarrow> u8 list \<Rightarrow> 'd world \<Rightarrow> (ext4_file_t option \<times> ext4_fs_t \<times> 'd world) option" where
  "ext4_open drv fresh fs path w = do {
     (r, fs1, w1) \<leftarrow> find_inode_by_path drv fresh fs path w;
     case r of
       None \<Rightarrow> Some (None, fs1, w1)
     | Some inode_num \<Rightarrow>
         let (p, w2) = alloc sizeof_file w1
         in if p = 0 then Some (None, fs1, w2)
            else do {
              (ok, ino, fs2, w3) \<leftarrow> read_inode drv fresh fs1 inode_num (fresh w2) w2;
              if \<not> ok then Some (None, fs2, release p sizeof_file w3)
              else Some (Some \<lparr>file_addr = p, file_inode_num = inode_num, file_inode = ino, file_position = 0,
                                file_lock = \<lparr>sl_value = 0, sl_owner = 0\<rparr>\<rparr>, fs2, w3) } }"

definition ext4_close :: "ext4_file_t \<Rightarrow> 'd world \<Rightarrow> 'd world" where
  "ext4_close file w = release (file_addr file) sizeof_file w"

definition ext4_size :: "ext4_file_t \<Rightarrow> u64" where
  "ext4_size file = ucast (i_size_lo (file_inode file)) OR push_bit 32 (ucast (i_size_high (file_inode file)))"

end
