(* ===== verification/Ext4_Correct.thy ===== *)
theory Ext4_Correct
  imports Ext4 Vmm_Spaces
begin

text \<open>
  Correctness of the file system: the scan of a directory block against the list of its entries, the walk along a path against the list
  of its components, the block cache against a table of blocks under the contract of the disk drivers (\<open>disk_reads\<close>, \<open>disk_writes\<close>),
  the round trip of an inode through the cache and the disk, and what the address space leaves to \<open>ext4_mount\<close>.
\<close>

section \<open>Directory entries\<close>

function entry_chain :: "u32 \<Rightarrow> mem \<Rightarrow> nat \<Rightarrow> u32 list" where
  "entry_chain bs b off =
     (if \<not> off < unat bs \<or> de_rec_len b (of_nat off) = 0 then []
      else of_nat off # entry_chain bs b (off + unat (de_rec_len b (of_nat off))))"
  by pat_completeness auto
termination
  by (relation "measure (\<lambda>(bs, b, off). unat bs - off)") (auto simp: unat_gt_0 diff_less_mono2)

declare entry_chain.simps [simp del]

definition names :: "mem \<Rightarrow> u8 list \<Rightarrow> u32 \<Rightarrow> bool" where
  "names b name off \<longleftrightarrow> de_inode b off \<noteq> 0 \<and> unat (de_name_len b off) = length name \<and> de_name b off (length name) = name"

lemma scan_entries_chain:
  assumes "unat bs \<le> 2 ^ 31" and "off < 2 ^ 31 + 2 ^ 16"
  shows "scan_entries bs b name (of_nat off) = Some (map_option (de_inode b) (find (names b name) (entry_chain bs b off)))"
  using assms
proof (induction bs b off rule: entry_chain.induct)
  case (1 bs b off)
  have u: "unat (of_nat off :: u32) = off" using "1.prems" by (simp add: unat_of_nat)
  show ?case
  proof (cases "\<not> off < unat bs \<or> de_rec_len b (of_nat off) = 0")
    case True
    then show ?thesis by (subst scan_entries.simps, subst entry_chain.simps) (simp add: word_less_nat_alt u)
  next
    case False
    let ?n = "off + unat (de_rec_len b (of_nat off))"
    have n: "of_nat off + ucast (de_rec_len b (of_nat off)) = (of_nat ?n :: u32)"
      by simp
    have "?n < 2 ^ 31 + 2 ^ 16" using False "1.prems"(1) unsigned_less [of "de_rec_len b (of_nat off)", where ?'a = nat] by simp
    then have "scan_entries bs b name (of_nat off + ucast (de_rec_len b (of_nat off)))
        = Some (map_option (de_inode b) (find (names b name) (entry_chain bs b ?n)))"
      unfolding n by (rule "1.IH" [OF False "1.prems"(1)])
    then show ?thesis using False
      by (subst scan_entries.simps, subst entry_chain.simps) (simp add: word_less_nat_alt u names_def)
  qed
qed

section \<open>Paths\<close>

fun splits :: "u8 list \<Rightarrow> u8 list list" where
  "splits [] = [[]]"
| "splits (c # cs) = (if c = slash then [] # splits cs else (c # hd (splits cs)) # tl (splits cs))"

definition path_components :: "u8 list \<Rightarrow> u8 list list" where
  "path_components path = map (take 255) (filter (\<lambda>c. c \<noteq> []) (splits path))"

lemma splits_not_Nil [simp]: "splits p \<noteq> []"
  by (induction p) auto

lemma splits_component:
  "splits p = takeWhile (\<lambda>c. c \<noteq> slash) p # (case dropWhile (\<lambda>c. c \<noteq> slash) p of [] \<Rightarrow> [] | _ # cs \<Rightarrow> splits cs)"
  by (induction p) (auto split: list.splits)

lemma path_components_step:
  assumes "p \<noteq> []"
  shows "path_components p = (if component p = [] then [] else [component p]) @ path_components (after_component p)"
proof (cases "dropWhile (\<lambda>c. c \<noteq> slash) p")
  case Nil
  have "splits p = [takeWhile (\<lambda>c. c \<noteq> slash) p]" by (subst splits_component) (simp only: Nil list.case)
  then show ?thesis unfolding path_components_def component_def after_component_def Nil by (simp add: skip_slash_def)
next
  case (Cons c cs)
  then have c: "c = slash" by (rule dropWhile_slash)
  have "splits p = takeWhile (\<lambda>c. c \<noteq> slash) p # splits cs" by (subst splits_component) (simp only: Cons list.case)
  then show ?thesis unfolding path_components_def component_def after_component_def Cons by (simp add: skip_slash_def c)
qed

fun lookup_all :: "'d drivers \<Rightarrow> ('d world \<Rightarrow> mem) \<Rightarrow> u8 list list \<Rightarrow> u32 \<Rightarrow> ext4_fs_t \<Rightarrow> 'd world \<Rightarrow> (u32 option \<times> ext4_fs_t \<times> 'd world) option" where
  "lookup_all drv fresh [] current fs w = Some (Some current, fs, w)"
| "lookup_all drv fresh (n # ns) current fs w = do {
     (r, fs1, w1) \<leftarrow> lookup_component drv fresh current n fs w;
     case r of None \<Rightarrow> Some (None, fs1, w1) | Some ino \<Rightarrow> lookup_all drv fresh ns ino fs1 w1 }"

lemma walk_path_components: "walk_path drv fresh p current fs w = lookup_all drv fresh (path_components p) current fs w"
proof (induction drv fresh p current fs w rule: walk_path.induct)
  case (1 drv fresh p current fs w)
  show ?case
  proof (cases "p = []")
    case True
    then show ?thesis by (subst walk_path.simps) (simp add: path_components_def)
  next
    case p: False
    then show ?thesis
      using "1.IH" by (subst walk_path.simps) (auto simp: path_components_step [OF p] bind_eq_Some_conv split: option.splits prod.splits bind_splits)
  qed
qed

lemma path_components_skip_slash: "path_components (skip_slash p) = path_components p"
  by (cases p) (simp_all add: skip_slash_def path_components_def)

lemma find_inode_by_path_components:
  "find_inode_by_path drv fresh fs path w = lookup_all drv fresh (path_components path) 2 fs w"
  by (simp add: find_inode_by_path_def walk_path_components path_components_skip_slash) (simp add: path_components_def)

section \<open>The block cache\<close>

text \<open>What the file system relies on: within \<open>cap\<close> sectors a read delivers the bytes of the disk, and a write replaces them.\<close>

abbreviation sector_bytes :: "storage_device_t \<Rightarrow> nat" where "sector_bytes dev \<equiv> unat (sd_sector_size dev)"

definition sectors_of :: "nat \<Rightarrow> (nat \<Rightarrow> u8) \<Rightarrow> u64 \<Rightarrow> u32 \<Rightarrow> mem \<Rightarrow> mem" where
  "sectors_of ss disk lba n buf = (\<lambda>i. if unat i < unat n * ss then disk (unat lba * ss + unat i) else buf i)"

definition with_sectors :: "nat \<Rightarrow> (nat \<Rightarrow> u8) \<Rightarrow> u64 \<Rightarrow> u32 \<Rightarrow> mem \<Rightarrow> nat \<Rightarrow> u8" where
  "with_sectors ss disk lba n buf =
     (\<lambda>a. if unat lba * ss \<le> a \<and> a < unat lba * ss + unat n * ss then buf (of_nat (a - unat lba * ss)) else disk a)"

definition disk_reads :: "'d drivers \<Rightarrow> storage_device_t \<Rightarrow> ('d \<Rightarrow> nat \<Rightarrow> u8) \<Rightarrow> nat \<Rightarrow> bool" where
  "disk_reads drv dev disk cap \<longleftrightarrow> (\<forall>lba n buf w. unat lba + unat n \<le> cap \<longrightarrow>
     (\<exists>d. dev_read drv dev lba buf n w = Some (True, sectors_of (sector_bytes dev) (disk (w_drv w)) lba n buf, w\<lparr>w_drv := d\<rparr>)
       \<and> disk d = disk (w_drv w)))"

definition disk_writes :: "'d drivers \<Rightarrow> storage_device_t \<Rightarrow> ('d \<Rightarrow> nat \<Rightarrow> u8) \<Rightarrow> nat \<Rightarrow> bool" where
  "disk_writes drv dev disk cap \<longleftrightarrow> (\<forall>lba n buf w. unat lba + unat n \<le> cap \<longrightarrow>
     (\<exists>d. dev_write drv dev lba buf n w = Some (True, w\<lparr>w_drv := d\<rparr>) \<and> disk d = with_sectors (sector_bytes dev) (disk (w_drv w)) lba n buf))"

text \<open>The blocks of the file system are whole sectors, lie on the disk, and their byte addresses fit in a register.\<close>

definition geometry :: "ext4_fs_t \<Rightarrow> nat \<Rightarrow> bool" where
  "geometry fs cap \<longleftrightarrow>
     0 < sector_bytes (fs_device fs) \<and> sector_bytes (fs_device fs) dvd unat (block_size fs) \<and> 0 < unat (block_size fs) \<and>
     unat (block_size fs) \<le> 2 ^ 31 \<and> unat (block_count fs) * unat (block_size fs) \<le> cap * sector_bytes (fs_device fs) \<and>
     unat (block_count fs) * unat (block_size fs) \<le> 2 ^ 64"

definition same_volume :: "ext4_fs_t \<Rightarrow> ext4_fs_t \<Rightarrow> bool" where
  "same_volume fs fs' \<longleftrightarrow> (\<exists>b k d. fs' = fs\<lparr>block_buffer := b, block_buffer_block := k, block_buffer_dirty := d\<rparr>)"

text \<open>The contents of the volume, by block and offset, and that the cache holds what is on the disk.\<close>

definition contents :: "ext4_fs_t \<Rightarrow> (nat \<Rightarrow> u8) \<Rightarrow> nat \<Rightarrow> nat \<Rightarrow> u8" where
  "contents fs disk k i = disk (k * unat (block_size fs) + i)"

definition cache_coherent :: "ext4_fs_t \<Rightarrow> (nat \<Rightarrow> u8) \<Rightarrow> bool" where
  "cache_coherent fs disk \<longleftrightarrow>
     (block_buffer_dirty fs \<longrightarrow> block_buffer_block fs < block_count fs) \<and>
     (block_buffer_block fs < block_count fs \<longrightarrow>
       (\<forall>i. unat i < unat (block_size fs) \<longrightarrow> block_buffer fs i = contents fs disk (unat (block_buffer_block fs)) (unat i)))"

text \<open>A buffer whose first bytes are those of a block, and the disk with one block replaced.\<close>

definition filled :: "nat \<Rightarrow> (nat \<Rightarrow> u8) \<Rightarrow> mem \<Rightarrow> mem" where
  "filled bs blk buf = (\<lambda>i. if unat i < bs then blk (unat i) else buf i)"

definition patched :: "nat \<Rightarrow> nat \<Rightarrow> mem \<Rightarrow> (nat \<Rightarrow> u8) \<Rightarrow> nat \<Rightarrow> u8" where
  "patched bs k buf disk = (\<lambda>a. if k * bs \<le> a \<and> a < k * bs + bs then buf (of_nat (a - k * bs)) else disk a)"

lemma mult_le_block:
  assumes "k < (n :: nat)" shows "k * b + b \<le> n * b"
  using mult_le_mono1 [of "Suc k" n b] assms by simp

lemma patched_in: "i < bs \<Longrightarrow> patched bs k buf disk (k * bs + i) = buf (of_nat i)"
  by (simp add: patched_def)

lemma patched_out:
  assumes "i < bs" and "j \<noteq> k"
  shows "patched bs k buf disk (j * bs + i) = disk (j * bs + i)"
proof -
  have "j < k \<Longrightarrow> j * bs + i < k * bs" using mult_le_block [of j k bs] assms(1) by linarith
  moreover have "k < j \<Longrightarrow> k * bs + bs \<le> j * bs + i" using mult_le_block [of k j bs] by linarith
  ultimately show ?thesis using assms(2) unfolding patched_def by (cases "j < k") auto
qed

definition block_sectors :: "ext4_fs_t \<Rightarrow> nat" where
  "block_sectors fs = unat (block_size fs) div sector_bytes (fs_device fs)"

lemma block_sectors_bytes: "geometry fs cap \<Longrightarrow> block_sectors fs * sector_bytes (fs_device fs) = unat (block_size fs)"
  by (simp add: geometry_def block_sectors_def)

lemma geometry_bounds:
  assumes g: "geometry fs cap" and k: "k < block_count fs"
  shows "unat k * unat (block_size fs) + unat (block_size fs) \<le> 2 ^ 64"
    and "unat k * block_sectors fs + block_sectors fs \<le> cap"
proof -
  have le: "unat k * unat (block_size fs) + unat (block_size fs) \<le> unat (block_count fs) * unat (block_size fs)"
    by (rule mult_le_block) (use k in \<open>simp add: word_less_nat_alt\<close>)
  then show "unat k * unat (block_size fs) + unat (block_size fs) \<le> 2 ^ 64" using g unfolding geometry_def by linarith
  have "(unat k * block_sectors fs + block_sectors fs) * sector_bytes (fs_device fs) = unat k * unat (block_size fs) + unat (block_size fs)"
    by (simp only: add_mult_distrib mult.assoc block_sectors_bytes [OF g])
  then have "(unat k * block_sectors fs + block_sectors fs) * sector_bytes (fs_device fs) \<le> cap * sector_bytes (fs_device fs)"
    using le g unfolding geometry_def by linarith
  then show "unat k * block_sectors fs + block_sectors fs \<le> cap" using g by (simp add: geometry_def)
qed

lemma block_to_sector_geometry:
  assumes g: "geometry fs cap" and k: "k < block_count fs"
  shows "\<exists>lba. block_to_sector fs k = Some lba \<and> unat lba = unat k * block_sectors fs"
proof -
  have u: "unat (ucast (block_size fs) :: u64) = unat (block_size fs)" "unat (ucast (sd_sector_size (fs_device fs)) :: u64) = sector_bytes (fs_device fs)"
    by (simp_all add: unat_ucast_up)
  have "unat k * unat (block_size fs) < 2 ^ 64" using geometry_bounds(1) [OF g k] g unfolding geometry_def by linarith
  then have m: "unat (k * ucast (block_size fs) :: u64) = unat k * unat (block_size fs)" by (simp add: unat_word_ariths u)
  have "ucast (sd_sector_size (fs_device fs)) \<noteq> (0 :: u64)" using u(2) g by (auto simp: geometry_def)
  moreover have "unat k * unat (block_size fs) div sector_bytes (fs_device fs) = unat k * block_sectors fs"
    using g by (simp add: block_sectors_def geometry_def div_mult_swap)
  ultimately show ?thesis by (simp add: block_to_sector_def quotient_def unat_div m u)
qed

lemma blocks_sectors_geometry:
  assumes g: "geometry fs cap"
  shows "\<exists>n. blocks_sectors fs 1 = Some n \<and> unat n = block_sectors fs"
proof -
  let ?ss = "sector_bytes (fs_device fs)"
  have s: "0 < ?ss" "?ss \<le> unat (block_size fs)" "unat (block_size fs) \<le> 2 ^ 31" using g by (auto simp: geometry_def dest: dvd_imp_le)
  have sum: "unat (block_size fs + sd_sector_size (fs_device fs) - 1) = unat (block_size fs) + ?ss - 1"
  proof -
    have a: "unat (block_size fs + (sd_sector_size (fs_device fs) - 1)) = (unat (block_size fs) + (?ss - 1)) mod 2 ^ 32"
      using s(1) by (simp add: unat_word_ariths(1) unat_minus_one unat_gt_0)
    show ?thesis using a s by (simp add: add_diff_eq)
  qed
  have "(unat (block_size fs) + ?ss - 1) div ?ss = (block_sectors fs * ?ss + (?ss - 1)) div ?ss"
    using s(1) block_sectors_bytes [OF g] by simp
  also have "\<dots> = block_sectors fs" using s(1) by (subst div_mult_self3) simp_all
  finally have "(unat (block_size fs) + ?ss - 1) div ?ss = block_sectors fs" .
  moreover have "sd_sector_size (fs_device fs) \<noteq> 0" using s(1) by auto
  ultimately show ?thesis by (simp add: blocks_sectors_def quotient_def unat_div sum)
qed

lemma read_one_block:
  assumes "disk_reads drv (fs_device fs) disk cap" and g: "geometry fs cap" and k: "k < block_count fs"
  shows "\<exists>d. read_blocks drv fs k 1 buf w = Some (True, filled (unat (block_size fs)) (contents fs (disk (w_drv w)) (unat k)) buf,
             w\<lparr>w_drv := d\<rparr>) \<and> disk d = disk (w_drv w)"
proof -
  obtain lba n where l: "block_to_sector fs k = Some lba" "unat lba = unat k * block_sectors fs" "blocks_sectors fs 1 = Some n" "unat n = block_sectors fs"
    using block_to_sector_geometry [OF g k] blocks_sectors_geometry [OF g] by blast
  have "unat lba + unat n \<le> cap" using geometry_bounds(2) [OF g k] l by simp
  then obtain d where "dev_read drv (fs_device fs) lba buf n w =
      Some (True, sectors_of (sector_bytes (fs_device fs)) (disk (w_drv w)) lba n buf, w\<lparr>w_drv := d\<rparr>)" "disk d = disk (w_drv w)"
    using assms(1) unfolding disk_reads_def by blast
  then show ?thesis by (intro exI [of _ d]) (simp add: read_blocks_def l sectors_of_def contents_def filled_def mult.assoc block_sectors_bytes [OF g] cong: if_cong)
qed

lemma write_one_block:
  assumes "disk_writes drv (fs_device fs) disk cap" and g: "geometry fs cap" and k: "k < block_count fs"
  shows "\<exists>d. write_blocks drv fs k 1 buf w = Some (True, w\<lparr>w_drv := d\<rparr>) \<and>
            disk d = patched (unat (block_size fs)) (unat k) buf (disk (w_drv w))"
proof -
  obtain lba n where l: "block_to_sector fs k = Some lba" "unat lba = unat k * block_sectors fs" "blocks_sectors fs 1 = Some n" "unat n = block_sectors fs"
    using block_to_sector_geometry [OF g k] blocks_sectors_geometry [OF g] by blast
  have "unat lba + unat n \<le> cap" using geometry_bounds(2) [OF g k] l by simp
  then obtain d where "dev_write drv (fs_device fs) lba buf n w = Some (True, w\<lparr>w_drv := d\<rparr>)"
      "disk d = with_sectors (sector_bytes (fs_device fs)) (disk (w_drv w)) lba n buf"
    using assms(1) unfolding disk_writes_def by blast
  then show ?thesis by (intro exI [of _ d]) (simp add: write_blocks_def l with_sectors_def patched_def mult.assoc block_sectors_bytes [OF g] cong: if_cong)
qed

text \<open>One read or write of a block against the contents of the volume.\<close>

lemma same_volume_refl: "same_volume fs fs"
  unfolding same_volume_def by (rule exI [of _ "block_buffer fs"], rule exI [of _ "block_buffer_block fs"], rule exI [of _ "block_buffer_dirty fs"]) simp

lemma same_volume_update: "same_volume fs (fs\<lparr>block_buffer := b, block_buffer_block := k, block_buffer_dirty := d\<rparr>)"
  unfolding same_volume_def by blast

lemma same_volume_trans: "same_volume fs1 fs2 \<Longrightarrow> same_volume fs2 fs3 \<Longrightarrow> same_volume fs1 fs3"
proof -
  assume "same_volume fs1 fs2" "same_volume fs2 fs3"
  then obtain b k d b' k' d' where "fs2 = fs1\<lparr>block_buffer := b, block_buffer_block := k, block_buffer_dirty := d\<rparr>"
      "fs3 = fs2\<lparr>block_buffer := b', block_buffer_block := k', block_buffer_dirty := d'\<rparr>"
    unfolding same_volume_def by blast
  then have "fs3 = fs1\<lparr>block_buffer := b', block_buffer_block := k', block_buffer_dirty := d'\<rparr>" by simp
  then show ?thesis by (simp only: same_volume_update)
qed

lemma same_volume_fields:
  assumes "same_volume fs fs'"
  shows "block_size fs' = block_size fs" "block_count fs' = block_count fs" "fs_device fs' = fs_device fs"
    "inode_location fs' = inode_location fs" "geometry fs' = geometry fs" "contents fs' = contents fs"
  using assms by (auto simp: same_volume_def inode_location_def geometry_def contents_def fun_eq_iff cong: if_cong)

lemma contents_flag: "contents (fs\<lparr>block_buffer_dirty := b\<rparr>) = contents fs"
  by (simp add: contents_def fun_eq_iff)

lemma write_back_coherent:
  assumes "disk_writes drv (fs_device fs) disk cap" and g: "geometry fs cap" and c: "cache_coherent fs (disk (w_drv w))"
  shows "\<exists>d. write_back drv fs w = Some (True, fs\<lparr>block_buffer_dirty := False\<rparr>, w\<lparr>w_drv := d\<rparr>) \<and> disk d = disk (w_drv w)"
proof (cases "block_buffer_dirty fs")
  case False
  then show ?thesis by (intro exI [of _ "w_drv w"]) (simp add: write_back_def)
next
  case True
  let ?k = "block_buffer_block fs" and ?b = "unat (block_size fs)"
  have k: "?k < block_count fs" using c True by (simp add: cache_coherent_def)
  obtain d where d: "write_blocks drv fs ?k 1 (block_buffer fs) w = Some (True, w\<lparr>w_drv := d\<rparr>)"
      "disk d = patched ?b (unat ?k) (block_buffer fs) (disk (w_drv w))"
    using write_one_block [OF assms(1) g k, of "block_buffer fs" w] by blast
  have "disk d a = disk (w_drv w) a" for a
  proof (cases "unat ?k * ?b \<le> a \<and> a < unat ?k * ?b + ?b")
    case True
    then obtain i where a: "a = unat ?k * ?b + i" "i < ?b" by (metis le_iff_add nat_add_left_cancel_less)
    then have "i < 2 ^ 64" using unsigned_less [of "block_size fs", where ?'a = nat] by simp
    then have "unat (of_nat i :: u64) = i" by (simp add: unat_of_nat)
    then have "block_buffer fs (of_nat i) = disk (w_drv w) a"
      using a c k unfolding cache_coherent_def contents_def by metis
    then show ?thesis unfolding a(1) d(2) by (simp only: patched_in [OF a(2)])
  qed (use d(2) in \<open>auto simp: patched_def\<close>)
  then show ?thesis using d(1) True by (intro exI [of _ d]) (auto simp: write_back_def)
qed

lemma ext4_read_block_contents:
  assumes "disk_reads drv (fs_device fs) disk cap" and "disk_writes drv (fs_device fs) disk cap" and g: "geometry fs cap"
    and c: "cache_coherent fs (disk (w_drv w))" and k: "k < block_count fs"
  shows "\<exists>fs' d. ext4_read_block drv fs k buf w =
             Some (True, filled (unat (block_size fs)) (contents fs (disk (w_drv w)) (unat k)) buf, fs', w\<lparr>w_drv := d\<rparr>) \<and>
           same_volume fs fs' \<and> disk d = disk (w_drv w) \<and> cache_coherent fs' (disk d)"
proof (cases "k = block_buffer_block fs")
  case True
  have "overlay (ucast (block_size fs)) (block_buffer fs) buf
      = filled (unat (block_size fs)) (contents fs (disk (w_drv w)) (unat k)) buf"
    using c k True by (auto simp: overlay_def filled_def fun_eq_iff cache_coherent_def word_less_nat_alt unat_ucast_up)
  then show ?thesis using True k c by (intro exI [of _ fs] exI [of _ "w_drv w"]) (simp add: ext4_read_block_def same_volume_refl not_le)
next
  case False
  let ?r = "filled (unat (block_size fs)) (contents fs (disk (w_drv w)) (unat k)) buf"
  let ?f = "fs\<lparr>block_buffer_dirty := False\<rparr>"
  obtain d where d: "write_back drv fs w = Some (True, ?f, w\<lparr>w_drv := d\<rparr>)" "disk d = disk (w_drv w)"
    using write_back_coherent [OF assms(2) g c] by blast
  have "geometry ?f cap" using g by (simp add: geometry_def)
  moreover have "disk_reads drv (fs_device ?f) disk cap" using assms(1) by simp
  ultimately obtain d2 where d2: "read_blocks drv ?f k 1 buf (w\<lparr>w_drv := d\<rparr>) = Some (True, ?r, w\<lparr>w_drv := d2\<rparr>)" "disk d2 = disk d"
    using read_one_block [of drv ?f disk cap k buf "w\<lparr>w_drv := d\<rparr>"] k d(2) unfolding contents_flag by auto
  let ?f' = "?f\<lparr>block_buffer := overlay (ucast (block_size fs)) ?r (block_buffer fs), block_buffer_block := k\<rparr>"
  have "cache_coherent ?f' (disk d2)"
    using d(2) d2(2) by (simp add: cache_coherent_def overlay_def filled_def word_less_nat_alt unat_ucast_up contents_def)
  moreover have "?f' = fs\<lparr>block_buffer := overlay (ucast (block_size fs)) ?r (block_buffer fs), block_buffer_block := k, block_buffer_dirty := False\<rparr>"
    by (cases fs) simp
  then have "same_volume fs ?f'"
    using same_volume_update [where fs = fs and b = "overlay (ucast (block_size fs)) ?r (block_buffer fs)" and k = k and d = False] by (simp only:)
  moreover have "ext4_read_block drv fs k buf w = Some (True, ?r, ?f', w\<lparr>w_drv := d2\<rparr>)"
    using False k by (simp add: ext4_read_block_def not_le d(1) d2(1))
  ultimately show ?thesis using d(2) d2(2) by (intro exI [of _ ?f'] exI [of _ d2]) simp
qed

definition with_block :: "(nat \<Rightarrow> nat \<Rightarrow> u8) \<Rightarrow> nat \<Rightarrow> nat \<Rightarrow> mem \<Rightarrow> nat \<Rightarrow> nat \<Rightarrow> u8" where
  "with_block c bs k buf = c(k := (\<lambda>i. if i < bs then buf (of_nat i) else c k i))"

lemma ext4_write_block_contents:
  assumes "disk_writes drv (fs_device fs) disk cap" and g: "geometry fs cap" and k: "k < block_count fs"
  shows "\<exists>fs' d. ext4_write_block drv fs k buf w = Some (True, fs', w\<lparr>w_drv := d\<rparr>) \<and> same_volume fs fs' \<and> cache_coherent fs' (disk d) \<and>
           (\<forall>j i. i < unat (block_size fs) \<longrightarrow>
              contents fs (disk d) j i = with_block (contents fs (disk (w_drv w))) (unat (block_size fs)) (unat k) buf j i)"
proof -
  let ?f = "fs\<lparr>block_buffer := overlay (ucast (block_size fs)) buf (block_buffer fs), block_buffer_block := k, block_buffer_dirty := True\<rparr>"
  let ?b = "unat (block_size fs)"
  have "geometry ?f cap" "disk_writes drv (fs_device ?f) disk cap" "k < block_count ?f" using g assms(1) k by (simp_all add: geometry_def)
  from write_one_block [OF this(2,1,3), of buf w]
  obtain d :: 'a where d: "write_blocks drv ?f k 1 buf w = Some (True, w\<lparr>w_drv := d\<rparr>)"
      "disk d = patched ?b (unat k) buf (disk (w_drv w))"
    by auto
  have co: "contents fs (disk d) j i = with_block (contents fs (disk (w_drv w))) ?b (unat k) buf j i" if h: "i < ?b" for i j
    using h unfolding contents_def with_block_def d(2) by (cases "j = unat k") (simp_all add: patched_in patched_out)
  have "cache_coherent ?f (disk d)"
    using k co [of _ "unat k"] unfolding cache_coherent_def
    by (simp add: overlay_def word_less_nat_alt unat_ucast_up with_block_def) (simp add: contents_def)
  moreover have "same_volume fs ?f" by (rule same_volume_update)
  moreover have "ext4_write_block drv fs k buf w = Some (True, ?f, w\<lparr>w_drv := d\<rparr>)" using k d(1) by (simp add: ext4_write_block_def not_le)
  ultimately show ?thesis using co by (intro exI [of _ ?f] exI [of _ d]) simp
qed

subsection \<open>Sequences of block operations\<close>

datatype block_op = Read_Block u64 mem | Write_Block u64 mem

fun op_block :: "block_op \<Rightarrow> u64" where
  "op_block (Read_Block k _) = k"
| "op_block (Write_Block k _) = k"

text \<open>What a sequence of operations reads, \<open>None\<close> when one of them fails; and the same for a volume that is a table of blocks.\<close>

fun run_blocks :: "'d drivers \<Rightarrow> block_op list \<Rightarrow> ext4_fs_t \<Rightarrow> 'd world \<Rightarrow> (mem list \<times> ext4_fs_t \<times> 'd world) option" where
  "run_blocks drv [] fs w = Some ([], fs, w)"
| "run_blocks drv (Read_Block k buf # ops) fs w = do {
     (ok, b, fs1, w1) \<leftarrow> ext4_read_block drv fs k buf w;
     if \<not> ok then None
     else do { (bs, fs2, w2) \<leftarrow> run_blocks drv ops fs1 w1; Some (b # bs, fs2, w2) } }"
| "run_blocks drv (Write_Block k buf # ops) fs w = do {
     (ok, fs1, w1) \<leftarrow> ext4_write_block drv fs k buf w;
     if \<not> ok then None else run_blocks drv ops fs1 w1 }"

fun run_table :: "nat \<Rightarrow> block_op list \<Rightarrow> (nat \<Rightarrow> nat \<Rightarrow> u8) \<Rightarrow> mem list" where
  "run_table bs [] c = []"
| "run_table bs (Read_Block k buf # ops) c = filled bs (c (unat k)) buf # run_table bs ops c"
| "run_table bs (Write_Block k buf # ops) c = run_table bs ops (with_block c bs (unat k) buf)"

lemma filled_cong: "(\<And>i. i < bs \<Longrightarrow> f i = g i) \<Longrightarrow> filled bs f buf = filled bs g buf"
  by (simp add: filled_def fun_eq_iff)

lemma run_table_cong:
  assumes "\<And>j i. i < bs \<Longrightarrow> c j i = c' j i"
  shows "run_table bs ops c = run_table bs ops c'"
  using assms
proof (induction bs ops c arbitrary: c' rule: run_table.induct)
  case (2 bs k buf ops c)
  have "filled bs (c (unat k)) buf = filled bs (c' (unat k)) buf" by (rule filled_cong) (rule "2.prems")
  then show ?case using "2.IH" [OF "2.prems"] by simp
next
  case (3 bs k buf ops c)
  show ?case unfolding run_table.simps by (rule "3.IH") (simp add: with_block_def "3.prems")
qed simp

lemma run_blocks_table:
  assumes "disk_reads drv (fs_device fs) disk cap" and "disk_writes drv (fs_device fs) disk cap" and "geometry fs cap"
    and "cache_coherent fs (disk (w_drv w))" and "list_all (\<lambda>x. op_block x < block_count fs) ops"
  shows "\<exists>fs' d. run_blocks drv ops fs w = Some (run_table (unat (block_size fs)) ops (contents fs (disk (w_drv w))), fs', w\<lparr>w_drv := d\<rparr>)
           \<and> same_volume fs fs' \<and> cache_coherent fs' (disk d)"
  using assms
proof (induction ops arbitrary: fs w)
  case Nil
  then show ?case by (intro exI [of _ fs] exI [of _ "w_drv w"]) (simp add: same_volume_refl)
next
  case (Cons x ops)
  show ?case
  proof (cases x)
    case (Read_Block k buf)
    then have k: "k < block_count fs" using Cons.prems(5) by simp
    obtain fs1 d1 where r: "ext4_read_block drv fs k buf w =
          Some (True, filled (unat (block_size fs)) (contents fs (disk (w_drv w)) (unat k)) buf, fs1, w\<lparr>w_drv := d1\<rparr>)"
        and v: "same_volume fs fs1" "disk d1 = disk (w_drv w)" "cache_coherent fs1 (disk d1)"
      using ext4_read_block_contents [OF Cons.prems(1-4) k, of buf] by blast
    note f = same_volume_fields [OF v(1)]
    have "\<exists>fs' d. run_blocks drv ops fs1 (w\<lparr>w_drv := d1\<rparr>) =
          Some (run_table (unat (block_size fs1)) ops (contents fs1 (disk (w_drv (w\<lparr>w_drv := d1\<rparr>)))), fs', w\<lparr>w_drv := d1\<rparr>\<lparr>w_drv := d\<rparr>)
          \<and> same_volume fs1 fs' \<and> cache_coherent fs' (disk d)"
      using Cons.prems(1-3,5) v(3) by (intro Cons.IH) (simp_all add: f)
    then obtain fs' d where "run_blocks drv ops fs1 (w\<lparr>w_drv := d1\<rparr>) =
          Some (run_table (unat (block_size fs)) ops (contents fs (disk (w_drv w))), fs', w\<lparr>w_drv := d\<rparr>)"
        "same_volume fs1 fs'" "cache_coherent fs' (disk d)"
      by (auto simp: f v(2))
    then show ?thesis using same_volume_trans [OF v(1)] by (intro exI [of _ fs'] exI [of _ d]) (simp add: Read_Block r)
  next
    case (Write_Block k buf)
    then have k: "k < block_count fs" using Cons.prems(5) by simp
    obtain fs1 d1 where r: "ext4_write_block drv fs k buf w = Some (True, fs1, w\<lparr>w_drv := d1\<rparr>)"
        and v: "same_volume fs fs1" "cache_coherent fs1 (disk d1)"
        and c: "\<And>j i. i < unat (block_size fs) \<Longrightarrow>
              contents fs (disk d1) j i = with_block (contents fs (disk (w_drv w))) (unat (block_size fs)) (unat k) buf j i"
      using ext4_write_block_contents [OF Cons.prems(2,3) k, of buf w] by blast
    note f = same_volume_fields [OF v(1)]
    have "\<exists>fs' d. run_blocks drv ops fs1 (w\<lparr>w_drv := d1\<rparr>) =
          Some (run_table (unat (block_size fs1)) ops (contents fs1 (disk (w_drv (w\<lparr>w_drv := d1\<rparr>)))), fs', w\<lparr>w_drv := d1\<rparr>\<lparr>w_drv := d\<rparr>)
          \<and> same_volume fs1 fs' \<and> cache_coherent fs' (disk d)"
      using Cons.prems(1-3,5) v(2) by (intro Cons.IH) (simp_all add: f)
    then obtain fs' d where "run_blocks drv ops fs1 (w\<lparr>w_drv := d1\<rparr>) =
          Some (run_table (unat (block_size fs)) ops (contents fs (disk d1)), fs', w\<lparr>w_drv := d\<rparr>)"
        "same_volume fs1 fs'" "cache_coherent fs' (disk d)"
      by (auto simp: f)
    then show ?thesis using same_volume_trans [OF v(1)] run_table_cong [OF c]
      by (intro exI [of _ fs'] exI [of _ d]) (simp add: Write_Block r)
  qed
qed

subsection \<open>Inodes\<close>

text \<open>The structure of an inode, its first \<open>sizeof_inode\<close> bytes, as it lies at \<open>off\<close> in a block.\<close>


lemma sizeof_inode_bound: "sizeof_inode \<le> 2 ^ 64"
  by (simp add: sizeof_inode_def)

lemma copy_inode_out:
  assumes "i < sizeof_inode"
  shows "copy_block 0 blk (ucast (off :: u32)) sizeof_inode ino (of_nat i) = blk (ucast off + of_nat i)"
  using copy_block_at [OF sizeof_inode_bound assms, where d = 0] by simp

lemma copy_inode_in:
  assumes "i < sizeof_inode"
  shows "copy_block (ucast (off :: u32)) ino 0 sizeof_inode blk (ucast off + of_nat i) = ino (of_nat i)"
  using copy_block_at [OF sizeof_inode_bound assms, where p = 0] by simp

lemma alloc_world: "alloc n w = (fst (vmm_allocate n VMM_FLAG_WRITABLE (w_vmm w)), w\<lparr>w_vmm := snd (vmm_allocate n VMM_FLAG_WRITABLE (w_vmm w))\<rparr>)"
  by (simp add: alloc_def split_beta)

lemma release_drv [simp]: "w_drv (release p n w) = w_drv w"
  by (simp add: release_def)

lemma unat_block_offset:
  assumes "unat (off :: u32) + i < unat (bs :: u32)"
  shows "unat (ucast off + of_nat i :: u64) = unat off + i"
proof -
  have "unat off + i < 2 ^ 32" using assms unsigned_less [of bs, where ?'a = nat] by simp
  then show ?thesis by (simp add: unat_word_ariths unat_ucast_up unat_of_nat)
qed

lemma write_inode_contents:
  assumes "disk_reads drv (fs_device fs) disk cap" and "disk_writes drv (fs_device fs) disk cap" and g: "geometry fs cap"
    and c: "cache_coherent fs (disk (w_drv w))"
    and n: "n \<noteq> 0" "inode_location fs n = Some (Some (blk, off))" "blk < block_count fs" "unat off + sizeof_inode \<le> unat (block_size fs)"
    and a: "fst (vmm_allocate (ucast (block_size fs)) VMM_FLAG_WRITABLE (w_vmm w)) \<noteq> 0"
  shows "\<exists>fs' w'. write_inode drv fresh fs n ino w = Some (True, fs', w') \<and> same_volume fs fs' \<and> cache_coherent fs' (disk (w_drv w')) \<and>
      (\<forall>i < sizeof_inode. contents fs (disk (w_drv w')) (unat blk) (unat off + i) = ino (of_nat i))"
proof -
  let ?w = "w\<lparr>w_vmm := snd (vmm_allocate (ucast (block_size fs)) VMM_FLAG_WRITABLE (w_vmm w))\<rparr>"
  have "cache_coherent fs (disk (w_drv ?w))" using c by simp
  from ext4_read_block_contents [OF assms(1,2) g this n(3), of "fresh ?w"]
  obtain b fs1 d1 where r: "ext4_read_block drv fs blk (fresh ?w) ?w = Some (True, b, fs1, ?w\<lparr>w_drv := d1\<rparr>)" and v: "same_volume fs fs1"
    by blast
  note f = same_volume_fields [OF v]
  let ?b = "copy_block (ucast off) ino 0 sizeof_inode b"
  have "disk_writes drv (fs_device fs1) disk cap" "geometry fs1 cap" "blk < block_count fs1" using assms(2) g n(3) by (simp_all add: f)
  from ext4_write_block_contents [OF this, of ?b "?w\<lparr>w_drv := d1\<rparr>"]
  obtain fs2 d2 where wr: "ext4_write_block drv fs1 blk ?b (?w\<lparr>w_drv := d1\<rparr>) = Some (True, fs2, ?w\<lparr>w_drv := d1\<rparr>\<lparr>w_drv := d2\<rparr>)"
      and v2: "same_volume fs1 fs2" "cache_coherent fs2 (disk d2)"
      and co: "\<And>i. i < unat (block_size fs) \<Longrightarrow> contents fs (disk d2) (unat blk) i = ?b (of_nat i)"
    unfolding f with_block_def by auto
  have "contents fs (disk d2) (unat blk) (unat off + i) = ino (of_nat i)" if h: "i < sizeof_inode" for i
  proof -
    have l: "unat off + i < unat (block_size fs)" using h n(4) by simp
    have "(of_nat (unat off + i) :: u64) = ucast off + of_nat i" by simp
    then show ?thesis using co [OF l] copy_inode_in [OF h] by metis
  qed
  then show ?thesis using a same_volume_trans [OF v v2(1)] v2(2)
    by (simp add: write_inode_def n(1,2) alloc_world r wr f)
qed

lemma read_inode_contents:
  assumes "disk_reads drv (fs_device fs) disk cap" and "disk_writes drv (fs_device fs) disk cap" and g: "geometry fs cap"
    and c: "cache_coherent fs (disk (w_drv w))"
    and n: "n \<noteq> 0" "inode_location fs n = Some (Some (blk, off))" "blk < block_count fs" "unat off + sizeof_inode \<le> unat (block_size fs)"
    and a: "fst (vmm_allocate (ucast (block_size fs)) VMM_FLAG_WRITABLE (w_vmm w)) \<noteq> 0"
  shows "\<exists>ino' fs' w'. read_inode drv fresh fs n ino w = Some (True, ino', fs', w') \<and>
      (\<forall>i < sizeof_inode. ino' (of_nat i) = contents fs (disk (w_drv w)) (unat blk) (unat off + i))"
proof -
  let ?w = "w\<lparr>w_vmm := snd (vmm_allocate (ucast (block_size fs)) VMM_FLAG_WRITABLE (w_vmm w))\<rparr>"
  let ?b = "filled (unat (block_size fs)) (contents fs (disk (w_drv w)) (unat blk)) (fresh ?w)"
  have "cache_coherent fs (disk (w_drv ?w))" using c by simp
  from ext4_read_block_contents [OF assms(1,2) g this n(3), of "fresh ?w"]
  obtain fs1 d1 where r: "ext4_read_block drv fs blk (fresh ?w) ?w = Some (True, ?b, fs1, ?w\<lparr>w_drv := d1\<rparr>)" and v: "same_volume fs fs1"
    by auto
  have "?b (ucast off + of_nat i) = contents fs (disk (w_drv w)) (unat blk) (unat off + i)" if h: "i < sizeof_inode" for i
    using unat_block_offset [of off i "block_size fs"] h n(4) by (simp add: filled_def)
  then show ?thesis using a by (simp add: read_inode_def n(1,2) alloc_world r copy_inode_out)
qed

section \<open>Properties\<close>

text \<open>A disk in memory of \<open>cap\<close> sectors, and a volume of eight blocks of 1024 bytes on it, with the table of inodes in block 4.\<close>

definition ram_drivers :: "nat \<Rightarrow> (nat \<Rightarrow> u8) drivers" where
  "ram_drivers cap = \<lparr>nvme_read = (\<lambda>_ _ _ buf _ d. ((False, buf), d)), nvme_write = (\<lambda>_ _ _ _ _ d. (False, d)), nvme_flush = (\<lambda>_ _ d. (False, d)),
     nvme_get_namespace_info = (\<lambda>_ _ d. (None, d)), nvme_get_device_count = (\<lambda>_. 0),
     sata_read = (\<lambda>_ lba buf n d. if unat lba + unat n \<le> cap then ((True, sectors_of 512 d lba n buf), d) else ((False, buf), d)),
     sata_write = (\<lambda>_ lba buf n d. if unat lba + unat n \<le> cap then (True, with_sectors 512 d lba n buf) else (False, d)),
     sata_flush = (\<lambda>_ d. (True, d)), sata_get_port_count = (\<lambda>_. 1), sata_get_port_info = (\<lambda>_ d. (True, d))\<rparr>"

definition device_demo :: storage_device_t where
  "device_demo = \<lparr>sd_type = STORAGE_TYPE_SATA, sd_device_id = 0, sd_namespace_id = 0, sd_sector_size = 512, sd_sector_count = 0, sd_ops = STORAGE_TYPE_SATA\<rparr>"

definition fs_demo :: ext4_fs_t where
  "fs_demo = \<lparr>fs_addr = 0x1000, fs_device = device_demo, fs_superblock = (\<lambda>_. 0), block_size = 1024, block_count = 8, blocks_per_group = 8,
     inodes_per_group = 8, inode_size = 256, groups_count = 1, group_desc_addr = 0x2000, group_desc = (\<lambda>i. if i = 8 then 4 else 0),
     fs_lock = \<lparr>sl_value = 0, sl_owner = 0\<rparr>, block_buffer_addr = 0x3000, block_buffer = (\<lambda>_. 0), block_buffer_block = - 1, block_buffer_dirty = False\<rparr>"

definition world_demo :: "(nat \<Rightarrow> u8) world" where
  "world_demo = \<lparr>w_vmm = init_demo, w_drv = (\<lambda>_. 0), detected_devices = [device_demo], storage_device_count = 1\<rparr>"

lemma ram_disk: "disk_reads (ram_drivers cap) device_demo (\<lambda>d. d) cap" "disk_writes (ram_drivers cap) device_demo (\<lambda>d. d) cap"
  by (simp_all add: disk_reads_def disk_writes_def dev_read_def dev_write_def device_demo_def ram_drivers_def sata_storage_read_def sata_storage_write_def)

lemma fs_demo_volume: "fs_device fs_demo = device_demo" "geometry fs_demo 16" "cache_coherent fs_demo (w_drv world_demo)"
  by (simp_all add: fs_demo_def geometry_def device_demo_def cache_coherent_def)

lemma init_demo_kernel_areas:
  "areas_of False init_demo = ((replicate 32 empty_area)[0 := \<lparr>area_base = 0xffff800010000000, area_size = 0x10000000, area_is_used = False, area_flags = 3\<rparr>], 1)"
  by (simp add: init_demo_def vmm_init_def areas_of_def vmm_demo_def register_memory_area_def MAX_MEMORY_AREAS_def vmm_flag_defs Let_def)

lemma init_demo_kernel_allocated: "fst (vmm_allocate 0x400 VMM_FLAG_WRITABLE init_demo) = 0xffff800010000000"
proof -
  have "page_round 0x400 = 0x1000" by (simp add: page_round_def PAGE_SIZE_4K_def)
  moreover have "find_free_area (fst (areas_of False init_demo)) 1 0x1000 = Some 0"
    by (simp add: init_demo_kernel_areas find_free_area_def slot_simps)
  moreover have "fst (allocate_loop (fst (areas_of False init_demo) ! 0) VMM_FLAG_WRITABLE [0] (set_area_used False 0 True init_demo))"
    by (simp add: init_demo_kernel_areas set_area_used_def)
       (simp add: init_demo_def vmm_init_def vmm_demo_def register_memory_area_def MAX_MEMORY_AREAS_def read_cr3_def
          demo_eval hw_flags_def vmm_map_page_def map_page_internal_def invlpg_def)
  ultimately show ?thesis
    using vmm_allocate_eq [of "0x400" VMM_FLAG_WRITABLE init_demo] init_demo_kernel_areas
    by (auto simp: vmm_flag_defs split: prod.splits)
qed
text \<open>
  C22. The block cache is transparent: on drivers that read and write the sectors they are asked for, any sequence of reads and writes of
  blocks of the volume succeeds and reads exactly what a table of blocks would give, whatever the cache holds at the start.
\<close>

theorem block_cache_refines_table:
  assumes "disk_reads drv (fs_device fs) disk cap" and "disk_writes drv (fs_device fs) disk cap" and "geometry fs cap"
    and "cache_coherent fs (disk (w_drv w))" and "list_all (\<lambda>x. op_block x < block_count fs) ops"
  shows "map_option fst (run_blocks drv ops fs w) = Some (run_table (unat (block_size fs)) ops (contents fs (disk (w_drv w))))"
  using run_blocks_table [OF assms] by auto

theorem block_cache_refines_table_witness:
  "map_option fst (run_blocks (ram_drivers 16) [Write_Block 3 (\<lambda>_. 7), Write_Block 5 (\<lambda>_. 9), Read_Block 3 (\<lambda>_. 0)] fs_demo world_demo)
     = Some [filled 1024 (\<lambda>i. if i < 1024 then 7 else contents fs_demo (w_drv world_demo) 3 i) (\<lambda>_. 0)]"
  using block_cache_refines_table [where drv = "ram_drivers 16" and fs = fs_demo and disk = "\<lambda>d. d" and cap = 16 and w = world_demo
      and ops = "[Write_Block 3 (\<lambda>_. 7), Write_Block 5 (\<lambda>_. 9), Read_Block 3 (\<lambda>_. 0)]"] ram_disk [of 16] fs_demo_volume
  by (simp add: with_block_def) (simp add: fs_demo_def)


lemma fs_demo_inode: "inode_location fs_demo 6 = Some (Some (5, 256))"
  by (simp add: inode_location_def fs_demo_def quotient_def remainder_def bg_inode_table_lo_def bg_inode_table_hi_def le32_def le16_def)


text \<open>
  C24. The scan of a directory block always ends, whatever bytes the block holds, and finds the first entry of the chain of entries that is in use and
  has the name, or nothing when there is none.
\<close>

theorem scan_entries_first:
  assumes "unat bs \<le> 2 ^ 31"
  shows "scan_entries bs b name 0 = Some (map_option (de_inode b) (find (names b name) (entry_chain bs b 0)))"
  using scan_entries_chain [OF assms, of 0] by simp

theorem scan_entries_first_witness:
  "scan_entries 1024 ((\<lambda>_. 0)(0 := 11, 4 := 12, 6 := 1, 8 := 0x2E, 12 := 13, 17 := 4, 18 := 1, 20 := 0x61)) [0x61] 0 = Some (Some 13)"
  (is "scan_entries 1024 ?b _ 0 = _")
proof -
  have "entry_chain 1024 ?b 0 = [0, 12]"
    by (subst entry_chain.simps, simp add: de_rec_len_def le16_def, subst entry_chain.simps, simp add: de_rec_len_def le16_def)
       (subst entry_chain.simps, simp)
  then show ?thesis using scan_entries_first [of 1024 ?b "[0x61]"]
    by (simp add: names_def de_inode_def de_name_len_def de_name_def le32_def le16_def)
qed

text \<open>
  C25. \<open>find_inode_by_path\<close> follows, from the root, exactly the components of the path: the non-empty pieces between its slashes, each cut to 255
  characters, looked up one after the other until one of them is missing; leading, trailing and repeated slashes make no difference.
\<close>

theorem find_inode_by_path_walks:
  "find_inode_by_path drv fresh fs path w = lookup_all drv fresh (path_components path) 2 fs w"
  by (rule find_inode_by_path_components)

lemma single_area_taken:
  assumes "kernel_area_count s = 1" and "vmm_allocate m VMM_FLAG_WRITABLE s = (p, v)" and "p \<noteq> 0"
  shows "vmm_allocate n VMM_FLAG_WRITABLE v = (0, v)"
  using vmm_single_area_exhausted [OF assms(2,3)] assms(1) by (simp add: areas_of_def vmm_flag_defs)

text \<open>
  C26. With one kernel area, which is what \<open>vmm_init\<close> registers, no volume can be mounted: the structure of the file system takes the whole
  area, so the table of the group descriptors cannot be allocated and \<open>ext4_mount\<close> reports failure for every device and every disk.
\<close>

theorem ext4_mount_single_area:
  assumes "kernel_area_count (w_vmm w) = 1" and "ext4_mount drv fresh dev w = Some (r, w')"
  shows "r = None"
proof (rule ccontr)
  assume "r \<noteq> None"
  obtain p v where p: "vmm_allocate sizeof_fs VMM_FLAG_WRITABLE (w_vmm w) = (p, v)" by fastforce
  have "vmm_allocate n VMM_FLAG_WRITABLE v = (0, v)" if h: "p \<noteq> 0" for n
    by (rule single_area_taken [OF assms(1) p h])
  moreover have "w_vmm w2 = w_vmm w1" if "dev_read drv dev lba buf m w1 = Some (ok, b, w2)" for lba buf m w1 w2 ok b
    using that by (auto simp: dev_read_def Let_def split: storage_type_t.splits prod.splits)
  ultimately show False using assms(2) \<open>r \<noteq> None\<close> p
    by (auto simp: ext4_mount_def alloc_def read_superblock_def bind_eq_Some_conv split: if_splits prod.splits)
qed

text \<open>A disk with a superblock: its magic number and eight blocks in a group of eight.\<close>

definition formatted :: "nat \<Rightarrow> u8" where
  "formatted = (\<lambda>_. 0)(1028 := 8, 1056 := 8, 1080 := 0x53, 1081 := 0xEF)"

lemma ext4_mount_formatted:
  "\<exists>r w'. ext4_mount (ram_drivers 16) (\<lambda>_ _. 0) device_demo (world_demo\<lparr>w_drv := formatted\<rparr>) = Some (r, w')"
proof -
  obtain p v where p: "vmm_allocate sizeof_fs VMM_FLAG_WRITABLE init_demo = (p, v)" by fastforce
  have "kernel_area_count init_demo = 1" using init_demo_kernel_areas by (simp add: areas_of_def)
  note e = single_area_taken [OF this p]
  show ?thesis
  proof (cases "p = 0")
    case True
    then show ?thesis by (simp add: ext4_mount_def device_demo_def alloc_def world_demo_def p)
  next
    case False
    then show ?thesis
      by (simp add: ext4_mount_def device_demo_def alloc_def read_superblock_def quotient_def dev_read_def sata_storage_read_def ram_drivers_def
          sectors_of_def s_magic_def le16_def EXT4_SUPER_MAGIC_def EXT4_SUPERBLOCK_OFFSET_def sizeof_superblock_def world_demo_def Let_def formatted_def
          fs_parameters_def s_blocks_per_group_def le32_def p e)
  qed
qed

theorem ext4_mount_single_area_witness:
  "\<exists>w'. ext4_mount (ram_drivers 16) (\<lambda>_ _. 0) device_demo (world_demo\<lparr>w_drv := formatted\<rparr>) = Some (None, w')"
proof -
  obtain r w' where m: "ext4_mount (ram_drivers 16) (\<lambda>_ _. 0) device_demo (world_demo\<lparr>w_drv := formatted\<rparr>) = Some (r, w')"
    using ext4_mount_formatted by blast
  have "kernel_area_count (w_vmm (world_demo\<lparr>w_drv := formatted\<rparr>)) = 1" using init_demo_kernel_areas by (simp add: world_demo_def areas_of_def)
  from ext4_mount_single_area [OF this m] m show ?thesis by simp
qed

end
