(* ===== verification/Serial.thy ===== *)
theory Serial
  imports Machine Stdio
begin

text \<open>
  The serial ports, \<open>src/src/src/syncos/serial.c\<close> and \<open>serial.h\<close>. The state extends the machine by the port of the standard
  streams and by the state of \<open>stdio.c\<close>, whose memory holds the strings and the buffer of the printing functions. The addresses
  of the three stream functions, of the start-up message and of the buffer are parameters. A loop that waits for a port that never answers is \<open>None\<close>.
\<close>

section \<open>Registers\<close>

definition COM1_PORT :: u16 where "COM1_PORT = 0x3F8"
definition SERIAL_DATA_REG :: u16 where "SERIAL_DATA_REG = 0"
definition SERIAL_INT_ENABLE_REG :: u16 where "SERIAL_INT_ENABLE_REG = 1"
definition SERIAL_INT_ID_FIFO_REG :: u16 where "SERIAL_INT_ID_FIFO_REG = 2"
definition SERIAL_LINE_CONTROL_REG :: u16 where "SERIAL_LINE_CONTROL_REG = 3"
definition SERIAL_MODEM_CONTROL_REG :: u16 where "SERIAL_MODEM_CONTROL_REG = 4"
definition SERIAL_LINE_STATUS_REG :: u16 where "SERIAL_LINE_STATUS_REG = 5"
definition SERIAL_LSR_DATA_READY :: u8 where "SERIAL_LSR_DATA_READY = 0x01"
definition SERIAL_LSR_TX_HOLDING_EMPTY :: u8 where "SERIAL_LSR_TX_HOLDING_EMPTY = 0x20"
definition SERIAL_LCR_8BITS :: u8 where "SERIAL_LCR_8BITS = 0x03"
definition SERIAL_LCR_DLAB :: u8 where "SERIAL_LCR_DLAB = 0x80"
definition SERIAL_FCR_ENABLE_FIFO :: u8 where "SERIAL_FCR_ENABLE_FIFO = 0x01"
definition SERIAL_FCR_CLEAR_RX_FIFO :: u8 where "SERIAL_FCR_CLEAR_RX_FIFO = 0x02"
definition SERIAL_FCR_CLEAR_TX_FIFO :: u8 where "SERIAL_FCR_CLEAR_TX_FIFO = 0x04"
definition SERIAL_FCR_INT_TRIGGER_14 :: u8 where "SERIAL_FCR_INT_TRIGGER_14 = 0xC0"
definition SERIAL_MCR_DTR :: u8 where "SERIAL_MCR_DTR = 0x01"
definition SERIAL_MCR_RTS :: u8 where "SERIAL_MCR_RTS = 0x02"
definition SERIAL_MCR_OUT2 :: u8 where "SERIAL_MCR_OUT2 = 0x08"
definition SERIAL_BAUD_115200 :: u16 where "SERIAL_BAUD_115200 = 1"
definition PRINTF_BUFFER_SIZE :: u64 where "PRINTF_BUFFER_SIZE = 1024"

lemmas serial_regs = SERIAL_DATA_REG_def SERIAL_INT_ENABLE_REG_def SERIAL_INT_ID_FIFO_REG_def SERIAL_LINE_CONTROL_REG_def
  SERIAL_MODEM_CONTROL_REG_def SERIAL_LINE_STATUS_REG_def SERIAL_LSR_DATA_READY_def SERIAL_LSR_TX_HOLDING_EMPTY_def

record serial_state = machine +
  stdio_port :: u16
  streams :: stdio

section \<open>Operations\<close>

definition serial_init :: "u16 \<Rightarrow> u16 \<Rightarrow> 'a serial_state_scheme \<Rightarrow> 'a serial_state_scheme" where
  "serial_init port baud_divisor s =
     (let s1 = outb (port + SERIAL_INT_ENABLE_REG) 0 s;
          s2 = outb (port + SERIAL_LINE_CONTROL_REG) SERIAL_LCR_DLAB s1;
          s3 = outb (port + SERIAL_DATA_REG) (ucast (baud_divisor AND 0xFF)) s2;
          s4 = outb (port + SERIAL_DATA_REG + 1) (ucast (drop_bit 8 baud_divisor AND 0xFF)) s3;
          s5 = outb (port + SERIAL_LINE_CONTROL_REG) SERIAL_LCR_8BITS s4;
          s6 = outb (port + SERIAL_INT_ID_FIFO_REG)
                 (SERIAL_FCR_ENABLE_FIFO OR SERIAL_FCR_CLEAR_RX_FIFO OR SERIAL_FCR_CLEAR_TX_FIFO OR SERIAL_FCR_INT_TRIGGER_14) s5
      in outb (port + SERIAL_MODEM_CONTROL_REG) (SERIAL_MCR_DTR OR SERIAL_MCR_RTS OR SERIAL_MCR_OUT2) s6)"

definition serial_is_transmit_empty :: "device \<Rightarrow> u16 \<Rightarrow> 'a serial_state_scheme \<Rightarrow> bool \<times> 'a serial_state_scheme" where
  "serial_is_transmit_empty dev port s =
     (let (v, s1) = inb dev (port + SERIAL_LINE_STATUS_REG) s in (v AND SERIAL_LSR_TX_HOLDING_EMPTY \<noteq> 0, s1))"

definition serial_has_data :: "device \<Rightarrow> u16 \<Rightarrow> 'a serial_state_scheme \<Rightarrow> bool \<times> 'a serial_state_scheme" where
  "serial_has_data dev port s =
     (let (v, s1) = inb dev (port + SERIAL_LINE_STATUS_REG) s in (v AND SERIAL_LSR_DATA_READY \<noteq> 0, s1))"

text \<open>The loop \<open>while (!ready(port)) pause\<close>.\<close>

partial_function (option) wait_until :: "('s \<Rightarrow> bool \<times> 's) \<Rightarrow> 's \<Rightarrow> 's option" where
  "wait_until ready s = (case ready s of (b, s1) \<Rightarrow> if b then Some s1 else wait_until ready s1)"

definition serial_write_char :: "device \<Rightarrow> u16 \<Rightarrow> u8 \<Rightarrow> 'a serial_state_scheme \<Rightarrow> 'a serial_state_scheme option" where
  "serial_write_char dev port c s =
     Option.bind (wait_until (serial_is_transmit_empty dev port) s) (\<lambda>s1.
     Option.bind (if c = 10 then wait_until (serial_is_transmit_empty dev port) (outb (port + SERIAL_DATA_REG) 13 s1) else Some s1) (\<lambda>s2.
     Some (outb (port + SERIAL_DATA_REG) c s2)))"

partial_function (option) serial_string_loop :: "device \<Rightarrow> u16 \<Rightarrow> u64 \<Rightarrow> 'a serial_state_scheme \<Rightarrow> 'a serial_state_scheme option" where
  "serial_string_loop dev port p s =
     (if stdio_mem (streams s) p = 0 then Some s
      else Option.bind (serial_write_char dev port (stdio_mem (streams s) p) s) (serial_string_loop dev port (p + 1)))"

definition serial_write_string :: "device \<Rightarrow> u16 \<Rightarrow> u64 \<Rightarrow> 'a serial_state_scheme \<Rightarrow> 'a serial_state_scheme option" where
  "serial_write_string dev port str s = (if str = 0 then Some s else serial_string_loop dev port str s)"

primrec write_bytes_loop :: "device \<Rightarrow> u16 \<Rightarrow> u64 \<Rightarrow> nat \<Rightarrow> 'a serial_state_scheme \<Rightarrow> 'a serial_state_scheme option" where
  "write_bytes_loop dev port data 0 s = Some s"
| "write_bytes_loop dev port data (Suc n) s =
     Option.bind (wait_until (serial_is_transmit_empty dev port) s) (\<lambda>s1.
       write_bytes_loop dev port (data + 1) n (outb (port + SERIAL_DATA_REG) (stdio_mem (streams s1) data) s1))"

definition serial_write_bytes :: "device \<Rightarrow> u16 \<Rightarrow> u64 \<Rightarrow> u32 \<Rightarrow> 'a serial_state_scheme \<Rightarrow> 'a serial_state_scheme option" where
  "serial_write_bytes dev port data n s = (if data = 0 then Some s else write_bytes_loop dev port data (unat n) s)"

definition serial_read_char :: "device \<Rightarrow> u16 \<Rightarrow> 'a serial_state_scheme \<Rightarrow> (u8 \<times> 'a serial_state_scheme) option" where
  "serial_read_char dev port s =
     Option.bind (wait_until (serial_has_data dev port) s) (\<lambda>s1. Some (inb dev (port + SERIAL_DATA_REG) s1))"

primrec read_bytes_loop :: "device \<Rightarrow> u16 \<Rightarrow> u64 \<Rightarrow> nat \<Rightarrow> 'a serial_state_scheme \<Rightarrow> 'a serial_state_scheme option" where
  "read_bytes_loop dev port buffer 0 s = Some s"
| "read_bytes_loop dev port buffer (Suc n) s =
     Option.bind (serial_read_char dev port s) (\<lambda>(c, s1).
       read_bytes_loop dev port (buffer + 1) n (s1\<lparr>streams := (streams s1)\<lparr>stdio_mem := (stdio_mem (streams s1))(buffer := c)\<rparr>\<rparr>))"

definition serial_read_bytes :: "device \<Rightarrow> u16 \<Rightarrow> u64 \<Rightarrow> u32 \<Rightarrow> 'a serial_state_scheme \<Rightarrow> 'a serial_state_scheme option" where
  "serial_read_bytes dev port buffer n s = (if buffer = 0 then Some s else read_bytes_loop dev port buffer (unat n) s)"

definition serial_stdin_getchar :: "device \<Rightarrow> 'a serial_state_scheme \<Rightarrow> (u32 \<times> 'a serial_state_scheme) option" where
  "serial_stdin_getchar dev s = map_option (\<lambda>(c, s1). (scast c, s1)) (serial_read_char dev (stdio_port s) s)"

definition serial_stdout_putchar :: "device \<Rightarrow> u32 \<Rightarrow> 'a serial_state_scheme \<Rightarrow> (u32 \<times> 'a serial_state_scheme) option" where
  "serial_stdout_putchar dev c s = map_option (\<lambda>s1. (c, s1)) (serial_write_char dev (stdio_port s) (ucast c) s)"

definition serial_stderr_putchar :: "device \<Rightarrow> u32 \<Rightarrow> 'a serial_state_scheme \<Rightarrow> (u32 \<times> 'a serial_state_scheme) option" where
  "serial_stderr_putchar dev c s = map_option (\<lambda>s1. (c, s1)) (serial_write_char dev (stdio_port s) (ucast c) s)"

definition serial_init_stdio :: "device \<Rightarrow> u64 \<Rightarrow> u64 \<Rightarrow> u64 \<Rightarrow> u64 \<Rightarrow> 'a serial_state_scheme \<Rightarrow> 'a serial_state_scheme option" where
  "serial_init_stdio dev getc putc eputc message s =
     (let s1 = serial_init (stdio_port s) SERIAL_BAUD_115200 s;
          s2 = s1\<lparr>streams := stdio_set_stderr_putchar eputc (stdio_set_stdout_putchar putc (stdio_set_stdin_getchar getc (streams s1)))\<rparr>
      in serial_write_string dev (stdio_port s2) message s2)"

definition print_on :: "device \<Rightarrow> u64 \<Rightarrow> u16 \<Rightarrow> string option \<Rightarrow> u64 list \<Rightarrow> 'a serial_state_scheme \<Rightarrow> 'a serial_state_scheme option" where
  "print_on dev printf_buffer port format args s =
     Option.bind (vsnprintf printf_buffer PRINTF_BUFFER_SIZE format args (stdio_mem (streams s))) (\<lambda>(result, m).
       if 0 < sint result
       then serial_write_string dev port printf_buffer (s\<lparr>streams := (streams s)\<lparr>stdio_mem := m(printf_buffer + (PRINTF_BUFFER_SIZE - 1) := 0)\<rparr>\<rparr>)
       else Some (s\<lparr>streams := (streams s)\<lparr>stdio_mem := m\<rparr>\<rparr>))"

definition serial_printf :: "device \<Rightarrow> u64 \<Rightarrow> u16 \<Rightarrow> string option \<Rightarrow> u64 list \<Rightarrow> 'a serial_state_scheme \<Rightarrow> 'a serial_state_scheme option" where
  "serial_printf dev printf_buffer port format args s = print_on dev printf_buffer port format args s"

definition kprintf :: "device \<Rightarrow> u64 \<Rightarrow> string option \<Rightarrow> u64 list \<Rightarrow> 'a serial_state_scheme \<Rightarrow> 'a serial_state_scheme option" where
  "kprintf dev printf_buffer format args s = print_on dev printf_buffer (stdio_port s) format args s"

text \<open>The body of \<open>dprintf\<close> is compiled only with \<open>DEBUG\<close>, which no build file defines.\<close>

definition dprintf :: "string option \<Rightarrow> u64 list \<Rightarrow> 'a serial_state_scheme \<Rightarrow> 'a serial_state_scheme" where
  "dprintf format args s = s"

section \<open>What is sent\<close>

text \<open>The bytes written to the data register of a port, in the order of the writes.\<close>

fun sent :: "u16 \<Rightarrow> io_event list \<Rightarrow> u8 list" where
  "sent port [] = []"
| "sent port (Outb p v # es) = sent port es @ (if p = port then [v] else [])"
| "sent port (_ # es) = sent port es"

definition crlf :: "u8 list \<Rightarrow> u8 list" where
  "crlf cs = concat (map (\<lambda>c. if c = 10 then [13, 10] else [c]) cs)"

text \<open>A port whose transmitter becomes empty after finitely many looks at its status.\<close>

fun polled :: "device \<Rightarrow> u16 \<Rightarrow> nat \<Rightarrow> io_event list \<Rightarrow> io_event list" where
  "polled dev port 0 es = es"
| "polled dev port (Suc n) es = polled dev port n (Inb (port + 5) (ucast (dev es (port + 5))) # es)"

definition drains :: "device \<Rightarrow> u16 \<Rightarrow> bool" where
  "drains dev port \<longleftrightarrow> (\<forall>es. \<exists>n. (ucast (dev (polled dev port n es) (port + 5)) :: u8) AND 0x20 \<noteq> 0)"

definition only_log :: "'a serial_state_scheme \<Rightarrow> 'a serial_state_scheme \<Rightarrow> bool" where
  "only_log s t \<longleftrightarrow> (\<exists>es. t = s\<lparr>io_log := es\<rparr>)"

lemma wait_transmit:
  assumes "(ucast (dev (polled dev port n (io_log s)) (port + 5)) :: u8) AND 0x20 \<noteq> 0"
  shows "\<exists>es. wait_until (serial_is_transmit_empty dev port) s = Some (s\<lparr>io_log := es\<rparr>) \<and> (\<forall>p. sent p es = sent p (io_log s))"
  using assms
proof (induction n arbitrary: s)
  case 0
  then show ?case
    by (subst wait_until.simps) (auto simp: serial_is_transmit_empty_def port_defs serial_regs Let_def)
next
  case (Suc n)
  show ?case
  proof (cases "(ucast (dev (io_log s) (port + 5)) :: u8) AND 0x20 \<noteq> 0")
    case True
    then show ?thesis by (subst wait_until.simps) (auto simp: serial_is_transmit_empty_def port_defs serial_regs Let_def)
  next
    case False
    let ?s = "s\<lparr>io_log := Inb (port + 5) (ucast (dev (io_log s) (port + 5))) # io_log s\<rparr>"
    obtain es where "wait_until (serial_is_transmit_empty dev port) ?s = Some (?s\<lparr>io_log := es\<rparr>)" "\<forall>p. sent p es = sent p (io_log s)"
      using Suc.IH [of ?s] Suc.prems by auto
    then show ?thesis using False
      by (subst wait_until.simps) (auto simp: serial_is_transmit_empty_def port_defs serial_regs Let_def)
  qed
qed

lemma drains_wait:
  assumes "drains dev port"
  shows "\<exists>es. wait_until (serial_is_transmit_empty dev port) s = Some (s\<lparr>io_log := es\<rparr>) \<and> (\<forall>p. sent p es = sent p (io_log s))"
  using assms wait_transmit [of dev port _ s] unfolding drains_def by blast

lemma serial_write_char_sent:
  assumes d: "drains dev port"
  shows "\<exists>es. serial_write_char dev port c s = Some (s\<lparr>io_log := es\<rparr>) \<and> sent port es = sent port (io_log s) @ crlf [c]"
proof -
  obtain es where 1: "wait_until (serial_is_transmit_empty dev port) s = Some (s\<lparr>io_log := es\<rparr>)" "\<forall>p. sent p es = sent p (io_log s)"
    using drains_wait [OF d] by blast
  obtain es2 where 2: "wait_until (serial_is_transmit_empty dev port) (s\<lparr>io_log := Outb port 13 # es\<rparr>) = Some (s\<lparr>io_log := es2\<rparr>)"
      "\<forall>p. sent p es2 = sent p (Outb port 13 # es)"
    using drains_wait [OF d, of "s\<lparr>io_log := Outb port 13 # es\<rparr>"] by auto
  show ?thesis using 1 2 by (auto simp: serial_write_char_def crlf_def port_defs serial_regs)
qed

lemma serial_string_sent:
  assumes d: "drains dev port"
  shows "cstr (stdio_mem (streams s)) p xs \<Longrightarrow>
    \<exists>es. serial_string_loop dev port p s = Some (s\<lparr>io_log := es\<rparr>) \<and> sent port es = sent port (io_log s) @ crlf xs"
proof (induction xs arbitrary: p s)
  case Nil
  then show ?case by (subst serial_string_loop.simps) (auto simp: crlf_def intro!: exI [of _ "io_log s"])
next
  case (Cons x xs)
  obtain es where 1: "serial_write_char dev port x s = Some (s\<lparr>io_log := es\<rparr>)" "sent port es = sent port (io_log s) @ crlf [x]"
    using serial_write_char_sent [OF d] by blast
  obtain es2 where 2: "serial_string_loop dev port (p + 1) (s\<lparr>io_log := es\<rparr>) = Some (s\<lparr>io_log := es2\<rparr>)" "sent port es2 = sent port es @ crlf xs"
    using Cons.IH [of "s\<lparr>io_log := es\<rparr>" "p + 1"] Cons.prems by auto
  show ?case using 1 2 Cons.prems by (subst serial_string_loop.simps) (auto simp: crlf_def)
qed

text \<open>A terminator stored at or behind the end of a string leaves the string.\<close>

lemma cstr_zero_beyond:
  assumes "cstr m p xs" and "length xs \<le> k" and "k < 2 ^ 64"
  shows "cstr (m(p + of_nat k := 0)) p xs"
  using assms(1)
proof (rule cstr_cong)
  fix i
  assume "i \<le> length xs"
  moreover have "m (p + of_nat (length xs)) = 0" using cstr_append [of m p xs "[]"] assms(1) by simp
  moreover have "(of_nat i :: u64) = of_nat k \<longleftrightarrow> i = k" using \<open>i \<le> length xs\<close> assms(2,3) by (auto simp: word_unat_eq_iff unat_of_nat)
  ultimately show "(m(p + of_nat k := 0)) (p + of_nat i) = m (p + of_nat i)" using assms(2) by auto
qed

definition dev_ready :: device where
  "dev_ready = (\<lambda>es p. if 3 \<le> length es then 0x20 else 0)"

lemma length_polled: "length (polled dev port n es) = n + length es"
  by (induction n arbitrary: es) simp_all

lemma dev_ready_drains: "drains dev_ready port"
  unfolding drains_def
proof
  fix es
  have "(ucast (dev_ready (polled dev_ready port 3 es) (port + 5)) :: u8) AND 0x20 \<noteq> 0"
    by (simp add: dev_ready_def length_polled)
  then show "\<exists>n. (ucast (dev_ready (polled dev_ready port n es) (port + 5)) :: u8) AND 0x20 \<noteq> 0" ..
qed


definition serial_demo :: serial_state where
  "serial_demo = \<lparr>io_log = [], interrupt_flag = False, stdio_port = COM1_PORT,
     streams = \<lparr>stdin_getchar_func = 0, stdout_putchar_func = 0, stderr_putchar_func = 0, stdio_mem = (\<lambda>_. 0), calls = []\<rparr>\<rparr>"


end
