(* ===== verification/Idt_Extensions.thy ===== *)
theory Idt_Extensions
  imports Pic Slot_Table
begin

text \<open>
  The extensions of the interrupt table, \<open>src/src/src/syncos/idt_extensions.c\<close>, a second table of callbacks with a second driver of the
  interrupt controllers, and the handler of exceptions, \<open>src/src/src/syncos/isr.c\<close>, with the frame its assembly stub builds (\<open>isr_stubs.S\<close>). Callbacks are code
  addresses; what they do is the parameter \<open>call\<close>. Printed texts are the format and its arguments.
\<close>

section \<open>Callbacks and gates\<close>

definition MAX_IRQ_CALLBACKS :: nat where "MAX_IRQ_CALLBACKS = 8"

record irq_callback_entry_t =
  cb_callback :: u64
  cb_context :: u64
  cb_used :: bool

record ext_state = pic_state +
  extended_exception_handlers :: "u64 list"
  irq_callbacks :: "irq_callback_entry_t list list"
  ext_master_offset :: u8
  ext_slave_offset :: u8

definition exception_names :: "string list" where
  "exception_names = [''Division Error'', ''Debug Exception'', ''Non-Maskable Interrupt'', ''Breakpoint'', ''Overflow'', ''Bound Range Exceeded'',
     ''Invalid Opcode'', ''Device Not Available'', ''Double Fault'', ''Coprocessor Segment Overrun'', ''Invalid TSS'', ''Segment Not Present'',
     ''Stack-Segment Fault'', ''General Protection Fault'', ''Page Fault'', ''Reserved'', ''x87 Floating-Point Exception'', ''Alignment Check'',
     ''Machine Check'', ''SIMD Floating-Point Exception'', ''Virtualization Exception'', ''Control Protection Exception'', ''Reserved'', ''Reserved'',
     ''Reserved'', ''Reserved'', ''Reserved'', ''Reserved'', ''Reserved'', ''Reserved'', ''Security Exception'', ''Reserved'']"

definition idt_register_extended_exception_handler :: "u8 \<Rightarrow> u64 \<Rightarrow> 'a ext_state_scheme \<Rightarrow> 'a ext_state_scheme" where
  "idt_register_extended_exception_handler vector handler s =
     (if unat vector < IDT_ENTRIES
      then s\<lparr>extended_exception_handlers := (extended_exception_handlers s)[unat vector := handler]\<rparr> else s)"

definition idt_exception_name :: "u8 \<Rightarrow> string" where
  "idt_exception_name vector = (if vector \<le> 31 then exception_names ! unat vector else ''Unknown Exception'')"

definition set_callbacks :: "u8 \<Rightarrow> irq_callback_entry_t list \<Rightarrow> 'a ext_state_scheme \<Rightarrow> 'a ext_state_scheme" where
  "set_callbacks irq t s = s\<lparr>irq_callbacks := (irq_callbacks s)[unat irq := t]\<rparr>"

definition idt_register_irq_handler :: "u8 \<Rightarrow> u64 \<Rightarrow> u64 \<Rightarrow> 'a ext_state_scheme \<Rightarrow> bool \<times> 'a ext_state_scheme" where
  "idt_register_irq_handler irq callback context s =
     (if 16 \<le> irq \<or> callback = 0 then (False, s)
      else case find_slot (\<lambda>e. \<not> cb_used e) (irq_callbacks s ! unat irq) of
             Some i \<Rightarrow> (True, set_callbacks irq ((irq_callbacks s ! unat irq)[i := \<lparr>cb_callback = callback, cb_context = context, cb_used = True\<rparr>]) s)
           | None \<Rightarrow> (False, s))"

definition idt_unregister_irq_handler :: "u8 \<Rightarrow> u64 \<Rightarrow> 'a ext_state_scheme \<Rightarrow> bool \<times> 'a ext_state_scheme" where
  "idt_unregister_irq_handler irq callback s =
     (if 16 \<le> irq \<or> callback = 0 then (False, s)
      else case find_slot (\<lambda>e. cb_used e \<and> cb_callback e = callback) (irq_callbacks s ! unat irq) of
             Some i \<Rightarrow> (True, set_callbacks irq ((irq_callbacks s ! unat irq)[i := \<lparr>cb_callback = 0, cb_context = 0, cb_used = False\<rparr>]) s)
           | None \<Rightarrow> (False, s))"

text \<open>A line beyond the table is a read outside the array: \<open>None\<close>. A callback sees and may change the state.\<close>

fun dispatch_loop :: "(u64 \<Rightarrow> u8 \<Rightarrow> u64 \<Rightarrow> 'a ext_state_scheme \<Rightarrow> bool \<times> 'a ext_state_scheme) \<Rightarrow> u8 \<Rightarrow> nat list \<Rightarrow> bool \<Rightarrow>
    'a ext_state_scheme \<Rightarrow> bool \<times> 'a ext_state_scheme" where
  "dispatch_loop call irq [] handled s = (handled, s)"
| "dispatch_loop call irq (i # is) handled s =
     (let e = irq_callbacks s ! unat irq ! i
      in if cb_used e \<and> cb_callback e \<noteq> 0
         then let (r, s1) = call (cb_callback e) irq (cb_context e) s in dispatch_loop call irq is (handled \<or> r) s1
         else dispatch_loop call irq is handled s)"

definition idt_dispatch_irq :: "(u64 \<Rightarrow> u8 \<Rightarrow> u64 \<Rightarrow> 'a ext_state_scheme \<Rightarrow> bool \<times> 'a ext_state_scheme) \<Rightarrow> u8 \<Rightarrow>
    'a ext_state_scheme \<Rightarrow> (bool \<times> 'a ext_state_scheme) option" where
  "idt_dispatch_irq call irq s = (if 16 \<le> irq then None else Some (dispatch_loop call irq [0..<MAX_IRQ_CALLBACKS] False s))"

definition update_gate :: "u8 \<Rightarrow> (idt_entry_t \<Rightarrow> idt_entry_t) \<Rightarrow> 'a ext_state_scheme \<Rightarrow> 'a ext_state_scheme" where
  "update_gate vector f s = s\<lparr>idt := (idt s)[unat vector := f (idt s ! unat vector)]\<rparr>"

definition idt_set_privilege_level :: "u8 \<Rightarrow> u8 \<Rightarrow> 'a ext_state_scheme \<Rightarrow> 'a ext_state_scheme" where
  "idt_set_privilege_level vector ring_level s =
     (if IDT_ENTRIES \<le> unat vector \<or> 3 < ring_level then s
      else update_gate vector (\<lambda>g. g\<lparr>type_attr := (type_attr g AND 0x8F) OR push_bit 5 (ring_level AND 0x3)\<rparr>) s)"

definition idt_set_ist_stack :: "u8 \<Rightarrow> u8 \<Rightarrow> 'a ext_state_scheme \<Rightarrow> 'a ext_state_scheme" where
  "idt_set_ist_stack vector ist_index s =
     (if IDT_ENTRIES \<le> unat vector \<or> 7 < ist_index then s else update_gate vector (\<lambda>g. g\<lparr>ist := ist_index AND 0x7\<rparr>) s)"

section \<open>The controllers\<close>

definition ICW1_ICW4 :: u8 where "ICW1_ICW4 = 0x01"
definition ICW1_INIT :: u8 where "ICW1_INIT = 0x10"
definition ICW4_8086 :: u8 where "ICW4_8086 = 0x01"

definition idt_pic_init :: "device \<Rightarrow> u8 \<Rightarrow> u8 \<Rightarrow> 'a ext_state_scheme \<Rightarrow> 'a ext_state_scheme" where
  "idt_pic_init dev master_offset slave_offset s =
     (let s0 = s\<lparr>ext_master_offset := master_offset, ext_slave_offset := slave_offset\<rparr>;
          (master_mask, s1) = inb dev PIC1_DATA s0;
          (slave_mask, s2) = inb dev PIC2_DATA s1;
          s3 = io_wait (outb PIC2_COMMAND (ICW1_INIT OR ICW1_ICW4) (io_wait (outb PIC1_COMMAND (ICW1_INIT OR ICW1_ICW4) s2)));
          s4 = io_wait (outb PIC2_DATA slave_offset (io_wait (outb PIC1_DATA master_offset s3)));
          s5 = io_wait (outb PIC2_DATA 2 (io_wait (outb PIC1_DATA 4 s4)));
          s6 = io_wait (outb PIC2_DATA ICW4_8086 (io_wait (outb PIC1_DATA ICW4_8086 s5)))
      in outb PIC2_DATA slave_mask (outb PIC1_DATA master_mask s6))"

definition idt_pic_disable :: "'a ext_state_scheme \<Rightarrow> 'a ext_state_scheme" where
  "idt_pic_disable s = outb PIC2_DATA 0xFF (outb PIC1_DATA 0xFF s)"

text \<open>The port of a line and its bit there; a shift by more than seven leaves no bit of the byte, and a count of 32 or more is reduced by the processor.\<close>

definition line_port :: "u8 \<Rightarrow> u16 \<times> u8" where
  "line_port irq = (let (port, n) = (if irq < 8 then (PIC1_DATA, irq) else (PIC2_DATA, irq - 8)) in (port, ucast (push_bit (unat n mod 32) (1 :: u32))))"

definition idt_mask_irq :: "device \<Rightarrow> u8 \<Rightarrow> 'a ext_state_scheme \<Rightarrow> 'a ext_state_scheme" where
  "idt_mask_irq dev irq s = (let (port, b) = line_port irq; (v, s1) = inb dev port s in outb port (v OR b) s1)"

definition idt_unmask_irq :: "device \<Rightarrow> u8 \<Rightarrow> 'a ext_state_scheme \<Rightarrow> 'a ext_state_scheme" where
  "idt_unmask_irq dev irq s = (let (port, b) = line_port irq; (v, s1) = inb dev port s in outb port (v AND NOT b) s1)"

definition idt_end_of_interrupt :: "u8 \<Rightarrow> 'a ext_state_scheme \<Rightarrow> 'a ext_state_scheme" where
  "idt_end_of_interrupt irq s = outb PIC1_COMMAND PIC_EOI (if 8 \<le> irq then outb PIC2_COMMAND PIC_EOI s else s)"

section \<open>Debug output\<close>

definition idt_dump_entry :: "u8 \<Rightarrow> 'a ext_state_scheme \<Rightarrow> print_line" where
  "idt_dump_entry vector s =
     (if IDT_ENTRIES \<le> unat vector then (''Invalid vector: %u'', [Num (ucast vector)])
      else let e = idt s ! unat vector
           in (''IDT[%3u]: addr=0x%016lx sel=0x%04x type=0x%02x ist=%u dpl=%u %s'',
               [Num (ucast vector), Num (ucast (offset_low e) OR push_bit 16 (ucast (offset_mid e)) OR push_bit 32 (ucast (offset_high e))),
                Num (ucast (idt_selector e)), Num (ucast (type_attr e AND 0x8F)), Num (ucast (ist e AND 0x7)),
                Num (ucast (drop_bit 5 (type_attr e) AND 0x3)), Str (if type_attr e AND 0x80 \<noteq> 0 then ''present'' else ''not-present'')]))"

definition dump_present :: "'a ext_state_scheme \<Rightarrow> u8 list \<Rightarrow> print_line list" where
  "dump_present s vs = map (\<lambda>v. idt_dump_entry v s) (filter (\<lambda>v. type_attr (idt s ! unat v) AND 0x80 \<noteq> 0) vs)"

definition idt_dump_table :: "'a ext_state_scheme \<Rightarrow> print_line list" where
  "idt_dump_table s =
     (if idtr_base (idtr s) = 0 then [(''IDT not initialized'', [])]
      else [(''IDTR: base=0x%016lx limit=0x%04x'', [Num (idtr_base (idtr s)), Num (ucast (idtr_limit (idtr s)))]), (''Exception vectors:'', [])]
           @ dump_present s (map of_nat [0..<32])
           @ (if 0 < ext_master_offset s
              then (''PIC IRQs:'', []) # dump_present s (map (\<lambda>i. if i < 8 then ext_master_offset s + of_nat i else ext_slave_offset s + of_nat (i - 8)) [0..<16])
              else []))"

section \<open>Exceptions\<close>

text \<open>
  The registers at an exception. \<open>isr_stub\<close> is the stack that the stubs build, from the address that \<open>rsp\<close> holds at the call of the handler
  upwards; \<open>isr_frame\<close> reads it as the structure \<open>interrupt_frame_t\<close> does. The handler never returns; the model gives the lines it prints.
\<close>

record cpu_regs =
  rg_rax :: u64
  rg_rbx :: u64
  rg_rcx :: u64
  rg_rdx :: u64
  rg_rsi :: u64
  rg_rdi :: u64
  rg_rbp :: u64
  rg_r8 :: u64
  rg_r9 :: u64
  rg_r10 :: u64
  rg_r11 :: u64
  rg_r12 :: u64
  rg_r13 :: u64
  rg_r14 :: u64
  rg_r15 :: u64
  rg_ds :: u16

definition isr_stub :: "u64 \<Rightarrow> u64 \<Rightarrow> cpu_regs \<Rightarrow> u64 list \<Rightarrow> u64 list" where
  "isr_stub num err r processor_frame =
     [(rg_rax r AND NOT 0xFFFF) OR ucast (rg_ds r), rg_r15 r, rg_r14 r, rg_r13 r, rg_r12 r, rg_r11 r, rg_r10 r, rg_r9 r, rg_r8 r, rg_rdi r, rg_rsi r, rg_rbp r, rg_rbx r, rg_rdx r, rg_rcx r, rg_rax r,
      num, err] @ processor_frame"

record interrupt_frame_t =
  fr_ds :: u64
  fr_rdi :: u64
  fr_rsi :: u64
  fr_rbp :: u64
  fr_rsp :: u64
  fr_rbx :: u64
  fr_rdx :: u64
  fr_rcx :: u64
  fr_rax :: u64
  fr_int_no :: u64
  fr_err_code :: u64
  fr_rip :: u64
  fr_cs :: u64
  fr_rflags :: u64
  fr_user_rsp :: u64
  fr_user_ss :: u64

definition isr_frame :: "u64 list \<Rightarrow> interrupt_frame_t" where
  "isr_frame st = \<lparr>fr_ds = st ! 0, fr_rdi = st ! 1, fr_rsi = st ! 2, fr_rbp = st ! 3, fr_rsp = st ! 4, fr_rbx = st ! 5, fr_rdx = st ! 6, fr_rcx = st ! 7,
     fr_rax = st ! 8, fr_int_no = st ! 9, fr_err_code = st ! 10, fr_rip = st ! 11, fr_cs = st ! 12, fr_rflags = st ! 13, fr_user_rsp = st ! 14, fr_user_ss = st ! 15\<rparr>"

definition isr_common_handler :: "interrupt_frame_t \<Rightarrow> print_line list" where
  "isr_common_handler f =
     [(''!!! EXCEPTION OCCURRED !!!'', []), (''Exception Vector: %lu'', [Num (fr_int_no f)]), (''Error Code: %lu'', [Num (fr_err_code f)]),
      (''Instruction Pointer: 0x%lx'', [Num (fr_rip f)]), (''Code Segment: 0x%lx'', [Num (fr_cs f)]), (''Flags: 0x%lx'', [Num (fr_rflags f)])]
     @ (if fr_int_no f = 0 then [(''DIVIDE BY ZERO EXCEPTION DETECTED!'', [])] else [])"

text \<open>The table of the stubs: the 32 exceptions, and null pointers for the other vectors.\<close>

definition isr_stubs :: "(nat \<Rightarrow> u64) \<Rightarrow> u64 list" where
  "isr_stubs isr = map (\<lambda>i. if i < 32 then isr i else 0) [0..<256]"

section \<open>Properties\<close>

interpretation ext: slot_table cb_used cb_callback "\<lambda>e. \<lparr>cb_callback = 0, cb_context = 0, cb_used = False\<rparr>"
  by unfold_locales simp

lemma ext_register_table:
  assumes "\<not> 16 \<le> irq" "length (irq_callbacks s) = 16" "cb \<noteq> 0" "idt_register_irq_handler irq cb ctx s = (ok, s')"
  shows "slot_register cb_used \<lparr>cb_callback = cb, cb_context = ctx, cb_used = True\<rparr> (irq_callbacks s ! unat irq) = (ok, irq_callbacks s' ! unat irq)"
  using assms by (auto simp: idt_register_irq_handler_def slot_register_def set_callbacks_def word_le_nat_alt split: option.splits)

lemma ext_unregister_table:
  assumes "\<not> 16 \<le> irq" "length (irq_callbacks s) = 16" "cb \<noteq> 0" "idt_unregister_irq_handler irq cb s = (ok, s')"
  shows "slot_unregister cb_used cb_callback (\<lambda>e. \<lparr>cb_callback = 0, cb_context = 0, cb_used = False\<rparr>) cb (irq_callbacks s ! unat irq) = (ok, irq_callbacks s' ! unat irq)"
  using assms by (auto simp: idt_unregister_irq_handler_def slot_unregister_def set_callbacks_def word_le_nat_alt split: option.splits)

text \<open>A callback that was not registered before is gone after its registration is undone, and the other callbacks are as before.\<close>

lemma ext_register_unregister:
  assumes "\<not> 16 \<le> irq" "length (irq_callbacks s) = 16" "cb \<noteq> 0"
    and "idt_register_irq_handler irq cb ctx s = (True, s1)" and "idt_unregister_irq_handler irq cb s1 = (ok, s2)"
    and "\<forall>e\<in>#slot_entries cb_used (irq_callbacks s ! unat irq). cb_callback e \<noteq> cb"
  shows "ok \<and> slot_entries cb_used (irq_callbacks s2 ! unat irq) = slot_entries cb_used (irq_callbacks s ! unat irq)"
proof -
  have "length (irq_callbacks s1) = 16"
    using assms(2,4) by (auto simp: idt_register_irq_handler_def set_callbacks_def split: if_splits option.splits)
  then show ?thesis
    using ext.register_unregister [OF ext_register_table [OF assms(1-4)] _ _ assms(6) ext_unregister_table [OF assms(1) _ assms(3,5)]] by simp
qed

text \<open>The privilege level that the processor finds in a gate, which keeps its address, type and presence.\<close>

lemma byte_cases: "(\<And>n. n \<in> {0, 1, 2, 3, 4, 5, 6, 7} \<Longrightarrow> bit (a :: u8) n = bit b n) \<Longrightarrow> a = b"
  by (rule bit_word_eqI) (auto simp: less_Suc_eq numeral_eq_Suc)

lemma privilege_bits:
  assumes "\<not> 3 < (r :: u8)"
  shows "drop_bit 5 ((a AND 0x8F) OR push_bit 5 (r AND 0x3)) AND 0x3 = r" "((a AND 0x8F) OR push_bit 5 (r AND 0x3)) AND 0x8F = a AND (0x8F :: u8)"
proof -
  have "unat r < 4" using assms by (simp add: word_less_nat_alt)
  then have "unat r \<in> {0, 1, 2, 3}" by auto
  then have r: "r \<in> {0, 1, 2, 3}" by (auto simp: word_unat_eq_iff)
  show "drop_bit 5 ((a AND 0x8F) OR push_bit 5 (r AND 0x3)) AND 0x3 = r"
    using r by (intro byte_cases) (auto simp: bit_simps)
  show "((a AND 0x8F) OR push_bit 5 (r AND 0x3)) AND 0x8F = a AND 0x8F"
    using r by (intro byte_cases) (auto simp: bit_simps)
qed

text \<open>The level asked for is the one the processor finds in the gate, which keeps its address, its type and its presence.\<close>

lemma idt_set_privilege_level_gate:
  assumes "\<not> 3 < ring" and "length (idt s) = 256"
  shows "drop_bit 5 (type_attr (idt (idt_set_privilege_level v ring s) ! unat v)) AND 0x3 = ring \<and>
    type_attr (idt (idt_set_privilege_level v ring s) ! unat v) AND 0x8F = type_attr (idt s ! unat v) AND 0x8F \<and>
    gate_address (idt (idt_set_privilege_level v ring s) ! unat v) = gate_address (idt s ! unat v)"
  using assms unat_lt_8 [of v] privilege_bits [OF assms(1)]
  by (simp add: idt_set_privilege_level_def update_gate_def IDT_ENTRIES_def gate_address_def)

text \<open>A controller that answers a read of its data port with the mask last written there.\<close>

definition answers_masks :: "device \<Rightarrow> bool" where
  "answers_masks dev \<longleftrightarrow> (\<forall>es v. \<forall>p \<in> {PIC1_DATA, PIC2_DATA}. last_out p es = Some v \<longrightarrow> dev es p = ucast v)"

text \<open>
  The two drivers of the interrupt controllers disagree: after \<open>idt_unmask_irq\<close> has opened a line of the first controller that \<open>pic.c\<close> believes masked,
  \<open>pic_disable_irq\<close> for this line finds nothing to do and writes nothing, so the line stays open in the controller.
\<close>

theorem idt_unmask_defeats_pic_disable:
  assumes "answers_masks dev" and "pic_sync s" and "pic_initialized s" and "irq < 8" and "bit (pic_master_mask s) (unat irq)"
  shows "\<exists>m. last_out PIC1_DATA (io_log (pic_disable_irq irq (idt_unmask_irq dev irq s))) = Some m \<and> \<not> bit m (unat irq)"
proof -
  have i: "unat irq < 8" "\<not> 16 \<le> irq" using assms(4) by (simp_all add: word_less_nat_alt word_le_nat_alt)
  have p: "line_port irq = (PIC1_DATA, push_bit (unat irq) 1)"
    using i assms(4) by (simp add: line_port_def Let_def bit_eq_iff bit_simps)
  have u: "(ucast (ucast x :: u32) :: u8) = x" for x :: u8 by (rule bit_word_eqI) (auto simp: bit_simps)
  have v: "(ucast (dev (io_log s) PIC1_DATA) :: u8) = pic_master_mask s"
    using assms(1-3) by (simp add: answers_masks_def pic_sync_def u)
  have "pic_master_mask s OR push_bit (unat irq) 1 = pic_master_mask s"
    using assms(5) by (intro bit_word_eqI) (auto simp: bit_simps)
  then show ?thesis
    using i assms(4) by (simp add: pic_disable_irq_def idt_unmask_irq_def p Let_def port_defs v bit_simps)
qed

definition dev_masks :: device where
  "dev_masks = (\<lambda>es p. case last_out p es of Some v \<Rightarrow> ucast v | None \<Rightarrow> 0)"

definition ext_demo :: ext_state where
  "ext_demo = \<lparr>io_log = [Outb PIC2_DATA 0xFF, Outb PIC1_DATA 0xFF], interrupt_flag = False, idt = replicate 256 zero_gate, idtr = \<lparr>idtr_limit = 0, idtr_base = 0\<rparr>,
     exception_handlers = replicate 256 0, idt_initialized = False, idt_loaded = None, pic_master_mask = 0xFF, pic_slave_mask = 0xFF,
     pic_master_offset = 0x20, pic_slave_offset = 0x28, pic_initialized = True, extended_exception_handlers = replicate 256 0,
     irq_callbacks = replicate 16 (replicate 8 \<lparr>cb_callback = 0, cb_context = 0, cb_used = False\<rparr>), ext_master_offset = 0, ext_slave_offset = 0\<rparr>"

theorem idt_unmask_defeats_pic_disable_witness:
  "\<exists>m. last_out PIC1_DATA (io_log (pic_disable_irq 4 (idt_unmask_irq dev_masks 4 ext_demo))) = Some m \<and> \<not> bit m 4"
  using idt_unmask_defeats_pic_disable [where dev = dev_masks and s = ext_demo and irq = 4]
  by (simp add: answers_masks_def dev_masks_def ext_demo_def pic_sync_def pic_ports)

text \<open>
  The report of an exception is about the wrong values: the stub saves the registers \<open>r8\<close> to \<open>r15\<close>, which the structure does not have, so what the handler prints as the number of
  the exception is the register \<open>rdi\<close> at the time of the exception, as the error code \<open>rsi\<close> and as the instruction pointer \<open>rbp\<close>, whatever exception occurred.
\<close>

theorem isr_reports_registers:
  "isr_common_handler (isr_frame (isr_stub num err r (rip # cs # flags # rest))) =
     [(''!!! EXCEPTION OCCURRED !!!'', []), (''Exception Vector: %lu'', [Num (rg_rdi r)]), (''Error Code: %lu'', [Num (rg_rsi r)]),
      (''Instruction Pointer: 0x%lx'', [Num (rg_rbp r)]), (''Code Segment: 0x%lx'', [Num (rg_rbx r)]), (''Flags: 0x%lx'', [Num (rg_rdx r)])]
     @ (if rg_rdi r = 0 then [(''DIVIDE BY ZERO EXCEPTION DETECTED!'', [])] else [])"
  by (simp add: isr_common_handler_def isr_frame_def isr_stub_def)

end
