(* ===== verification/Mmio.thy ===== *)
theory Mmio
  imports Pci "HOL-Library.Monad_Syntax"
begin

text \<open>
  What the drivers of the disk controllers share. The registers of a controller are memory that answers: what a read returns is a parameter,
  \<open>me_read32\<close> and \<open>me_read64\<close>, a function of the history of the accesses; what the controller has done to the memory by the time of an access is the
  parameter \<open>me_dma\<close>, and what happens while the processor is halted, in a sleep, is the parameter \<open>me_hlt\<close>. Both drivers take their buffers from the
  physical pages and map them with functions of the same text, \<open>alloc_dma_buffer\<close> and \<open>free_dma_buffer\<close> of \<open>sata.c\<close>, \<open>nvme_alloc_dma\<close> and \<open>nvme_free_dma\<close> of
  \<open>nvme.c\<close>.
\<close>

section \<open>Registers and memory\<close>

datatype mmio_event = Rd32 u64 u32 | Wr32 u64 u32 | Rd64 u64 u64 | Wr64 u64 u64

record mmio_state = pci_state +
  mmio_log :: "mmio_event list"

record 's mmio_env =
  me_dev :: device
  me_read32 :: "mmio_event list \<Rightarrow> u64 \<Rightarrow> u32"
  me_read64 :: "mmio_event list \<Rightarrow> u64 \<Rightarrow> u64"
  me_dma :: "mmio_event list \<Rightarrow> mem \<Rightarrow> mem"
  me_tsc :: "nat \<Rightarrow> u64"
  me_hlt :: "'s \<Rightarrow> 's"
  me_track_base :: u64
  me_return_address :: u64

definition mmio_event :: "('a mmio_state_scheme, 'e) mmio_env_scheme \<Rightarrow> mmio_event \<Rightarrow> 'a mmio_state_scheme \<Rightarrow> 'a mmio_state_scheme" where
  "mmio_event env e s = s\<lparr>mmio_log := e # mmio_log s, kmem := me_dma env (e # mmio_log s) (kmem s)\<rparr>"

definition rd32 :: "('a mmio_state_scheme, 'e) mmio_env_scheme \<Rightarrow> u64 \<Rightarrow> 'a mmio_state_scheme \<Rightarrow> u32 \<times> 'a mmio_state_scheme" where
  "rd32 env a s = (let v = me_read32 env (mmio_log s) a in (v, mmio_event env (Rd32 a v) s))"

definition wr32 :: "('a mmio_state_scheme, 'e) mmio_env_scheme \<Rightarrow> u64 \<Rightarrow> u32 \<Rightarrow> 'a mmio_state_scheme \<Rightarrow> 'a mmio_state_scheme" where
  "wr32 env a v s = mmio_event env (Wr32 a v) s"

definition rd64 :: "('a mmio_state_scheme, 'e) mmio_env_scheme \<Rightarrow> u64 \<Rightarrow> 'a mmio_state_scheme \<Rightarrow> u64 \<times> 'a mmio_state_scheme" where
  "rd64 env a s = (let v = me_read64 env (mmio_log s) a in (v, mmio_event env (Rd64 a v) s))"

definition wr64 :: "('a mmio_state_scheme, 'e) mmio_env_scheme \<Rightarrow> u64 \<Rightarrow> u64 \<Rightarrow> 'a mmio_state_scheme \<Rightarrow> 'a mmio_state_scheme" where
  "wr64 env a v s = mmio_event env (Wr64 a v) s"

text \<open>\<open>*a = f(*a)\<close> on a register.\<close>

definition modify32 :: "('a mmio_state_scheme, 'e) mmio_env_scheme \<Rightarrow> u64 \<Rightarrow> (u32 \<Rightarrow> u32) \<Rightarrow> 'a mmio_state_scheme \<Rightarrow> 'a mmio_state_scheme" where
  "modify32 env a f s = (let (v, s1) = rd32 env a s in wr32 env a (f v) s1)"

definition sleep_ms :: "('a mmio_state_scheme, 'e) mmio_env_scheme \<Rightarrow> u32 \<Rightarrow> 'a mmio_state_scheme \<Rightarrow> 'a mmio_state_scheme option" where
  "sleep_ms env ms s = timer_sleep_ms (me_tsc env) (me_hlt env) ms s"

definition store :: "(mem \<Rightarrow> mem) \<Rightarrow> 'a mmio_state_scheme \<Rightarrow> 'a mmio_state_scheme" where
  "store f s = s\<lparr>kmem := f (kmem s)\<rparr>"

definition page_bytes :: "u64 \<Rightarrow> u64" where
  "page_bytes n = (n + 4095) AND NOT 4095"

text \<open>The virtual and the physical address of a new buffer, 0 and 0 when there is none.\<close>

definition alloc_dma_buffer :: "u64 \<Rightarrow> 'a mmio_state_scheme \<Rightarrow> (u64 \<times> u64) \<times> 'a mmio_state_scheme" where
  "alloc_dma_buffer n s =
     (let sz = page_bytes n;
          (phys, pm) = pmm_alloc_pages (sz div 4096) (vmm_pmm (kvm s));
          k1 = (kvm s)\<lparr>vmm_pmm := pm\<rparr>
      in if phys = 0 then ((0, 0), s\<lparr>kvm := k1\<rparr>)
         else let (virt, k2) = vmm_map_physical phys sz (VMM_FLAG_PRESENT OR VMM_FLAG_WRITABLE) k1
              in if virt = 0 then ((0, 0), s\<lparr>kvm := k2\<lparr>vmm_pmm := pmm_free_pages phys (sz div 4096) (vmm_pmm k2)\<rparr>\<rparr>)
                 else ((virt, phys), s\<lparr>kvm := k2\<rparr>))"

definition free_dma_buffer :: "u64 \<Rightarrow> u64 \<Rightarrow> 'a mmio_state_scheme \<Rightarrow> 'a mmio_state_scheme" where
  "free_dma_buffer virt_addr n s =
     (if virt_addr = 0 then s
      else let sz = page_bytes n;
               phys = vmm_get_physical_address (kvm s) virt_addr;
               k1 = vmm_unmap_physical virt_addr sz (kvm s)
           in s\<lparr>kvm := (if phys \<noteq> 0 then k1\<lparr>vmm_pmm := pmm_free_pages phys (sz div 4096) (vmm_pmm k1)\<rparr> else k1)\<rparr>)"

definition lock :: "('a mmio_state_scheme, 'e) mmio_env_scheme \<Rightarrow> u64 \<Rightarrow> 'a mmio_state_scheme \<Rightarrow> 'a mmio_state_scheme option" where
  "lock env l s = spinlock_acquire (me_track_base env) (me_return_address env) l s"

text \<open>Trailing spaces of a string field, which is given in reverse, become terminators.\<close>

fun trim_spaces :: "u8 list \<Rightarrow> u8 list" where
  "trim_spaces [] = []"
| "trim_spaces (c # cs) = (if c = 0x20 then 0 # trim_spaces cs else if c = 0 then 0 # trim_spaces cs else c # cs)"

definition mmio_demo :: mmio_state where
  "mmio_demo = pci_state.extend pci_demo \<lparr>mmio_log = []\<rparr>"

end
