(* ===== verification/Sata.thy ===== *)
theory Sata
  imports Mmio Stdio
begin

text \<open>
  The driver for SATA disks on AHCI controllers, \<open>src/src/src/core/drivers/sata.c\<close> and \<open>sata.h\<close>. The structures of the driver are values that the functions return updated, apart from
  the state of the kernel, since nothing but this file touches them; the addresses of their locks and strings are parameters. A division by
  zero and a loop that does not end are \<open>None\<close>; texts for the log are not modelled.
\<close>

section \<open>Constants and structures\<close>

definition AHCI_PCI_CLASS :: u8 where "AHCI_PCI_CLASS = 0x01"
definition AHCI_PCI_SUBCLASS :: u8 where "AHCI_PCI_SUBCLASS = 0x06"
definition AHCI_CAP_NCS_MASK :: u32 where "AHCI_CAP_NCS_MASK = 0x1F00"
definition AHCI_CAP_NCS_SHIFT :: nat where "AHCI_CAP_NCS_SHIFT = 8"
definition HBA_PxIS_TFES :: u32 where "HBA_PxIS_TFES = 0x40000000"
definition HBA_PxTFD_BSY :: u32 where "HBA_PxTFD_BSY = 0x80"
definition SATA_COMMAND_TIMEOUT_MS :: u32 where "SATA_COMMAND_TIMEOUT_MS = 5000"
definition COMMAND_LIST_SIZE :: u64 where "COMMAND_LIST_SIZE = 1024"
definition RECEIVED_FIS_SIZE :: u64 where "RECEIVED_FIS_SIZE = 256"
definition COMMAND_TABLE_SIZE :: u64 where "COMMAND_TABLE_SIZE = 256"
definition DMA_BUFFER_SIZE :: u64 where "DMA_BUFFER_SIZE = 128 * 1024"
definition SATA_MAX_CONTROLLERS :: nat where "SATA_MAX_CONTROLLERS = 4"
definition SATA_MAX_PORTS :: nat where "SATA_MAX_PORTS = 32"
definition SATA_SIG_ATA :: u32 where "SATA_SIG_ATA = 0x00000101"
definition SATA_SIG_ATAPI :: u32 where "SATA_SIG_ATAPI = 0xEB140101"
definition AHCI_PxCMD_ST :: u32 where "AHCI_PxCMD_ST = 1"
definition AHCI_PxCMD_FRE :: u32 where "AHCI_PxCMD_FRE = 0x10"
definition AHCI_PxCMD_FR :: u32 where "AHCI_PxCMD_FR = 0x4000"
definition AHCI_PxCMD_CR :: u32 where "AHCI_PxCMD_CR = 0x8000"
definition AHCI_GHC_HR :: u32 where "AHCI_GHC_HR = 1"
definition AHCI_GHC_AE :: u32 where "AHCI_GHC_AE = 0x80000000"
definition ATA_CMD_READ_DMA_EXT :: u8 where "ATA_CMD_READ_DMA_EXT = 0x25"
definition ATA_CMD_WRITE_DMA_EXT :: u8 where "ATA_CMD_WRITE_DMA_EXT = 0x35"
definition ATA_CMD_IDENTIFY :: u8 where "ATA_CMD_IDENTIFY = 0xEC"
definition ATA_CMD_FLUSH_CACHE_EXT :: u8 where "ATA_CMD_FLUSH_CACHE_EXT = 0xEA"
definition FIS_TYPE_REG_H2D :: u8 where "FIS_TYPE_REG_H2D = 0x27"
definition SATA_PORT_STATUS_NO_DEVICE :: u8 where "SATA_PORT_STATUS_NO_DEVICE = 0"
definition SATA_PORT_STATUS_PRESENT :: u8 where "SATA_PORT_STATUS_PRESENT = 1"
definition SATA_PORT_STATUS_ACTIVE :: u8 where "SATA_PORT_STATUS_ACTIVE = 2"

text \<open>Offsets of the registers of a controller and of a port, and the place of the registers of port \<open>i\<close>.\<close>

definition HBA_cap :: u64 where "HBA_cap = 0x00"
definition HBA_ghc :: u64 where "HBA_ghc = 0x04"
definition HBA_pi :: u64 where "HBA_pi = 0x0C"
definition Px_clb :: u64 where "Px_clb = 0x00"
definition Px_clbu :: u64 where "Px_clbu = 0x04"
definition Px_fb :: u64 where "Px_fb = 0x08"
definition Px_fbu :: u64 where "Px_fbu = 0x0C"
definition Px_is :: u64 where "Px_is = 0x10"
definition Px_cmd :: u64 where "Px_cmd = 0x18"
definition Px_tfd :: u64 where "Px_tfd = 0x20"
definition Px_sig :: u64 where "Px_sig = 0x24"
definition Px_ssts :: u64 where "Px_ssts = 0x28"
definition Px_serr :: u64 where "Px_serr = 0x30"
definition Px_sact :: u64 where "Px_sact = 0x34"
definition Px_ci :: u64 where "Px_ci = 0x38"
definition sizeof_hba_mem :: u64 where "sizeof_hba_mem = 0x1100"
definition hba_port :: "u64 \<Rightarrow> nat \<Rightarrow> u64" where "hba_port abar i = abar + 0x100 + 0x80 * of_nat i"

text \<open>Sizes of the structures in memory; a command header has 34 bytes.\<close>

definition sizeof_cmd_header :: u64 where "sizeof_cmd_header = 34"
definition sizeof_cmd_tbl :: nat where "sizeof_cmd_tbl = 144"
definition sizeof_fis_h2d :: nat where "sizeof_fis_h2d = 20"

record sata_port_t =
  sp_status :: u8
  sp_type :: u8
  sp_sector_size :: u32
  sp_sector_count :: u64
  sp_model :: "u8 list"
  sp_serial :: "u8 list"
  sp_firmware :: "u8 list"
  sp_cmd_list :: u64
  sp_fis :: u64
  sp_cmd_tables :: "u64 list"
  sp_port_base :: u64
  sp_port_num :: u8
  sp_controller_id :: u8
  sp_dma_buffer :: u64
  sp_dma_buffer_phys :: u64
  sp_dma_buffer_size :: u64

record sata_controller_t =
  sc_initialized :: bool
  sc_pci_bus :: u8
  sc_pci_device :: u8
  sc_pci_function :: u8
  sc_vendor_id :: u16
  sc_device_id :: u16
  sc_abar :: u64
  sc_abar_phys :: u64
  sc_ports_impl :: u32
  sc_ports_active :: u32
  sc_slot_count :: u32
  sc_ports :: "sata_port_t list"

record sata_driver_t =
  sd_controllers :: "sata_controller_t list"
  sd_controller_count :: u32
  sd_total_ports :: u32
  sd_initialized :: bool

text \<open>The addresses of the locks and of the strings of the ports.\<close>

record 's sata_env = "'s mmio_env" +
  se_global_lock :: u64
  se_port_lock :: "nat \<Rightarrow> nat \<Rightarrow> u64"
  se_port_strings :: "nat \<Rightarrow> nat \<Rightarrow> u64 \<times> u64 \<times> u64"

section \<open>Port engine\<close>

partial_function (option) wait_bit_clear :: "'a mmio_state_scheme sata_env \<Rightarrow> u64 \<Rightarrow> u32 \<Rightarrow> u64 \<Rightarrow> 'a mmio_state_scheme \<Rightarrow> 'a mmio_state_scheme option" where
  "wait_bit_clear env a b timeout s =
     (let (v, s1) = rd32 env a s
      in if v AND b = 0 then Some s1
         else if timeout \<le> timer_get_uptime_ms s1 then Some s1
         else Option.bind (sleep_ms env 1 s1) (wait_bit_clear env a b timeout))"

definition stop_port :: "'a mmio_state_scheme sata_env \<Rightarrow> u64 \<Rightarrow> 'a mmio_state_scheme \<Rightarrow> 'a mmio_state_scheme option" where
  "stop_port env port s = do {
     let s1 = modify32 env (port + Px_cmd) (\<lambda>v. v AND NOT AHCI_PxCMD_ST) s;
     s2 \<leftarrow> wait_bit_clear env (port + Px_cmd) AHCI_PxCMD_CR (timer_get_uptime_ms s1 + 500) s1;
     let s3 = modify32 env (port + Px_cmd) (\<lambda>v. v AND NOT AHCI_PxCMD_FRE) s2;
     wait_bit_clear env (port + Px_cmd) AHCI_PxCMD_FR (timer_get_uptime_ms s3 + 500) s3 }"

partial_function (option) start_loop :: "'a mmio_state_scheme sata_env \<Rightarrow> u64 \<Rightarrow> 'a mmio_state_scheme \<Rightarrow> 'a mmio_state_scheme option" where
  "start_loop env port s =
     (let (v, s1) = rd32 env (port + Px_cmd) s
      in if v AND AHCI_PxCMD_CR = 0 then Some s1 else Option.bind (sleep_ms env 1 s1) (start_loop env port))"

definition start_port :: "'a mmio_state_scheme sata_env \<Rightarrow> u64 \<Rightarrow> 'a mmio_state_scheme \<Rightarrow> 'a mmio_state_scheme option" where
  "start_port env port s = do {
     s1 \<leftarrow> start_loop env port s;
     Some (modify32 env (port + Px_cmd) (\<lambda>v. v OR AHCI_PxCMD_ST) (modify32 env (port + Px_cmd) (\<lambda>v. v OR AHCI_PxCMD_FRE) s1)) }"

definition reset_port :: "'a mmio_state_scheme sata_env \<Rightarrow> u64 \<Rightarrow> nat \<Rightarrow> 'a mmio_state_scheme \<Rightarrow> (bool \<times> 'a mmio_state_scheme) option" where
  "reset_port env abar n s = do {
     s1 \<leftarrow> stop_port env (hba_port abar n) s;
     Some (True, wr32 env (hba_port abar n + Px_is) (- 1) s1) }"

text \<open>The first slot that is neither issued nor active, and \<open>None\<close> for the result -1.\<close>

definition find_command_slot :: "'a mmio_state_scheme sata_env \<Rightarrow> sata_port_t \<Rightarrow> 'a mmio_state_scheme \<Rightarrow> nat option \<times> 'a mmio_state_scheme" where
  "find_command_slot env port s =
     (let (cmd_issue, s1) = rd32 env (sp_port_base port + Px_ci) s;
          (cmd_active, s2) = rd32 env (sp_port_base port + Px_sact) s1
      in (find_slot (\<lambda>i. drop_bit i cmd_issue AND 1 = 0 \<and> drop_bit i cmd_active AND 1 = 0) [0..<32], s2))"

section \<open>Commands\<close>

text \<open>Stores to the fields of a command header, an entry of the region table and a command frame. Bit fields keep the other bits of their byte.\<close>

definition header_addr :: "sata_port_t \<Rightarrow> nat \<Rightarrow> u64" where
  "header_addr port i = sp_cmd_list port + sizeof_cmd_header * of_nat i"

definition put_bits :: "u64 \<Rightarrow> u8 \<Rightarrow> u8 \<Rightarrow> mem \<Rightarrow> mem" where
  "put_bits a msk v m = m(a := (m a AND NOT msk) OR v)"

definition put_header :: "u64 \<Rightarrow> bool \<Rightarrow> u16 \<Rightarrow> mem \<Rightarrow> mem" where
  "put_header h write prdtl m = st16 (h + 2) prdtl (put_bits h 0x40 (if write then 0x40 else 0) (put_bits h 0x1F 5 m))"

definition put_prdt :: "u64 \<Rightarrow> u64 \<Rightarrow> u32 \<Rightarrow> mem \<Rightarrow> mem" where
  "put_prdt e phys n m = st32 (e + 12) (((n - 1) AND 0x3FFFFF) OR 0x80000000) (st32 (e + 4) (ucast (drop_bit 32 phys)) (st32 e (ucast phys) m))"

definition put_fis :: "u64 \<Rightarrow> u8 \<Rightarrow> u64 \<Rightarrow> u32 \<Rightarrow> mem \<Rightarrow> mem" where
  "put_fis f cmd lba n m =
     (let m1 = (fill_block f 0 sizeof_fis_h2d m)(f := FIS_TYPE_REG_H2D);
          m2 = (put_bits (f + 1) 0x80 0x80 m1)(f + 2 := cmd)
      in if cmd = ATA_CMD_READ_DMA_EXT \<or> cmd = ATA_CMD_WRITE_DMA_EXT \<or> cmd = ATA_CMD_FLUSH_CACHE_EXT
         then m2(f + 7 := 0x40, f + 4 := ucast lba, f + 5 := ucast (drop_bit 8 lba), f + 6 := ucast (drop_bit 16 lba), f + 8 := ucast (drop_bit 24 lba),
                 f + 9 := ucast (drop_bit 32 lba), f + 10 := ucast (drop_bit 40 lba), f + 12 := ucast (n AND 0xFF), f + 13 := ucast (drop_bit 8 n AND 0xFF))
         else if cmd = ATA_CMD_IDENTIFY then m2(f + 7 := 0)
         else m2(f + 7 := 0xE0 OR ucast (drop_bit 24 lba AND 0x0F), f + 4 := ucast lba, f + 5 := ucast (drop_bit 8 lba), f + 6 := ucast (drop_bit 16 lba),
                 f + 12 := ucast (n AND 0xFF)))"

partial_function (option) completion_loop :: "'a mmio_state_scheme sata_env \<Rightarrow> u64 \<Rightarrow> nat \<Rightarrow> u64 \<Rightarrow> 'a mmio_state_scheme \<Rightarrow> (bool \<times> 'a mmio_state_scheme) option" where
  "completion_loop env base i deadline s =
     (if timer_get_uptime_ms s < deadline
      then let (v, s1) = rd32 env (base + Px_ci) s
           in if v AND push_bit i 1 = 0
              then let (st, s2) = rd32 env (base + Px_is) s1
                   in if st AND HBA_PxIS_TFES \<noteq> 0
                      then Some (False, wr32 env (base + Px_is) HBA_PxIS_TFES (snd (rd32 env (base + Px_is) (snd (rd32 env (base + Px_tfd) s2)))))
                      else Some (True, s2)
              else Option.bind (sleep_ms env 1 s1) (completion_loop env base i deadline)
      else Some (False, s))"

definition wait_for_command_completion :: "'a mmio_state_scheme sata_env \<Rightarrow> sata_port_t \<Rightarrow> nat \<Rightarrow> u32 \<Rightarrow> 'a mmio_state_scheme \<Rightarrow>
    (bool \<times> 'a mmio_state_scheme) option" where
  "wait_for_command_completion env port i timeout_ms s =
     completion_loop env (sp_port_base port) i (timer_get_uptime_ms s + ucast timeout_ms) s"

text \<open>What \<open>port_send_command\<close> leaves in memory before it issues the command; \<open>None\<close> when the data does not fit into the buffer of the port.\<close>

definition build_command :: "sata_port_t \<Rightarrow> nat \<Rightarrow> u8 \<Rightarrow> u64 \<Rightarrow> u32 \<Rightarrow> u64 \<Rightarrow> bool \<Rightarrow> mem \<Rightarrow> mem option" where
  "build_command port i cmd lba n buffer write m =
     (let tbl = sp_cmd_tables port ! i;
          m1 = put_fis tbl cmd lba n (fill_block tbl 0 (unat COMMAND_TABLE_SIZE) m)
      in if buffer \<noteq> 0 \<and> 0 < n \<and> cmd \<noteq> ATA_CMD_FLUSH_CACHE_EXT
         then let data_size = n * sp_sector_size port
              in if sp_dma_buffer_size port < ucast data_size then None
                 else let m2 = (if write then copy_block (sp_dma_buffer port) m1 buffer (unat data_size) m1 else m1);
                          m3 = put_prdt (tbl + 128) (sp_dma_buffer_phys port) data_size m2
                      in Some (put_header (header_addr port i) (write \<and> cmd \<noteq> ATA_CMD_IDENTIFY) 1 m3)
         else Some (put_header (header_addr port i) False 0 m1))"

definition port_send_command :: "'a mmio_state_scheme sata_env \<Rightarrow> sata_port_t \<Rightarrow> nat \<Rightarrow> u8 \<Rightarrow> u64 \<Rightarrow> u32 \<Rightarrow> u64 \<Rightarrow> bool \<Rightarrow> 'a mmio_state_scheme \<Rightarrow>
    (bool \<times> 'a mmio_state_scheme) option" where
  "port_send_command env port i cmd lba n buffer write s =
     (case build_command port i cmd lba n buffer write (kmem s) of
        None \<Rightarrow> Some (False, store (\<lambda>m. put_fis (sp_cmd_tables port ! i) cmd lba n (fill_block (sp_cmd_tables port ! i) 0 (unat COMMAND_TABLE_SIZE) m)) s)
      | Some m \<Rightarrow> do {
          let s1 = modify32 env (sp_port_base port + Px_ci) (\<lambda>v. v OR push_bit i 1) (s\<lparr>kmem := m\<rparr>);
          (ok, s2) \<leftarrow> wait_for_command_completion env port i SATA_COMMAND_TIMEOUT_MS s1;
          if \<not> ok then Some (False, s2)
          else Some (True, if \<not> write \<and> buffer \<noteq> 0 \<and> 0 < n \<and> cmd \<noteq> ATA_CMD_FLUSH_CACHE_EXT
                           then store (\<lambda>m. copy_block buffer m (sp_dma_buffer port) (unat (n * sp_sector_size port)) m) s2 else s2) })"

section \<open>Identification\<close>

text \<open>A string of the identification data: the bytes of each word swapped, trailing spaces replaced by terminators, and a terminator.\<close>

definition ata_string :: "mem \<Rightarrow> u64 \<Rightarrow> nat \<Rightarrow> u8 list" where
  "ata_string m a n = rev (trim_spaces (rev (map (\<lambda>i. m (a + of_nat (if even i then i + 1 else i - 1))) [0..<n]))) @ [0]"

definition identify_sectors :: "mem \<Rightarrow> u64 \<Rightarrow> u64" where
  "identify_sectors m a =
     (let n = (if le16 m (a + 160) AND 0x400 \<noteq> 0 then le64 m (a + 192) else ucast (le32 m (a + 120)))
      in if n = 0 \<or> 0xFFFFFFFFFFFF < n then 2 * 1024 * 1024 else n)"

definition identify_sector_size :: "mem \<Rightarrow> u64 \<Rightarrow> u32" where
  "identify_sector_size m a =
     (let w = le16 m (a + 204) in if w AND 0x1000 \<noteq> 0 \<and> w AND 0x2000 \<noteq> 0 then le32 m (a + 226) * 2 else 512)"

definition identify_fields :: "mem \<Rightarrow> u64 \<Rightarrow> sata_port_t \<Rightarrow> sata_port_t" where
  "identify_fields m a port =
     port\<lparr>sp_model := ata_string m (a + 54) 40, sp_serial := ata_string m (a + 20) 20, sp_firmware := ata_string m (a + 46) 8,
          sp_sector_count := identify_sectors m a, sp_sector_size := identify_sector_size m a\<rparr>"

partial_function (option) busy_loop :: "'a mmio_state_scheme sata_env \<Rightarrow> u64 \<Rightarrow> u64 \<Rightarrow> 'a mmio_state_scheme \<Rightarrow> 'a mmio_state_scheme option" where
  "busy_loop env base timeout s =
     (let (v, s1) = rd32 env (base + Px_tfd) s
      in if v AND HBA_PxTFD_BSY \<noteq> 0 \<and> timer_get_uptime_ms s1 < timeout then Option.bind (sleep_ms env 1 s1) (busy_loop env base timeout) else Some s1)"

text \<open>The wait for the answer; the result tells whether the loop ended without an error of the disk.\<close>

partial_function (option) identify_loop :: "'a mmio_state_scheme sata_env \<Rightarrow> u64 \<Rightarrow> nat \<Rightarrow> u64 \<Rightarrow> 'a mmio_state_scheme \<Rightarrow> (bool \<times> 'a mmio_state_scheme) option" where
  "identify_loop env base i start_time s =
     (let (v, s1) = rd32 env (base + Px_ci) s
      in if v AND push_bit i 1 \<noteq> 0 \<and> timer_get_uptime_ms s1 - start_time < 5000
         then let (st, s2) = rd32 env (base + Px_is) s1
              in if st AND HBA_PxIS_TFES \<noteq> 0 then Some (False, wr32 env (base + Px_is) HBA_PxIS_TFES s2)
                 else Option.bind (sleep_ms env 1 s2) (identify_loop env base i start_time)
         else Some (True, s1))"

text \<open>The address that goes into the region table is the virtual one.\<close>

definition build_identify :: "sata_port_t \<Rightarrow> nat \<Rightarrow> u64 \<Rightarrow> mem \<Rightarrow> mem" where
  "build_identify port i identify_data m =
     (let tbl = sp_cmd_tables port ! i;
          m1 = put_bits (header_addr port i) 0x80 0x80 (put_header (header_addr port i) False 1 (fill_block identify_data 0 512 m));
          m2 = put_prdt (tbl + 128) identify_data 512 (fill_block tbl 0 sizeof_cmd_tbl m1)
      in put_fis tbl ATA_CMD_IDENTIFY 0 0 m2)"

definition identify_device :: "'a mmio_state_scheme sata_env \<Rightarrow> sata_port_t \<Rightarrow> 'a mmio_state_scheme \<Rightarrow> (bool \<times> sata_port_t \<times> 'a mmio_state_scheme) option" where
  "identify_device env port0 s =
     (let base = sp_port_base port0; (signature, s1) = rd32 env (base + Px_sig) s
      in if signature = SATA_SIG_ATAPI then Some (False, port0\<lparr>sp_type := 1\<rparr>, s1)
         else if signature \<noteq> SATA_SIG_ATA then Some (False, port0, s1)
         else do {
           let port = port0\<lparr>sp_type := 0\<rparr>;
           s2 \<leftarrow> busy_loop env base (timer_get_uptime_ms s1 + 1000) s1;
           let (v, s3) = rd32 env (base + Px_tfd) s2;
           if v AND HBA_PxTFD_BSY \<noteq> 0 then Some (False, port, s3)
           else let (free_slot, s4) = find_command_slot env port s3
                in (case free_slot of
                      None \<Rightarrow> Some (False, port, s4)
                    | Some i \<Rightarrow>
                        let ((identify_data, _), s5) = alloc_dma_buffer 512 s4
                        in if identify_data = 0 then Some (False, port, s5)
                           else do {
                             let s6 = modify32 env (base + Px_ci) (\<lambda>v. v OR push_bit i 1) (store (build_identify port i identify_data) s5);
                             (ok, s7) \<leftarrow> identify_loop env base i (timer_get_uptime_ms s6) s6;
                             if \<not> ok then Some (False, port, free_dma_buffer identify_data 512 s7)
                             else let (v2, s8) = rd32 env (base + Px_ci) s7
                                  in Some (v2 AND push_bit i 1 = 0, if v2 AND push_bit i 1 = 0 then identify_fields (kmem s8) identify_data port else port,
                                       free_dma_buffer identify_data 512 s8) }) })"

section \<open>Memory of a port\<close>

definition free_tables :: "u64 list \<Rightarrow> 'a mmio_state_scheme \<Rightarrow> 'a mmio_state_scheme" where
  "free_tables ts s = fold (\<lambda>t. free_dma_buffer t COMMAND_TABLE_SIZE) ts s"

text \<open>The loop over the slots: whether every table was allocated, and the tables.\<close>

fun table_loop :: "sata_port_t \<Rightarrow> nat list \<Rightarrow> u64 list \<Rightarrow> 'a mmio_state_scheme \<Rightarrow> bool \<times> u64 list \<times> 'a mmio_state_scheme" where
  "table_loop port [] ts s = (True, ts, s)"
| "table_loop port (i # is) ts s =
     (let ((tbl, phys), s1) = alloc_dma_buffer COMMAND_TABLE_SIZE s; h = header_addr port i
      in if tbl = 0 then (False, replicate 32 0, free_tables (take i ts) s1)
         else table_loop port is (ts[i := tbl])
                (store (\<lambda>m. st32 (h + 12) (ucast (drop_bit 32 phys)) (st32 (h + 8) (ucast phys) (fill_block tbl 0 (unat COMMAND_TABLE_SIZE) m))) s1))"

definition allocate_port_memory :: "'a mmio_state_scheme sata_env \<Rightarrow> sata_port_t \<Rightarrow> 'a mmio_state_scheme \<Rightarrow> bool \<times> sata_port_t \<times> 'a mmio_state_scheme" where
  "allocate_port_memory env port s =
     (let ((cl, cl_phys), s1) = alloc_dma_buffer COMMAND_LIST_SIZE s; port1 = port\<lparr>sp_cmd_list := cl\<rparr>
      in if cl = 0 then (False, port1, s1)
         else let s2 = store (fill_block cl 0 (unat COMMAND_LIST_SIZE)) s1;
                  ((fis, fis_phys), s3) = alloc_dma_buffer RECEIVED_FIS_SIZE s2; port2 = port1\<lparr>sp_fis := fis\<rparr>
              in if fis = 0 then (False, port2, free_dma_buffer cl COMMAND_LIST_SIZE s3)
                 else let s4 = store (fill_block fis 0 (unat RECEIVED_FIS_SIZE)) s3;
                          (ok, ts, s5) = table_loop port2 [0..<32] (replicate 32 0) s4; port3 = port2\<lparr>sp_cmd_tables := ts\<rparr>
                      in if \<not> ok then (False, port3, free_dma_buffer cl COMMAND_LIST_SIZE (free_dma_buffer fis RECEIVED_FIS_SIZE s5))
                         else let ((buf, buf_phys), s6) = alloc_dma_buffer DMA_BUFFER_SIZE s5
                              in if buf = 0
                                 then (False, port3\<lparr>sp_dma_buffer := 0, sp_cmd_tables := replicate 32 0\<rparr>,
                                       free_dma_buffer cl COMMAND_LIST_SIZE (free_dma_buffer fis RECEIVED_FIS_SIZE (free_tables ts s6)))
                                 else let s7 = store (fill_block buf 0 (unat DMA_BUFFER_SIZE)) s6; b = sp_port_base port;
                                          s8 = wr32 env (b + Px_clbu) (ucast (drop_bit 32 cl_phys)) (wr32 env (b + Px_clb) (ucast cl_phys) s7);
                                          s9 = wr32 env (b + Px_fbu) (ucast (drop_bit 32 fis_phys)) (wr32 env (b + Px_fb) (ucast fis_phys) s8)
                                      in (True, port3\<lparr>sp_dma_buffer := buf, sp_dma_buffer_phys := buf_phys, sp_dma_buffer_size := DMA_BUFFER_SIZE\<rparr>,
                                          wr32 env (b + Px_serr) (- 1) (wr32 env (b + Px_is) (- 1) s9)))"

definition free_port_memory :: "sata_port_t \<Rightarrow> 'a mmio_state_scheme \<Rightarrow> sata_port_t \<times> 'a mmio_state_scheme" where
  "free_port_memory port s =
     (port\<lparr>sp_dma_buffer := 0, sp_cmd_tables := replicate 32 0, sp_fis := 0, sp_cmd_list := 0\<rparr>,
      free_dma_buffer (sp_cmd_list port) COMMAND_LIST_SIZE (free_dma_buffer (sp_fis port) RECEIVED_FIS_SIZE
        (free_tables (sp_cmd_tables port) (free_dma_buffer (sp_dma_buffer port) (sp_dma_buffer_size port) s))))"

section \<open>Initialisation\<close>

definition zero_port :: sata_port_t where
  "zero_port = \<lparr>sp_status = 0, sp_type = 0, sp_sector_size = 0, sp_sector_count = 0, sp_model = replicate 41 0, sp_serial = replicate 21 0, sp_firmware = replicate 9 0,
     sp_cmd_list = 0, sp_fis = 0, sp_cmd_tables = replicate 32 0, sp_port_base = 0, sp_port_num = 0, sp_controller_id = 0, sp_dma_buffer = 0, sp_dma_buffer_phys = 0,
     sp_dma_buffer_size = 0\<rparr>"

definition zero_driver :: sata_driver_t where
  "zero_driver = \<lparr>sd_controllers = replicate SATA_MAX_CONTROLLERS \<lparr>sc_initialized = False, sc_pci_bus = 0, sc_pci_device = 0, sc_pci_function = 0, sc_vendor_id = 0,
     sc_device_id = 0, sc_abar = 0, sc_abar_phys = 0, sc_ports_impl = 0, sc_ports_active = 0, sc_slot_count = 0, sc_ports = replicate 32 zero_port\<rparr>,
     sd_controller_count = 0, sd_total_ports = 0, sd_initialized = False\<rparr>"

definition init_port :: "'a mmio_state_scheme sata_env \<Rightarrow> sata_driver_t \<Rightarrow> sata_controller_t \<Rightarrow> nat \<Rightarrow> 'a mmio_state_scheme \<Rightarrow>
    (bool \<times> sata_port_t \<times> 'a mmio_state_scheme) option" where
  "init_port env drv ctrl n s =
     (let old = sc_ports ctrl ! n; base = hba_port (sc_abar ctrl) n
      in if SATA_MAX_PORTS \<le> unat (sd_total_ports drv) then Some (False, old, s)
         else let (ssts, s1) = rd32 env (base + Px_ssts) s
              in if ssts AND 0x0F \<noteq> 3 \<or> drop_bit 8 ssts AND 0x0F \<noteq> 1 then Some (False, old, s1)
                 else do {
                   let port = old\<lparr>sp_port_base := base, sp_port_num := of_nat n, sp_controller_id := ucast (sd_controller_count drv),
                                  sp_status := SATA_PORT_STATUS_PRESENT\<rparr>;
                   let s2 = spinlock_init (se_port_lock env (unat (sd_controller_count drv)) n) s1;
                   (_, s3) \<leftarrow> reset_port env (sc_abar ctrl) n s2;
                   let (ok, port1, s4) = allocate_port_memory env port s3;
                   if \<not> ok then Some (False, port1, s4)
                   else do {
                     s5 \<leftarrow> start_port env base s4;
                     (ok2, port2, s6) \<leftarrow> identify_device env port1 s5;
                     if \<not> ok2 then do {
                       s7 \<leftarrow> stop_port env base s6;
                       let (port3, s8) = free_port_memory port2 s7;
                       Some (False, port3, s8) }
                     else Some (True, port2\<lparr>sp_status := SATA_PORT_STATUS_ACTIVE\<rparr>, s6) } })"

text \<open>The loop over the implemented ports, on the controller and the driver.\<close>

fun port_loop :: "'a mmio_state_scheme sata_env \<Rightarrow> nat list \<Rightarrow> sata_controller_t \<Rightarrow> sata_driver_t \<Rightarrow> 'a mmio_state_scheme \<Rightarrow>
    (sata_controller_t \<times> sata_driver_t \<times> 'a mmio_state_scheme) option" where
  "port_loop env [] ctrl drv s = Some (ctrl, drv, s)"
| "port_loop env (i # is) ctrl drv s =
     (if sc_ports_impl ctrl AND push_bit i 1 = 0 then port_loop env is ctrl drv s
      else do {
        (ok, port, s1) \<leftarrow> init_port env drv ctrl i s;
        let ctrl1 = ctrl\<lparr>sc_ports := (sc_ports ctrl)[i := port]\<rparr>;
        if ok then port_loop env is (ctrl1\<lparr>sc_ports_active := sc_ports_active ctrl1 OR push_bit i 1\<rparr>) (drv\<lparr>sd_total_ports := sd_total_ports drv + 1\<rparr>) s1
        else port_loop env is ctrl1 drv s1 })"

text \<open>The wait for the end of the reset; the result tells whether it ended in time.\<close>

partial_function (option) hba_reset_loop :: "'a mmio_state_scheme sata_env \<Rightarrow> u64 \<Rightarrow> u64 \<Rightarrow> 'a mmio_state_scheme \<Rightarrow> (bool \<times> 'a mmio_state_scheme) option" where
  "hba_reset_loop env abar timeout s =
     (let (v, s1) = rd32 env (abar + HBA_ghc) s
      in if v AND AHCI_GHC_HR = 0 then Some (True, s1)
         else if timeout \<le> timer_get_uptime_ms s1 then Some (False, s1)
         else Option.bind (sleep_ms env 10 s1) (hba_reset_loop env abar timeout))"

definition unmap_abar :: "u64 \<Rightarrow> u64 \<Rightarrow> 'a mmio_state_scheme \<Rightarrow> 'a mmio_state_scheme" where
  "unmap_abar abar n s = s\<lparr>kvm := vmm_unmap_physical abar n (kvm s)\<rparr>"

text \<open>The part of \<open>init_controller\<close> that runs once the registers are mapped.\<close>

definition bring_up :: "'a mmio_state_scheme sata_env \<Rightarrow> u64 \<Rightarrow> u64 \<Rightarrow> sata_controller_t \<Rightarrow> sata_driver_t \<Rightarrow> 'a mmio_state_scheme \<Rightarrow>
    (bool \<times> sata_controller_t \<times> sata_driver_t \<times> 'a mmio_state_scheme) option" where
  "bring_up env abar abar_size ctrl drv s = do {
     let s1 = modify32 env (abar + HBA_ghc) (\<lambda>v. v OR AHCI_GHC_HR) s;
     (ok, s2) \<leftarrow> hba_reset_loop env abar (timer_get_uptime_ms s1 + 1000) s1;
     if \<not> ok then Some (False, ctrl, drv, unmap_abar abar abar_size s2)
     else do {
       let s3 = modify32 env (abar + HBA_ghc) (\<lambda>v. v OR AHCI_GHC_AE) s2;
       let (impl, s4) = rd32 env (abar + HBA_pi) s3;
       let (cap, s5) = rd32 env (abar + HBA_cap) s4;
       let slots = drop_bit AHCI_CAP_NCS_SHIFT (cap AND AHCI_CAP_NCS_MASK) + 1;
       (ctrl1, drv1, s6) \<leftarrow> port_loop env [0..<32] (ctrl\<lparr>sc_ports_impl := impl, sc_slot_count := (if 32 < slots then 32 else slots), sc_ports_active := 0\<rparr>) drv s5;
       if sc_ports_active ctrl1 = 0 then Some (False, ctrl1, drv1, unmap_abar abar abar_size s6)
       else Some (True, ctrl1\<lparr>sc_initialized := True\<rparr>, drv1\<lparr>sd_controller_count := sd_controller_count drv1 + 1\<rparr>, s6) } }"

text \<open>The controller in the place \<open>controller_count\<close>, whose fields are stored also when the initialisation fails.\<close>

definition start_controller :: "'a mmio_state_scheme sata_env \<Rightarrow> pci_device_t \<Rightarrow> sata_controller_t \<Rightarrow> sata_driver_t \<Rightarrow> 'a mmio_state_scheme \<Rightarrow>
    (bool \<times> sata_controller_t \<times> sata_driver_t \<times> 'a mmio_state_scheme) option" where
  "start_controller env d ctrl0 drv s =
     (let ctrl1 = ctrl0\<lparr>sc_pci_bus := pci_bus d, sc_pci_device := pci_dev d, sc_pci_function := pci_function d, sc_vendor_id := vendor_id d, sc_device_id := device_id d\<rparr>;
          (phys, s2) = pci_get_bar_address (me_dev env) d 5 (pci_enable_device (me_dev env) d s); ctrl2 = ctrl1\<lparr>sc_abar_phys := phys\<rparr>
      in if phys = 0 then Some (False, ctrl2, drv, s2)
         else let (n, s3) = pci_get_bar_size (me_dev env) d 5 s2;
                  abar_size = (if ucast n < sizeof_hba_mem then sizeof_hba_mem else ucast n);
                  (abar, k) = vmm_map_physical phys abar_size (VMM_FLAG_PRESENT OR VMM_FLAG_WRITABLE OR VMM_FLAG_NOCACHE) (kvm s3);
                  s4 = s3\<lparr>kvm := k\<rparr>; ctrl3 = ctrl2\<lparr>sc_abar := abar\<rparr>
              in if abar = 0 then Some (False, ctrl3, drv, s4)
                 else bring_up env abar abar_size ctrl3 drv s4)"

definition init_controller :: "'a mmio_state_scheme sata_env \<Rightarrow> pci_device_t \<Rightarrow> sata_driver_t \<Rightarrow> 'a mmio_state_scheme \<Rightarrow> (bool \<times> sata_driver_t \<times> 'a mmio_state_scheme) option" where
  "init_controller env d drv s =
     (if SATA_MAX_CONTROLLERS \<le> unat (sd_controller_count drv) then Some (False, drv, s)
      else do {
        let idx = unat (sd_controller_count drv);
        (ok, ctrl, drv1, s1) \<leftarrow> start_controller env d (sd_controllers drv ! idx) drv s;
        Some (ok, drv1\<lparr>sd_controllers := (sd_controllers drv1)[idx := ctrl]\<rparr>, s1) })"

fun controllers_loop :: "'a mmio_state_scheme sata_env \<Rightarrow> pci_device_t list \<Rightarrow> nat \<Rightarrow> sata_driver_t \<Rightarrow> 'a mmio_state_scheme \<Rightarrow> (nat \<times> sata_driver_t \<times> 'a mmio_state_scheme) option" where
  "controllers_loop env [] n drv s = Some (n, drv, s)"
| "controllers_loop env (d # ds) n drv s = do {
     (ok, drv1, s1) \<leftarrow> init_controller env d drv s;
     controllers_loop env ds (if ok then Suc n else n) drv1 s1 }"

definition find_and_init_controllers :: "'a mmio_state_scheme sata_env \<Rightarrow> sata_driver_t \<Rightarrow> 'a mmio_state_scheme \<Rightarrow> (bool \<times> sata_driver_t \<times> 'a mmio_state_scheme) option" where
  "find_and_init_controllers env drv s =
     (let devices = pci_find_devices AHCI_PCI_CLASS AHCI_PCI_SUBCLASS s
      in if devices = [] then Some (False, drv, s)
         else do {
           (n, drv1, s1) \<leftarrow> controllers_loop env (take SATA_MAX_CONTROLLERS devices) 0 drv s;
           Some (0 < n, drv1, s1) })"

definition sata_init :: "'a mmio_state_scheme sata_env \<Rightarrow> 'a mmio_state_scheme \<Rightarrow> (bool \<times> sata_driver_t \<times> 'a mmio_state_scheme) option" where
  "sata_init env s = do {
     (ok, drv, s1) \<leftarrow> find_and_init_controllers env zero_driver (spinlock_init (se_global_lock env) s);
     Some (ok, if ok then drv\<lparr>sd_initialized := True\<rparr> else drv, s1) }"

section \<open>Shutdown\<close>

fun stop_ports :: "'a mmio_state_scheme sata_env \<Rightarrow> nat \<Rightarrow> nat list \<Rightarrow> sata_controller_t \<Rightarrow> 'a mmio_state_scheme \<Rightarrow> (sata_controller_t \<times> 'a mmio_state_scheme) option" where
  "stop_ports env c [] ctrl s = Some (ctrl, s)"
| "stop_ports env c (j # js) ctrl s =
     (if sc_ports_active ctrl AND push_bit j 1 = 0 then stop_ports env c js ctrl s
      else do {
        s1 \<leftarrow> lock env (se_port_lock env c j) s;
        s2 \<leftarrow> stop_port env (sp_port_base (sc_ports ctrl ! j)) s1;
        let (port, s3) = free_port_memory (sc_ports ctrl ! j) s2;
        stop_ports env c js (ctrl\<lparr>sc_ports := (sc_ports ctrl)[j := port]\<rparr>) (spinlock_release (se_port_lock env c j) s3) })"

fun stop_controllers :: "'a mmio_state_scheme sata_env \<Rightarrow> nat list \<Rightarrow> sata_driver_t \<Rightarrow> 'a mmio_state_scheme \<Rightarrow> (sata_driver_t \<times> 'a mmio_state_scheme) option" where
  "stop_controllers env [] drv s = Some (drv, s)"
| "stop_controllers env (c # cs) drv s =
     (if \<not> sc_initialized (sd_controllers drv ! c) then stop_controllers env cs drv s
      else do {
        (ctrl, s1) \<leftarrow> stop_ports env c [0..<32] (sd_controllers drv ! c) s;
        let s2 = (if sc_abar ctrl \<noteq> 0 then unmap_abar (sc_abar ctrl) 4096 s1 else s1);
        stop_controllers env cs (drv\<lparr>sd_controllers := (sd_controllers drv)[c := ctrl\<lparr>sc_abar := 0, sc_initialized := False\<rparr>]\<rparr>) s2 })"

definition sata_shutdown :: "'a mmio_state_scheme sata_env \<Rightarrow> sata_driver_t \<Rightarrow> 'a mmio_state_scheme \<Rightarrow> (sata_driver_t \<times> 'a mmio_state_scheme) option" where
  "sata_shutdown env drv s =
     (if \<not> sd_initialized drv then Some (drv, s)
      else do {
        s1 \<leftarrow> lock env (se_global_lock env) s;
        (drv1, s2) \<leftarrow> stop_controllers env [0..<unat (sd_controller_count drv)] drv s1;
        Some (drv1\<lparr>sd_controller_count := 0, sd_total_ports := 0, sd_initialized := False\<rparr>, spinlock_release (se_global_lock env) s2) })"

section \<open>Requests\<close>

text \<open>The loops over the controllers and their ports: \<open>port_id\<close> counts the active ports of the initialised controllers.\<close>

definition active_ports :: "sata_driver_t \<Rightarrow> (nat \<times> nat) list" where
  "active_ports drv =
     concat (map (\<lambda>c. if sc_initialized (sd_controllers drv ! c)
                      then map (Pair c) (filter (\<lambda>j. sc_ports_active (sd_controllers drv ! c) AND push_bit j 1 \<noteq> 0) [0..<32]) else [])
       [0..<unat (sd_controller_count drv)])"

definition find_port :: "sata_driver_t \<Rightarrow> u32 \<Rightarrow> (nat \<times> nat) option" where
  "find_port drv port_id =
     (if unat port_id < length (active_ports drv) then Some (active_ports drv ! unat port_id) else None)"

definition the_port :: "sata_driver_t \<Rightarrow> nat \<times> nat \<Rightarrow> sata_port_t" where
  "the_port drv cj = sc_ports (sd_controllers drv ! fst cj) ! snd cj"

partial_function (option) transfer_loop :: "'a mmio_state_scheme sata_env \<Rightarrow> sata_port_t \<Rightarrow> nat \<Rightarrow> u8 \<Rightarrow> bool \<Rightarrow> u32 \<Rightarrow> u32 \<Rightarrow> u64 \<Rightarrow> u64 \<Rightarrow>
    'a mmio_state_scheme \<Rightarrow> (bool \<times> 'a mmio_state_scheme) option" where
  "transfer_loop env port i cmd write max_sectors remaining lba buf s =
     (if 0 < remaining
      then let n = (if max_sectors < remaining then max_sectors else remaining)
           in Option.bind (port_send_command env port i cmd lba n buf write s) (\<lambda>(ok, s1).
                if ok then transfer_loop env port i cmd write max_sectors (remaining - n) (lba + ucast n) (buf + ucast (n * sp_sector_size port)) s1
                else Some (False, s1))
      else Some (True, s))"

text \<open>The checks that every request makes first: the place of the port, if it is there and active.\<close>

definition usable_port :: "sata_driver_t \<Rightarrow> u32 \<Rightarrow> (nat \<times> nat) option" where
  "usable_port drv port_id =
     (if \<not> sd_initialized drv \<or> sd_total_ports drv \<le> port_id then None
      else case find_port drv port_id of
             None \<Rightarrow> None
           | Some cj \<Rightarrow> if sp_status (the_port drv cj) \<noteq> SATA_PORT_STATUS_ACTIVE then None else Some cj)"

text \<open>A request that holds the lock of the port: \<open>act\<close> is given the slot.\<close>

definition with_slot :: "'a mmio_state_scheme sata_env \<Rightarrow> sata_driver_t \<Rightarrow> nat \<times> nat \<Rightarrow> (nat \<Rightarrow> 'a mmio_state_scheme \<Rightarrow> (bool \<times> 'a mmio_state_scheme) option) \<Rightarrow>
    'a mmio_state_scheme \<Rightarrow> (bool \<times> 'a mmio_state_scheme) option" where
  "with_slot env drv cj act s = do {
     let l = se_port_lock env (fst cj) (snd cj);
     s1 \<leftarrow> lock env l s;
     let (free_slot, s2) = find_command_slot env (the_port drv cj) s1;
     case free_slot of
       None \<Rightarrow> Some (False, spinlock_release l s2)
     | Some i \<Rightarrow> do { (ok, s3) \<leftarrow> act i s2; Some (ok, spinlock_release l s3) } }"

definition sata_access :: "'a mmio_state_scheme sata_env \<Rightarrow> u8 \<Rightarrow> bool \<Rightarrow> sata_driver_t \<Rightarrow> u32 \<Rightarrow> u64 \<Rightarrow> u64 \<Rightarrow> u32 \<Rightarrow> 'a mmio_state_scheme \<Rightarrow>
    (bool \<times> 'a mmio_state_scheme) option" where
  "sata_access env cmd write drv port_id lba buffer sector_count s =
     (case usable_port drv port_id of
        None \<Rightarrow> Some (False, s)
      | Some cj \<Rightarrow>
          let port = the_port drv cj
          in if sp_sector_count port < lba + ucast sector_count then Some (False, s)
             else with_slot env drv cj (\<lambda>i s.
                    if sp_sector_size port = 0 then None
                    else transfer_loop env port i cmd write (ucast (sp_dma_buffer_size port div ucast (sp_sector_size port))) sector_count lba buffer s) s)"

definition sata_read :: "'a mmio_state_scheme sata_env \<Rightarrow> sata_driver_t \<Rightarrow> u32 \<Rightarrow> u64 \<Rightarrow> u64 \<Rightarrow> u32 \<Rightarrow> 'a mmio_state_scheme \<Rightarrow> (bool \<times> 'a mmio_state_scheme) option" where
  "sata_read env drv port_id lba buffer sector_count s = sata_access env ATA_CMD_READ_DMA_EXT False drv port_id lba buffer sector_count s"

definition sata_write :: "'a mmio_state_scheme sata_env \<Rightarrow> sata_driver_t \<Rightarrow> u32 \<Rightarrow> u64 \<Rightarrow> u64 \<Rightarrow> u32 \<Rightarrow> 'a mmio_state_scheme \<Rightarrow> (bool \<times> 'a mmio_state_scheme) option" where
  "sata_write env drv port_id lba buffer sector_count s = sata_access env ATA_CMD_WRITE_DMA_EXT True drv port_id lba buffer sector_count s"

definition sata_flush :: "'a mmio_state_scheme sata_env \<Rightarrow> sata_driver_t \<Rightarrow> u32 \<Rightarrow> 'a mmio_state_scheme \<Rightarrow> (bool \<times> 'a mmio_state_scheme) option" where
  "sata_flush env drv port_id s =
     (case usable_port drv port_id of
        None \<Rightarrow> Some (False, s)
      | Some cj \<Rightarrow> with_slot env drv cj (\<lambda>i. port_send_command env (the_port drv cj) i ATA_CMD_FLUSH_CACHE_EXT 0 0 0 False) s)"

text \<open>The three strings of the port lie at the addresses that \<open>se_port_strings\<close> gives.\<close>

definition sata_get_port_info :: "'a mmio_state_scheme sata_env \<Rightarrow> sata_driver_t \<Rightarrow> u32 \<Rightarrow> u64 \<Rightarrow> u64 \<Rightarrow> 'a mmio_state_scheme \<Rightarrow> (bool \<times> 'a mmio_state_scheme) option" where
  "sata_get_port_info env drv port_id buffer buffer_size s =
     (if \<not> sd_initialized drv \<or> buffer = 0 \<or> buffer_size = 0 \<or> sd_total_ports drv \<le> port_id then Some (False, s)
      else case find_port drv port_id of
             None \<Rightarrow> Some (False, s)
           | Some cj \<Rightarrow> do {
               let port = the_port drv cj;
               let (mo, se, fi) = se_port_strings env (fst cj) (snd cj);
               let m = poke fi (sp_firmware port) (poke se (sp_serial port) (poke mo (sp_model port) (kmem s)));
               (written, m1) \<leftarrow> snprintf buffer buffer_size
                 (Some (''SATA Port %u:'' @ [CHR 0x0A] @ ''  Model: %s'' @ [CHR 0x0A] @ ''  Serial: %s'' @ [CHR 0x0A] @ ''  Firmware: %s'' @ [CHR 0x0A] @
                        ''  Size: %lu MB (%lu sectors, %u bytes/sector)'' @ [CHR 0x0A]))
                 [ucast port_id, mo, se, fi, sp_sector_count port * ucast (sp_sector_size port) div (1024 * 1024), sp_sector_count port, ucast (sp_sector_size port)] m;
               Some (0 < sint written, s\<lparr>kmem := m1\<rparr>) })"

definition sata_get_port_count :: "sata_driver_t \<Rightarrow> u32" where
  "sata_get_port_count drv = sd_total_ports drv"

section \<open>Debug output\<close>

definition dump_port :: "sata_port_t \<Rightarrow> nat \<Rightarrow> u32 \<Rightarrow> print_line list" where
  "dump_port port j port_id =
     [(''  Port %u (Global ID: %u):'', [Num (of_nat j), Num (ucast port_id)]),
      (''    Status: %s'', [Str (if sp_status port = SATA_PORT_STATUS_ACTIVE then ''Active'' else ''Present'')]),
      (''    Type: %s'', [Str (if sp_type port = 0 then ''ATA'' else ''ATAPI'')]),
      (''    Model: %s'', [field_string (sp_model port)]),
      (''    Serial: %s'', [field_string (sp_serial port)]),
      (''    Firmware: %s'', [field_string (sp_firmware port)]),
      (''    Capacity: %lu MB (%lu sectors, %u bytes/sector)'',
       [Num (sp_sector_count port * ucast (sp_sector_size port) div (1024 * 1024)), Num (sp_sector_count port), Num (ucast (sp_sector_size port))])]"

fun dump_ports :: "sata_controller_t \<Rightarrow> nat list \<Rightarrow> u32 \<Rightarrow> u32 \<times> print_line list" where
  "dump_ports ctrl [] port_id = (port_id, [])"
| "dump_ports ctrl (j # js) port_id =
     (if sc_ports_active ctrl AND push_bit j 1 \<noteq> 0
      then let (n, ls) = dump_ports ctrl js (port_id + 1) in (n, dump_port (sc_ports ctrl ! j) j port_id @ ls)
      else dump_ports ctrl js port_id)"

definition dump_controller :: "nat \<Rightarrow> sata_controller_t \<Rightarrow> print_line list" where
  "dump_controller i ctrl =
     [(''Controller %u: PCI %02x:%02x.%x (VendorID: 0x%04X, DeviceID: 0x%04X)'',
       [Num (of_nat i), Num (ucast (sc_pci_bus ctrl)), Num (ucast (sc_pci_device ctrl)), Num (ucast (sc_pci_function ctrl)),
        Num (ucast (sc_vendor_id ctrl)), Num (ucast (sc_device_id ctrl))]),
      (''  Ports Implemented: 0x%08X'', [Num (ucast (sc_ports_impl ctrl))]),
      (''  Ports Active: 0x%08X'', [Num (ucast (sc_ports_active ctrl))]),
      (''  Command Slots: %u'', [Num (ucast (sc_slot_count ctrl))])]"

fun dump_controllers :: "sata_driver_t \<Rightarrow> nat list \<Rightarrow> u32 \<Rightarrow> print_line list" where
  "dump_controllers drv [] port_id = []"
| "dump_controllers drv (i # is) port_id =
     (let ctrl = sd_controllers drv ! i
      in if \<not> sc_initialized ctrl then dump_controllers drv is port_id
         else let (n, ls) = dump_ports ctrl [0..<32] port_id in dump_controller i ctrl @ ls @ dump_controllers drv is n)"

definition sata_debug_dump_info :: "sata_driver_t \<Rightarrow> print_line list" where
  "sata_debug_dump_info drv =
     (if \<not> sd_initialized drv then [(''SATA: Driver not initialized'', [])]
      else [(''SATA Driver Status:'', []), (''  Controllers: %u'', [Num (ucast (sd_controller_count drv))]),
            (''  Total Ports: %u'', [Num (ucast (sd_total_ports drv))])]
           @ dump_controllers drv [0..<unat (sd_controller_count drv)] 0)"

end
