(* ===== verification/Sata_Correct.thy ===== *)
theory Sata_Correct
  imports Sata
begin

text \<open>
  Correctness of the SATA driver: what a command asks the disk for, the commands of a request, and the ports that can be addressed after the initialisation.
\<close>

section \<open>Requests\<close>

text \<open>The commands of a request: the first sector, the number of sectors and the address of the data of each.\<close>

function chunks :: "u32 \<Rightarrow> u32 \<Rightarrow> u32 \<Rightarrow> u64 \<Rightarrow> u64 \<Rightarrow> (u64 \<times> u32 \<times> u64) list" where
  "chunks ss mx r lba buf =
     (if r = 0 \<or> mx = 0 then []
      else let n = (if mx < r then mx else r) in (lba, n, buf) # chunks ss mx (r - n) (lba + ucast n) (buf + ucast (n * ss)))"
  by pat_completeness auto
termination
proof (relation "measure (\<lambda>(ss, mx, r, lba, buf). unat r)", simp)
  fix ss mx r n :: u32 and lba buf :: u64
  assume "\<not> (r = 0 \<or> mx = 0)" "n = (if mx < r then mx else r)"
  then have "n \<noteq> 0" "n \<le> r" by (auto simp: not_less)
  moreover from this have "0 < unat n" by (simp add: unat_gt_0)
  ultimately have "unat (r - n) < unat r" by (simp add: unat_sub word_le_nat_alt)
  then show "((ss, mx, r - n, lba + ucast n, buf + ucast (n * ss)), ss, mx, r, lba, buf) \<in> measure (\<lambda>(ss, mx, r, lba, buf). unat r)" by simp
qed

declare chunks.simps [simp del]

text \<open>Commands one after the other, until one fails.\<close>

fun send_all :: "'a mmio_state_scheme sata_env \<Rightarrow> sata_port_t \<Rightarrow> nat \<Rightarrow> u8 \<Rightarrow> bool \<Rightarrow> (u64 \<times> u32 \<times> u64) list \<Rightarrow> 'a mmio_state_scheme \<Rightarrow>
    (bool \<times> 'a mmio_state_scheme) option" where
  "send_all env port i cmd write [] s = Some (True, s)"
| "send_all env port i cmd write ((lba, n, buf) # cs) s =
     Option.bind (port_send_command env port i cmd lba n buf write s) (\<lambda>(ok, s1). if ok then send_all env port i cmd write cs s1 else Some (False, s1))"

lemma transfer_loop_chunks:
  assumes "0 < mx"
  shows "transfer_loop env port i cmd write mx r lba buf s = send_all env port i cmd write (chunks (sp_sector_size port) mx r lba buf) s"
  using assms
proof (induction "sp_sector_size port" mx r lba buf arbitrary: s rule: chunks.induct)
  case (1 mx r lba buf)
  show ?case
  proof (cases "r = 0")
    case True
    then show ?thesis by (subst transfer_loop.simps, subst chunks.simps) simp
  next
    case False
    then have "0 < r" "\<not> (r = 0 \<or> mx = 0)" using 1(2) by (auto simp: word_gt_0)
    with 1(1) [OF this(2) refl] 1(2) show ?thesis
      by (subst transfer_loop.simps, subst chunks.simps) (auto simp: Let_def intro!: Option.bind_cong split: prod.splits)
  qed
qed

text \<open>The commands ask for the sectors of the request, each once and in order; none asks for more than \<open>mx\<close> sectors.\<close>

definition sectors :: "(u64 \<times> u32 \<times> u64) list \<Rightarrow> u64 list" where
  "sectors cs = concat (map (\<lambda>(l, n, _). map (\<lambda>j. l + of_nat j) [0..<unat n]) cs)"

lemma sectors_chunks:
  assumes "0 < mx"
  shows "sectors (chunks ss mx r lba buf) = map (\<lambda>j. lba + of_nat j) [0..<unat r]"
  using assms
proof (induction ss mx r lba buf rule: chunks.induct)
  case (1 ss mx r lba buf)
  show ?case
  proof (cases "r = 0")
    case True
    then show ?thesis by (subst chunks.simps) (simp add: sectors_def)
  next
    case False
    define n where "n = (if mx < r then mx else r)"
    have n: "\<not> (r = 0 \<or> mx = 0)" "unat n \<le> unat r" using False 1(2) by (auto simp: n_def not_less word_le_nat_alt word_less_nat_alt word_gt_0)
    have "sectors (chunks ss mx (r - n) (lba + ucast n) (buf + ucast (n * ss))) = map (\<lambda>j. lba + ucast n + of_nat j) [0..<unat (r - n)]"
      by (rule 1(1) [OF n(1) n_def 1(2)])
    also have "\<dots> = map (\<lambda>j. lba + of_nat j) [unat n..<unat r]"
    proof -
      have "unat (r - n) = unat r - unat n" using n(2) by (simp add: unat_sub word_le_nat_alt)
      moreover have "map (\<lambda>j. lba + ucast n + of_nat j) [0..<k] = map (\<lambda>j. lba + of_nat j) [unat n..<unat n + k]" for k
        by (induction k) (simp_all add: algebra_simps)
      ultimately show ?thesis using n(2) by simp
    qed
    moreover have "[0..<unat r] = [0..<unat n] @ [unat n..<unat r]" using n(2) upt_add_eq_append [of 0 "unat n" "unat r - unat n"] by simp
    ultimately show ?thesis using n(1) by (subst chunks.simps) (simp add: n_def [symmetric] sectors_def Let_def)
  qed
qed

lemma chunks_bound: "c \<in> set (chunks ss mx r lba buf) \<Longrightarrow> fst (snd c) \<le> mx"
proof (induction ss mx r lba buf rule: chunks.induct)
  case (1 ss mx r lba buf)
  then show ?case by (subst (asm) (2) chunks.simps) (auto simp: Let_def not_less split: if_splits)
qed

lemma command_fits:
  assumes "n \<le> ucast (sp_dma_buffer_size port div ucast (sp_sector_size port))" and "sp_sector_size port \<noteq> 0" and "unat (sp_dma_buffer_size port) < 2 ^ 32"
  shows "build_command port i cmd lba n buf write m \<noteq> None"
proof -
  let ?d = "sp_dma_buffer_size port" and ?s = "sp_sector_size port"
  have "unat (?d div ucast ?s) = unat ?d div unat ?s" by (simp add: unat_div unat_ucast_up)
  moreover have "unat ?d div unat ?s < 2 ^ 32" using assms(3) div_le_dividend [of "unat ?d" "unat ?s"] by linarith
  ultimately have "unat (ucast (?d div ucast ?s) :: u32) = unat ?d div unat ?s"
    by (simp add: unsigned_ucast_eq take_bit_nat_eq_self)
  then have "unat n \<le> unat ?d div unat ?s" using assms(1) by (simp add: word_le_nat_alt)
  then have "unat n * unat ?s \<le> unat ?d div unat ?s * unat ?s" by (rule mult_le_mono1)
  also have "\<dots> \<le> unat ?d" by simp
  finally have le: "unat n * unat ?s \<le> unat ?d" .
  then have "unat (n * ?s) = unat n * unat ?s" using assms(3) by (simp add: unat_word_ariths)
  then have "\<not> ?d < ucast (n * ?s)" using le by (simp add: word_less_nat_alt unat_ucast_up)
  then show ?thesis by (simp add: build_command_def Let_def)
qed

lemma max_sectors_positive:
  assumes "sp_sector_size port \<noteq> 0" and "ucast (sp_sector_size port) \<le> sp_dma_buffer_size port" and "unat (sp_dma_buffer_size port) < 2 ^ 32"
  shows "0 < (ucast (sp_dma_buffer_size port div ucast (sp_sector_size port)) :: u32)"
proof -
  let ?d = "sp_dma_buffer_size port" and ?s = "sp_sector_size port"
  have u: "unat (?d div ucast ?s) = unat ?d div unat ?s" by (simp add: unat_div unat_ucast_up)
  have "0 < unat ?s" "unat ?s \<le> unat ?d" using assms by (simp_all add: unat_gt_0 word_le_nat_alt unat_ucast_up)
  then have p: "0 < unat ?d div unat ?s" by (simp add: div_greater_zero_iff)
  have "unat ?d div unat ?s < 2 ^ 32" using assms(3) div_le_dividend [of "unat ?d" "unat ?s"] by linarith
  then have "unat (ucast (?d div ucast ?s) :: u32) = unat ?d div unat ?s" using u by (simp add: unsigned_ucast_eq take_bit_nat_eq_self)
  with p have "0 < unat (ucast (?d div ucast ?s) :: u32)" by simp
  then show ?thesis by (simp add: word_less_nat_alt)
qed


text \<open>A driver with one controller that has one disk of 4096 sectors at port 2.\<close>

definition sata_port_demo :: sata_port_t where
  "sata_port_demo = zero_port\<lparr>sp_status := SATA_PORT_STATUS_ACTIVE, sp_sector_size := 512, sp_sector_count := 4096, sp_dma_buffer_size := DMA_BUFFER_SIZE\<rparr>"

definition sata_demo :: sata_driver_t where
  "sata_demo = zero_driver\<lparr>sd_controllers := (sd_controllers zero_driver)[0 := (sd_controllers zero_driver ! 0)
     \<lparr>sc_initialized := True, sc_ports_active := 4, sc_ports := (replicate 32 zero_port)[2 := sata_port_demo]\<rparr>],
     sd_controller_count := 1, sd_total_ports := 1, sd_initialized := True\<rparr>"

definition sata_env_demo :: "mmio_state sata_env" where
  "sata_env_demo = \<lparr>me_dev = (\<lambda>_ _. 0), me_read32 = (\<lambda>_ _. 0), me_read64 = (\<lambda>_ _. 0), me_dma = (\<lambda>_ m. m), me_tsc = of_nat, me_hlt = (\<lambda>s. s),
     me_track_base = 0, me_return_address = 0, se_global_lock = 0x100, se_port_lock = (\<lambda>_ _. 0x200), se_port_strings = (\<lambda>_ _. (0x300, 0x340, 0x380))\<rparr>"

text \<open>The ports whose bit is set in a mask.\<close>

definition bit_ports :: "u32 \<Rightarrow> nat list" where
  "bit_ports a = filter (bit a) [0..<32]"

lemma active_bit: "(a AND push_bit j 1 \<noteq> 0) = bit (a :: u32) j"
  using and_exp_eq_0_iff_not_bit [of a j] by (simp add: push_bit_of_1)

lemma active_ports_bits:
  "active_ports drv = concat (map (\<lambda>c. if sc_initialized (sd_controllers drv ! c) then map (Pair c) (bit_ports (sc_ports_active (sd_controllers drv ! c))) else [])
     [0..<unat (sd_controller_count drv)])"
  unfolding active_ports_def active_bit bit_ports_def by (rule refl)

lemma bit_ports_4: "bit_ports 4 = [2]"
proof -
  have "bit (4 :: u32) j \<longleftrightarrow> j = 2" for j
    using bit_exp_iff [of 2 j, where ?'a = "32 word"] by (auto simp: possible_bit_def)
  then have "bit_ports 4 = filter (\<lambda>j. j = 2) [0..<32]" unfolding bit_ports_def by (intro filter_cong) auto
  also have "\<dots> = [2]" by (simp add: upt_rec)
  finally show ?thesis .
qed

lemma sata_demo_port: "usable_port sata_demo 0 = Some (0, 2)" "the_port sata_demo (0, 2) = sata_port_demo"
proof -
  have c: "sc_initialized (sd_controllers sata_demo ! 0)" "sc_ports_active (sd_controllers sata_demo ! 0) = 4"
      "sc_ports (sd_controllers sata_demo ! 0) = (replicate 32 zero_port)[2 := sata_port_demo]"
    and n: "sd_controller_count sata_demo = 1" "sd_total_ports sata_demo = 1" "sd_initialized sata_demo"
    by (simp_all add: sata_demo_def zero_driver_def SATA_MAX_CONTROLLERS_def)
  show q: "the_port sata_demo (0, 2) = sata_port_demo" by (simp add: the_port_def c)
  have a: "active_ports sata_demo = [(0, 2)]" by (simp add: active_ports_bits c n bit_ports_4)
  show "usable_port sata_demo 0 = Some (0, 2)"
    by (simp add: usable_port_def find_port_def q a n sata_port_demo_def SATA_PORT_STATUS_ACTIVE_def)
qed


section \<open>Initialisation\<close>

text \<open>The controllers in use are initialised and their active ports are usable; the number of ports is the number of these.\<close>

definition ctrl_ok :: "sata_controller_t \<Rightarrow> bool" where
  "ctrl_ok ctrl \<longleftrightarrow> length (sc_ports ctrl) = 32 \<and> (\<forall>j \<in> set (bit_ports (sc_ports_active ctrl)). sp_status (sc_ports ctrl ! j) = SATA_PORT_STATUS_ACTIVE)"

definition used :: "sata_driver_t \<Rightarrow> nat" where
  "used drv = sum_list (map (\<lambda>c. length (bit_ports (sc_ports_active (sd_controllers drv ! c)))) [0..<unat (sd_controller_count drv)])"

definition drv_ok :: "sata_driver_t \<Rightarrow> bool" where
  "drv_ok drv \<longleftrightarrow> length (sd_controllers drv) = 4 \<and> unat (sd_controller_count drv) \<le> 4 \<and> unat (sd_total_ports drv) = used drv \<and> used drv \<le> 32 \<and>
     (\<forall>c < 4. length (sc_ports (sd_controllers drv ! c)) = 32) \<and>
     (\<forall>c < unat (sd_controller_count drv). sc_initialized (sd_controllers drv ! c) \<and> ctrl_ok (sd_controllers drv ! c))"

lemma set_bit_ports: "set (bit_ports a) = {j. j < 32 \<and> bit a j}" and distinct_bit_ports: "distinct (bit_ports a)"
  by (auto simp: bit_ports_def)

lemma bit_ports_add:
  assumes "j < 32" and "j \<notin> set (bit_ports a)"
  shows "set (bit_ports (a OR push_bit j 1)) = insert j (set (bit_ports a))" and "length (bit_ports (a OR push_bit j 1)) = Suc (length (bit_ports a))"
proof -
  show s: "set (bit_ports (a OR push_bit j 1)) = insert j (set (bit_ports a))"
    using assms by (auto simp: set_bit_ports bit_simps)
  show "length (bit_ports (a OR push_bit j 1)) = Suc (length (bit_ports a))"
    unfolding distinct_card [OF distinct_bit_ports, symmetric] s using assms(2) by simp
qed

lemmas bit_ports_exp = bit_ports_add [unfolded push_bit_of_1]

lemma init_port_active:
  assumes "init_port env drv ctrl n s = Some (True, port, s')"
  shows "sp_status port = SATA_PORT_STATUS_ACTIVE \<and> unat (sd_total_ports drv) < 32"
  using assms by (auto simp: init_port_def SATA_MAX_PORTS_def Let_def bind_eq_Some_conv split_beta split: if_splits)

lemma port_loop_ok:
  assumes "port_loop env is ctrl drv s = Some (ctrl', drv', s')" and "ctrl_ok ctrl" and "distinct is" and "\<forall>i \<in> set is. i < 32 \<and> i \<notin> set (bit_ports (sc_ports_active ctrl))"
    and "unat (sd_total_ports drv) = k + length (bit_ports (sc_ports_active ctrl))" and "unat (sd_total_ports drv) \<le> 32"
  shows "ctrl_ok ctrl' \<and> (\<exists>t. drv' = drv\<lparr>sd_total_ports := t\<rparr>) \<and> unat (sd_total_ports drv') = k + length (bit_ports (sc_ports_active ctrl')) \<and> unat (sd_total_ports drv') \<le> 32"
  using assms
proof (induction "is" arbitrary: ctrl drv s)
  case Nil
  then show ?case by (auto intro!: exI [of _ "sd_total_ports drv"])
next
  case (Cons i "is")
  show ?case
  proof (cases "sc_ports_impl ctrl AND push_bit i 1 = 0")
    case True
    then show ?thesis using Cons.IH [of ctrl drv s] Cons.prems by simp
  next
    case False
    obtain ok port s1 where ip: "init_port env drv ctrl i s = Some (ok, port, s1)"
      using Cons.prems(1) False by (auto simp: bind_eq_Some_conv)
    let ?c = "ctrl\<lparr>sc_ports := (sc_ports ctrl)[i := port]\<rparr>"
    have i: "i < 32" "i \<notin> set (bit_ports (sc_ports_active ctrl))" "i \<notin> set is" using Cons.prems(3,4) by auto
    have ne: "\<forall>x \<in> set is. x \<noteq> i" using i(3) by auto
    have c: "ctrl_ok ?c" using Cons.prems(2) i(1,2) by (auto simp: ctrl_ok_def nth_list_update)
    show ?thesis
    proof (cases ok)
      case ok: True
      let ?c1 = "?c\<lparr>sc_ports_active := sc_ports_active ctrl OR push_bit i 1\<rparr>" and ?d = "drv\<lparr>sd_total_ports := sd_total_ports drv + 1\<rparr>"
      have a: "sp_status port = SATA_PORT_STATUS_ACTIVE" "unat (sd_total_ports drv) < 32" using init_port_active [of env drv ctrl i s port s1] ip ok by simp_all
      have "ctrl_ok ?c1" using c a(1) i(1) unfolding ctrl_ok_def by (auto simp: bit_ports_exp(1) [OF i(1,2)] nth_list_update)
      moreover have t: "unat (sd_total_ports ?d) = Suc (unat (sd_total_ports drv))" using a(2) by (simp add: unat_word_ariths)
      moreover have "port_loop env is ?c1 ?d s1 = Some (ctrl', drv', s')" using Cons.prems(1) False ip ok by simp
      ultimately have "ctrl_ok ctrl' \<and> (\<exists>t. drv' = ?d\<lparr>sd_total_ports := t\<rparr>) \<and> unat (sd_total_ports drv') = k + length (bit_ports (sc_ports_active ctrl')) \<and> unat (sd_total_ports drv') \<le> 32"
        using Cons.IH [of ?c1 ?d s1] Cons.prems(3-5) i a(2) ne by (simp add: bit_ports_exp [OF i(1,2)] ok)
      then show ?thesis by auto
    next
      case fail: False
      have "port_loop env is ?c drv s1 = Some (ctrl', drv', s')" using Cons.prems(1) False ip fail by simp
      then show ?thesis using Cons.IH [of ?c drv s1] Cons.prems(3-6) c i by simp
    qed
  qed
qed

definition brought_up :: "bool \<Rightarrow> sata_controller_t \<Rightarrow> sata_driver_t \<Rightarrow> sata_driver_t \<Rightarrow> bool" where
  "brought_up ok ctrl drv drv' \<longleftrightarrow> length (sc_ports ctrl) = 32 \<and> unat (sd_total_ports drv') \<le> 32 \<and> sd_controllers drv' = sd_controllers drv \<and> sd_initialized drv' = sd_initialized drv \<and>
     (if ok then sc_initialized ctrl \<and> ctrl_ok ctrl \<and> sd_controller_count drv' = sd_controller_count drv + 1 \<and>
        unat (sd_total_ports drv') = unat (sd_total_ports drv) + length (bit_ports (sc_ports_active ctrl))
      else sd_controller_count drv' = sd_controller_count drv \<and> sd_total_ports drv' = sd_total_ports drv)"

lemma bring_up_ok:
  assumes "bring_up env abar n ctrl drv s = Some (ok, ctrl', drv', s')" and "length (sc_ports ctrl) = 32" and "unat (sd_total_ports drv) \<le> 32"
  shows "brought_up ok ctrl' drv drv'"
proof -
  have e: "bit_ports 0 = []" by (simp add: bit_ports_def)
  have l: "ctrl_ok c' \<and> (\<exists>t. d' = drv\<lparr>sd_total_ports := t\<rparr>) \<and> unat (sd_total_ports d') = unat (sd_total_ports drv) + length (bit_ports (sc_ports_active c')) \<and> unat (sd_total_ports d') \<le> 32"
    if "port_loop env [0..<32] c drv s1 = Some (c', d', s2)" "sc_ports_active c = 0" "length (sc_ports c) = 32" for c s1 c' d' s2
    by (rule port_loop_ok [OF that(1)]) (use that assms(3) in \<open>auto simp: ctrl_ok_def e\<close>)
  show ?thesis using assms
    by (auto simp: bring_up_def Let_def split_beta bind_eq_Some_conv brought_up_def ctrl_ok_def e word_unat_eq_iff [symmetric] split: if_splits dest!: l)
qed

lemma start_controller_ok:
  assumes "start_controller env d ctrl drv s = Some (ok, ctrl', drv', s')" and "length (sc_ports ctrl) = 32" and "unat (sd_total_ports drv) \<le> 32"
  shows "brought_up ok ctrl' drv drv'"
  using assms by (auto simp: start_controller_def Let_def split_beta split: if_split_asm dest!: bring_up_ok) (auto simp: brought_up_def)

lemma used_cong:
  assumes "sd_controller_count drv' = sd_controller_count drv"
    and "\<And>c. c < unat (sd_controller_count drv) \<Longrightarrow> sc_ports_active (sd_controllers drv' ! c) = sc_ports_active (sd_controllers drv ! c)"
  shows "used drv' = used drv"
  unfolding used_def assms(1) by (intro arg_cong [of _ _ sum_list] map_cong refl) (simp add: assms(2))

lemma init_controller_ok:
  assumes "init_controller env d drv s = Some (ok, drv', s')" and "drv_ok drv"
  shows "drv_ok drv' \<and> sd_initialized drv' = sd_initialized drv"
proof (cases "4 \<le> unat (sd_controller_count drv)")
  case True
  then show ?thesis using assms by (simp add: init_controller_def SATA_MAX_CONTROLLERS_def)
next
  case False
  let ?n = "unat (sd_controller_count drv)"
  note d = assms(2) [unfolded drv_ok_def]
  obtain ctrl drv1 where st: "start_controller env d (sd_controllers drv ! ?n) drv s = Some (ok, ctrl, drv1, s')"
      and d': "drv' = drv1\<lparr>sd_controllers := (sd_controllers drv1)[?n := ctrl]\<rparr>"
    using assms(1) False by (auto simp: init_controller_def SATA_MAX_CONTROLLERS_def Let_def bind_eq_Some_conv)
  have b: "brought_up ok ctrl drv drv1" by (rule start_controller_ok [OF st]) (use d False in auto)
  have g: "sd_controllers drv' ! c = (if c = ?n then ctrl else sd_controllers drv ! c)" for c
    using b d d' False by (simp add: brought_up_def nth_list_update)
  have len: "length (sd_controllers drv') = 4" "\<forall>c < 4. length (sc_ports (sd_controllers drv' ! c)) = 32"
    using b d d' unfolding g by (auto simp: brought_up_def)
  have "drv_ok drv'"
  proof (cases ok)
    case True
    then have c: "unat (sd_controller_count drv') = Suc ?n" using b d' False by (simp add: brought_up_def unat_word_ariths)
    have "used drv' = used drv + length (bit_ports (sc_ports_active ctrl))"
    proof -
      have "map (\<lambda>c. length (bit_ports (sc_ports_active (sd_controllers drv' ! c)))) [0..<?n] = map (\<lambda>c. length (bit_ports (sc_ports_active (sd_controllers drv ! c)))) [0..<?n]"
        by (rule map_cong) (simp_all add: g)
      then show ?thesis unfolding used_def c by (simp del: map_eq_conv add: g [of ?n])
    qed
    then show ?thesis using b d d' True len False unfolding drv_ok_def c by (auto simp: brought_up_def g less_Suc_eq)
  next
    case f: False
    then have c: "sd_controller_count drv' = sd_controller_count drv" "sd_total_ports drv' = sd_total_ports drv" using b d' by (simp_all add: brought_up_def)
    have "used drv' = used drv" by (rule used_cong [OF c(1)]) (simp add: g)
    then show ?thesis using d len unfolding drv_ok_def c by (simp add: g)
  qed
  then show ?thesis using b d' by (simp add: brought_up_def)
qed

lemma controllers_loop_ok: "controllers_loop env ds n drv s = Some (k, drv', s') \<Longrightarrow> drv_ok drv \<Longrightarrow> drv_ok drv' \<and> sd_initialized drv' = sd_initialized drv"
proof (induction ds arbitrary: n drv s)
  case (Cons d ds)
  obtain ok drv1 s1 where i: "init_controller env d drv s = Some (ok, drv1, s1)" "controllers_loop env ds (if ok then Suc n else n) drv1 s1 = Some (k, drv', s')"
    using Cons.prems(1) by (auto simp: bind_eq_Some_conv)
  then show ?case using init_controller_ok [OF i(1) Cons.prems(2)] Cons.IH [OF i(2)] by simp
qed simp

lemma zero_driver_ok: "drv_ok zero_driver"
  by (simp add: drv_ok_def zero_driver_def used_def SATA_MAX_CONTROLLERS_def)

lemma active_ports_used:
  assumes "drv_ok drv"
  shows "length (active_ports drv) = used drv" and "\<forall>(c, j) \<in> set (active_ports drv). sp_status (the_port drv (c, j)) = SATA_PORT_STATUS_ACTIVE"
proof -
  have a: "active_ports drv = concat (map (\<lambda>c. map (Pair c) (bit_ports (sc_ports_active (sd_controllers drv ! c)))) [0..<unat (sd_controller_count drv)])"
    unfolding active_ports_bits using assms by (intro arg_cong [of _ _ concat] map_cong refl) (simp add: drv_ok_def)
  show "length (active_ports drv) = used drv" unfolding a used_def by (simp add: length_concat comp_def)
  show "\<forall>(c, j) \<in> set (active_ports drv). sp_status (the_port drv (c, j)) = SATA_PORT_STATUS_ACTIVE"
    using assms unfolding a by (auto simp: drv_ok_def ctrl_ok_def the_port_def)
qed

lemma usable_ports:
  assumes "drv_ok drv" and "sd_initialized drv" and "k < sd_total_ports drv"
  shows "\<exists>c j. usable_port drv k = Some (c, j) \<and> c < 4 \<and> j < 32"
proof -
  have l: "unat k < length (active_ports drv)" using assms(1,3) active_ports_used(1) [OF assms(1)] by (simp add: drv_ok_def word_less_nat_alt)
  obtain c j where cj: "active_ports drv ! unat k = (c, j)" by fastforce
  then have m: "(c, j) \<in> set (active_ports drv)" using l nth_mem by metis
  then have "sp_status (the_port drv (c, j)) = SATA_PORT_STATUS_ACTIVE" using active_ports_used(2) [OF assms(1)] by auto
  moreover have "c < 4" "j < 32" using m assms(1) by (auto simp: active_ports_bits drv_ok_def bit_ports_def split: if_splits)
  ultimately show ?thesis using assms(2,3) l cj by (simp add: usable_port_def find_port_def not_le)
qed

text \<open>
  C28. After the initialisation, whatever controllers and disks answer: at most four controllers and 32 ports are in use, the number of ports that \<open>sata_get_port_count\<close> reports
  is the number of active ports of initialised controllers, and when the initialisation succeeds, every number below it leads to an active port.
\<close>

theorem sata_init_ports:
  "pred_option (\<lambda>(ok, drv, s'). unat (sd_controller_count drv) \<le> 4 \<and> unat (sata_get_port_count drv) \<le> 32 \<and>
      unat (sata_get_port_count drv) = length (active_ports drv) \<and>
      (if ok then \<forall>k. k < sata_get_port_count drv = (\<exists>c j. usable_port drv k = Some (c, j)) else \<not> sd_initialized drv)) (sata_init env s)"
proof -
  have q: "unat (sd_controller_count drv) \<le> 4 \<and> unat (sata_get_port_count drv) \<le> 32 \<and> unat (sata_get_port_count drv) = length (active_ports drv)"
    if "drv_ok drv" for drv
    using active_ports_used(1) [OF that] that by (simp add: drv_ok_def sata_get_port_count_def)
  have o: "drv_ok (drv\<lparr>sd_initialized := b\<rparr>) = drv_ok drv" for drv b by (simp add: drv_ok_def used_def)
  have f: "drv_ok drv \<and> \<not> sd_initialized drv" if "find_and_init_controllers env zero_driver t = Some (ok, drv, s')" for t ok drv s'
  proof -
    have z: "\<not> sd_initialized zero_driver" by (simp add: zero_driver_def)
    show ?thesis using that zero_driver_ok z
      by (auto simp: find_and_init_controllers_def Let_def bind_eq_Some_conv split: if_splits dest: controllers_loop_ok [OF _ zero_driver_ok])
  qed
  show ?thesis
  proof (cases "find_and_init_controllers env zero_driver (spinlock_init (se_global_lock env) s)")
    case None
    then show ?thesis by (simp add: sata_init_def)
  next
    case (Some r)
    obtain ok drv s' where r: "r = (ok, drv, s')" by (cases r)
    let ?d = "drv\<lparr>sd_initialized := True\<rparr>"
    have d: "drv_ok drv" "\<not> sd_initialized drv" using f [OF Some [unfolded r]] by simp_all
    have "k < sata_get_port_count ?d = (\<exists>c j. usable_port ?d k = Some (c, j))" for k
      using usable_ports [of ?d k] d(1) o [of True drv] by (auto simp: sata_get_port_count_def usable_port_def split: if_splits)
    then show ?thesis using q [OF d(1)] q [of ?d] d o [of True drv] by (simp add: sata_init_def Some r)
  qed
qed

end
