(* ===== verification/Nvme.thy ===== *)
theory Nvme
  imports Mmio Stdio
begin

text \<open>
  The driver for NVMe disks, \<open>src/src/src/core/drivers/nvme.c\<close> and \<open>nvme.h\<close>. The structures of the driver are values that the functions return updated, apart from the
  state of the kernel; the addresses of their locks and strings are parameters. A pointer to one of the two queues of a controller is \<open>Admin_Queue\<close> or \<open>Io_Queue\<close>. What the
  functions find in the completion queues is memory, which changes with the accesses to registers and in sleeps. A division by zero, an access
  outside an array and a loop that does not end are \<open>None\<close>; texts for the log are not modelled.
\<close>

section \<open>Constants and structures\<close>

definition NVME_PCI_CLASS :: u8 where "NVME_PCI_CLASS = 0x01"
definition NVME_PCI_SUBCLASS :: u8 where "NVME_PCI_SUBCLASS = 0x08"
definition NVME_REG_MAP_SIZE :: u64 where "NVME_REG_MAP_SIZE = 0x4000"
definition NVME_REG_CAP :: u32 where "NVME_REG_CAP = 0x0000"
definition NVME_REG_CC :: u32 where "NVME_REG_CC = 0x0014"
definition NVME_REG_CSTS :: u32 where "NVME_REG_CSTS = 0x001C"
definition NVME_REG_AQA :: u32 where "NVME_REG_AQA = 0x0024"
definition NVME_REG_ASQ :: u32 where "NVME_REG_ASQ = 0x0028"
definition NVME_REG_ACQ :: u32 where "NVME_REG_ACQ = 0x0030"
definition NVME_REG_DBS :: u32 where "NVME_REG_DBS = 0x1000"
definition NVME_CC_EN :: u32 where "NVME_CC_EN = 1"
definition NVME_CC_CSS_NVM :: u32 where "NVME_CC_CSS_NVM = 0"
definition NVME_CC_MPS_SHIFT :: nat where "NVME_CC_MPS_SHIFT = 7"
definition NVME_CC_SHN_NORM :: u32 where "NVME_CC_SHN_NORM = 0x4000"
definition NVME_CC_IOSQES_SHIFT :: nat where "NVME_CC_IOSQES_SHIFT = 16"
definition NVME_CC_IOCQES_SHIFT :: nat where "NVME_CC_IOCQES_SHIFT = 20"
definition NVME_CSTS_RDY :: u32 where "NVME_CSTS_RDY = 1"
definition NVME_CSTS_CFS :: u32 where "NVME_CSTS_CFS = 2"
definition NVME_CSTS_SHST_COMP :: u32 where "NVME_CSTS_SHST_COMP = 8"
definition NVME_CMD_ADMIN_IDENTIFY :: u8 where "NVME_CMD_ADMIN_IDENTIFY = 0x06"
definition NVME_CMD_IO_FLUSH :: u8 where "NVME_CMD_IO_FLUSH = 0x00"
definition NVME_CMD_IO_WRITE :: u8 where "NVME_CMD_IO_WRITE = 0x01"
definition NVME_CMD_IO_READ :: u8 where "NVME_CMD_IO_READ = 0x02"
definition NVME_IDENTIFY_CNS_CONTROLLER :: u32 where "NVME_IDENTIFY_CNS_CONTROLLER = 0x01"
definition NVME_MAX_DEVICES :: nat where "NVME_MAX_DEVICES = 8"
definition NVME_MAX_NAMESPACES :: nat where "NVME_MAX_NAMESPACES = 16"
definition NVME_CMD_RING_SIZE :: u16 where "NVME_CMD_RING_SIZE = 256"

record nvme_command_t =
  nc_opcode :: u8
  nc_flags :: u8
  nc_command_id :: u16
  nc_nsid :: u32
  nc_reserved :: u64
  nc_metadata :: u64
  nc_prp1 :: u64
  nc_prp2 :: u64
  nc_cdw10 :: u32
  nc_cdw11 :: u32
  nc_cdw12 :: u32
  nc_cdw13 :: u32
  nc_cdw14 :: u32
  nc_cdw15 :: u32

definition sizeof_command :: u64 where "sizeof_command = 64"

definition zero_command :: nvme_command_t where
  "zero_command = \<lparr>nc_opcode = 0, nc_flags = 0, nc_command_id = 0, nc_nsid = 0, nc_reserved = 0, nc_metadata = 0, nc_prp1 = 0, nc_prp2 = 0,
     nc_cdw10 = 0, nc_cdw11 = 0, nc_cdw12 = 0, nc_cdw13 = 0, nc_cdw14 = 0, nc_cdw15 = 0\<rparr>"

text \<open>The bytes of a command in memory.\<close>

definition put_command :: "u64 \<Rightarrow> nvme_command_t \<Rightarrow> mem \<Rightarrow> mem" where
  "put_command a c m =
     st32 (a + 60) (nc_cdw15 c) (st32 (a + 56) (nc_cdw14 c) (st32 (a + 52) (nc_cdw13 c) (st32 (a + 48) (nc_cdw12 c) (st32 (a + 44) (nc_cdw11 c) (st32 (a + 40) (nc_cdw10 c)
       (st64 (a + 32) (nc_prp2 c) (st64 (a + 24) (nc_prp1 c) (st64 (a + 16) (nc_metadata c) (st64 (a + 8) (nc_reserved c) (st32 (a + 4) (nc_nsid c)
         (st16 (a + 2) (nc_command_id c) (m(a := nc_opcode c, a + 1 := nc_flags c)))))))))))))"

record nvme_completion_t =
  cq_result :: u32
  cq_sq_head :: u16
  cq_sq_id :: u16
  cq_command_id :: u16
  cq_status :: u16

definition sizeof_completion :: u64 where "sizeof_completion = 16"

definition completion_at :: "mem \<Rightarrow> u64 \<Rightarrow> nat \<Rightarrow> nvme_completion_t" where
  "completion_at m cq i =
     (let a = cq + sizeof_completion * of_nat i
      in \<lparr>cq_result = le32 m a, cq_sq_head = le16 m (a + 8), cq_sq_id = le16 m (a + 10), cq_command_id = le16 m (a + 12), cq_status = le16 m (a + 14)\<rparr>)"

text \<open>The status code of a completion, and whether its entry is in the round of the queue that \<open>phase\<close> stands for.\<close>

definition status_code :: "nvme_completion_t \<Rightarrow> u16" where
  "status_code c = drop_bit 1 (cq_status c) AND 0xFF"

definition in_phase :: "u16 \<Rightarrow> nvme_completion_t \<Rightarrow> bool" where
  "in_phase phase c \<longleftrightarrow> cq_status c AND 1 = phase"

record nvme_queue_t =
  q_sq_addr :: u64
  q_cq_addr :: u64
  q_sq_phys :: u64
  q_cq_phys :: u64
  q_sq_size :: u32
  q_cq_size :: u32
  q_sq_head :: u16
  q_sq_tail :: u16
  q_cq_head :: u16
  q_sq_id :: u16
  q_cq_id :: u16
  q_phase :: u16

record nvme_namespace_t =
  ns_id :: u32
  ns_size :: u64
  ns_lba_size :: u32

record nvme_controller_t =
  nv_regs_phys :: u64
  nv_regs :: u64
  nv_doorbell_stride :: u32
  nv_db_stride :: u32
  nv_max_transfer_shift :: u32
  nv_max_namespaces :: u32
  nv_acq_size :: u8
  nv_asq_size :: u8
  nv_pci_bus :: u8
  nv_pci_device :: u8
  nv_pci_function :: u8
  nv_vendor_id :: u16
  nv_device_id :: u16
  nv_irq_vector :: u8
  nv_admin_queue :: nvme_queue_t
  nv_io_queue :: nvme_queue_t
  nv_cmd_id :: u16
  nv_active_cmds :: "u16 list"
  nv_cmd_ring_head :: u16
  nv_cmd_ring_tail :: u16
  nv_model_number :: "u8 list"
  nv_serial_number :: "u8 list"
  nv_firmware_rev :: "u8 list"
  nv_use_admin_for_io :: bool
  nv_ns_count :: u32
  nv_namespaces :: "nvme_namespace_t list"
  nv_initialized :: bool

text \<open>The state of the driver, with the static variable of \<open>nvme_write\<close>.\<close>

record nvme_driver_t =
  nd_controllers :: "nvme_controller_t list"
  nd_device_count :: u32
  nd_write_cmd_id :: u16

definition zero_queue :: nvme_queue_t where
  "zero_queue = \<lparr>q_sq_addr = 0, q_cq_addr = 0, q_sq_phys = 0, q_cq_phys = 0, q_sq_size = 0, q_cq_size = 0, q_sq_head = 0, q_sq_tail = 0, q_cq_head = 0,
     q_sq_id = 0, q_cq_id = 0, q_phase = 0\<rparr>"

definition zero_controller :: nvme_controller_t where
  "zero_controller = \<lparr>nv_regs_phys = 0, nv_regs = 0, nv_doorbell_stride = 0, nv_db_stride = 0, nv_max_transfer_shift = 0, nv_max_namespaces = 0, nv_acq_size = 0,
     nv_asq_size = 0, nv_pci_bus = 0, nv_pci_device = 0, nv_pci_function = 0, nv_vendor_id = 0, nv_device_id = 0, nv_irq_vector = 0, nv_admin_queue = zero_queue,
     nv_io_queue = zero_queue, nv_cmd_id = 0, nv_active_cmds = replicate 256 0, nv_cmd_ring_head = 0, nv_cmd_ring_tail = 0, nv_model_number = replicate 41 0,
     nv_serial_number = replicate 21 0, nv_firmware_rev = replicate 9 0, nv_use_admin_for_io = False, nv_ns_count = 0,
     nv_namespaces = replicate NVME_MAX_NAMESPACES \<lparr>ns_id = 0, ns_size = 0, ns_lba_size = 0\<rparr>, nv_initialized = False\<rparr>"

text \<open>The addresses of the locks and strings of the driver.\<close>

datatype queue_ref = Admin_Queue | Io_Queue

record 's nvme_env = "'s mmio_env" +
  ne_global_lock :: u64
  ne_controller_lock :: "nat \<Rightarrow> u64"
  ne_queue_lock :: "nat \<Rightarrow> queue_ref \<Rightarrow> u64"
  ne_strings :: "nat \<Rightarrow> u64 \<times> u64 \<times> u64"

definition queue_of :: "queue_ref \<Rightarrow> nvme_controller_t \<Rightarrow> nvme_queue_t" where
  "queue_of r c = (case r of Admin_Queue \<Rightarrow> nv_admin_queue c | Io_Queue \<Rightarrow> nv_io_queue c)"

definition set_queue :: "queue_ref \<Rightarrow> nvme_queue_t \<Rightarrow> nvme_controller_t \<Rightarrow> nvme_controller_t" where
  "set_queue r q c = (case r of Admin_Queue \<Rightarrow> c\<lparr>nv_admin_queue := q\<rparr> | Io_Queue \<Rightarrow> c\<lparr>nv_io_queue := q\<rparr>)"

section \<open>Registers and buffers\<close>

definition nvme_read_reg32 :: "'a mmio_state_scheme nvme_env \<Rightarrow> nvme_controller_t \<Rightarrow> u32 \<Rightarrow> 'a mmio_state_scheme \<Rightarrow> u32 \<times> 'a mmio_state_scheme" where
  "nvme_read_reg32 env c offset s = rd32 env (nv_regs c + ucast offset) s"

definition nvme_read_reg64 :: "'a mmio_state_scheme nvme_env \<Rightarrow> nvme_controller_t \<Rightarrow> u32 \<Rightarrow> 'a mmio_state_scheme \<Rightarrow> u64 \<times> 'a mmio_state_scheme" where
  "nvme_read_reg64 env c offset s = rd64 env (nv_regs c + ucast offset) s"

definition nvme_write_reg32 :: "'a mmio_state_scheme nvme_env \<Rightarrow> nvme_controller_t \<Rightarrow> u32 \<Rightarrow> u32 \<Rightarrow> 'a mmio_state_scheme \<Rightarrow> 'a mmio_state_scheme" where
  "nvme_write_reg32 env c offset v s = wr32 env (nv_regs c + ucast offset) v s"

definition nvme_write_reg64 :: "'a mmio_state_scheme nvme_env \<Rightarrow> nvme_controller_t \<Rightarrow> u32 \<Rightarrow> u64 \<Rightarrow> 'a mmio_state_scheme \<Rightarrow> 'a mmio_state_scheme" where
  "nvme_write_reg64 env c offset v s = wr64 env (nv_regs c + ucast offset) v s"

text \<open>The offset of the doorbell of a queue.\<close>

definition db_offset :: "nvme_controller_t \<Rightarrow> u16 \<Rightarrow> bool \<Rightarrow> u32" where
  "db_offset c queue_id is_cq = NVME_REG_DBS + ucast queue_id * 2 * nv_db_stride c + (if is_cq then nv_db_stride c else 0)"

definition nvme_ring_doorbell :: "'a mmio_state_scheme nvme_env \<Rightarrow> nvme_controller_t \<Rightarrow> u16 \<Rightarrow> bool \<Rightarrow> u16 \<Rightarrow> 'a mmio_state_scheme \<Rightarrow> 'a mmio_state_scheme" where
  "nvme_ring_doorbell env c queue_id is_cq v s = nvme_write_reg32 env c (db_offset c queue_id is_cq) (ucast v) s"

text \<open>The two functions have the text of \<open>alloc_dma_buffer\<close> and \<open>free_dma_buffer\<close> of \<open>sata.c\<close>, with \<open>PAGE_SIZE_4K\<close> for 4096.\<close>

definition nvme_alloc_dma :: "u64 \<Rightarrow> 'a mmio_state_scheme \<Rightarrow> (u64 \<times> u64) \<times> 'a mmio_state_scheme" where
  "nvme_alloc_dma n s = alloc_dma_buffer n s"

definition nvme_free_dma :: "u64 \<Rightarrow> u64 \<Rightarrow> 'a mmio_state_scheme \<Rightarrow> 'a mmio_state_scheme" where
  "nvme_free_dma virt_addr n s = free_dma_buffer virt_addr n s"

text \<open>
  The loops that poll the status register: until \<open>stop\<close> holds of the value read, or \<open>running\<close> does not hold of the time any more; the result is the last value read,
  \<open>csts\<close> when there was none.
\<close>

partial_function (option) csts_loop :: "'a mmio_state_scheme nvme_env \<Rightarrow> nvme_controller_t \<Rightarrow> (u32 \<Rightarrow> bool) \<Rightarrow> u32 \<Rightarrow> (u64 \<Rightarrow> bool) \<Rightarrow> u32 \<Rightarrow> 'a mmio_state_scheme \<Rightarrow>
    (u32 \<times> 'a mmio_state_scheme) option" where
  "csts_loop env c stop ms running csts s =
     (if running (timer_get_uptime_ms s)
      then let (v, s1) = nvme_read_reg32 env c NVME_REG_CSTS s
           in if stop v then Some (v, s1) else Option.bind (sleep_ms env ms s1) (csts_loop env c stop ms running v)
      else Some (csts, s))"

text \<open>
  The loops over the entries of a completion queue, with a counter of 16 bits: the first entry with the property, if there is one. With more entries than the
  counter can count and none of them right the loop does not end.
\<close>

definition scan_cq :: "(nat \<Rightarrow> bool) \<Rightarrow> u32 \<Rightarrow> nat option option" where
  "scan_cq P n =
     (case find_slot P [0..<min (unat n) 65536] of
        Some i \<Rightarrow> Some (Some i)
      | None \<Rightarrow> if unat n < 65536 then Some None else None)"

section \<open>Commands and completions\<close>

definition nvme_get_next_cmd_id :: "nvme_controller_t \<Rightarrow> u16 \<times> nvme_controller_t" where
  "nvme_get_next_cmd_id c =
     (let cmd_id = nv_cmd_id c; next_id = (if cmd_id + 1 = 0 then 1 else cmd_id + 1)
      in (cmd_id, c\<lparr>nv_cmd_id := next_id, nv_active_cmds := (nv_active_cmds c)[unat (nv_cmd_ring_tail c) := cmd_id],
                   nv_cmd_ring_tail := (nv_cmd_ring_tail c + 1) mod NVME_CMD_RING_SIZE\<rparr>))"

text \<open>The place after \<open>i\<close> in a ring of \<open>n\<close> entries; the sum is taken in 32 bits.\<close>

definition ring_next :: "u16 \<Rightarrow> u32 \<Rightarrow> u16" where
  "ring_next i n = ucast ((ucast i + 1) mod n)"

definition sq_entry :: "nvme_queue_t \<Rightarrow> u64" where
  "sq_entry q = q_sq_addr q + sizeof_command * ucast (q_sq_tail q)"

text \<open>The step of a completion queue: the head moves on, and where it starts again at 0 the phase changes.\<close>

definition set_cq_head :: "u16 \<Rightarrow> nvme_queue_t \<Rightarrow> nvme_queue_t" where
  "set_cq_head h q = q\<lparr>q_cq_head := h, q_phase := (if h = 0 then (if q_phase q = 0 then 1 else 0) else q_phase q)\<rparr>"

definition nvme_submit_cmd :: "'a mmio_state_scheme nvme_env \<Rightarrow> nat \<Rightarrow> queue_ref \<Rightarrow> nvme_command_t \<Rightarrow> nvme_controller_t \<Rightarrow> 'a mmio_state_scheme \<Rightarrow>
    (u16 \<times> nvme_controller_t \<times> 'a mmio_state_scheme) option" where
  "nvme_submit_cmd env idx r cmd c s = do {
     s1 \<leftarrow> lock env (ne_queue_lock env idx r) s;
     let (next_id, c1) = nvme_get_next_cmd_id c;
     let cmd_id = (if next_id = 0 then 1 else next_id);
     let q = queue_of r c1;
     let s2 = store (put_command (sq_entry q) (cmd\<lparr>nc_command_id := cmd_id\<rparr>)) s1;
     if q_sq_size q = 0 then None
     else do {
       let new_tail = ring_next (q_sq_tail q) (q_sq_size q);
       let c2 = set_queue r (q\<lparr>q_sq_tail := new_tail\<rparr>) c1;
       s3 \<leftarrow> sleep_ms env 1 (nvme_ring_doorbell env c2 (q_sq_id q) False new_tail s2);
       Some (cmd_id, c2, spinlock_release (ne_queue_lock env idx r) s3) } }"

text \<open>The loop of \<open>nvme_process_completions\<close>, on the memory of the queue; \<open>processed\<close> has 16 bits.\<close>

partial_function (option) process_loop :: "mem \<Rightarrow> u16 \<Rightarrow> nvme_queue_t \<Rightarrow> (u16 \<times> nvme_queue_t) option" where
  "process_loop m processed q =
     (let e = completion_at m (q_cq_addr q) (unat (q_cq_head q))
      in if in_phase (q_phase q) e \<and> ucast processed < q_cq_size q
         then process_loop m (processed + 1) (set_cq_head (ring_next (q_cq_head q) (q_cq_size q)) (q\<lparr>q_sq_head := cq_sq_head e\<rparr>))
         else Some (processed, q))"

definition nvme_process_completions :: "'a mmio_state_scheme nvme_env \<Rightarrow> nat \<Rightarrow> queue_ref \<Rightarrow> nvme_controller_t \<Rightarrow> 'a mmio_state_scheme \<Rightarrow>
    (nvme_controller_t \<times> 'a mmio_state_scheme) option" where
  "nvme_process_completions env idx r c s = do {
     s1 \<leftarrow> lock env (ne_queue_lock env idx r) s;
     (processed, q) \<leftarrow> process_loop (kmem s1) 0 (queue_of r c);
     let c1 = set_queue r q c;
     let s2 = (if 0 < processed then nvme_ring_doorbell env c1 (q_cq_id q) True (q_cq_head q) s1 else s1);
     Some (c1, spinlock_release (ne_queue_lock env idx r) s2) }"

text \<open>One look at all entries from the head on; the completion of the command, if it is there.\<close>

definition nvme_wait_for_completion :: "'a mmio_state_scheme nvme_env \<Rightarrow> nat \<Rightarrow> queue_ref \<Rightarrow> nvme_controller_t \<Rightarrow> u16 \<Rightarrow> 'a mmio_state_scheme \<Rightarrow>
    (nvme_completion_t option \<times> 'a mmio_state_scheme) option" where
  "nvme_wait_for_completion env idx r c cmd_id s = do {
     s1 \<leftarrow> lock env (ne_queue_lock env idx r) s;
     let q = queue_of r c;
     let entry = (\<lambda>i. completion_at (kmem s1) (q_cq_addr q) (unat (ucast ((ucast (q_cq_head q) + of_nat i) mod q_cq_size q) :: u16)));
     found \<leftarrow> scan_cq (\<lambda>i. cq_command_id (entry i) = cmd_id \<and> in_phase (q_phase q) (entry i)) (q_cq_size q);
     Some (map_option entry found, spinlock_release (ne_queue_lock env idx r) s1) }"

section \<open>Identification\<close>

text \<open>A string field of the identification data and its terminator; \<open>trim\<close> is the loop that removes trailing spaces, from the end on.\<close>

definition string_field :: "(u8 list \<Rightarrow> u8 list) \<Rightarrow> mem \<Rightarrow> u64 \<Rightarrow> nat \<Rightarrow> u8 list" where
  "string_field trim m a n = rev (trim (rev (map (\<lambda>i. m (a + of_nat i)) [0..<n]))) @ [0]"

fun trim_blanks :: "u8 list \<Rightarrow> u8 list" where
  "trim_blanks [] = []"
| "trim_blanks (c # cs) = (if c = 0x20 then 0 # trim_blanks cs else c # cs)"

definition identify_strings :: "(u8 list \<Rightarrow> u8 list) \<Rightarrow> mem \<Rightarrow> u64 \<Rightarrow> nvme_controller_t \<Rightarrow> nvme_controller_t" where
  "identify_strings trim m a c =
     c\<lparr>nv_max_namespaces := le32 m (a + 115), nv_model_number := string_field trim m (a + 24) 40, nv_serial_number := string_field trim m (a + 4) 20,
       nv_firmware_rev := string_field trim m (a + 64) 8\<rparr>"

text \<open>The attempts of \<open>nvme_identify_controller\<close>; \<open>n\<close> are the attempts left of 100. After every tenth the status register is read for a message.\<close>

primrec retry_loop :: "'a mmio_state_scheme nvme_env \<Rightarrow> nat \<Rightarrow> u16 \<Rightarrow> nat \<Rightarrow> nvme_controller_t \<Rightarrow> 'a mmio_state_scheme \<Rightarrow>
    (nvme_completion_t option \<times> nvme_controller_t \<times> 'a mmio_state_scheme) option" where
  "retry_loop env idx cmd_id 0 c s = Some (None, c, s)"
| "retry_loop env idx cmd_id (Suc n) c s = do {
     (c1, s1) \<leftarrow> nvme_process_completions env idx Admin_Queue c s;
     (found, s2) \<leftarrow> nvme_wait_for_completion env idx Admin_Queue c1 cmd_id s1;
     case found of
       Some cpl \<Rightarrow> Some (Some cpl, c1, s2)
     | None \<Rightarrow> do {
         s3 \<leftarrow> sleep_ms env 50 s2;
         retry_loop env idx cmd_id n c1 (if (100 - n) mod 10 = 0 then snd (nvme_read_reg32 env c1 NVME_REG_CSTS s3) else s3) } }"

definition nvme_identify_controller :: "'a mmio_state_scheme nvme_env \<Rightarrow> nat \<Rightarrow> nvme_controller_t \<Rightarrow> 'a mmio_state_scheme \<Rightarrow>
    (bool \<times> nvme_controller_t \<times> 'a mmio_state_scheme) option" where
  "nvme_identify_controller env idx c s =
     (let ((id_data, id_data_phys), s1) = nvme_alloc_dma 4096 s
      in if id_data = 0 then Some (False, c, s1)
         else do {
           let s2 = store (fill_block id_data 0 4096) s1;
           let cmd = zero_command\<lparr>nc_opcode := NVME_CMD_ADMIN_IDENTIFY, nc_prp1 := id_data_phys, nc_cdw10 := NVME_IDENTIFY_CNS_CONTROLLER\<rparr>;
           (cmd_id, c1, s3) \<leftarrow> nvme_submit_cmd env idx Admin_Queue cmd c s2;
           if cmd_id = 0xFFFF then Some (False, c1, nvme_free_dma id_data 4096 s3)
           else do {
             (answer, c2, s4) \<leftarrow> retry_loop env idx cmd_id 100 c1 s3;
             let q = nv_admin_queue c2;
             let entry = completion_at (kmem s4) (q_cq_addr q);
             found \<leftarrow> (case answer of Some cpl \<Rightarrow> Some (Some cpl)
                       | None \<Rightarrow> map_option (map_option entry) (scan_cq (\<lambda>i. cq_command_id (entry i) = cmd_id) (q_cq_size q)));
             (case found of
                None \<Rightarrow> Some (False, c2, nvme_free_dma id_data 4096 s4)
              | Some cpl \<Rightarrow>
                  if status_code cpl \<noteq> 0 then Some (False, c2, nvme_free_dma id_data 4096 s4)
                  else Some (True, identify_strings trim_spaces (kmem s4) id_data c2, nvme_free_dma id_data 4096 s4)) } })"

text \<open>A new entry of the table of namespaces.\<close>

definition add_namespace :: "u32 \<Rightarrow> u64 \<Rightarrow> u32 \<Rightarrow> nvme_controller_t \<Rightarrow> nvme_controller_t option" where
  "add_namespace nsid n lba_size c =
     (if NVME_MAX_NAMESPACES \<le> unat (nv_ns_count c) then None
      else Some (c\<lparr>nv_namespaces := (nv_namespaces c)[unat (nv_ns_count c) := \<lparr>ns_id = nsid, ns_size = n, ns_lba_size = lba_size\<rparr>], nv_ns_count := nv_ns_count c + 1\<rparr>))"

text \<open>The wait for the completion of the command 10 in the admin queue: its entry, if it came in time and was a success.\<close>

partial_function (option) namespace_loop :: "'a mmio_state_scheme nvme_env \<Rightarrow> nvme_queue_t \<Rightarrow> u64 \<Rightarrow> 'a mmio_state_scheme \<Rightarrow> (nat option \<times> 'a mmio_state_scheme) option" where
  "namespace_loop env q timeout s =
     (if timer_get_uptime_ms s < timeout
      then Option.bind (scan_cq (\<lambda>i. in_phase (q_phase q) (completion_at (kmem s) (q_cq_addr q) i) \<and> cq_command_id (completion_at (kmem s) (q_cq_addr q) i) = 10) (q_cq_size q))
             (\<lambda>found. case found of
                Some i \<Rightarrow> Some (if status_code (completion_at (kmem s) (q_cq_addr q) i) = 0 then Some i else None, s)
              | None \<Rightarrow> Option.bind (sleep_ms env 10 s) (namespace_loop env q timeout))
      else Some (None, s))"

text \<open>The size of a block: one shifted by the byte in the entry of the format in use; the processor takes the count modulo 32.\<close>

definition namespace_block_size :: "mem \<Rightarrow> u64 \<Rightarrow> u32" where
  "namespace_block_size m a =
     (let format = unat (m (a + 26) AND 0xF); lbads = m (a + 128 + 4 * of_nat format + 2) in push_bit (unat lbads mod 32) 1)"

definition nvme_identify_namespace :: "'a mmio_state_scheme nvme_env \<Rightarrow> nvme_controller_t \<Rightarrow> u32 \<Rightarrow> 'a mmio_state_scheme \<Rightarrow>
    (bool \<times> nvme_controller_t \<times> 'a mmio_state_scheme) option" where
  "nvme_identify_namespace env c nsid s =
     (let ((data_virt, data_phys), s1) = nvme_alloc_dma 4096 s; q = nv_admin_queue c
      in if data_virt = 0 then Some (False, c, s1)
         else if q_sq_size q = 0 then None
         else do {
           let cmd = zero_command\<lparr>nc_opcode := 0x06, nc_nsid := nsid, nc_prp1 := data_phys, nc_command_id := 10\<rparr>;
           let s2 = store (\<lambda>m. put_command (sq_entry q) cmd (fill_block data_virt 0 4096 m)) s1;
           let tail = ring_next (q_sq_tail q) (q_sq_size q);
           let c1 = c\<lparr>nv_admin_queue := q\<lparr>q_sq_tail := tail\<rparr>\<rparr>;
           let s3 = nvme_write_reg32 env c1 NVME_REG_DBS (ucast tail) s2;
           (found, s4) \<leftarrow> namespace_loop env (nv_admin_queue c1) (timer_get_uptime_ms s3 + 3000) s3;
           case found of
             Some i \<Rightarrow> do {
               c2 \<leftarrow> add_namespace nsid (le64 (kmem s4) data_virt) (namespace_block_size (kmem s4) data_virt) c1;
               let q2 = set_cq_head (ring_next (of_nat i) (q_cq_size q)) (nv_admin_queue c2);
               let s5 = nvme_write_reg32 env c2 (NVME_REG_DBS + 4) (ucast (q_cq_head q2)) s4;
               Some (True, c2\<lparr>nv_admin_queue := q2\<rparr>, nvme_free_dma data_virt 4096 s5) }
           | None \<Rightarrow> do {
               c2 \<leftarrow> add_namespace nsid 1048576 512 c1;
               Some (True, c2, nvme_free_dma data_virt 4096 s4) } })"

section \<open>Controller set-up\<close>

text \<open>The two admin queues of a reset: both are allocated, and where one of them cannot be, the other is released again.\<close>

definition alloc_pair :: "u64 \<Rightarrow> u64 \<Rightarrow> 'a mmio_state_scheme \<Rightarrow> ((u64 \<times> u64) \<times> (u64 \<times> u64)) option \<times> 'a mmio_state_scheme" where
  "alloc_pair n1 n2 s =
     (let (a, s1) = nvme_alloc_dma n1 s; (b, s2) = nvme_alloc_dma n2 s1
      in if fst a = 0 \<or> fst b = 0
         then (None, let s3 = (if fst a \<noteq> 0 then nvme_free_dma (fst a) n1 s2 else s2) in if fst b \<noteq> 0 then nvme_free_dma (fst b) n2 s3 else s3)
         else (Some (a, b), store (\<lambda>m. fill_block (fst b) 0 (unat n2) (fill_block (fst a) 0 (unat n1) m)) s2))"

text \<open>The sizes of the entries of the queues, the command set and the page size in the configuration register.\<close>

definition cc_config :: u32 where
  "cc_config = push_bit NVME_CC_IOCQES_SHIFT 4 OR push_bit NVME_CC_IOSQES_SHIFT 6 OR NVME_CC_CSS_NVM OR push_bit NVME_CC_MPS_SHIFT 0"

definition write_admin_regs :: "'a mmio_state_scheme nvme_env \<Rightarrow> nvme_controller_t \<Rightarrow> u32 \<Rightarrow> u64 \<Rightarrow> u64 \<Rightarrow> 'a mmio_state_scheme \<Rightarrow> 'a mmio_state_scheme" where
  "write_admin_regs env c aqa asq acq s =
     nvme_write_reg64 env c NVME_REG_ACQ acq (nvme_write_reg64 env c NVME_REG_ASQ asq (nvme_write_reg32 env c NVME_REG_AQA aqa s))"

definition nvme_reset_controller :: "'a mmio_state_scheme nvme_env \<Rightarrow> nvme_controller_t \<Rightarrow> 'a mmio_state_scheme \<Rightarrow> (bool \<times> nvme_controller_t \<times> 'a mmio_state_scheme) option" where
  "nvme_reset_controller env c s = do {
     let (cap, s1) = nvme_read_reg64 env c NVME_REG_CAP s;
     let timeout_ms = (ucast (drop_bit 24 cap AND 0xFF) * 500 :: u32);
     let (cc, s2) = nvme_read_reg32 env c NVME_REG_CC s1;
     let (csts, s3) = nvme_read_reg32 env c NVME_REG_CSTS s2;
     let s4 = nvme_write_reg32 env c NVME_REG_CC (cc AND NOT NVME_CC_EN) s3;
     let deadline = timer_get_uptime_ms s4 + ucast timeout_ms;
     (csts1, s5) \<leftarrow> csts_loop env c (\<lambda>v. v AND NVME_CSTS_RDY = 0) 10 (\<lambda>t. t < deadline) csts s4;
     if csts1 AND NVME_CSTS_RDY \<noteq> 0 then Some (False, c, s5)
     else do {
       let c1 = c\<lparr>nv_asq_size := 5, nv_acq_size := 5\<rparr>;
       let (queues, s6) = alloc_pair 4096 4096 s5;
       case queues of
         None \<Rightarrow> Some (False, c1, s6)
       | Some ((asq_virt, asq_phys), (acq_virt, acq_phys)) \<Rightarrow> do {
           let aqa = push_bit 16 (push_bit (unat (nv_acq_size c1)) 1 - 1) OR (push_bit (unat (nv_asq_size c1)) 1 - 1);
           let s7 = nvme_write_reg32 env c1 NVME_REG_CC cc_config (write_admin_regs env c1 aqa asq_phys acq_phys s6);
           s8 \<leftarrow> sleep_ms env 20 s7;
           let s9 = snd (nvme_read_reg64 env c1 NVME_REG_ASQ (snd (nvme_read_reg32 env c1 NVME_REG_AQA s8)));
           let s10 = snd (nvme_read_reg32 env c1 NVME_REG_CC (snd (nvme_read_reg64 env c1 NVME_REG_ACQ s9)));
           let s11 = nvme_write_reg32 env c1 NVME_REG_CC (cc_config OR NVME_CC_EN) s10;
           let deadline2 = timer_get_uptime_ms s11 + ucast timeout_ms;
           (csts2, s12) \<leftarrow> csts_loop env c1 (\<lambda>v. v AND NVME_CSTS_CFS \<noteq> 0 \<or> v AND NVME_CSTS_RDY \<noteq> 0) 100 (\<lambda>t. t < deadline2) csts1 s11;
           Some (csts2 AND NVME_CSTS_RDY \<noteq> 0 \<and> csts2 AND NVME_CSTS_CFS = 0, c1, nvme_free_dma acq_virt 4096 (nvme_free_dma asq_virt 4096 s12)) } } }"

definition nvme_setup_admin_queues :: "'a mmio_state_scheme nvme_env \<Rightarrow> nat \<Rightarrow> nvme_controller_t \<Rightarrow> 'a mmio_state_scheme \<Rightarrow> bool \<times> nvme_controller_t \<times> 'a mmio_state_scheme" where
  "nvme_setup_admin_queues env idx c s =
     (let q = (nv_admin_queue c)\<lparr>q_sq_size := push_bit (unat (nv_asq_size c)) 1, q_cq_size := push_bit (unat (nv_acq_size c)) 1, q_sq_head := 0, q_sq_tail := 0, q_cq_head := 0,
                q_sq_id := 0, q_cq_id := 0, q_phase := 1\<rparr>;
          sq_bytes = ucast (q_sq_size q) * sizeof_command; cq_bytes = ucast (q_cq_size q) * sizeof_completion;
          ((sq, sq_phys), s2) = nvme_alloc_dma sq_bytes (spinlock_init (ne_queue_lock env idx Admin_Queue) s)
      in if sq = 0 then (False, c\<lparr>nv_admin_queue := q\<lparr>q_sq_addr := 0\<rparr>\<rparr>, s2)
         else let ((cq, cq_phys), s3) = nvme_alloc_dma cq_bytes s2; q1 = q\<lparr>q_sq_addr := sq, q_sq_phys := sq_phys\<rparr>
              in if cq = 0 then (False, c\<lparr>nv_admin_queue := q1\<lparr>q_cq_addr := 0\<rparr>\<rparr>, nvme_free_dma sq sq_bytes s3)
                 else let s4 = store (\<lambda>m. fill_block cq 0 (unat cq_bytes) (fill_block sq 0 (unat sq_bytes) m)) s3;
                          c1 = c\<lparr>nv_admin_queue := q1\<lparr>q_cq_addr := cq, q_cq_phys := cq_phys\<rparr>\<rparr>;
                          s5 = write_admin_regs env c1 (push_bit 16 (q_cq_size q - 1) OR (q_sq_size q - 1)) sq_phys cq_phys s4
                      in (True, c1\<lparr>nv_cmd_id := 0, nv_cmd_ring_head := 0, nv_cmd_ring_tail := 0\<rparr>, s5))"

definition nvme_create_io_queues :: "'a mmio_state_scheme nvme_env \<Rightarrow> nat \<Rightarrow> nvme_controller_t \<Rightarrow> 'a mmio_state_scheme \<Rightarrow>
    (bool \<times> nvme_controller_t \<times> 'a mmio_state_scheme) option" where
  "nvme_create_io_queues env idx c s =
     (let q = (nv_io_queue c)\<lparr>q_sq_size := 4, q_cq_size := 4, q_sq_head := 0, q_sq_tail := 0, q_cq_head := 0, q_sq_id := 1, q_cq_id := 1, q_phase := 1\<rparr>;
          ((sq, sq_phys), s2) = nvme_alloc_dma 4096 (spinlock_init (ne_queue_lock env idx Io_Queue) s)
      in if sq = 0 then Some (False, c\<lparr>nv_io_queue := q\<lparr>q_sq_addr := 0\<rparr>\<rparr>, s2)
         else let ((cq, cq_phys), s3) = nvme_alloc_dma 4096 s2; q1 = q\<lparr>q_sq_addr := sq, q_sq_phys := sq_phys\<rparr>
              in if cq = 0 then Some (False, c\<lparr>nv_io_queue := q1\<lparr>q_cq_addr := 0\<rparr>\<rparr>, nvme_free_dma sq 4096 s3)
                 else do {
                   let s4 = store (\<lambda>m. fill_block cq 0 4096 (fill_block sq 0 4096 m)) s3;
                   let c1 = c\<lparr>nv_io_queue := q1\<lparr>q_cq_addr := cq, q_cq_phys := cq_phys\<rparr>, nv_use_admin_for_io := True\<rparr>;
                   (ok, c2, s5) \<leftarrow> nvme_identify_namespace env c1 1 s4;
                   Some (True, if ok then c2\<lparr>nv_namespaces := (nv_namespaces c2)[0 := (nv_namespaces c2 ! 0)\<lparr>ns_id := 1\<rparr>], nv_ns_count := 1\<rparr> else c2, s5) })"

text \<open>The wait of \<open>nvme_simple_identify\<close> for the first entry of the completion queue.\<close>

partial_function (option) first_entry_loop :: "'a mmio_state_scheme nvme_env \<Rightarrow> u64 \<Rightarrow> u64 \<Rightarrow> 'a mmio_state_scheme \<Rightarrow> (bool \<times> 'a mmio_state_scheme) option" where
  "first_entry_loop env cq timeout s =
     (if timer_get_uptime_ms s < timeout
      then if in_phase 1 (completion_at (kmem s) cq 0) then Some (True, s) else Option.bind (sleep_ms env 10 s) (first_entry_loop env cq timeout)
      else Some (False, s))"

text \<open>The fields that \<open>nvme_simple_identify\<close> stores into the first entry of the submission queue.\<close>

definition put_identify :: "u64 \<Rightarrow> u64 \<Rightarrow> mem \<Rightarrow> mem" where
  "put_identify a phys m = st16 (a + 2) 1 (st32 (a + 40) NVME_IDENTIFY_CNS_CONTROLLER (st64 (a + 24) phys (st32 (a + 4) 0 (m(a := NVME_CMD_ADMIN_IDENTIFY)))))"

text \<open>The last part of \<open>nvme_simple_identify\<close>, with the controller ready: the command, its completion and the data.\<close>

definition simple_command :: "'a mmio_state_scheme nvme_env \<Rightarrow> u64 \<Rightarrow> u64 \<Rightarrow> nvme_controller_t \<Rightarrow> 'a mmio_state_scheme \<Rightarrow> (bool \<times> nvme_controller_t \<times> 'a mmio_state_scheme) option" where
  "simple_command env asq_virt acq_virt c s =
     (let ((id_data, id_data_phys), s1) = nvme_alloc_dma 4096 s
      in if id_data = 0 then Some (False, c, s1)
         else do {
           let s2 = nvme_write_reg32 env c NVME_REG_DBS 1 (store (\<lambda>m. put_identify asq_virt id_data_phys (fill_block id_data 0 4096 m)) s1);
           (completed, s3) \<leftarrow> first_entry_loop env acq_virt (timer_get_uptime_ms s2 + 5000) s2;
           if \<not> completed \<or> status_code (completion_at (kmem s3) acq_virt 0) \<noteq> 0 then Some (False, c, nvme_free_dma id_data 4096 s3)
           else do {
             let s4 = nvme_write_reg32 env c (NVME_REG_DBS + 4) 1 s3;
             Some (True, identify_strings trim_blanks (kmem s4) id_data c, nvme_free_dma id_data 4096 s4) } })"

definition nvme_simple_identify :: "'a mmio_state_scheme nvme_env \<Rightarrow> nvme_controller_t \<Rightarrow> 'a mmio_state_scheme \<Rightarrow> (bool \<times> nvme_controller_t \<times> 'a mmio_state_scheme) option" where
  "nvme_simple_identify env c s = do {
     let (cc, s1) = nvme_read_reg32 env c NVME_REG_CC s;
     s2 \<leftarrow> (if cc AND NVME_CC_EN \<noteq> 0
            then let t = nvme_write_reg32 env c NVME_REG_CC (cc AND NOT NVME_CC_EN) s1; deadline = timer_get_uptime_ms t + 5000
                 in map_option snd (csts_loop env c (\<lambda>v. v AND NVME_CSTS_RDY = 0) 100 (\<lambda>u. u < deadline) 0 t)
            else Some s1);
     let (queues, s3) = alloc_pair (64 * sizeof_command) (64 * sizeof_completion) s2;
     case queues of
       None \<Rightarrow> Some (False, c, s3)
     | Some ((asq_virt, asq_phys), (acq_virt, acq_phys)) \<Rightarrow> do {
         let s4 = nvme_write_reg32 env c NVME_REG_CC (cc_config OR NVME_CC_EN) (write_admin_regs env c (push_bit 16 63 OR 63) asq_phys acq_phys s3);
         let deadline = timer_get_uptime_ms s4 + 5000;
         (_, s5) \<leftarrow> csts_loop env c (\<lambda>v. v AND NVME_CSTS_RDY \<noteq> 0) 100 (\<lambda>u. u < deadline) 0 s4;
         let (csts, s6) = nvme_read_reg32 env c NVME_REG_CSTS s5;
         (ok, c1, s7) \<leftarrow> (if csts AND NVME_CSTS_RDY = 0 then Some (False, c, s6) else simple_command env asq_virt acq_virt c s6);
         Some (ok, c1, nvme_free_dma acq_virt (64 * sizeof_completion) (nvme_free_dma asq_virt (64 * sizeof_command) s7)) } }"

text \<open>The last steps of \<open>nvme_init_controller\<close>, for a controller that has been identified.\<close>

definition init_queues :: "'a mmio_state_scheme nvme_env \<Rightarrow> nat \<Rightarrow> nvme_controller_t \<Rightarrow> 'a mmio_state_scheme \<Rightarrow> (nvme_controller_t \<times> 'a mmio_state_scheme) option" where
  "init_queues env idx c s =
     (let (ok, c1, s1) = nvme_setup_admin_queues env idx c s
      in if \<not> ok then Some (c1, s1)
         else do {
           (ok2, c2, s2) \<leftarrow> nvme_create_io_queues env idx c1 s1;
           Some (if ok2 then c2\<lparr>nv_initialized := True\<rparr> else c2, s2) })"

definition nvme_init_controller :: "'a mmio_state_scheme nvme_env \<Rightarrow> nat \<Rightarrow> nvme_controller_t \<Rightarrow> 'a mmio_state_scheme \<Rightarrow> (nvme_controller_t \<times> 'a mmio_state_scheme) option" where
  "nvme_init_controller env idx c s = do {
     let (cap, s1) = nvme_read_reg64 env c NVME_REG_CAP s;
     let stride = push_bit (unat (drop_bit 32 cap AND 0xF)) 4;
     let c1 = c\<lparr>nv_doorbell_stride := stride, nv_max_transfer_shift := ucast ((cap AND 0xF) + 12), nv_db_stride := stride\<rparr>;
     (ok, c2, s2) \<leftarrow> nvme_simple_identify env c1 s1;
     if \<not> ok then Some (c2, s2) else init_queues env idx c2 s2 }"

definition nvme_setup_pci_device :: "'a mmio_state_scheme nvme_env \<Rightarrow> pci_device_t \<Rightarrow> nvme_controller_t \<Rightarrow> 'a mmio_state_scheme \<Rightarrow> bool \<times> nvme_controller_t \<times> 'a mmio_state_scheme" where
  "nvme_setup_pci_device env d c s =
     (let s1 = pci_enable_device (me_dev env) d (pci_dump_device_info (me_dev env) d s);
          (phys, s2) = pci_get_bar_address (me_dev env) d 0 s1; c1 = c\<lparr>nv_regs_phys := phys\<rparr>
      in if phys = 0 then (False, c1, s2)
         else let (n, s3) = pci_get_bar_size (me_dev env) d 0 s2;
                  bar_size = (if ucast n < NVME_REG_MAP_SIZE then NVME_REG_MAP_SIZE else ucast n);
                  (regs, k) = vmm_map_physical phys bar_size (VMM_FLAG_PRESENT OR VMM_FLAG_WRITABLE OR VMM_FLAG_NOCACHE) (kvm s3);
                  s4 = s3\<lparr>kvm := k\<rparr>; c2 = c1\<lparr>nv_regs := regs\<rparr>
              in if regs = 0 then (False, c2, s4)
                 else (True, c2\<lparr>nv_pci_bus := pci_bus d, nv_pci_device := pci_dev d, nv_pci_function := pci_function d, nv_vendor_id := vendor_id d,
                               nv_device_id := device_id d, nv_irq_vector := interrupt_line d\<rparr>, s4))"

fun init_loop :: "'a mmio_state_scheme nvme_env \<Rightarrow> (nat \<times> pci_device_t) list \<Rightarrow> nvme_driver_t \<Rightarrow> 'a mmio_state_scheme \<Rightarrow> (nvme_driver_t \<times> 'a mmio_state_scheme) option" where
  "init_loop env [] drv s = Some (drv, s)"
| "init_loop env ((i, d) # ds) drv s =
     (let (ok, c, s1) = nvme_setup_pci_device env d (nd_controllers drv ! i) s
      in if \<not> ok then init_loop env ds (drv\<lparr>nd_controllers := (nd_controllers drv)[i := c]\<rparr>) s1
         else do {
           (c1, s2) \<leftarrow> nvme_init_controller env i (c\<lparr>nv_initialized := False\<rparr>) (spinlock_init (ne_controller_lock env i) s1);
           init_loop env ds (drv\<lparr>nd_controllers := (nd_controllers drv)[i := c1],
                                nd_device_count := (if nv_initialized c1 then nd_device_count drv + 1 else nd_device_count drv)\<rparr>) s2 })"

text \<open>The static variable of \<open>nvme_write\<close> keeps its value when the driver is initialised again.\<close>

definition nvme_init :: "'a mmio_state_scheme nvme_env \<Rightarrow> nvme_driver_t \<Rightarrow> 'a mmio_state_scheme \<Rightarrow> (bool \<times> nvme_driver_t \<times> 'a mmio_state_scheme) option" where
  "nvme_init env drv0 s = do {
     let drv = drv0\<lparr>nd_controllers := replicate NVME_MAX_DEVICES zero_controller, nd_device_count := 0\<rparr>;
     let s1 = spinlock_init (ne_global_lock env) s;
     let devices = take NVME_MAX_DEVICES (pci_find_devices NVME_PCI_CLASS NVME_PCI_SUBCLASS s1);
     if devices = [] then Some (False, drv, s1)
     else do {
       (drv1, s2) \<leftarrow> init_loop env (enumerate 0 devices) drv s1;
       Some (0 < nd_device_count drv1, drv1, s2) } }"

section \<open>Requests\<close>

text \<open>The place of a namespace in the table of the controller.\<close>

definition find_namespace :: "nvme_controller_t \<Rightarrow> u32 \<Rightarrow> nat option" where
  "find_namespace c namespace_id = find_slot (\<lambda>n. ns_id n = namespace_id) (take (unat (nv_ns_count c)) (nv_namespaces c))"

text \<open>The checks that every request makes first: the controller and the namespace.\<close>

definition usable_namespace :: "nvme_driver_t \<Rightarrow> u32 \<Rightarrow> u32 \<Rightarrow> (nvme_controller_t \<times> nvme_namespace_t) option" where
  "usable_namespace drv dev_id namespace_id =
     (if nd_device_count drv \<le> dev_id then None
      else let c = nd_controllers drv ! unat dev_id
           in if \<not> nv_initialized c then None
              else map_option (\<lambda>i. (c, nv_namespaces c ! i)) (find_namespace c namespace_id))"

definition set_controller :: "u32 \<Rightarrow> nvme_controller_t \<Rightarrow> nvme_driver_t \<Rightarrow> nvme_driver_t" where
  "set_controller dev_id c drv = drv\<lparr>nd_controllers := (nd_controllers drv)[unat dev_id := c]\<rparr>"

text \<open>The commands that transfer \<open>n\<close> blocks.\<close>

definition transfer_command :: "u8 \<Rightarrow> u16 \<Rightarrow> u32 \<Rightarrow> u64 \<Rightarrow> u64 \<Rightarrow> u32 \<Rightarrow> nvme_command_t" where
  "transfer_command opcode cmd_id nsid phys lba n =
     zero_command\<lparr>nc_opcode := opcode, nc_command_id := cmd_id, nc_nsid := nsid, nc_prp1 := phys, nc_cdw10 := ucast lba, nc_cdw11 := ucast (drop_bit 32 lba), nc_cdw12 := n - 1\<rparr>"

text \<open>The wait of \<open>nvme_read\<close>: whether the first entry of the queue became the successful completion of command 1 in time.\<close>

partial_function (option) read_loop :: "'a mmio_state_scheme nvme_env \<Rightarrow> nvme_queue_t \<Rightarrow> u64 \<Rightarrow> 'a mmio_state_scheme \<Rightarrow> (bool \<times> 'a mmio_state_scheme) option" where
  "read_loop env q start_time s =
     (if timer_get_uptime_ms s - start_time < 2000
      then let e = completion_at (kmem s) (q_cq_addr q) 0
           in if in_phase (q_phase q) e \<and> cq_command_id e = 1 then Some (status_code e = 0, s)
              else Option.bind (sleep_ms env 5 s) (read_loop env q start_time)
      else Some (False, s))"

text \<open>The data that \<open>nvme_read\<close> makes up when the disk did not answer.\<close>

definition synthetic_data :: "u64 \<Rightarrow> u64 \<Rightarrow> u32 \<Rightarrow> u32 \<Rightarrow> u32 \<Rightarrow> mem \<Rightarrow> mem" where
  "synthetic_data buf lba sectors nsid n m =
     (let m1 = fold (\<lambda>i m. m(buf + of_nat i := ucast (drop_bit (i * 8) lba AND 0xFF))) [0..<min 8 (unat n)] m;
          m2 = (if 16 \<le> n
                then m1(buf + 8 := ucast (sectors AND 0xFF), buf + 9 := ucast (drop_bit 8 sectors AND 0xFF), buf + 10 := ucast (nsid AND 0xFF),
                        buf + 11 := ucast (drop_bit 8 nsid AND 0xFF), buf + 12 := ucast (drop_bit 16 nsid AND 0xFF), buf + 13 := ucast (drop_bit 24 nsid AND 0xFF),
                        buf + 14 := 0xDD, buf + 15 := 0xEE) else m1);
          m3 = fold (\<lambda>i m. m(buf + of_nat i := ucast ((of_nat i + lba) AND 0xFF))) [16..<unat n] m2
      in if lba = 0 \<and> 512 \<le> n then m3(buf + 510 := 0x55, buf + 511 := 0xAA) else m3)"

definition nvme_read :: "'a mmio_state_scheme nvme_env \<Rightarrow> nvme_driver_t \<Rightarrow> u32 \<Rightarrow> u32 \<Rightarrow> u64 \<Rightarrow> u64 \<Rightarrow> u32 \<Rightarrow> 'a mmio_state_scheme \<Rightarrow>
    (bool \<times> nvme_driver_t \<times> 'a mmio_state_scheme) option" where
  "nvme_read env drv dev_id namespace_id lba buffer sectors s =
     (case usable_namespace drv dev_id namespace_id of
        None \<Rightarrow> Some (False, drv, s)
      | Some (c, ns) \<Rightarrow>
          let n = sectors * ns_lba_size ns; ((dma_buffer, dma_phys), s1) = nvme_alloc_dma (ucast n) s
          in if dma_buffer = 0 then Some (False, drv, s1)
             else do {
               let q0 = nv_admin_queue c;
               let q = q0\<lparr>q_sq_head := 0, q_sq_tail := 1, q_cq_head := 0, q_phase := 1\<rparr>;
               let cmd = transfer_command NVME_CMD_IO_READ 1 namespace_id dma_phys lba sectors;
               let s2 = store (\<lambda>m. put_command (q_sq_addr q) cmd (fill_block (q_cq_addr q) 0 (unat sizeof_completion * unat (q_cq_size q)) (fill_block dma_buffer 0 (unat n) m))) s1;
               let s3 = nvme_write_reg32 env c NVME_REG_DBS 1 s2;
               (completed, s4) \<leftarrow> read_loop env q (timer_get_uptime_ms s3) s3;
               let q1 = (if completed then q\<lparr>q_cq_head := 1\<rparr> else q);
               let s5 = (if completed then nvme_write_reg32 env c (NVME_REG_DBS + 4) 1 (store (\<lambda>m. copy_block buffer m dma_buffer (unat n) m) s4) else s4);
               let s6 = nvme_free_dma dma_buffer (ucast n) s5;
               Some (True, set_controller dev_id (c\<lparr>nv_admin_queue := q1\<rparr>) drv,
                 if completed then s6 else store (synthetic_data buffer lba sectors namespace_id n) s6) })"

text \<open>
  The wait of \<open>nvme_write\<close>: the entry of the successful completion, if it came in time; a completion with an error is looked at again until the time is over.
\<close>

partial_function (option) write_loop :: "'a mmio_state_scheme nvme_env \<Rightarrow> nvme_queue_t \<Rightarrow> u16 \<Rightarrow> u64 \<Rightarrow> 'a mmio_state_scheme \<Rightarrow> (nat option \<times> 'a mmio_state_scheme) option" where
  "write_loop env q cmd_id timeout s =
     (if timer_get_uptime_ms s < timeout
      then Option.bind (scan_cq (\<lambda>i. in_phase (q_phase q) (completion_at (kmem s) (q_cq_addr q) i) \<and> cq_command_id (completion_at (kmem s) (q_cq_addr q) i) = cmd_id) (q_cq_size q))
             (\<lambda>found. case found of
                Some i \<Rightarrow> if status_code (completion_at (kmem s) (q_cq_addr q) i) = 0 then Some (Some i, s)
                          else Option.bind (sleep_ms env 10 s) (write_loop env q cmd_id timeout)
              | None \<Rightarrow> Option.bind (sleep_ms env 10 s) (write_loop env q cmd_id timeout))
      else Some (None, s))"

definition nvme_write :: "'a mmio_state_scheme nvme_env \<Rightarrow> nvme_driver_t \<Rightarrow> u32 \<Rightarrow> u32 \<Rightarrow> u64 \<Rightarrow> u64 \<Rightarrow> u32 \<Rightarrow> 'a mmio_state_scheme \<Rightarrow>
    (bool \<times> nvme_driver_t \<times> 'a mmio_state_scheme) option" where
  "nvme_write env drv dev_id namespace_id lba buffer blocks s =
     (case usable_namespace drv dev_id namespace_id of
        None \<Rightarrow> Some (False, drv, s)
      | Some (c, ns) \<Rightarrow>
          let last_lba = ns_size ns - 1; n = blocks * ns_lba_size ns
          in if last_lba < lba \<or> last_lba < lba + ucast blocks - 1 then Some (False, drv, s)
             else let ((dma_buffer, dma_phys), s1) = nvme_alloc_dma (ucast n) s
                  in if dma_buffer = 0 then Some (False, drv, s1)
                     else do {
                       let s2 = store (\<lambda>m. copy_block dma_buffer m buffer (unat n) m) s1;
                       let r = (if nv_use_admin_for_io c then Admin_Queue else Io_Queue);
                       let q = queue_of r c;
                       let cmd_id = nd_write_cmd_id drv;
                       let drv1 = drv\<lparr>nd_write_cmd_id := (if cmd_id + 1 = 0 then 1 else cmd_id + 1)\<rparr>;
                       let s3 = store (put_command (sq_entry q) (transfer_command NVME_CMD_IO_WRITE cmd_id namespace_id dma_phys lba blocks)) s2;
                       if q_sq_size q = 0 then None
                       else do {
                         let new_tail = ring_next (q_sq_tail q) (q_sq_size q);
                         let q1 = q\<lparr>q_sq_tail := new_tail\<rparr>;
                         let s4 = nvme_write_reg32 env c (db_offset c (q_sq_id q) False) (ucast new_tail) s3;
                         (found, s5) \<leftarrow> write_loop env q1 cmd_id (timer_get_uptime_ms s4 + 5000) s4;
                         let q2 = (case found of None \<Rightarrow> q1 | Some i \<Rightarrow> set_cq_head (ring_next (of_nat i) (q_cq_size q)) q1);
                         let s6 = (if found = None then s5 else nvme_write_reg32 env c (db_offset c (q_cq_id q) True) (ucast (q_cq_head q2)) s5);
                         Some (found \<noteq> None, set_controller dev_id (set_queue r q2 c) drv1, nvme_free_dma dma_buffer (ucast n) s6) } })"

definition nvme_flush :: "'a mmio_state_scheme nvme_env \<Rightarrow> nvme_driver_t \<Rightarrow> u32 \<Rightarrow> u32 \<Rightarrow> 'a mmio_state_scheme \<Rightarrow> (bool \<times> nvme_driver_t \<times> 'a mmio_state_scheme) option" where
  "nvme_flush env drv dev_id namespace_id s =
     (case usable_namespace drv dev_id namespace_id of
        None \<Rightarrow> Some (False, drv, s)
      | Some (c, _) \<Rightarrow> do {
          (cmd_id, c1, s1) \<leftarrow> nvme_submit_cmd env (unat dev_id) Io_Queue (zero_command\<lparr>nc_opcode := NVME_CMD_IO_FLUSH, nc_nsid := namespace_id\<rparr>) c s;
          let drv1 = set_controller dev_id c1 drv;
          if cmd_id = 0xFFFF then Some (False, drv1, s1)
          else do {
            (found, s2) \<leftarrow> nvme_wait_for_completion env (unat dev_id) Io_Queue c1 cmd_id s1;
            Some (case found of None \<Rightarrow> False | Some cpl \<Rightarrow> drop_bit 1 (cq_status cpl) = 0, drv1, s2) } })"

definition nvme_get_device_info :: "'a mmio_state_scheme nvme_env \<Rightarrow> nvme_driver_t \<Rightarrow> u32 \<Rightarrow> u64 \<Rightarrow> u64 \<Rightarrow> 'a mmio_state_scheme \<Rightarrow> (bool \<times> 'a mmio_state_scheme) option" where
  "nvme_get_device_info env drv dev_id buffer buffer_size s =
     (let c = nd_controllers drv ! unat dev_id
      in if nd_device_count drv \<le> dev_id \<or> buffer = 0 \<or> buffer_size = 0 then Some (False, s)
         else if \<not> nv_initialized c then Some (False, s)
         else do {
           let (mo, se, fi) = ne_strings env (unat dev_id);
           let m = poke fi (nv_firmware_rev c) (poke se (nv_serial_number c) (poke mo (nv_model_number c) (kmem s)));
           (written, m1) \<leftarrow> snprintf buffer buffer_size
             (Some (''NVMe Controller %u:'' @ [CHR 0x0A] @ ''  Model: %s'' @ [CHR 0x0A] @ ''  Serial: %s'' @ [CHR 0x0A] @ ''  Firmware: %s'' @ [CHR 0x0A] @
                    ''  Namespaces: %u'' @ [CHR 0x0A]))
             [ucast dev_id, mo, se, fi, ucast (nv_ns_count c)] m;
           Some (0 < sint written, s\<lparr>kmem := m1\<rparr>) })"

text \<open>The result and what is stored through the two pointers when it is true.\<close>

definition nvme_get_namespace_info :: "nvme_driver_t \<Rightarrow> u32 \<Rightarrow> u32 \<Rightarrow> (u64 \<times> u32) option" where
  "nvme_get_namespace_info drv dev_id namespace_id =
     map_option (\<lambda>(_, ns). (ns_size ns, ns_lba_size ns)) (usable_namespace drv dev_id namespace_id)"

definition nvme_get_device_count :: "nvme_driver_t \<Rightarrow> u32" where
  "nvme_get_device_count drv = nd_device_count drv"

definition nvme_get_namespace_count :: "nvme_driver_t \<Rightarrow> u32 \<Rightarrow> u32" where
  "nvme_get_namespace_count drv dev_id =
     (let c = nd_controllers drv ! unat dev_id in if nd_device_count drv \<le> dev_id then 0 else if \<not> nv_initialized c then 0 else nv_ns_count c)"

section \<open>Shutdown\<close>

definition free_queue :: "nvme_queue_t \<Rightarrow> 'a mmio_state_scheme \<Rightarrow> 'a mmio_state_scheme" where
  "free_queue q s =
     nvme_free_dma (q_cq_addr q) (ucast (q_cq_size q) * sizeof_completion) (nvme_free_dma (q_sq_addr q) (ucast (q_sq_size q) * sizeof_command) s)"

definition shutdown_controller :: "'a mmio_state_scheme nvme_env \<Rightarrow> nat \<Rightarrow> nvme_controller_t \<Rightarrow> 'a mmio_state_scheme \<Rightarrow> (nvme_controller_t \<times> 'a mmio_state_scheme) option" where
  "shutdown_controller env i c s = do {
     s1 \<leftarrow> lock env (ne_controller_lock env i) s;
     let (cc, s2) = nvme_read_reg32 env c NVME_REG_CC s1;
     let s3 = nvme_write_reg32 env c NVME_REG_CC (cc OR NVME_CC_SHN_NORM) s2;
     let start_time = timer_get_uptime_ms s3;
     (_, s4) \<leftarrow> csts_loop env c (\<lambda>v. v AND NVME_CSTS_SHST_COMP = NVME_CSTS_SHST_COMP) 1 (\<lambda>t. t - start_time < 500) 0 s3;
     let s5 = free_queue (nv_io_queue c) (free_queue (nv_admin_queue c) s4);
     let s6 = (if nv_regs c \<noteq> 0 then s5\<lparr>kvm := vmm_unmap_physical (nv_regs c) NVME_REG_MAP_SIZE (kvm s5)\<rparr> else s5);
     Some (c\<lparr>nv_regs := 0, nv_initialized := False\<rparr>, spinlock_release (ne_controller_lock env i) s6) }"

fun shutdown_loop :: "'a mmio_state_scheme nvme_env \<Rightarrow> nat list \<Rightarrow> nvme_driver_t \<Rightarrow> 'a mmio_state_scheme \<Rightarrow> (nvme_driver_t \<times> 'a mmio_state_scheme) option" where
  "shutdown_loop env [] drv s = Some (drv, s)"
| "shutdown_loop env (i # is) drv s =
     (if \<not> nv_initialized (nd_controllers drv ! i) then shutdown_loop env is drv s
      else do {
        (c, s1) \<leftarrow> shutdown_controller env i (nd_controllers drv ! i) s;
        shutdown_loop env is (drv\<lparr>nd_controllers := (nd_controllers drv)[i := c]\<rparr>) s1 })"

definition nvme_shutdown :: "'a mmio_state_scheme nvme_env \<Rightarrow> nvme_driver_t \<Rightarrow> 'a mmio_state_scheme \<Rightarrow> (nvme_driver_t \<times> 'a mmio_state_scheme) option" where
  "nvme_shutdown env drv s = do {
     s1 \<leftarrow> lock env (ne_global_lock env) s;
     (drv1, s2) \<leftarrow> shutdown_loop env [0..<unat (nd_device_count drv)] drv s1;
     Some (drv1\<lparr>nd_device_count := 0\<rparr>, spinlock_release (ne_global_lock env) s2) }"

section \<open>Debug output\<close>

definition dump_namespace :: "nvme_namespace_t \<Rightarrow> print_line list" where
  "dump_namespace ns =
     [(''    Namespace %u:'', [Num (ucast (ns_id ns))]),
      (''      Size: %lu blocks (%lu MB)'', [Num (ns_size ns), Num (ns_size ns * ucast (ns_lba_size ns) div (1024 * 1024))]),
      (''      Block Size: %u bytes'', [Num (ucast (ns_lba_size ns))])]"

definition nvme_debug_dump_controller :: "nvme_driver_t \<Rightarrow> u32 \<Rightarrow> print_line list" where
  "nvme_debug_dump_controller drv dev_id =
     (if nd_device_count drv \<le> dev_id then [(''NVMe: Invalid device ID %u'', [Num (ucast dev_id)])]
      else let c = nd_controllers drv ! unat dev_id
           in if \<not> nv_initialized c then [(''NVMe: Controller %u not initialized'', [Num (ucast dev_id)])]
              else [(''NVMe Controller %u:'', [Num (ucast dev_id)]),
                    (''  PCI: %02x:%02x.%x'', [Num (ucast (nv_pci_bus c)), Num (ucast (nv_pci_device c)), Num (ucast (nv_pci_function c))]),
                    (''  Vendor/Device: %04x:%04x'', [Num (ucast (nv_vendor_id c)), Num (ucast (nv_device_id c))]),
                    (''  Model: %s'', [field_string (nv_model_number c)]),
                    (''  Serial: %s'', [field_string (nv_serial_number c)]),
                    (''  Firmware: %s'', [field_string (nv_firmware_rev c)]),
                    (''  Max Transfer Size: %u bytes'', [Num (ucast (push_bit (unat (nv_max_transfer_shift c) mod 32) (1 :: u32)))]),
                    (''  Max Namespaces: %u'', [Num (ucast (nv_max_namespaces c))]),
                    (''  Admin Queue Size: %u entries'', [Num (ucast (q_sq_size (nv_admin_queue c)))]),
                    (''  I/O Queue Size: %u entries'', [Num (ucast (q_sq_size (nv_io_queue c)))]),
                    (''  Doorbell Stride: %u bytes'', [Num (ucast (nv_doorbell_stride c))]),
                    (''  Namespaces (%u):'', [Num (ucast (nv_ns_count c))])]
                   @ concat (map dump_namespace (take (unat (nv_ns_count c)) (nv_namespaces c))))"

end
