(* ===== verification/Nvme_Correct.thy ===== *)
theory Nvme_Correct
  imports Nvme
begin

text \<open>
  Correctness of the NVMe driver: the controllers that an initialisation leaves, the bytes of a command, the consumption of a completion queue, and what a read
  returns when the disk does not answer.
\<close>

section \<open>Initialisation\<close>

text \<open>What the steps of the set-up keep of a controller, apart from its queues and namespaces.\<close>

definition same_setup :: "nvme_controller_t \<Rightarrow> nvme_controller_t \<Rightarrow> bool" where
  "same_setup c c' \<longleftrightarrow> nv_asq_size c' = nv_asq_size c \<and> nv_acq_size c' = nv_acq_size c \<and> nv_initialized c' = nv_initialized c"

definition same_namespaces :: "nvme_controller_t \<Rightarrow> nvme_controller_t \<Rightarrow> bool" where
  "same_namespaces c c' \<longleftrightarrow> nv_namespaces c' = nv_namespaces c \<and> nv_ns_count c' = nv_ns_count c"

lemmas same_defs = same_setup_def same_namespaces_def

lemma set_cq_head_sizes [simp]: "q_sq_size (set_cq_head h q) = q_sq_size q" "q_cq_size (set_cq_head h q) = q_cq_size q"
  by (simp_all add: set_cq_head_def)

lemma simple_command_same:
  assumes "simple_command env a b c s = Some (ok, c', s')"
  shows "same_setup c c' \<and> same_namespaces c c'"
  using assms by (auto simp: simple_command_def Let_def split_beta bind_eq_Some_conv identify_strings_def same_defs split: if_splits)

lemma simple_identify_same:
  assumes "nvme_simple_identify env c s = Some (ok, c', s')"
  shows "same_setup c c' \<and> same_namespaces c c'"
proof -
  have r: "same_setup c c \<and> same_namespaces c c" by (simp add: same_defs)
  show ?thesis using assms r
    by (auto simp: nvme_simple_identify_def Let_def split_beta bind_eq_Some_conv split: if_splits option.splits dest: simple_command_same)
qed

lemma setup_admin_queues_sizes:
  assumes "nvme_setup_admin_queues env i c s = (ok, c', s')"
  shows "same_setup c c' \<and> same_namespaces c c' \<and>
    (ok \<longrightarrow> q_sq_size (nv_admin_queue c') = push_bit (unat (nv_asq_size c)) 1 \<and> q_cq_size (nv_admin_queue c') = push_bit (unat (nv_acq_size c)) 1)"
  using assms by (auto simp: nvme_setup_admin_queues_def Let_def split_beta same_defs split: if_splits)

lemma identify_namespace_keeps:
  assumes "nvme_identify_namespace env c n s = Some (ok, c', s')"
  shows "same_setup c c' \<and> length (nv_namespaces c') = length (nv_namespaces c) \<and> nv_use_admin_for_io c' = nv_use_admin_for_io c \<and>
    q_sq_size (nv_admin_queue c') = q_sq_size (nv_admin_queue c) \<and> q_cq_size (nv_admin_queue c') = q_cq_size (nv_admin_queue c) \<and> (\<not> ok \<longrightarrow> nv_ns_count c' = nv_ns_count c)"
  using assms
  by (auto simp: nvme_identify_namespace_def add_namespace_def Let_def split_beta bind_eq_Some_conv same_defs split: if_splits option.splits)

text \<open>The two failures of \<open>nvme_create_io_queues\<close>, and its end.\<close>

lemma create_io_queues_cases:
  assumes "nvme_create_io_queues env i c s = Some (ok, c', s')"
  obtains q where "\<not> ok" and "c' = c\<lparr>nv_io_queue := q\<rparr>"
  | q t b c2 where "ok" and "nvme_identify_namespace env (c\<lparr>nv_io_queue := q, nv_use_admin_for_io := True\<rparr>) 1 t = Some (b, c2, s')"
    and "c' = (if b then c2\<lparr>nv_namespaces := (nv_namespaces c2)[0 := (nv_namespaces c2 ! 0)\<lparr>ns_id := 1\<rparr>], nv_ns_count := 1\<rparr> else c2)"
proof -
  define q where "q = (nv_io_queue c)\<lparr>q_sq_size := 4, q_cq_size := 4, q_sq_head := 0, q_sq_tail := 0, q_cq_head := 0, q_sq_id := 1, q_cq_id := 1, q_phase := 1\<rparr>"
  obtain sq sp s2 where a: "nvme_alloc_dma 4096 (spinlock_init (ne_queue_lock env i Io_Queue) s) = ((sq, sp), s2)" by (metis surj_pair)
  obtain cq cp s3 where b: "nvme_alloc_dma 4096 s2 = ((cq, cp), s3)" by (metis surj_pair)
  note r = assms [unfolded nvme_create_io_queues_def Let_def, folded q_def, unfolded a b prod.case]
  show thesis
  proof (cases "sq = 0 \<or> cq = 0")
    case True
    then show thesis using r that(1) by (auto split: if_splits)
  next
    case False
    let ?q = "q\<lparr>q_sq_addr := sq, q_sq_phys := sp, q_cq_addr := cq, q_cq_phys := cp\<rparr>"
    obtain b c2 where "nvme_identify_namespace env (c\<lparr>nv_io_queue := ?q, nv_use_admin_for_io := True\<rparr>) 1 (store (\<lambda>m. fill_block cq 0 4096 (fill_block sq 0 4096 m)) s3) = Some (b, c2, s')"
      "ok" "c' = (if b then c2\<lparr>nv_namespaces := (nv_namespaces c2)[0 := (nv_namespaces c2 ! 0)\<lparr>ns_id := 1\<rparr>], nv_ns_count := 1\<rparr> else c2)"
      using r False by (auto simp: bind_eq_Some_conv)
    then show thesis using that(2) by blast
  qed
qed

lemma create_io_queues_keeps:
  assumes "nvme_create_io_queues env i c s = Some (ok, c', s')" and "length (nv_namespaces c) = 16" and "nv_ns_count c = 0"
  shows "same_setup c c' \<and> length (nv_namespaces c') = 16 \<and>
    q_sq_size (nv_admin_queue c') = q_sq_size (nv_admin_queue c) \<and> q_cq_size (nv_admin_queue c') = q_cq_size (nv_admin_queue c) \<and>
    (ok \<longrightarrow> nv_use_admin_for_io c' \<and> (nv_ns_count c' = 0 \<or> nv_ns_count c' = 1 \<and> ns_id (nv_namespaces c' ! 0) = 1))"
  using assms(1)
proof (cases rule: create_io_queues_cases)
  case (1 q)
  then show ?thesis using assms(2) by (simp add: same_setup_def)
next
  case (2 q t b c2)
  then show ?thesis using identify_namespace_keeps [OF 2(2)] assms(2,3) by (cases b) (simp_all add: same_setup_def)
qed

text \<open>An initialised controller: its queues have one entry each, and it has at most one namespace, with the number 1.\<close>

definition single_entry :: "nvme_controller_t \<Rightarrow> bool" where
  "single_entry c \<longleftrightarrow> q_sq_size (nv_admin_queue c) = 1 \<and> q_cq_size (nv_admin_queue c) = 1 \<and> nv_use_admin_for_io c \<and>
     (nv_ns_count c = 0 \<or> nv_ns_count c = 1 \<and> ns_id (nv_namespaces c ! 0) = 1)"

lemma init_queues_single:
  assumes "init_queues env i c s = Some (c', s')" and "nv_asq_size c = 0" and "nv_acq_size c = 0" and "\<not> nv_initialized c"
    and "length (nv_namespaces c) = 16" and "nv_ns_count c = 0"
  shows "nv_initialized c' \<longrightarrow> single_entry c'"
proof -
  obtain ok c1 s1 where a: "nvme_setup_admin_queues env i c s = (ok, c1, s1)" by (cases "nvme_setup_admin_queues env i c s")
  note q = setup_admin_queues_sizes [OF a, unfolded same_defs]
  show ?thesis
  proof (cases ok)
    case False
    then show ?thesis using assms q by (simp add: init_queues_def a)
  next
    case True
    obtain ok2 c2 where b: "nvme_create_io_queues env i c1 s1 = Some (ok2, c2, s')" "c' = (if ok2 then c2\<lparr>nv_initialized := True\<rparr> else c2)"
      using assms(1) True by (auto simp: init_queues_def a bind_eq_Some_conv)
    have "length (nv_namespaces c1) = 16" "nv_ns_count c1 = 0" using q assms by simp_all
    note e = create_io_queues_keeps [OF b(1) this, unfolded same_defs]
    show ?thesis using e q assms True by (cases ok2) (simp_all add: b(2) single_entry_def)
  qed
qed

lemma init_controller_single:
  assumes "nvme_init_controller env i c s = Some (c', s')" and "nv_asq_size c = 0" and "nv_acq_size c = 0" and "\<not> nv_initialized c"
    and "length (nv_namespaces c) = 16" and "nv_ns_count c = 0"
  shows "nv_initialized c' \<longrightarrow> single_entry c'"
proof -
  let ?cap = "fst (nvme_read_reg64 env c NVME_REG_CAP s)"
  let ?d = "c\<lparr>nv_doorbell_stride := push_bit (unat (drop_bit 32 ?cap AND 0xF)) 4, nv_max_transfer_shift := ucast ((?cap AND 0xF) + 12),
    nv_db_stride := push_bit (unat (drop_bit 32 ?cap AND 0xF)) 4\<rparr>"
  obtain ok c2 s2 where id: "nvme_simple_identify env ?d (snd (nvme_read_reg64 env c NVME_REG_CAP s)) = Some (ok, c2, s2)"
      and r: "(if \<not> ok then Some (c2, s2) else init_queues env i c2 s2) = Some (c', s')"
    using assms(1) by (auto simp: nvme_init_controller_def Let_def split_beta bind_eq_Some_conv cong: if_cong)
  have d: "same_setup c ?d" "same_namespaces c ?d" by (simp_all add: same_defs)
  note k = simple_identify_same [OF id, unfolded same_defs] d [unfolded same_defs]
  show ?thesis
  proof (cases ok)
    case True
    then have "init_queues env i c2 s2 = Some (c', s')" using r by simp
    then show ?thesis by (rule init_queues_single) (use k assms in simp_all)
  qed (use r k assms in simp)
qed

lemma setup_pci_device_same:
  assumes "nvme_setup_pci_device env d c s = (ok, c', s')"
  shows "same_setup c c' \<and> same_namespaces c c'"
  using assms by (auto simp: nvme_setup_pci_device_def Let_def split_beta same_defs split: if_splits)

lemma length_filter_update:
  assumes "i < length xs" and "\<not> P (xs ! i)"
  shows "length (filter P (xs[i := x])) = length (filter P xs) + (if P x then 1 else 0)"
  using assms
proof (induction xs arbitrary: i)
  case (Cons y ys)
  then show ?case by (cases i) simp_all
qed simp

text \<open>The state of the loop over the devices: the places that are still to come are empty, and the initialised controllers are counted.\<close>

definition init_inv :: "nat list \<Rightarrow> nvme_driver_t \<Rightarrow> bool" where
  "init_inv is drv \<longleftrightarrow> length (nd_controllers drv) = 8 \<and> (\<forall>i \<in> set is. i < 8 \<and> nd_controllers drv ! i = zero_controller) \<and>
     unat (nd_device_count drv) = length (filter nv_initialized (nd_controllers drv)) \<and> (\<forall>c \<in> set (nd_controllers drv). nv_initialized c \<longrightarrow> single_entry c)"

lemma init_inv_step:
  assumes "init_inv (i # is) drv" and "i \<notin> set is" and "nv_initialized c \<longrightarrow> single_entry c"
  shows "init_inv is (drv\<lparr>nd_controllers := (nd_controllers drv)[i := c], nd_device_count := (if nv_initialized c then nd_device_count drv + 1 else nd_device_count drv)\<rparr>)"
proof -
  note a = assms(1) [unfolded init_inv_def]
  have z: "\<not> nv_initialized (nd_controllers drv ! i)" "i < length (nd_controllers drv)" using a by (simp_all add: zero_controller_def)
  have n: "length (filter nv_initialized (nd_controllers drv)) \<le> 8" using a length_filter_le [of nv_initialized "nd_controllers drv"] by simp
  have "\<forall>x \<in> set ((nd_controllers drv)[i := c]). nv_initialized x \<longrightarrow> single_entry x" using a assms(3) set_update_subset_insert [of "nd_controllers drv" i c] by auto
  moreover have "unat (nd_device_count drv + 1) = Suc (unat (nd_device_count drv))" using a n by (simp add: unat_word_ariths)
  ultimately show ?thesis using a z assms(2) length_filter_update [of i "nd_controllers drv" nv_initialized c]
    by (auto simp: init_inv_def nth_list_update)
qed

lemma init_loop_inv:
  assumes "init_loop env ds drv s = Some (drv', s')" and "init_inv (map fst ds) drv" and "distinct (map fst ds)"
  shows "init_inv [] drv'"
  using assms
proof (induction ds arbitrary: drv s)
  case (Cons p ds)
  obtain i d where p: "p = (i, d)" by (cases p)
  obtain ok c s1 where pc: "nvme_setup_pci_device env d (nd_controllers drv ! i) s = (ok, c, s1)" by (cases "nvme_setup_pci_device env d (nd_controllers drv ! i) s")
  have z: "nd_controllers drv ! i = zero_controller" using Cons.prems(2) by (simp add: p init_inv_def)
  note k = setup_pci_device_same [OF pc, unfolded z same_defs zero_controller_def, simplified]
  have i: "init_inv (i # map fst ds) drv" "i \<notin> set (map fst ds)" "distinct (map fst ds)" using Cons.prems by (simp_all add: p)
  show ?case
  proof (cases ok)
    case False
    have "init_inv (map fst ds) (drv\<lparr>nd_controllers := (nd_controllers drv)[i := c]\<rparr>)" using init_inv_step [OF i(1,2), of c] k by simp
    then show ?thesis using Cons.IH [OF _ _ i(3)] Cons.prems(1) False by (simp add: p pc)
  next
    case True
    obtain c1 s2 where c1: "nvme_init_controller env i (c\<lparr>nv_initialized := False\<rparr>) (spinlock_init (ne_controller_lock env i) s1) = Some (c1, s2)"
        "init_loop env ds (drv\<lparr>nd_controllers := (nd_controllers drv)[i := c1], nd_device_count := (if nv_initialized c1 then nd_device_count drv + 1 else nd_device_count drv)\<rparr>) s2 = Some (drv', s')"
      using Cons.prems(1) True by (auto simp: p pc bind_eq_Some_conv)
    have "nv_initialized c1 \<longrightarrow> single_entry c1"
      by (rule init_controller_single [OF c1(1)]) (use k in \<open>simp_all add: NVME_MAX_NAMESPACES_def\<close>)
    then show ?thesis using Cons.IH [OF c1(2) _ i(3)] init_inv_step [OF i(1,2)] by simp
  qed
qed simp

lemma ring_next_single: "ring_next t 1 = 0"
  by (simp add: ring_next_def)


section \<open>Commands\<close>

text \<open>
  The bytes of a transfer command say what was asked for: opcode, identifier, namespace, address, first block and number of blocks are found again at the places where the
  specification of the controller has them, for all their values.
\<close>

theorem nvme_command_fields:
  "let m' = put_command a (transfer_command opcode cmd_id nsid phys lba n) m
   in m' a = opcode \<and> le16 m' (a + 2) = cmd_id \<and> le32 m' (a + 4) = nsid \<and> le64 m' (a + 24) = phys \<and>
      ucast (le32 m' (a + 40)) OR push_bit 32 (ucast (le32 m' (a + 44))) = lba \<and> le32 m' (a + 48) + 1 = n"
  unfolding Let_def put_command_def transfer_command_def zero_command_def
  by (simp add: st64_def st32_def st16_def le64_def le32_def le16_def word_halves)

section \<open>Completions\<close>

definition flip :: "u16 \<Rightarrow> u16" where
  "flip p = (if p = 0 then 1 else 0)"

lemma ring_next_unat:
  assumes "unat i < unat n" and "unat n < 65536"
  shows "unat (ring_next i n) = Suc (unat i) mod unat n"
proof -
  have "unat (ucast i + 1 :: u32) = Suc (unat i)" using assms by (simp add: unat_word_ariths unat_ucast_up)
  then have "unat ((ucast i + 1) mod n) = Suc (unat i) mod unat n" by (simp add: unat_mod)
  moreover have "Suc (unat i) mod unat n < 65536" using assms mod_less_divisor [of "unat n" "Suc (unat i)"] by linarith
  ultimately show ?thesis by (simp add: ring_next_def unsigned_ucast_eq take_bit_nat_eq_self)
qed

lemma process_loop_steps:
  assumes "unat (q_cq_head q) < unat (q_cq_size q)" and "unat (q_cq_size q) < 65536" and "q_phase q \<in> {0, 1}" and "unat k \<le> unat (q_cq_size q)"
  shows "\<exists>j q'. process_loop m k q = Some (k + of_nat j, q') \<and> unat k + j \<le> unat (q_cq_size q) \<and> q_cq_addr q' = q_cq_addr q \<and>
    unat (q_cq_head q') = (unat (q_cq_head q) + j) mod unat (q_cq_size q) \<and>
    q_phase q' = (if even ((unat (q_cq_head q) + j) div unat (q_cq_size q)) then q_phase q else flip (q_phase q)) \<and>
    (unat k + j < unat (q_cq_size q) \<longrightarrow> \<not> in_phase (q_phase q') (completion_at m (q_cq_addr q) (unat (q_cq_head q'))))"
  using assms
proof (induction "unat (q_cq_size q) - unat k" arbitrary: k q)
  case 0
  then have "unat k = unat (q_cq_size q)" by simp
  then have "\<not> ucast k < q_cq_size q" by (simp add: word_less_nat_alt unat_ucast_up)
  then have "process_loop m k q = Some (k + of_nat 0, q)" by (subst process_loop.simps) (simp add: Let_def)
  then show ?case using 0 by (intro exI [of _ 0] exI [of _ q]) auto
next
  case (Suc n)
  let ?e = "completion_at m (q_cq_addr q) (unat (q_cq_head q))" and ?z = "unat (q_cq_size q)" and ?h = "unat (q_cq_head q)"
  have lt: "unat k < ?z" using Suc.hyps(2) by simp
  then have l: "ucast k < q_cq_size q" by (simp add: word_less_nat_alt unat_ucast_up)
  show ?case
  proof (cases "in_phase (q_phase q) ?e")
    case False
    then have "process_loop m k q = Some (k + of_nat 0, q)" by (subst process_loop.simps) (simp add: Let_def)
    then show ?thesis using Suc.prems lt False by (intro exI [of _ 0] exI [of _ q]) auto
  next
    case True
    define q1 where "q1 = set_cq_head (ring_next (q_cq_head q) (q_cq_size q)) (q\<lparr>q_sq_head := cq_sq_head ?e\<rparr>)"
    have k1: "unat (k + 1) = Suc (unat k)" using lt Suc.prems(2) by (simp add: unat_word_ariths)
    have h1: "unat (q_cq_head q1) = Suc ?h mod ?z" by (simp add: q1_def set_cq_head_def ring_next_unat [OF Suc.prems(1,2)])
    have f1: "q_cq_size q1 = q_cq_size q" "q_cq_addr q1 = q_cq_addr q" by (simp_all add: q1_def set_cq_head_def)
    have "ring_next (q_cq_head q) (q_cq_size q) = 0 \<longleftrightarrow> Suc ?h = ?z"
      using ring_next_unat [OF Suc.prems(1,2)] Suc.prems(1) by (cases "Suc ?h = ?z") (auto simp: word_unat_eq_iff)
    then have p1: "q_phase q1 = (if Suc ?h = ?z then flip (q_phase q) else q_phase q)" by (simp add: q1_def set_cq_head_def flip_def)
    have ff: "flip (flip (q_phase q)) = q_phase q" "flip (q_phase q) \<in> {0, 1}" using Suc.prems(3) by (auto simp: flip_def)
    have s1: "process_loop m k q = process_loop m (k + 1) q1" using True l by (subst process_loop.simps) (simp add: Let_def q1_def)
    obtain j q' where r: "process_loop m (k + 1) q1 = Some (k + 1 + of_nat j, q')" "unat (k + 1) + j \<le> ?z" "q_cq_addr q' = q_cq_addr q"
        "unat (q_cq_head q') = (Suc ?h mod ?z + j) mod ?z"
        "q_phase q' = (if even ((Suc ?h mod ?z + j) div ?z) then q_phase q1 else flip (q_phase q1))"
        "unat (k + 1) + j < ?z \<longrightarrow> \<not> in_phase (q_phase q') (completion_at m (q_cq_addr q) (unat (q_cq_head q')))"
    proof -
      have a: "n = unat (q_cq_size q1) - unat (k + 1)" "unat (q_cq_head q1) < unat (q_cq_size q1)" "unat (q_cq_size q1) < 65536" "unat (k + 1) \<le> unat (q_cq_size q1)"
        using Suc.hyps(2) Suc.prems lt by (simp_all add: f1 h1 k1)
      have b: "q_phase q1 \<in> {0, 1}" unfolding p1 using ff(2) Suc.prems(3) by simp
      from Suc.hyps(1) [OF a(1-3) b a(4)] show thesis unfolding f1 h1 using that by blast
    qed
    have "q_phase q' = (if even ((?h + Suc j) div ?z) then q_phase q else flip (q_phase q))"
    proof (cases "Suc ?h = ?z")
      case True
      then have "(?h + Suc j) div ?z = Suc (j div ?z)" by (metis add_Suc_right add_Suc_shift add.commute div_add_self1 less_nat_zero_code Suc.prems(1) plus_1_eq_Suc)
      then show ?thesis using r(5) p1 True ff by simp
    next
      case False
      then have "Suc ?h mod ?z = Suc ?h" using Suc.prems(1) by simp
      then show ?thesis using r(5) p1 False by simp
    qed
    then show ?thesis using r s1 k1 by (intro exI [of _ "Suc j"] exI [of _ q']) (auto simp: mod_simps algebra_simps)
  qed
qed


definition queue_demo :: nvme_queue_t where
  "queue_demo = zero_queue\<lparr>q_cq_size := 4, q_cq_head := 3, q_phase := 1\<rparr>"


section \<open>Reads\<close>

text \<open>A disk that does not answer, on a running timer: nothing changes the memory, and a halt is ended by the next tick.\<close>

definition silent :: "'a mmio_state_scheme nvme_env \<Rightarrow> bool" where
  "silent env \<longleftrightarrow> (\<forall>es m. me_dma env es m = m) \<and>
     (\<forall>u. timer_tick_count (me_hlt env u) = timer_tick_count u + 1 \<and> timer_frequency (me_hlt env u) = timer_frequency u \<and>
          timer_initialized (me_hlt env u) = timer_initialized u \<and> kmem (me_hlt env u) = kmem u)"

definition runs :: "nat \<Rightarrow> 'a mmio_state_scheme \<Rightarrow> bool" where
  "runs t s \<longleftrightarrow> timer_initialized s \<and> timer_frequency s = 1000 \<and> unat (timer_tick_count s) = t"

lemma uptime_runs: "runs t s \<Longrightarrow> t < 2 ^ 54 \<Longrightarrow> timer_get_uptime_ms s = of_nat t"
proof -
  assume a: "runs t s" "t < 2 ^ 54"
  have "unat (timer_tick_count s * 1000) = t * 1000" using a by (simp add: runs_def unat_word_ariths)
  then have "unat (timer_tick_count s * 1000 div 1000) = unat (of_nat t :: u64)" using a(2) by (simp add: unat_div unat_of_nat)
  then have "timer_tick_count s * 1000 div 1000 = of_nat t" by (simp only: word_unat_eq_iff)
  then show ?thesis using a by (simp add: timer_get_uptime_ms_def timer_get_ticks_def timer_get_frequency_def runs_def Let_def)
qed

lemma sleep_loop_silent:
  assumes "silent env" and "runs t s" and "unat target = t + n"
  shows "\<exists>u. timer_sleep_loop (me_hlt env) target s = Some u \<and> runs (t + n) u \<and> kmem u = kmem s"
  using assms(2,3)
proof (induction n arbitrary: t s)
  case 0
  then have "\<not> timer_get_ticks s < target" by (simp add: runs_def timer_get_ticks_def word_less_nat_alt)
  then show ?case using 0 by (subst timer_sleep_loop.simps) simp
next
  case (Suc n)
  have lt: "timer_get_ticks s < target" using Suc.prems by (simp add: runs_def timer_get_ticks_def word_less_nat_alt)
  let ?u = "me_hlt env (s\<lparr>interrupt_flag := True\<rparr>)"
  have "runs (Suc t) ?u" using assms(1) Suc.prems unat_lt_64 [of target] by (simp add: silent_def runs_def unat_word_ariths)
  then obtain u where "timer_sleep_loop (me_hlt env) target ?u = Some u" "runs (Suc t + n) u" "kmem u = kmem ?u" using Suc.IH [of "Suc t" ?u] Suc.prems(2) by auto
  then show ?case using lt assms(1) by (subst timer_sleep_loop.simps) (simp add: silent_def)
qed

lemma sleep_silent:
  assumes "silent env" and "runs t s" and "t + unat ms < 2 ^ 54"
  shows "\<exists>u. sleep_ms env ms s = Some u \<and> runs (t + unat ms) u \<and> kmem u = kmem s"
proof -
  have "unat ((ucast ms * 1000 :: u64) div 1000) = unat ms"
    using unsigned_less [of ms, where ?'a = nat] by (simp add: unat_div unat_word_ariths unat_ucast_up)
  then have "unat (timer_get_ticks s + (ucast ms * 1000) div 1000) = t + unat ms"
    using assms(2,3) by (simp add: runs_def timer_get_ticks_def unat_word_ariths)
  from sleep_loop_silent [OF assms(1,2) this] assms(2) show ?thesis by (simp add: sleep_ms_def timer_sleep_ms_def runs_def)
qed

lemma read_loop_silent:
  assumes "silent env" and "runs (b + e) s" and "b + 4000 < 2 ^ 54" and "e \<le> 2005"
    and "\<not> (in_phase (q_phase q) (completion_at (kmem s) (q_cq_addr q) 0) \<and> cq_command_id (completion_at (kmem s) (q_cq_addr q) 0) = 1)"
  shows "\<exists>u. read_loop env q (of_nat b) s = Some (False, u) \<and> kmem u = kmem s"
  using assms(2,4,5)
proof (induction "2005 - e" arbitrary: e s rule: less_induct)
  case less
  have t: "timer_get_uptime_ms s = of_nat (b + e)" by (rule uptime_runs [OF less.prems(1)]) (use assms(3) less.prems(2) in simp)
  have "unat (of_nat e :: u64) = e" using less.prems(2) by (simp add: unat_of_nat)
  then have lt: "timer_get_uptime_ms s - of_nat b < 2000 \<longleftrightarrow> e < 2000" by (simp add: t word_less_nat_alt)
  show ?case
  proof (cases "e < 2000")
    case False
    then show ?thesis using lt by (subst read_loop.simps) simp
  next
    case True
    obtain u where u: "sleep_ms env 5 s = Some u" "runs (b + (e + 5)) u" "kmem u = kmem s"
      using sleep_silent [OF assms(1) less.prems(1), of 5] assms(3) True by (auto simp: add.assoc)
    have "2005 - (e + 5) < 2005 - e" "e + 5 \<le> 2005" using True by simp_all
    from less.hyps [OF this(1) u(2) this(2)] u(3) less.prems(3) obtain v where "read_loop env q (of_nat b) u = Some (False, v)" "kmem v = kmem s" by auto
    then show ?thesis using lt True u(1) less.prems(3) by (subst read_loop.simps) (auto simp: Let_def)
  qed
qed

lemma fold_bytes_outside:
  "a \<notin> (\<lambda>i. b + of_nat i) ` set is \<Longrightarrow> fold (\<lambda>i m. m(b + of_nat i := f i)) is m a = m a" for b :: u64
  by (induction "is" arbitrary: m) auto

lemma alloc_dma_frame: "kmem (snd (nvme_alloc_dma n s)) = kmem s" "runs t (snd (nvme_alloc_dma n s)) = runs t s"
  by (auto simp: nvme_alloc_dma_def alloc_dma_buffer_def Let_def split_beta runs_def)

lemma free_dma_frame: "kmem (nvme_free_dma a n s) = kmem s"
  by (auto simp: nvme_free_dma_def free_dma_buffer_def Let_def)

lemma wr32_frame: "silent env \<Longrightarrow> kmem (nvme_write_reg32 env c o1 v s) = kmem s" "runs t (nvme_write_reg32 env c o1 v s) = runs t s"
  by (auto simp: nvme_write_reg32_def wr32_def mmio_event_def silent_def runs_def)

lemma far_shift: "l + unat k \<le> unat (x - a) \<Longrightarrow> l \<le> unat (x - (a + k))" for x :: u64
proof -
  assume h: "l + unat k \<le> unat (x - a)"
  have "x - (a + k) = (x - a) - k" by (rule diff_diff_eq [symmetric])
  moreover have "unat ((x - a) - k) = unat (x - a) - unat k" using h by (intro unat_sub) (simp add: word_le_nat_alt)
  ultimately have "unat (x - (a + k)) = unat (x - a) - unat k" by metis
  then show ?thesis using h by linarith
qed

lemma st16_far: "2 \<le> unat (x - a) \<Longrightarrow> st16 a v m x = m x"
  by (auto simp: st16_def)

lemma st32_far: "4 \<le> unat (x - a) \<Longrightarrow> st32 a v m x = m x"
  using far_shift [of 2 2 x a] by (simp add: st32_def st16_far)

lemma st64_far: "8 \<le> unat (x - a) \<Longrightarrow> st64 a v m x = m x"
  using far_shift [of 4 4 x a] by (simp add: st64_def st32_far)

lemma put_command_outside:
  assumes "64 \<le> unat (x - a)"
  shows "put_command a c m x = m x"
proof -
  have f: "l + unat k \<le> 64 \<Longrightarrow> l \<le> unat (x - (a + k))" for l k using far_shift [of l k x a] assms by simp
  have "x \<noteq> a" "x \<noteq> a + 1" using assms by auto
  then show ?thesis unfolding put_command_def
    by (simp add: st32_far st64_far st16_far f)
qed

lemma fill_block_apply: "fill_block d v n m x = (if x \<in> (\<lambda>i. d + of_nat i) ` {..<n} then v else m x)"
  by (induction n) (auto simp: fill_block_def lessThan_Suc)

lemma le64_cong:
  assumes "\<And>j. j < 8 \<Longrightarrow> m (a + of_nat j) = m' (a + of_nat j)"
  shows "le64 m a = le64 m' a"
  using assms [of 0] assms [of 1] assms [of 2] assms [of 3] assms [of 4] assms [of 5] assms [of 6] assms [of 7]
  by (simp add: le64_def le32_def le16_def add.assoc)

lemma synthetic_header:
  assumes "16 \<le> n"
  shows "le64 (synthetic_data b lba sectors nsid n m) b = lba \<and> synthetic_data b lba sectors nsid n m (b + 14) = 0xDD \<and> synthetic_data b lba sectors nsid n m (b + 15) = 0xEE"
proof -
  define m1 where "m1 = fold (\<lambda>i m. m(b + of_nat i := (ucast (drop_bit (i * 8) lba AND 0xFF) :: u8))) [0..<min 8 (unat n)] m"
  have n: "16 \<le> unat n" using assms by (simp add: word_le_nat_alt)
  have "(ucast (v AND mask 8) :: u8) = ucast v" for v :: u64 by (intro bit_word_eqI) (auto simp: bit_simps)
  then have y: "(ucast (v AND 0xFF) :: u8) = ucast v" for v :: u64 by (simp add: mask_eq_exp_minus_1)
  have y2: "(ucast (drop_bit k (ucast v :: u32)) :: u8) = ucast (drop_bit k v)" if "k \<le> 24" for k and v :: u64 using that by (intro bit_word_eqI) (auto simp: bit_simps)
  have y3: "(ucast (drop_bit 8 (ucast v :: u16)) :: u8) = ucast (drop_bit 8 v)" for v :: u32 by (intro bit_word_eqI) (auto simp: bit_simps)
  have y4: "(ucast (ucast v :: u16) :: u8) = ucast v" for v :: u32 by (intro bit_word_eqI) (auto simp: bit_simps)
  have y5: "(ucast (ucast v :: u32) :: u8) = ucast v" for v :: u64 by (intro bit_word_eqI) (auto simp: bit_simps)
  have u: "[0..<8] = [0, 1, 2, 3, 4, 5, 6, 7 :: nat]" by (simp add: upt_rec)
  have e: "m1 = st64 b lba m"
    using n by (simp add: m1_def min_absorb1 u y y2 y3 y4 y5 st64_def st32_def st16_def add.commute [of _ b])
  have f: "b + of_nat j \<notin> (\<lambda>i. b + of_nat i) ` set [16..<unat n]" if "j < 16" for j
  proof
    assume "b + of_nat j \<in> (\<lambda>i. b + of_nat i) ` set [16..<unat n]"
    then obtain i where i: "16 \<le> i" "i < unat n" "(of_nat j :: u64) = of_nat i" by auto
    then show False using that unsigned_less [of n, where ?'a = nat] by (simp add: word_unat_eq_iff unat_of_nat)
  qed
  have g: "synthetic_data b lba sectors nsid n m (b + of_nat j) =
      (if j < 8 then m1 (b + of_nat j) else if j = 14 then 0xDD else if j = 15 then 0xEE else synthetic_data b lba sectors nsid n m (b + of_nat j))" if "j < 16" for j
  proof -
    have "(of_nat j :: u64) = k \<longleftrightarrow> j = unat k" for k using that by (auto simp: word_unat_eq_iff unat_of_nat)
    moreover have "fold (\<lambda>i m. m(b + of_nat i := w i)) [16..<unat n] x (b + of_nat j) = x (b + of_nat j)" for w :: "nat \<Rightarrow> u8" and x :: mem
      by (rule fold_bytes_outside [OF f [OF that]])
    ultimately show ?thesis using that assms unfolding synthetic_data_def Let_def m1_def [symmetric] by (cases "j = 14"; cases "j = 15"; simp)
  qed
  have "le64 (synthetic_data b lba sectors nsid n m) b = le64 m1 b" by (rule le64_cong) (simp add: g)
  then show ?thesis using e g [of 14] g [of 15] by simp
qed


text \<open>A driver with one controller, whose queues lie at \<open>0x9000\<close> and \<open>0xA000\<close>, on the kernel with four free pages and a timer of 1000 Hz.\<close>

definition nvme_demo :: nvme_driver_t where
  "nvme_demo = \<lparr>nd_controllers = [zero_controller\<lparr>nv_admin_queue := zero_queue\<lparr>q_sq_addr := 0x9000, q_cq_addr := 0xA000, q_sq_size := 1, q_cq_size := 1\<rparr>, nv_ns_count := 1,
     nv_namespaces := [\<lparr>ns_id = 1, ns_size = 4096, ns_lba_size = 512\<rparr>], nv_initialized := True\<rparr>], nd_device_count = 1, nd_write_cmd_id = 1\<rparr>"

definition nvme_env_demo :: "mmio_state nvme_env" where
  "nvme_env_demo = \<lparr>me_dev = (\<lambda>_ _. 0), me_read32 = (\<lambda>_ _. 0), me_read64 = (\<lambda>_ _. 0), me_dma = (\<lambda>_ m. m), me_tsc = of_nat,
     me_hlt = (\<lambda>u. u\<lparr>timer_tick_count := timer_tick_count u + 1\<rparr>), me_track_base = 0, me_return_address = 0, ne_global_lock = 0x100, ne_controller_lock = (\<lambda>_. 0x200),
     ne_queue_lock = (\<lambda>_ _. 0x300), ne_strings = (\<lambda>_. (0x400, 0x440, 0x480))\<rparr>"

definition nvme_state_demo :: mmio_state where
  "nvme_state_demo = mmio_demo\<lparr>timer_initialized := True, timer_frequency := 1000, timer_tick_count := 0\<rparr>"

lemma nvme_demo_alloc: "fst (fst (nvme_alloc_dma 512 nvme_state_demo)) \<noteq> 0"
proof -
  have k: "kvm nvme_state_demo = vmm_demo"
    by (simp add: nvme_state_demo_def mmio_demo_def pci_demo_def pci_state.defs kernel_state.defs kernel_demo_def lock_state.defs)
  define p where "p = (vmm_pmm vmm_demo)\<lparr>static_bitmap := bitmap_set (replicate 8192 0) 0, total_allocations := 1\<rparr>"
  have a: "pmm_alloc_pages 1 (vmm_pmm vmm_demo) = (0x100000, p)"
    by (simp add: pmm_alloc_pages_def p_def vmm_demo_def demo_alloc zero_bitmap_test)
  have m: "fst (vmm_map_page 0xFFFFFFFF80100000 0x100000 3 (vmm_demo\<lparr>vmm_pmm := p\<rparr>))"
    unfolding vmm_map_page_def map_page_internal_def p_def vmm_demo_def
    by (simp add: demo_eval)
  have w: "page_bytes 512 = 4096" "page_round 4096 = 4096" "physical_window 0x100000 = 0xFFFFFFFF80100000"
    by (simp_all add: page_bytes_def page_round_def physical_window_def KERNEL_VIRTUAL_BASE_def PAGE_SIZE_4K_def)
  have f: "VMM_FLAG_PRESENT OR VMM_FLAG_WRITABLE = (3 :: u64)" by (simp add: vmm_flag_defs)
  show ?thesis
    using m by (simp add: nvme_alloc_dma_def alloc_dma_buffer_def vmm_map_physical_def k w a f PAGE_SIZE_4K_def Let_def split_beta)
qed


end
