(* ===== verification/Kernel_Main.thy ===== *)
theory Kernel_Main
  imports Proc_Correct Gdt Net Ext4_Correct Serial Idt_Extensions Sata_Correct Nvme_Correct
begin

text \<open>
  The start of the kernel, \<open>src/src/src/core/main.c\<close>, which composes the components: \<open>kernel_init_processes\<close>, \<open>network_init\<close> and \<open>kmain\<close>.
  The records of the components extend a common trunk in different directions; the record \<open>kernel\<close> holds the trunk up to the
  PCI bus and each branch beside it, and \<open>in_serial\<close> to \<open>in_net\<close> run an operation on the trunk with one of the branches.
  Messages of \<open>kmain\<close> itself and interrupts that arrive between two initialisations are not modelled. The result \<open>None\<close> is a
  start that does not get to the final loop: a halt, a fault, a division by zero or a wait without end in one of the initialisations.
\<close>

section \<open>Processes\<close>

definition kernel_init_processes :: "process_env \<Rightarrow> 'a proc_state_scheme \<Rightarrow> (bool \<times> 'a proc_state_scheme) option" where
  "kernel_init_processes env s = do {
     (ok1, s1) \<leftarrow> process_init env s;
     if \<not> ok1 then Some (False, s1)
     else do {
       (ok2, s2) \<leftarrow> process_scheduler_init env s1;
       if \<not> ok2 then Some (False, s2)
       else if \<not> process_arch_init then Some (False, s2)
       else do {
         (ok3, s3) \<leftarrow> process_register_kernel_idle env s2;
         if \<not> ok3 then Some (False, s3) else Some (True, s3) } } }"

section \<open>Network\<close>

text \<open>
  The arguments that \<open>network_init\<close> passes to \<open>e1000_init\<close> are ignored there; the base address is still read from the card. The virtual memory manager
  is threaded through \<open>e1000_init\<close> beside the state of the driver.
\<close>

definition is_e1000 :: "pci_device_t \<Rightarrow> bool" where
  "is_e1000 d \<longleftrightarrow> vendor_id d = 0x8086 \<and> (device_id d = 0x100E \<or> device_id d = 0x100F \<or> device_id d = 0x10D3)"

fun network_loop :: "'a net_state_scheme net_env \<Rightarrow> u64 \<Rightarrow> pci_device_t list \<Rightarrow> 'a net_state_scheme \<Rightarrow> (bool \<times> 'a net_state_scheme) option" where
  "network_loop env checker [] s = Some (False, s)"
| "network_loop env checker (d # ds) s =
     (if is_e1000 d
      then do {
        let s1 = pci_enable_device (ne_dev env) d s;
        let (_, s2) = pci_get_bar_address (ne_dev env) d 0 s1;
        let (k, s3) = e1000_init (ne_dev env) (kvm s2, s2);
        s4 \<leftarrow> net_init env checker (s3\<lparr>kvm := k\<rparr>);
        Some (True, s4) }
      else network_loop env checker ds s)"

definition network_init :: "'a net_state_scheme net_env \<Rightarrow> u64 \<Rightarrow> 'a net_state_scheme \<Rightarrow> (bool \<times> 'a net_state_scheme) option" where
  "network_init env checker s = network_loop env checker (pci_find_devices 0x02 0x00 s) s"

section \<open>Hardware\<close>

record boot_env =
  be_dev :: device
  be_isr_stubs :: "u64 list"
  be_idt_table :: u64
  be_irq_stubs :: "u64 list"
  be_timer_handler :: u64
  be_keyboard_handler :: u64
  be_mouse_handler :: u64
  be_page_fault_handler :: u64

definition hardware_init :: "boot_env \<Rightarrow> 'a mouse_state_scheme \<Rightarrow> 'a mouse_state_scheme option" where
  "hardware_init env s = do {
     s1 \<leftarrow> idt_init (be_isr_stubs env) (be_idt_table env) s;
     let s2 = pic_init 0x20 0x28 s1;
     let s3 = irq_init (be_irq_stubs env) s2;
     s4 \<leftarrow> timer_init (be_timer_handler env) 1000 s3;
     let s5 = keyboard_init (be_keyboard_handler env) s4;
     let s6 = mouse_init (be_dev env) (be_mouse_handler env) s5;
     Some (idt_enable_interrupts s6) }"

text \<open>The answers of the boot loader: the kind that means usable with the memory map, the offset of the direct map, the addresses of the kernel; and \<open>cpuid\<close>.\<close>

record boot_info =
  bi_memmap :: "(u64 \<times> memmap_entry list) option"
  bi_hhdm :: "u64 option"
  bi_kernel_address :: "(u64 \<times> u64) option"
  bi_cpuid_edx :: u32

definition memory_init :: "boot_env \<Rightarrow> boot_info \<Rightarrow> 'a kernel_state_scheme \<Rightarrow> 'a kernel_state_scheme option" where
  "memory_init env info s =
     (case bi_memmap info of
        None \<Rightarrow> Some s
      | Some (usable, memmap) \<Rightarrow> do {
          pm \<leftarrow> pmm_init usable memmap 0 (vmm_pmm (kvm s));
          let s1 = idt_register_exception_handler 14 (be_page_fault_handler env) s;
          Some (s1\<lparr>kvm := vmm_init (bi_hhdm info) (bi_kernel_address info) (bi_cpuid_edx info) ((kvm s)\<lparr>vmm_pmm := pm\<rparr>)\<rparr>) })"

section \<open>The whole kernel\<close>

record kernel =
  k_trunk :: pci_state
  k_serial :: "unit serial_state_ext"
  k_gdt :: "unit gdt_state_ext"
  k_proc :: "unit proc_state_ext"
  k_mmio :: "unit mmio_state_ext"
  k_net :: "unit net_state_ext e1000_state_ext"
  k_nvme :: nvme_driver_t
  k_sata :: sata_driver_t
  k_detected :: "storage_device_t list"
  k_storage_count :: u32

definition in_serial :: "(serial_state \<Rightarrow> serial_state option) \<Rightarrow> kernel \<Rightarrow> kernel option" where
  "in_serial f k =
     map_option (\<lambda>t. k\<lparr>k_trunk := machine.extend (machine.truncate t) (machine.more (k_trunk k)), k_serial := machine.more t\<rparr>)
       (f (machine.extend (machine.truncate (k_trunk k)) (k_serial k)))"

definition in_gdt :: "(gdt_state \<Rightarrow> gdt_state gdt_result) \<Rightarrow> kernel \<Rightarrow> kernel option" where
  "in_gdt f k =
     (case f (machine.extend (machine.truncate (k_trunk k)) (k_gdt k)) of
        Sum_Type.Inl _ \<Rightarrow> None
      | Inr t \<Rightarrow> Some (k\<lparr>k_trunk := machine.extend (machine.truncate t) (machine.more (k_trunk k)), k_gdt := machine.more t\<rparr>))"

definition in_trunk :: "(pci_state \<Rightarrow> pci_state option) \<Rightarrow> kernel \<Rightarrow> kernel option" where
  "in_trunk f k = map_option (\<lambda>t. k\<lparr>k_trunk := t\<rparr>) (f (k_trunk k))"

definition with_proc :: "kernel \<Rightarrow> proc_state" where
  "with_proc k = kernel_state.extend (kernel_state.truncate (k_trunk k)) (k_proc k)"

definition in_proc :: "(proc_state \<Rightarrow> ('r \<times> proc_state) option) \<Rightarrow> kernel \<Rightarrow> ('r \<times> kernel) option" where
  "in_proc f k =
     map_option (\<lambda>(r, t). (r, k\<lparr>k_trunk := kernel_state.extend (kernel_state.truncate t) (kernel_state.more (k_trunk k)), k_proc := kernel_state.more t\<rparr>))
       (f (with_proc k))"

definition with_mmio :: "kernel \<Rightarrow> mmio_state" where
  "with_mmio k = pci_state.extend (k_trunk k) (k_mmio k)"

definition from_mmio :: "mmio_state \<Rightarrow> kernel \<Rightarrow> kernel" where
  "from_mmio t k = k\<lparr>k_trunk := pci_state.truncate t, k_mmio := pci_state.more t\<rparr>"

definition with_net :: "kernel \<Rightarrow> net_state" where
  "with_net k = pci_state.extend (k_trunk k) (k_net k)"

definition in_net :: "(net_state \<Rightarrow> ('r \<times> net_state) option) \<Rightarrow> kernel \<Rightarrow> ('r \<times> kernel) option" where
  "in_net f k = map_option (\<lambda>(r, t). (r, k\<lparr>k_trunk := pci_state.truncate t, k_net := pci_state.more t\<rparr>)) (f (with_net k))"

text \<open>
  The queries of the disk drivers that \<open>ext4_init\<close> makes, as functions of the states of both drivers and the memory; \<open>None\<close> in the place of the
  memory is a call that has not returned. The buffer of a port's description is on the stack, at an address that is a parameter.
\<close>

type_synonym disks = "nvme_driver_t \<times> sata_driver_t \<times> mmio_state option"

definition port_info :: "mmio_state sata_env \<Rightarrow> u64 \<Rightarrow> u32 \<Rightarrow> disks \<Rightarrow> bool \<times> disks" where
  "port_info env buffer port d =
     (case d of (nd, sd, m) \<Rightarrow>
        (case Option.bind m (Sata.sata_get_port_info env sd port buffer 256) of
           None \<Rightarrow> (False, nd, sd, None)
         | Some (ok, m1) \<Rightarrow> (ok, nd, sd, Some m1)))"

definition disk_queries :: "mmio_state sata_env \<Rightarrow> u64 \<Rightarrow> disks drivers \<Rightarrow> disks drivers" where
  "disk_queries env buffer drv = drv\<lparr>
     Ext4.nvme_get_namespace_info := (\<lambda>did ns d. (Nvme.nvme_get_namespace_info (fst d) did ns, d)),
     Ext4.nvme_get_device_count := (\<lambda>d. Nvme.nvme_get_device_count (fst d)),
     Ext4.sata_get_port_count := (\<lambda>d. Sata.sata_get_port_count (fst (snd d))),
     Ext4.sata_get_port_info := port_info env buffer\<rparr>"

definition storage_init :: "mmio_state nvme_env \<Rightarrow> mmio_state sata_env \<Rightarrow> kernel \<Rightarrow> (bool \<times> kernel) option" where
  "storage_init nenv senv k = do {
     (nvme_available, nd, t1) \<leftarrow> nvme_init nenv (k_nvme k) (with_mmio k);
     let k1 = (from_mmio t1 k)\<lparr>k_nvme := nd\<rparr>;
     (sata_available, sd, t2) \<leftarrow> sata_init senv (with_mmio k1);
     let k2 = (from_mmio t2 k1)\<lparr>k_sata := sd\<rparr>;
     Some (nvme_available \<or> sata_available, k2) }"

definition in_ext4 :: "(disks world \<Rightarrow> disks world) \<Rightarrow> kernel \<Rightarrow> kernel option" where
  "in_ext4 f k =
     (let w = f \<lparr>w_vmm = kvm (k_trunk k), w_drv = (k_nvme k, k_sata k, Some (with_mmio k)), detected_devices = k_detected k, storage_device_count = k_storage_count k\<rparr>
      in map_option (\<lambda>t. (from_mmio (t\<lparr>kvm := w_vmm w\<rparr>) k)\<lparr>k_detected := detected_devices w, k_storage_count := storage_device_count w\<rparr>) (snd (snd (w_drv w))))"

text \<open>Addresses that the linker assigns, the parameters of the components, and the functions of the disk drivers that the start does not call.\<close>

record kmain_env =
  ke_getc :: u64
  ke_putc :: u64
  ke_eputc :: u64
  ke_message :: u64
  ke_boot :: boot_env
  ke_info :: boot_info
  ke_gdt :: gdt_env
  ke_nvme :: "mmio_state nvme_env"
  ke_sata :: "mmio_state sata_env"
  ke_drivers :: "disks drivers"
  ke_info_buffer :: u64
  ke_process :: process_env
  ke_net :: "net_state net_env"
  ke_net_checker :: u64

text \<open>The state in which the final loop is entered, with the two answers that the messages report.\<close>

definition kmain :: "kmain_env \<Rightarrow> kernel \<Rightarrow> (bool \<times> bool \<times> kernel) option" where
  "kmain e k = do {
     k1 \<leftarrow> in_serial (serial_init_stdio (be_dev (ke_boot e)) (ke_getc e) (ke_putc e) (ke_eputc e) (ke_message e)) k;
     k2 \<leftarrow> in_gdt (gdt_init (ke_gdt e)) k1;
     k3 \<leftarrow> in_trunk (hardware_init (ke_boot e)) k2;
     k4 \<leftarrow> in_trunk (memory_init (ke_boot e) (ke_info e)) k3;
     k5 \<leftarrow> in_trunk (\<lambda>s. Some (pci_init (be_dev (ke_boot e)) s)) k4;
     (storage_available, k6) \<leftarrow> storage_init (ke_nvme e) (ke_sata e) k5;
     k7 \<leftarrow> in_ext4 (ext4_init (disk_queries (ke_sata e) (ke_info_buffer e) (ke_drivers e))) k6;
     (_, k8) \<leftarrow> in_proc (kernel_init_processes (ke_process e)) k7;
     (network_available, k9) \<leftarrow> in_net (network_init (ke_net e) (ke_net_checker e)) k8;
     Some (storage_available, network_available, k9) }"

end
