(* ===== verification/Kernel_Start.thy ===== *)
theory Kernel_Start
  imports Kernel_Main
begin

text \<open>
  What the start of the kernel establishes: the interrupt lines after the initialisation of the hardware, the process subsystem, and that \<open>kmain\<close> gets to its final loop
  on a machine without disks and network cards. Each component contributes what its initialisation changes (\<open>pic_quiet\<close>, \<open>lock_only\<close>, \<open>pci_only\<close>) and
  what holds afterwards (\<open>lines_are\<close>, \<open>timer_ready\<close>, \<open>started\<close>, \<open>no_cards\<close>).
\<close>

section \<open>Interrupt lines after the start of the hardware\<close>

text \<open>Port accesses that leave the mask registers of the interrupt controllers alone.\<close>

definition pic_quiet :: "'a machine_scheme \<Rightarrow> 'a machine_scheme \<Rightarrow> bool" where
  "pic_quiet s t \<longleftrightarrow> (\<exists>l. t = s\<lparr>io_log := l\<rparr> \<and> last_out PIC1_DATA l = last_out PIC1_DATA (io_log s) \<and> last_out PIC2_DATA l = last_out PIC2_DATA (io_log s))"

lemma pic_quiet_refl: "pic_quiet s s"
  unfolding pic_quiet_def by (rule exI [of _ "io_log s"]) simp

lemma pic_quiet_trans: "pic_quiet s t \<Longrightarrow> pic_quiet t u \<Longrightarrow> pic_quiet s u"
  by (auto simp: pic_quiet_def)

lemma pic_quiet_ports:
  "port \<noteq> PIC1_DATA \<Longrightarrow> port \<noteq> PIC2_DATA \<Longrightarrow> pic_quiet s (outb port v s)" "pic_quiet s (snd (inb dev port s))" "pic_quiet s (io_wait s)"
  by (auto simp: pic_quiet_def port_defs Let_def)

lemma mouse_wait_quiet: "pic_quiet s (mouse_wait dev w s)"
proof -
  have "pic_quiet s (mouse_wait_loop dev b n s)" for b n
  proof (induction n arbitrary: s)
    case (Suc n)
    show ?case using Suc [of "snd (inb dev MOUSE_STATUS_PORT s)"] pic_quiet_ports(2) [of s dev MOUSE_STATUS_PORT]
      by (auto simp: split_beta intro: pic_quiet_trans)
  qed (simp add: pic_quiet_refl)
  then show ?thesis unfolding mouse_wait_def by simp
qed

lemma mouse_out_quiet:
  "pic_quiet s (outb MOUSE_COMMAND_PORT v (mouse_wait dev w s))" "pic_quiet s (outb MOUSE_DATA_PORT v (mouse_wait dev w s))"
  "pic_quiet s (snd (inb dev port (mouse_wait dev w s)))"
proof -
  have "MOUSE_COMMAND_PORT \<noteq> PIC1_DATA" "MOUSE_COMMAND_PORT \<noteq> PIC2_DATA" "MOUSE_DATA_PORT \<noteq> PIC1_DATA" "MOUSE_DATA_PORT \<noteq> PIC2_DATA"
    by (simp_all add: MOUSE_COMMAND_PORT_def MOUSE_DATA_PORT_def pic_ports)
  note q = pic_quiet_ports(1) [OF this(1,2)] pic_quiet_ports(1) [OF this(3,4)] pic_quiet_ports(2)
  show "pic_quiet s (outb MOUSE_COMMAND_PORT v (mouse_wait dev w s))" "pic_quiet s (outb MOUSE_DATA_PORT v (mouse_wait dev w s))"
    "pic_quiet s (snd (inb dev port (mouse_wait dev w s)))"
    by (rule pic_quiet_trans [OF mouse_wait_quiet q(1)], rule pic_quiet_trans [OF mouse_wait_quiet q(2)], rule pic_quiet_trans [OF mouse_wait_quiet q(3)])
qed

lemma mouse_init_quiet:
  "\<exists>u. pic_quiet (s\<lparr>interrupt_flag := False, ms_read_index := 0, ms_write_index := 0, packet_stage := 0, have_first_byte := False, ms_callback_count := 0\<rparr>) u \<and>
     mouse_init dev h s = snd (irq_register_handler IRQ_PS2_MOUSE h 0 (u\<lparr>interrupt_flag := True\<rparr>))"
  unfolding mouse_init_def mouse_send_command_def mouse_read_def Let_def split_beta
  by (intro exI conjI, rule_tac [2] refl)
     (intro pic_quiet_trans [OF _ mouse_out_quiet(1)] pic_quiet_trans [OF _ mouse_out_quiet(2)] pic_quiet_trans [OF _ mouse_out_quiet(3)] pic_quiet_refl)

text \<open>The masks that both controllers hold, in agreement with the table of enabled lines.\<close>

definition lines_are :: "u8 \<Rightarrow> u8 \<Rightarrow> 'a irq_state_scheme \<Rightarrow> bool" where
  "lines_are m sl s \<longleftrightarrow> lines_sync s \<and> pic_master_mask s = m \<and> pic_slave_mask s = sl"

lemma lines_are_enable:
  "lines_are 0xFF 0xFF s \<Longrightarrow> lines_are 0xFE 0xFF (irq_enable IRQ_TIMER s)" "lines_are 0xFE 0xFF s \<Longrightarrow> lines_are 0xFC 0xFF (irq_enable IRQ_KEYBOARD s)"
  "lines_are 0xFC 0xFF s \<Longrightarrow> lines_are 0xF8 0xEF (irq_enable IRQ_PS2_MOUSE s)" "lines_are 0xFE 0xFF s \<Longrightarrow> pic_enable_irq IRQ_TIMER s = s"
proof -
  have n: "\<not> 16 \<le> (1 :: u8)" "(1 :: u8) < 8" by (simp_all add: word_le_nat_alt word_less_nat_alt)
  show "lines_are 0xFF 0xFF s \<Longrightarrow> lines_are 0xFE 0xFF (irq_enable IRQ_TIMER s)" "lines_are 0xFE 0xFF s \<Longrightarrow> lines_are 0xFC 0xFF (irq_enable IRQ_KEYBOARD s)"
    "lines_are 0xFC 0xFF s \<Longrightarrow> lines_are 0xF8 0xEF (irq_enable IRQ_PS2_MOUSE s)" "lines_are 0xFE 0xFF s \<Longrightarrow> pic_enable_irq IRQ_TIMER s = s"
    by (simp_all add: lines_are_def lines_sync_enable)
       (simp_all add: irq_enable_def pic_enable_irq_def Let_def port_defs IRQ_TIMER_def IRQ_KEYBOARD_def IRQ_PS2_MOUSE_def n)
qed

lemma lines_are_hw:
  assumes "lines_are 0xF8 0xEF s" "i < 16"
  shows "hw_masked s i = (i \<notin> {0, 1, 2, 12})"
proof -
  have "i \<in> set [0..<16]" using assms(2) by simp
  then have "masked 0xF8 0xEF i = (i \<notin> {0, 1, 2, 12})"
    by (auto simp: upt_rec masked_def bit_numeral_rec)
  then show ?thesis using assms(1) by (simp add: lines_are_def lines_sync_def pic_sync_def hw_masked_def)
qed

lemma lines_are_cong:
  assumes "lines_are m sl s" "pic_initialized t = pic_initialized s" "irq_enabled_mask t = irq_enabled_mask s"
    "pic_master_mask t = pic_master_mask s" "pic_slave_mask t = pic_slave_mask s"
    "last_out PIC1_DATA (io_log t) = last_out PIC1_DATA (io_log s)" "last_out PIC2_DATA (io_log t) = last_out PIC2_DATA (io_log s)"
  shows "lines_are m sl t"
  using assms(1,4,5) lines_sync_cong [OF _ assms(2-7)] by (simp add: lines_are_def)

lemma lines_are_quiet: "lines_are m sl s \<Longrightarrow> pic_quiet s t \<Longrightarrow> lines_are m sl t"
  using lines_are_cong [of m sl s t] by (auto simp: pic_quiet_def)

text \<open>A line with no handler yet: its first slot is free and its registration opens the line.\<close>

definition free_row :: "irq_handler_entry_t list \<Rightarrow> bool" where
  "free_row r \<longleftrightarrow> r \<noteq> [] \<and> \<not> ih_active (r ! 0)"

definition handler_entry :: "u64 \<Rightarrow> irq_handler_entry_t" where
  "handler_entry h = \<lparr>ih_handler = h, ih_context = 0, ih_active = True\<rparr>"

lemma find_slot_first: "r \<noteq> [] \<Longrightarrow> P (r ! 0) \<Longrightarrow> find_slot P r = Some 0"
  unfolding find_slot_def by (cases r) (simp_all add: upt_conv_Cons del: upt_Suc)

lemma register_first:
  assumes "\<not> 16 \<le> irq" "h \<noteq> 0" "free_row (irq_handlers s ! unat irq)"
  shows "irq_register_handler irq h 0 s =
    (True, irq_enable irq (s\<lparr>irq_handlers := (irq_handlers s)[unat irq := (irq_handlers s ! unat irq)[0 := handler_entry h]]\<rparr>))"
proof -
  have "find_slot (\<lambda>e. \<not> ih_active e) (irq_handlers s ! unat irq) = Some 0"
    using assms(3) unfolding free_row_def by (intro find_slot_first) auto
  then show ?thesis using assms(1,2) by (simp add: irq_register_handler_def handler_entry_def)
qed

lemma set_exception_gates_idt: "\<exists>g. set_exception_gates st n s = s\<lparr>idt := g\<rparr>"
proof -
  have "\<exists>g. fold (\<lambda>i t. if st ! i = 0 then t else idt_set_gate (of_nat i) (st ! i) 0x08 IDT_GATE_INTERRUPT 0 t) is s = s\<lparr>idt := g\<rparr>" for "is"
  proof (induction "is" arbitrary: s)
    case Nil
    show ?case by (rule exI [of _ "idt s"]) simp
  next
    case (Cons i "is")
    obtain g where g: "(if st ! i = 0 then s else idt_set_gate (of_nat i) (st ! i) 0x08 IDT_GATE_INTERRUPT 0 s) = s\<lparr>idt := g\<rparr>"
      by (cases "st ! i = 0 \<or> IDT_ENTRIES \<le> unat (of_nat i :: u8)") (fastforce simp: idt_set_gate_def intro: that [of "idt s"])+
    show ?case using Cons [of "s\<lparr>idt := g\<rparr>"] by (auto simp: g)
  qed
  then show ?thesis by (simp add: set_exception_gates_def)
qed

lemma idt_init_frame:
  assumes "\<not> idt_initialized s" "tab \<noteq> 0"
  shows "\<exists>g r. idt_init st tab s = Some (s\<lparr>idt := g, idtr := r, idt_initialized := True, idt_loaded := Some r\<rparr>)"
proof -
  define s1 where "s1 = s\<lparr>idt_initialized := True, idt := replicate IDT_ENTRIES zero_gate, idtr := \<lparr>idtr_limit = 16 * 256 - 1, idtr_base = tab\<rparr>\<rparr>"
  obtain g where "set_exception_gates st 32 s1 = s1\<lparr>idt := g\<rparr>" using set_exception_gates_idt by blast
  then show ?thesis using assms
    by (intro exI [of _ g] exI [of _ "\<lparr>idtr_limit = 16 * 256 - 1, idtr_base = tab\<rparr>"]) (simp add: idt_init_def Let_def s1_def [symmetric], simp add: s1_def)
qed

lemma irq_setup_isrs_idt: "\<exists>g. irq_setup_isrs st s = s\<lparr>idt := g\<rparr>"
proof -
  have "\<exists>g. fold (\<lambda>i t. idt_set_handler (f i) (h i) x t) is s = s\<lparr>idt := g\<rparr>" for f h x and "is" :: "nat list"
  proof (induction "is" arbitrary: s)
    case Nil
    show ?case by (rule exI [of _ "idt s"]) simp
  next
    case (Cons i "is")
    obtain g where g: "idt_set_handler (f i) (h i) x s = s\<lparr>idt := g\<rparr>"
      by (cases "IDT_ENTRIES \<le> unat (f i)") (fastforce simp: idt_set_handler_def idt_set_gate_def intro: that [of "idt s"])+
    show ?case using Cons [of "s\<lparr>idt := g\<rparr>"] by (auto simp: g)
  qed
  then show ?thesis by (simp add: irq_setup_isrs_def)
qed

lemma pic_irq_init:
  assumes "\<not> irq_system_initialized s" "\<not> pic_initialized s" "pic_master_mask s = 0xFF" "pic_slave_mask s = 0xFF"
  shows "\<exists>t. irq_init st (pic_init mo so s) = t \<and> lines_are 0xFF 0xFF t \<and> irq_handlers t = irq_handlers s \<and> interrupt_flag t = interrupt_flag s \<and>
    irq_state.more t = irq_state.more s"
proof -
  define p where "p = pic_init mo so s"
  have p: "pic_initialized p" "pic_master_mask p = 0xFF" "pic_slave_mask p = 0xFF" "\<not> irq_system_initialized p" "irq_handlers p = irq_handlers s"
    "irq_state.more p = irq_state.more s" "interrupt_flag p = interrupt_flag s"
    using assms by (simp_all add: p_def pic_init_def Let_def port_defs)
  have pp: "pic_init IRQ_BASE_VECTOR (IRQ_BASE_VECTOR + 8) p = p" using p(1) by (simp add: pic_init_def)
  obtain g where g: "irq_setup_isrs st p = p\<lparr>idt := g\<rparr>" using irq_setup_isrs_idt by blast
  have "masked 0xFF 0xFF i" if "i < 16" for i
  proof -
    have "i \<in> set [0..<16]" using that by simp
    then show ?thesis by (auto simp: upt_rec masked_def bit_numeral_rec)
  qed
  then show ?thesis
    using p unfolding p_def [symmetric]
    by (simp add: irq_init_def pp g irq_set_all_masked_def lines_are_def lines_sync_def pic_sync_def port_defs pic_ports)
qed

lemma timer_init_line:
  assumes "\<not> timer_initialized s" "lines_are 0xFF 0xFF s" "h \<noteq> 0" "free_row (irq_handlers s ! 0)"
  shows "\<exists>t. timer_init h 1000 s = Some t \<and> lines_are 0xFE 0xFF t \<and> irq_handlers t = (irq_handlers s)[0 := (irq_handlers s ! 0)[0 := handler_entry h]] \<and>
    timer_initialized t \<and> timer_frequency t = 1000 \<and> timer_callbacks t = replicate 16 empty_callback \<and> timer_callbacks_lock t = timer_callbacks_lock s \<and>
    timer_tick_count t = timer_tick_count s \<and> timer_state.more t = timer_state.more s"
proof -
  define s1 where "s1 = timer_set_frequency 1000 (s\<lparr>timer_callbacks := replicate MAX_TIMER_CALLBACKS empty_callback\<rparr>)"
  have f: "pic_initialized s1 = pic_initialized s" "irq_enabled_mask s1 = irq_enabled_mask s" "pic_master_mask s1 = pic_master_mask s" "pic_slave_mask s1 = pic_slave_mask s"
    "last_out PIC1_DATA (io_log s1) = last_out PIC1_DATA (io_log s)" "last_out PIC2_DATA (io_log s1) = last_out PIC2_DATA (io_log s)"
    and s1: "irq_handlers s1 = irq_handlers s" "timer_frequency s1 = 1000" "timer_callbacks s1 = replicate 16 empty_callback" "timer_callbacks_lock s1 = timer_callbacks_lock s"
      "timer_tick_count s1 = timer_tick_count s" "timer_state.more s1 = timer_state.more s"
    by (simp_all add: s1_def timer_set_frequency_def timer_effective_def idt_enable_interrupts_def idt_disable_interrupts_def Let_def port_defs
        PIT_COMMAND_def PIT_CHANNEL0_DATA_def pic_ports PIT_BASE_FREQUENCY_def MAX_TIMER_CALLBACKS_def)
  let ?r = "s1\<lparr>irq_handlers := (irq_handlers s)[0 := (irq_handlers s ! 0)[0 := handler_entry h]]\<rparr>"
  have "lines_are 0xFF 0xFF ?r" by (rule lines_are_cong [OF assms(2)]) (simp_all add: f)
  then have e: "lines_are 0xFE 0xFF (irq_enable IRQ_TIMER ?r)" by (rule lines_are_enable(1))
  have "irq_register_handler IRQ_TIMER h 0 s1 = (True, irq_enable IRQ_TIMER ?r)"
    using register_first [of IRQ_TIMER h s1] assms(3,4) by (simp add: s1 IRQ_TIMER_def)
  then have "timer_init h 1000 s = Some ((irq_enable IRQ_TIMER ?r)\<lparr>timer_initialized := True\<rparr>)"
    using assms(1) lines_are_enable(4) [OF e] by (simp add: timer_init_def s1_def [symmetric])
  moreover have "lines_are 0xFE 0xFF ((irq_enable IRQ_TIMER ?r)\<lparr>timer_initialized := True\<rparr>)" by (rule lines_are_cong [OF e]) simp_all
  ultimately show ?thesis by (simp add: s1 irq_enable_def pic_enable_irq_def Let_def port_defs)
qed

lemma more_fields:
  "irq_state.more t = irq_state.more s \<Longrightarrow> timer_initialized t = timer_initialized s \<and> timer_callbacks_lock t = timer_callbacks_lock s \<and>
     timer_tick_count t = timer_tick_count s \<and> timer_state.more t = timer_state.more s"
  "timer_state.more u = timer_state.more v \<Longrightarrow> mouse_state.more u = mouse_state.more v"
  by (cases s; cases t; simp) (cases u; cases v; simp)

text \<open>The table of callbacks and the frequency of the timer as the start leaves them.\<close>

definition timer_ready :: "'a timer_state_scheme \<Rightarrow> bool" where
  "timer_ready s \<longleftrightarrow> timer_initialized s \<and> timer_frequency s = 1000 \<and> timer_callbacks s = replicate 16 empty_callback \<and> \<not> timer_callbacks_lock s"

text \<open>The static initial values that the start relies on.\<close>

definition fresh_hardware :: "boot_env \<Rightarrow> 'a timer_state_scheme \<Rightarrow> bool" where
  "fresh_hardware env s \<longleftrightarrow> \<not> idt_initialized s \<and> \<not> irq_system_initialized s \<and> \<not> pic_initialized s \<and> \<not> timer_initialized s \<and> \<not> timer_callbacks_lock s \<and>
     pic_master_mask s = 0xFF \<and> pic_slave_mask s = 0xFF \<and> free_row (irq_handlers s ! 0) \<and> free_row (irq_handlers s ! 1) \<and> free_row (irq_handlers s ! 12) \<and>
     be_idt_table env \<noteq> 0 \<and> be_timer_handler env \<noteq> 0 \<and> be_keyboard_handler env \<noteq> 0 \<and> be_mouse_handler env \<noteq> 0"

lemma keyboard_init_line:
  assumes "lines_are 0xFE 0xFF s" "h \<noteq> 0" "free_row (irq_handlers s ! 1)" "timer_ready s"
  shows "lines_are 0xFC 0xFF (keyboard_init h s) \<and> irq_handlers (keyboard_init h s) = (irq_handlers s)[1 := (irq_handlers s ! 1)[0 := handler_entry h]] \<and>
    timer_ready (keyboard_init h s) \<and> mouse_state.more (keyboard_init h s) = mouse_state.more s"
proof -
  define s1 where "s1 = s\<lparr>kb_read_index := 0, kb_write_index := 0, kb_modifiers := 0, kb_callback_count := 0\<rparr>"
  let ?r = "s1\<lparr>irq_handlers := (irq_handlers s)[1 := (irq_handlers s ! 1)[0 := handler_entry h]]\<rparr>"
  have n: "\<not> 16 \<le> (1 :: u8)" by (simp add: word_le_nat_alt)
  have "lines_are 0xFE 0xFF ?r" by (rule lines_are_cong [OF assms(1)]) (simp_all add: s1_def)
  then have e: "lines_are 0xFC 0xFF (irq_enable IRQ_KEYBOARD ?r)" by (rule lines_are_enable(2))
  have "irq_register_handler IRQ_KEYBOARD h 0 s1 = (True, irq_enable IRQ_KEYBOARD ?r)"
    using register_first [of IRQ_KEYBOARD h s1] assms(2,3) by (simp add: s1_def IRQ_KEYBOARD_def n)
  then have k: "keyboard_init h s = irq_enable IRQ_KEYBOARD ?r" by (simp add: keyboard_init_def s1_def [symmetric])
  show ?thesis unfolding k using e assms(4) by (simp add: irq_enable_def pic_enable_irq_def Let_def port_defs timer_ready_def s1_def)
qed

lemma mouse_init_line:
  assumes "lines_are 0xFC 0xFF s" "h \<noteq> 0" "free_row (irq_handlers s ! 12)" "timer_ready s"
  shows "lines_are 0xF8 0xEF (mouse_init dev h s) \<and> irq_handlers (mouse_init dev h s) = (irq_handlers s)[12 := (irq_handlers s ! 12)[0 := handler_entry h]] \<and>
    timer_ready (mouse_init dev h s) \<and> mouse_state.more (mouse_init dev h s) = mouse_state.more s"
proof -
  define s0 where "s0 = s\<lparr>interrupt_flag := False, ms_read_index := 0, ms_write_index := 0, packet_stage := 0, have_first_byte := False, ms_callback_count := 0\<rparr>"
  obtain u where u: "pic_quiet s0 u" "mouse_init dev h s = snd (irq_register_handler IRQ_PS2_MOUSE h 0 (u\<lparr>interrupt_flag := True\<rparr>))"
    using mouse_init_quiet [of s dev h] unfolding s0_def by blast
  define s1 where "s1 = u\<lparr>interrupt_flag := True\<rparr>"
  obtain l where l: "u = s0\<lparr>io_log := l\<rparr>" "last_out PIC1_DATA l = last_out PIC1_DATA (io_log s)" "last_out PIC2_DATA l = last_out PIC2_DATA (io_log s)"
    using u(1) by (auto simp: pic_quiet_def s0_def)
  let ?r = "s1\<lparr>irq_handlers := (irq_handlers s)[12 := (irq_handlers s ! 12)[0 := handler_entry h]]\<rparr>"
  have "lines_are 0xFC 0xFF ?r" by (rule lines_are_cong [OF assms(1)]) (simp_all add: s1_def s0_def l)
  then have e: "lines_are 0xF8 0xEF (irq_enable IRQ_PS2_MOUSE ?r)" by (rule lines_are_enable(3))
  have "irq_register_handler IRQ_PS2_MOUSE h 0 s1 = (True, irq_enable IRQ_PS2_MOUSE ?r)"
    using register_first [of IRQ_PS2_MOUSE h s1] assms(2,3) by (simp add: s1_def s0_def l(1) IRQ_PS2_MOUSE_def)
  then have m: "mouse_init dev h s = irq_enable IRQ_PS2_MOUSE ?r" by (simp add: u(2) s1_def [symmetric])
  show ?thesis unfolding m using e assms(4) by (simp add: irq_enable_def pic_enable_irq_def Let_def port_defs timer_ready_def s1_def s0_def l(1))
qed

lemma hardware_init_lines:
  assumes "fresh_hardware env s"
  shows "\<exists>t. hardware_init env s = Some t \<and> interrupt_flag t \<and> lines_are 0xF8 0xEF t \<and> timer_ready t \<and> mouse_state.more t = mouse_state.more s \<and>
    irq_handlers t = (irq_handlers s)[0 := (irq_handlers s ! 0)[0 := handler_entry (be_timer_handler env)],
      1 := (irq_handlers s ! 1)[0 := handler_entry (be_keyboard_handler env)], 12 := (irq_handlers s ! 12)[0 := handler_entry (be_mouse_handler env)]]"
proof -
  note F = assms [unfolded fresh_hardware_def]
  obtain s1 where s1: "idt_init (be_isr_stubs env) (be_idt_table env) s = Some s1" "irq_state.more s1 = irq_state.more s" "irq_handlers s1 = irq_handlers s"
    "\<not> irq_system_initialized s1" "\<not> pic_initialized s1" "pic_master_mask s1 = 0xFF" "pic_slave_mask s1 = 0xFF"
    using idt_init_frame [of s "be_idt_table env" "be_isr_stubs env"] F by auto
  obtain s3 where s3: "irq_init (be_irq_stubs env) (pic_init 0x20 0x28 s1) = s3" "lines_are 0xFF 0xFF s3" "irq_handlers s3 = irq_handlers s"
    "irq_state.more s3 = irq_state.more s"
    using pic_irq_init [OF s1(4-7), of "be_irq_stubs env" "0x20" "0x28"] s1(2,3) by auto
  note M = more_fields(1) [OF s3(4)]
  have i: "\<not> timer_initialized s3" "\<not> timer_callbacks_lock s3" using M F by simp_all
  have r: "be_timer_handler env \<noteq> 0" "free_row (irq_handlers s3 ! 0)" using F s3(3) by simp_all
  obtain s4 where t4: "timer_init (be_timer_handler env) 1000 s3 = Some s4 \<and> lines_are 0xFE 0xFF s4 \<and>
      irq_handlers s4 = (irq_handlers s3)[0 := (irq_handlers s3 ! 0)[0 := handler_entry (be_timer_handler env)]] \<and>
      timer_initialized s4 \<and> timer_frequency s4 = 1000 \<and> timer_callbacks s4 = replicate 16 empty_callback \<and> timer_callbacks_lock s4 = timer_callbacks_lock s3 \<and>
      timer_tick_count s4 = timer_tick_count s3 \<and> timer_state.more s4 = timer_state.more s3"
    using timer_init_line [OF i(1) s3(2) r] by (rule exE)
  then have s4: "timer_init (be_timer_handler env) 1000 s3 = Some s4" "lines_are 0xFE 0xFF s4" "timer_ready s4" "timer_state.more s4 = timer_state.more s3"
    "irq_handlers s4 = (irq_handlers s)[0 := (irq_handlers s ! 0)[0 := handler_entry (be_timer_handler env)]]"
    using i(2) s3(3) by (simp_all add: timer_ready_def)
  have more: "mouse_state.more s4 = mouse_state.more s" using s4(4) M by (intro more_fields(2)) simp
  define s5 where "s5 = keyboard_init (be_keyboard_handler env) s4"
  define s6 where "s6 = mouse_init (be_dev env) (be_mouse_handler env) s5"
  have "be_keyboard_handler env \<noteq> 0" "free_row (irq_handlers s4 ! 1)" using F s4(5) by simp_all
  note k = keyboard_init_line [OF s4(2) this s4(3), folded s5_def]
  have "be_mouse_handler env \<noteq> 0" "free_row (irq_handlers s5 ! 12)" using F k s4(5) by simp_all
  note m = mouse_init_line [OF k [THEN conjunct1] this k [THEN conjunct2, THEN conjunct2, THEN conjunct1], of "be_dev env", folded s6_def]
  have "hardware_init env s = Some (s6\<lparr>interrupt_flag := True\<rparr>)"
    unfolding hardware_init_def s1(1) Option.bind.simps Let_def s3(1) s4(1) s5_def [symmetric] s6_def [symmetric] idt_enable_interrupts_def by (rule refl)
  moreover have "lines_are 0xF8 0xEF (s6\<lparr>interrupt_flag := True\<rparr>)" by (rule lines_are_cong [OF m [THEN conjunct1]]) simp_all
  moreover have "timer_ready (s6\<lparr>interrupt_flag := True\<rparr>)" using m [THEN conjunct2, THEN conjunct2, THEN conjunct1] by (simp add: timer_ready_def)
  moreover have "irq_handlers s6 = (irq_handlers s)[0 := (irq_handlers s ! 0)[0 := handler_entry (be_timer_handler env)],
      1 := (irq_handlers s ! 1)[0 := handler_entry (be_keyboard_handler env)], 12 := (irq_handlers s ! 12)[0 := handler_entry (be_mouse_handler env)]]"
    using k m s4(5) by simp
  moreover have "mouse_state.more s6 = mouse_state.more s" using k m more by simp
  ultimately show ?thesis by simp
qed

section \<open>The scheduler after the start\<close>

text \<open>What the operations on locks change.\<close>

definition lock_only :: "'a lock_state_scheme \<Rightarrow> 'a lock_state_scheme \<Rightarrow> bool" where
  "lock_only s t \<longleftrightarrow> (\<exists>l tr n. t = s\<lparr>locks := l, spinlock_tracking := tr, spinlock_tracking_count := n\<rparr>)"

lemma lock_only_refl: "lock_only s s"
  unfolding lock_only_def by (rule exI [of _ "locks s"], rule exI [of _ "spinlock_tracking s"], rule exI [of _ "spinlock_tracking_count s"]) simp

lemma lock_only_trans: "lock_only s t \<Longrightarrow> lock_only t u \<Longrightarrow> lock_only s u"
  unfolding lock_only_def by (elim exE) (simp, blast)

lemma lock_only_set: "lock_only s (set_lock p l s)" "lock_only s (s\<lparr>spinlock_tracking := tr\<rparr>)" "lock_only s (s\<lparr>spinlock_tracking_count := n, spinlock_tracking := tr\<rparr>)"
proof -
  show "lock_only s (set_lock p l s)" unfolding lock_only_def set_lock_def
    by (rule exI, rule exI [of _ "spinlock_tracking s"], rule exI [of _ "spinlock_tracking_count s"]) simp
  show "lock_only s (s\<lparr>spinlock_tracking := tr\<rparr>)" unfolding lock_only_def
    by (rule exI [of _ "locks s"], rule exI, rule exI [of _ "spinlock_tracking_count s"]) simp
  show "lock_only s (s\<lparr>spinlock_tracking_count := n, spinlock_tracking := tr\<rparr>)" unfolding lock_only_def
    by (rule exI [of _ "locks s"], rule exI [of _ tr], rule exI [of _ n]) simp
qed

lemma spinlock_init_only: "lock_only s (spinlock_init p s)"
  unfolding spinlock_init_def spinlock_init_flags_def Let_def
  by (auto intro!: lock_only_refl lock_only_set(1) lock_only_trans [OF lock_only_set(1) lock_only_set(3)] split del: if_split split: if_split)

lemma spinlock_set_name_only: "lock_only s (spinlock_set_name tb p nm s)"
  by (auto simp: spinlock_set_name_def intro: lock_only_refl lock_only_set(2) split: option.split)

lemma spinlock_cycle:
  assumes "p \<noteq> 0" "locks s p = \<lparr>sl_value = 0, sl_owner = 0\<rparr>"
  shows "\<exists>t. spinlock_acquire tb ra p s = Some t \<and> lock_only s t"
  using assms
  by (auto simp: spinlock_acquire_def atomic_test_and_set_def Let_def
      intro: lock_only_set(1) lock_only_trans [OF lock_only_set(1) lock_only_set(2)] split: option.split)

lemma spinlock_release_only: "lock_only s (spinlock_release p s)"
proof (cases "p = 0")
  case False
  then show ?thesis
    by (auto simp: spinlock_release_def Let_def intro: lock_only_trans [OF lock_only_set(1) lock_only_set(1)])
qed (simp add: spinlock_release_def lock_only_refl)

definition sched_entry :: "process_env \<Rightarrow> 'a timer_state_scheme \<Rightarrow> timer_callback_entry_t" where
  "sched_entry env s = \<lparr>tc_callback = timer_callback_addr env, tc_context = 0, tc_interval_ms = 1,
     tc_next_tick = timer_tick_count s + tick_increment 1 (timer_frequency s), tc_active = True\<rparr>"

definition idle_entry :: "vmm_state \<Rightarrow> process_t" where
  "idle_entry v = zero_process\<lparr>pr_pid := 0, pr_state := PROCESS_STATE_READY, pr_name := name_field 32 (map of_char ''kernel_idle''),
     pr_context := zero_regs\<lparr>c_cr3 := vmm_get_current_address_space v\<rparr>, pr_quantum := - 1, pr_base_priority := - 20, pr_dynamic_priority := - 20\<rparr>"

lemma scheduler_init_room:
  assumes "timer_initialized s" "\<not> timer_callbacks_lock s" "timer_callback_addr env \<noteq> 0" "size (slot_entries tc_active (timer_callbacks s)) < length (timer_callbacks s)"
  shows "\<exists>tc. process_scheduler_init env s = Some (True, s\<lparr>timer_callbacks := tc\<rparr>) \<and> length tc = length (timer_callbacks s) \<and>
    slot_entries tc_active tc = add_mset (sched_entry env s) (slot_entries tc_active (timer_callbacks s))"
proof -
  have "tc_active (sched_entry env s)" by (simp add: sched_entry_def)
  from timer_table.register_room [OF this assms(4)] show ?thesis
    using timer_register_table [OF assms(3) _ assms(1,2), of 1 0] by (auto simp: process_scheduler_init_def sched_entry_def)
qed

lemma idle_registered:
  assumes "process_lock env \<noteq> 0" "locks s (process_lock env) = \<lparr>sl_value = 0, sl_owner = 0\<rparr>" "process_table s = replicate PROCESS_MAX_COUNT zero_process"
  shows "\<exists>t. process_register_kernel_idle env s = Some (True, t) \<and>
    lock_only (s\<lparr>process_table := idle_entry (kvm s) # replicate 63 zero_process, idle_process := Some 0, current_process := Some 0\<rparr>) t"
proof -
  obtain l tr n where a: "proc_lock env s = Some (s\<lparr>locks := l, spinlock_tracking := tr, spinlock_tracking_count := n\<rparr>)"
    using spinlock_cycle [OF assms(1,2), of "lock_track_base env" "return_addr env"] unfolding proc_lock_def lock_only_def by blast
  have r: "replicate PROCESS_MAX_COUNT zero_process = zero_process # replicate 63 zero_process" by (simp add: PROCESS_MAX_COUNT_def numeral_eq_Suc)
  define s1 where "s1 = s\<lparr>locks := l, spinlock_tracking := tr, spinlock_tracking_count := n, process_table := idle_entry (kvm s) # replicate 63 zero_process,
    idle_process := Some 0, current_process := Some 0\<rparr>"
  have "lock_only (s\<lparr>process_table := idle_entry (kvm s) # replicate 63 zero_process, idle_process := Some 0, current_process := Some 0\<rparr>) s1"
    unfolding lock_only_def s1_def by (rule exI [of _ l], rule exI [of _ tr], rule exI [of _ n]) simp
  then have "lock_only (s\<lparr>process_table := idle_entry (kvm s) # replicate 63 zero_process, idle_process := Some 0, current_process := Some 0\<rparr>) (proc_unlock env s1)"
    unfolding proc_unlock_def by (rule lock_only_trans [OF _ spinlock_release_only])
  moreover have "process_register_kernel_idle env s = Some (True, proc_unlock env s1)"
    using assms(3) by (simp add: process_register_kernel_idle_def a Let_def upd_def r s1_def idle_entry_def)
  ultimately show ?thesis by blast
qed

lemma init_processes_result:
  assumes ti: "timer_initialized s" "\<not> timer_callbacks_lock s" and env: "process_lock env \<noteq> 0" "timer_callback_addr env \<noteq> 0"
    and room: "size (slot_entries tc_active (timer_callbacks s)) + 2 \<le> length (timer_callbacks s)"
  shows "\<exists>t tc. kernel_init_processes env s = Some (True, t) \<and>
    lock_only (s\<lparr>timer_callbacks := tc, process_table := idle_entry (kvm s) # replicate 63 zero_process, idle_process := Some 0, current_process := Some 0\<rparr>) t \<and>
    slot_entries tc_active tc = slot_entries tc_active (timer_callbacks s) + {#sched_entry env s, sched_entry env s#}"
proof -
  define p where "p = s\<lparr>process_table := replicate PROCESS_MAX_COUNT zero_process\<rparr>"
  define q where "q = spinlock_set_name (lock_track_base env) (process_lock env)
    [0x70, 0x72, 0x6F, 0x63, 0x65, 0x73, 0x73, 0x5F, 0x6C, 0x6F, 0x63, 0x6B] (spinlock_init (process_lock env) p)"
  have "lock_only p q" unfolding q_def by (rule lock_only_trans [OF spinlock_init_only spinlock_set_name_only])
  then obtain l tr n where q: "q = p\<lparr>locks := l, spinlock_tracking := tr, spinlock_tracking_count := n\<rparr>" unfolding lock_only_def by blast
  have free: "locks q (process_lock env) = \<lparr>sl_value = 0, sl_owner = 0\<rparr>"
    using spinlock_init_frame [OF env(1), of p] by (simp add: q_def spinlock_name_frame)
  have "timer_initialized q" "\<not> timer_callbacks_lock q" and tq: "timer_callbacks q = timer_callbacks s" using ti by (simp_all add: q p_def)
  from scheduler_init_room [OF this(1,2) env(2)] room obtain t1 where
    1: "process_scheduler_init env q = Some (True, q\<lparr>timer_callbacks := t1\<rparr>)" "length t1 = length (timer_callbacks s)"
      "slot_entries tc_active t1 = add_mset (sched_entry env q) (slot_entries tc_active (timer_callbacks s))" by (auto simp: tq)
  have "timer_initialized (q\<lparr>timer_callbacks := t1\<rparr>)" "\<not> timer_callbacks_lock (q\<lparr>timer_callbacks := t1\<rparr>)"
    "size (slot_entries tc_active (timer_callbacks (q\<lparr>timer_callbacks := t1\<rparr>))) < length (timer_callbacks (q\<lparr>timer_callbacks := t1\<rparr>))"
    using ti room 1 by (simp_all add: q p_def)
  from scheduler_init_room [OF this(1,2) env(2) this(3)] obtain t2 where
    2: "process_scheduler_init env (q\<lparr>timer_callbacks := t1\<rparr>) = Some (True, q\<lparr>timer_callbacks := t2\<rparr>)"
      "slot_entries tc_active t2 = add_mset (sched_entry env (q\<lparr>timer_callbacks := t1\<rparr>)) (slot_entries tc_active t1)" by auto
  have "process_table (q\<lparr>timer_callbacks := t2\<rparr>) = replicate PROCESS_MAX_COUNT zero_process" by (simp add: q p_def)
  from idle_registered [OF env(1) _ this] free obtain t where t: "process_register_kernel_idle env (q\<lparr>timer_callbacks := t2\<rparr>) = Some (True, t)"
    "lock_only (q\<lparr>timer_callbacks := t2, process_table := idle_entry (kvm q) # replicate 63 zero_process, idle_process := Some 0, current_process := Some 0\<rparr>) t"
    by auto
  have "kernel_init_processes env s = Some (True, t)"
    by (simp add: kernel_init_processes_def process_init_def Let_def p_def [symmetric] q_def [symmetric] 1(1) 2(1) t(1) process_arch_init_def)
  moreover have "lock_only (s\<lparr>timer_callbacks := t2, process_table := idle_entry (kvm s) # replicate 63 zero_process, idle_process := Some 0, current_process := Some 0\<rparr>) t"
    using t(2) unfolding lock_only_def by (elim exE) (simp add: q p_def, blast)
  moreover have "sched_entry env q = sched_entry env s" "sched_entry env (q\<lparr>timer_callbacks := t1\<rparr>) = sched_entry env s" by (simp_all add: sched_entry_def q p_def)
  ultimately show ?thesis using 1(3) 2(2) by auto
qed

text \<open>
  C18. The start of the process subsystem: with room in the table of timer callbacks it succeeds, the table of processes holds the idle process alone, which is the current one,
  and the callback of the scheduler is registered twice, once inside \<open>process_init\<close> and once by \<open>kernel_init_processes\<close>, so that every millisecond
  is charged twice to the running process.
\<close>

theorem kernel_init_processes_twice:
  assumes "timer_initialized s" "\<not> timer_callbacks_lock s" "process_lock env \<noteq> 0" "timer_callback_addr env \<noteq> 0"
    and "size (slot_entries tc_active (timer_callbacks s)) + 2 \<le> length (timer_callbacks s)"
  shows "\<exists>t e. kernel_init_processes env s = Some (True, t) \<and> current_process t = Some 0 \<and> idle_process t = Some 0 \<and>
    process_table t = idle_entry (kvm s) # replicate 63 zero_process \<and>
    slot_entries tc_active (timer_callbacks t) = slot_entries tc_active (timer_callbacks s) + {#e, e#} \<and> tc_callback e = timer_callback_addr env \<and> tc_interval_ms e = 1"
proof -
  obtain t tc where t: "kernel_init_processes env s = Some (True, t)"
    "lock_only (s\<lparr>timer_callbacks := tc, process_table := idle_entry (kvm s) # replicate 63 zero_process, idle_process := Some 0, current_process := Some 0\<rparr>) t"
    "slot_entries tc_active tc = slot_entries tc_active (timer_callbacks s) + {#sched_entry env s, sched_entry env s#}"
    using init_processes_result [OF assms] by blast
  have "current_process t = Some 0 \<and> idle_process t = Some 0 \<and> process_table t = idle_entry (kvm s) # replicate 63 zero_process \<and> timer_callbacks t = tc"
    using t(2) unfolding lock_only_def by (elim exE) simp
  with t(1,3) show ?thesis by (intro exI [of _ t] exI [of _ "sched_entry env s"]) (simp add: sched_entry_def)
qed

theorem kernel_init_processes_twice_witness:
  "\<exists>t e. kernel_init_processes env_demo boot_demo = Some (True, t) \<and> slot_entries tc_active (timer_callbacks t) = {#e, e#} \<and> tc_callback e = 0x5000"
proof -
  have "timer_initialized boot_demo" "\<not> timer_callbacks_lock boot_demo" "timer_callbacks boot_demo = replicate 16 empty_callback"
    by (simp_all add: boot_demo_def kernel_state.defs kernel_demo_def lock_state.defs lock_demo_def mouse_state.defs mouse_demo_def keyboard_state.defs keyboard_demo_def timer_state.defs timer_demo_def irq_state.defs)
  then show ?thesis using kernel_init_processes_twice [of boot_demo env_demo] by (auto simp: env_demo_def slot_entries_def empty_callback_def)
qed

section \<open>The start without disks and network cards\<close>

text \<open>What the enumeration of the bus changes.\<close>

definition pci_only :: "'a pci_state_scheme \<Rightarrow> 'a pci_state_scheme \<Rightarrow> bool" where
  "pci_only s t \<longleftrightarrow> (\<exists>l ds n. t = s\<lparr>io_log := l, pci_devices := ds, pci_device_count := n\<rparr> \<and>
     last_out PIC1_DATA l = last_out PIC1_DATA (io_log s) \<and> last_out PIC2_DATA l = last_out PIC2_DATA (io_log s))"

lemma pci_only_intro:
  assumes "last_out PIC1_DATA l = last_out PIC1_DATA (io_log s)" "last_out PIC2_DATA l = last_out PIC2_DATA (io_log s)"
  shows "pci_only s (s\<lparr>io_log := l, pci_devices := ds, pci_device_count := n\<rparr>)" "pci_only s (s\<lparr>io_log := l\<rparr>)"
proof -
  show "pci_only s (s\<lparr>io_log := l, pci_devices := ds, pci_device_count := n\<rparr>)" using assms unfolding pci_only_def by blast
  have "s\<lparr>io_log := l\<rparr> = s\<lparr>io_log := l, pci_devices := pci_devices s, pci_device_count := pci_device_count s\<rparr>" by simp
  then show "pci_only s (s\<lparr>io_log := l\<rparr>)" using assms unfolding pci_only_def by blast
qed

lemma pci_only_trans: "pci_only s t \<Longrightarrow> pci_only t u \<Longrightarrow> pci_only s u"
  unfolding pci_only_def by (elim exE conjE) (simp, blast)

lemma pci_only_read: "pci_only s (snd (inl dev p (pci_select b d f off s)))" "pci_only s (snd (inw dev p (pci_select b d f off s)))" "pci_only s (snd (inb dev p (pci_select b d f off s)))"
  unfolding pci_select_def port_defs Let_def by (simp_all add: pci_only_intro(2))

lemma pci_only_fold:
  assumes "\<And>x s. pci_only s (g x s)"
  shows "pci_only s (fold g xs s)"
proof (induction xs arbitrary: s)
  case Nil
  show ?case using pci_only_intro(2) [of "io_log s" s] by simp
next
  case (Cons x xs)
  show ?case using pci_only_trans [OF assms Cons] by simp
qed

lemma pci_probe_only: "pci_only s (pci_probe dev b d f s)"
proof -
  have e: "pci_only s (snd (pci_device_exists dev b d f s))" unfolding pci_device_exists_def Let_def split_beta by (simp add: pci_only_read)
  have r: "pci_only t (snd (pci_read_device_info dev b d f t))" for t :: "'a pci_state_scheme"
    unfolding pci_read_device_info_def Let_def split_beta snd_conv by (intro pci_only_trans [OF _ pci_only_read(1)] pci_only_read(1))
  have u: "pci_only t (t\<lparr>pci_devices := ds, pci_device_count := n\<rparr>)" for t :: "'a pci_state_scheme" and ds n
    using pci_only_intro(1) [where l = "io_log t" and s = t and ds = ds and n = n] by simp
  show ?thesis unfolding pci_probe_def Let_def split_beta
    by (auto intro: e pci_only_trans [OF e pci_only_trans [OF r u]])
qed

lemma pci_init_only: "pci_only s (pci_init dev s)"
proof -
  have p: "pci_only t (pci_scan_device dev b d t)" for b d and t :: "'a pci_state_scheme"
  proof -
    define t1 where "t1 = snd (inb dev PCI_CONFIG_DATA (pci_select b d 0 0x0E t))"
    have 1: "pci_only t (pci_probe dev b d 0 t1)" unfolding t1_def by (rule pci_only_trans [OF pci_only_read(3) pci_probe_only])
    then have "pci_only t (fold (\<lambda>f. pci_probe dev b d (of_nat f)) [1..<8] (pci_probe dev b d 0 t1))" by (rule pci_only_trans) (intro pci_only_fold pci_probe_only)
    with 1 show ?thesis unfolding pci_scan_device_def pci_is_multifunction_def Let_def split_beta snd_conv t1_def [symmetric] by (simp only: if_split simp_thms)
  qed
  have z: "pci_only s (s\<lparr>pci_device_count := 0\<rparr>)" using pci_only_intro(1) [where l = "io_log s" and s = s and ds = "pci_devices s" and n = 0] by simp
  show ?thesis unfolding pci_init_def pci_enumerate_devices_def by (rule pci_only_trans [OF z]) (intro pci_only_fold p)
qed

text \<open>The devices that the drivers look for: NVMe and AHCI controllers and Ethernet cards.\<close>

definition driven :: "pci_device_t \<Rightarrow> bool" where
  "driven d \<longleftrightarrow> class_code d = 1 \<and> (sub_class d = 6 \<or> sub_class d = 8) \<or> class_code d = 2 \<and> sub_class d = 0"

definition undriven_bus :: "(u32 \<Rightarrow> u32) \<Rightarrow> bool" where
  "undriven_bus cfg \<longleftrightarrow> (\<forall>b d f. present_function cfg b d f \<longrightarrow> \<not> driven (described cfg b d f))"

definition no_cards :: "'a pci_state_scheme \<Rightarrow> bool" where
  "no_cards s \<longleftrightarrow> (\<forall>d\<in>set (known s). \<not> driven d)"

lemma undriven_no_cards:
  assumes "answers cfg dev" "length (pci_devices s) = MAX_PCI_DEVICES" "undriven_bus cfg"
  shows "no_cards (pci_init dev s)"
proof -
  have "\<not> driven x" if "x \<in> set (found_functions cfg b d)" for x b d
    using that assms(3) unfolding found_functions_def undriven_bus_def set_map set_filter by blast
  then show ?thesis
    unfolding no_cards_def pci_init_known [OF assms(1,2), THEN conjunct1] by (auto dest!: in_set_takeD)
qed

lemma no_cards_find:
  assumes "no_cards s"
  shows "pci_find_devices 1 8 s = []" "pci_find_devices 1 6 s = []" "pci_find_devices 2 0 s = []"
  using assms by (auto simp: pci_find_devices_def no_cards_def known_def driven_def filter_empty_conv)

lemma no_cards_init:
  assumes "no_cards s"
  shows "nvme_init nenv nd s = Some (False, nd\<lparr>nd_controllers := replicate NVME_MAX_DEVICES zero_controller, nd_device_count := 0\<rparr>, spinlock_init (ne_global_lock nenv) s)"
    "sata_init senv s = Some (False, zero_driver, spinlock_init (se_global_lock senv) s)"
proof -
  have "no_cards (spinlock_init p s)" for p
    using assms spinlock_init_only [of s p] unfolding lock_only_def no_cards_def known_def by (elim exE) simp
  note f = no_cards_find [OF this]
  show "nvme_init nenv nd s = Some (False, nd\<lparr>nd_controllers := replicate NVME_MAX_DEVICES zero_controller, nd_device_count := 0\<rparr>, spinlock_init (ne_global_lock nenv) s)"
    by (simp add: nvme_init_def f NVME_PCI_CLASS_def NVME_PCI_SUBCLASS_def)
  show "sata_init senv s = Some (False, zero_driver, spinlock_init (se_global_lock senv) s)"
    by (simp add: sata_init_def find_and_init_controllers_def f AHCI_PCI_CLASS_def AHCI_PCI_SUBCLASS_def)
qed

text \<open>The trunk in its branches.\<close>

lemma mmio_branch:
  "no_cards (pci_state.extend (r :: pci_state) m) = no_cards r" "pci_state.truncate (pci_state.extend r m) = r" "pci_state.more (pci_state.extend r m) = m"
  "pci_state.truncate (s\<lparr>locks := l, spinlock_tracking := tr, spinlock_tracking_count := n\<rparr>) =
     (pci_state.truncate s)\<lparr>locks := l, spinlock_tracking := tr, spinlock_tracking_count := n\<rparr>"
  "pci_state.more (s\<lparr>locks := l, spinlock_tracking := tr, spinlock_tracking_count := n\<rparr>) = pci_state.more s"
  by (simp_all add: no_cards_def known_def pci_state.defs)

lemma lock_only_branch: "lock_only (pci_state.extend (r :: pci_state) m) t \<Longrightarrow> lock_only r (pci_state.truncate t) \<and> pci_state.more t = m"
  unfolding lock_only_def by (elim exE) (simp add: mmio_branch, blast)

lemma no_cards_cong: "pci_devices t = pci_devices s \<Longrightarrow> pci_device_count t = pci_device_count s \<Longrightarrow> no_cards t = no_cards s"
  by (simp add: no_cards_def known_def)

lemma storage_init_no_cards:
  assumes "no_cards (k_trunk k)"
  shows "\<exists>k' t. storage_init nenv senv k = Some (False, k') \<and> k' = k\<lparr>k_trunk := t, k_nvme := k_nvme k', k_sata := zero_driver\<rparr> \<and> lock_only (k_trunk k) t \<and>
    nd_device_count (k_nvme k') = 0"
proof -
  define t1 where "t1 = spinlock_init (ne_global_lock nenv) (with_mmio k)"
  have l1: "lock_only (k_trunk k) (pci_state.truncate t1)" "pci_state.more t1 = k_mmio k"
    using lock_only_branch [of "k_trunk k" "k_mmio k" t1] spinlock_init_only [of "with_mmio k"] by (simp_all add: t1_def with_mmio_def)
  define nd where "nd = (k_nvme k)\<lparr>nd_controllers := replicate NVME_MAX_DEVICES zero_controller, nd_device_count := 0\<rparr>"
  define k1 where "k1 = k\<lparr>k_trunk := pci_state.truncate t1, k_nvme := nd\<rparr>"
  have m1: "with_mmio k1 = pci_state.extend (pci_state.truncate t1) (k_mmio k)" by (simp add: with_mmio_def k1_def)
  define t2 where "t2 = spinlock_init (se_global_lock senv) (with_mmio k1)"
  have l2: "lock_only (pci_state.truncate t1) (pci_state.truncate t2)" "pci_state.more t2 = k_mmio k"
    using lock_only_branch [of "pci_state.truncate t1" "k_mmio k" t2] spinlock_init_only [of "with_mmio k1"] by (simp_all add: t2_def m1)
  have n: "no_cards (with_mmio k)" using assms by (simp add: with_mmio_def mmio_branch)
  have "no_cards (pci_state.truncate t1)" using assms l1(1) unfolding lock_only_def by (elim exE) (simp add: no_cards_def known_def)
  then have n1: "no_cards (with_mmio k1)" by (simp add: m1 mmio_branch)
  have f: "(from_mmio t1 k)\<lparr>k_nvme := nd\<rparr> = k1" using l1(2) by (simp add: from_mmio_def k1_def)
  have "storage_init nenv senv k = Some (False, (from_mmio t2 k1)\<lparr>k_sata := zero_driver\<rparr>)"
    by (simp add: storage_init_def no_cards_init(1) [OF n] t1_def [symmetric] nd_def [symmetric] f no_cards_init(2) [OF n1] t2_def [symmetric])
  moreover have "(from_mmio t2 k1)\<lparr>k_sata := zero_driver\<rparr> = k\<lparr>k_trunk := pci_state.truncate t2, k_nvme := nd, k_sata := zero_driver\<rparr>"
    using l2(2) by (simp add: from_mmio_def k1_def)
  ultimately show ?thesis using lock_only_trans [OF l1(1) l2(1)]
    by (intro exI [of _ "k\<lparr>k_trunk := pci_state.truncate t2, k_nvme := nd, k_sata := zero_driver\<rparr>"] exI [of _ "pci_state.truncate t2"]) (simp add: nd_def)
qed

lemma ext4_init_no_disks:
  assumes "nd_device_count (k_nvme k) = 0" "k_sata k = zero_driver"
  shows "in_ext4 (ext4_init (disk_queries senv buffer drv)) k = Some (k\<lparr>k_detected := map (\<lambda>d. d\<lparr>sd_type := STORAGE_TYPE_NONE\<rparr>) (k_detected k)\<rparr>)"
proof -
  have "Ext4.nvme_get_device_count (disk_queries senv buffer drv) (k_nvme k, k_sata k, m) = 0" "Ext4.sata_get_port_count (disk_queries senv buffer drv) (k_nvme k, k_sata k, m) = 0" for m
    using assms by (simp_all add: disk_queries_def Nvme.nvme_get_device_count_def Sata.sata_get_port_count_def zero_driver_def)
  moreover have "(with_mmio k)\<lparr>kvm := kvm (k_trunk k)\<rparr> = with_mmio k" by (simp add: with_mmio_def pci_state.defs)
  moreover have "from_mmio (with_mmio k) k = k" by (simp add: from_mmio_def with_mmio_def mmio_branch)
  ultimately show ?thesis by (simp add: in_ext4_def ext4_init_def storage_detect_all_devices_def)
qed

lemma network_init_no_cards:
  assumes "no_cards (k_trunk k)"
  shows "in_net (network_init nenv checker) k = Some (False, k)"
proof -
  have "no_cards (with_net k)" using assms by (simp add: with_net_def mmio_branch)
  then have "network_init nenv checker (with_net k) = Some (False, with_net k)" by (simp add: network_init_def no_cards_find)
  then show ?thesis by (simp add: in_net_def with_net_def mmio_branch)
qed

text \<open>What the start leaves behind on the trunk, and that it depends on these fields alone.\<close>

definition started :: "'a timer_state_scheme \<Rightarrow> bool" where
  "started s \<longleftrightarrow> interrupt_flag s \<and> lines_are 0xF8 0xEF s"

lemma started_cong:
  assumes "started s" "interrupt_flag t = interrupt_flag s" "pic_initialized t = pic_initialized s" "irq_enabled_mask t = irq_enabled_mask s"
    "pic_master_mask t = pic_master_mask s" "pic_slave_mask t = pic_slave_mask s"
    "last_out PIC1_DATA (io_log t) = last_out PIC1_DATA (io_log s)" "last_out PIC2_DATA (io_log t) = last_out PIC2_DATA (io_log s)"
  shows "started t"
  using assms(1,2) lines_are_cong [OF _ assms(3-8)] by (simp add: started_def)

lemma started_lock_only: "lock_only s t \<Longrightarrow> started s \<Longrightarrow> started t" "lock_only s t \<Longrightarrow> timer_ready s \<Longrightarrow> timer_ready t"
proof -
  assume l: "lock_only s t"
  from l show "started s \<Longrightarrow> started t" unfolding lock_only_def by (elim exE) (erule started_cong; simp)
  from l show "timer_ready s \<Longrightarrow> timer_ready t" unfolding lock_only_def by (elim exE) (simp add: timer_ready_def)
qed

lemma started_pci_init: "started s \<Longrightarrow> started (pci_init dev s)" "timer_ready s \<Longrightarrow> timer_ready (pci_init dev s)"
proof -
  have p: "pci_only s (pci_init dev s)" by (rule pci_init_only)
  from p show "started s \<Longrightarrow> started (pci_init dev s)" unfolding pci_only_def by (elim exE conjE) (erule started_cong; simp)
  from p show "timer_ready s \<Longrightarrow> timer_ready (pci_init dev s)" unfolding pci_only_def by (elim exE conjE) (simp add: timer_ready_def)
qed

lemma started_memory_init:
  assumes "memory_init env info s = Some t"
  shows "started s \<Longrightarrow> started t" "timer_ready s \<Longrightarrow> timer_ready t" "kernel_state.more t = kernel_state.more s"
proof -
  have "\<exists>h v. t = s \<or> t = s\<lparr>exception_handlers := h, kvm := v\<rparr>"
  proof (cases "bi_memmap info")
    case None
    then show ?thesis using assms by (simp add: memory_init_def)
  next
    case (Some um)
    then show ?thesis using assms
      by (cases um) (auto simp: memory_init_def idt_register_exception_handler_def IDT_ENTRIES_def Let_def bind_eq_Some_conv)
  qed
  then show "started s \<Longrightarrow> started t" "timer_ready s \<Longrightarrow> timer_ready t" "kernel_state.more t = kernel_state.more s"
    by (auto simp: timer_ready_def elim: started_cong)
qed

lemma proc_branch:
  "interrupt_flag (kernel_state.extend (r :: kernel_state) m) = interrupt_flag r" "io_log (kernel_state.extend r m) = io_log r"
  "pic_initialized (kernel_state.extend r m) = pic_initialized r" "irq_enabled_mask (kernel_state.extend r m) = irq_enabled_mask r"
  "pic_master_mask (kernel_state.extend r m) = pic_master_mask r" "pic_slave_mask (kernel_state.extend r m) = pic_slave_mask r"
  "timer_callbacks (kernel_state.extend r m) = timer_callbacks r" "timer_initialized (kernel_state.extend r m) = timer_initialized r"
  "timer_callbacks_lock (kernel_state.extend r m) = timer_callbacks_lock r" "kernel_state.more (kernel_state.extend r m) = m"
  by (simp_all add: kernel_state.defs)

lemma proc_truncate:
  "interrupt_flag (kernel_state.truncate s) = interrupt_flag s" "io_log (kernel_state.truncate s) = io_log s"
  "pic_initialized (kernel_state.truncate s) = pic_initialized s" "irq_enabled_mask (kernel_state.truncate s) = irq_enabled_mask s"
  "pic_master_mask (kernel_state.truncate s) = pic_master_mask s" "pic_slave_mask (kernel_state.truncate s) = pic_slave_mask s"
  "timer_callbacks (kernel_state.truncate s) = timer_callbacks s" "timer_initialized (kernel_state.truncate s) = timer_initialized s"
  "timer_callbacks_lock (kernel_state.truncate s) = timer_callbacks_lock s" "kernel_state.truncate (kernel_state.extend r m) = r"
  by (simp_all add: kernel_state.defs)

lemma pci_branch: "pci_devices (kernel_state.extend r (kernel_state.more s)) = pci_devices s" "pci_device_count (kernel_state.extend r (kernel_state.more s)) = pci_device_count s"
  by (cases s; simp add: kernel_state.defs)+

text \<open>The process subsystem in the whole kernel.\<close>

definition scheduling :: "process_env \<Rightarrow> kernel \<Rightarrow> bool" where
  "scheduling env k \<longleftrightarrow> current_process (with_proc k) = Some 0 \<and> idle_process (with_proc k) = Some 0 \<and>
     (\<exists>e. slot_entries tc_active (timer_callbacks (k_trunk k)) = {#e, e#} \<and> tc_callback e = timer_callback_addr env)"

lemma init_processes_kernel:
  assumes "started (k_trunk k)" "timer_ready (k_trunk k)" "process_lock env \<noteq> 0" "timer_callback_addr env \<noteq> 0"
  shows "\<exists>k'. in_proc (kernel_init_processes env) k = Some (True, k') \<and> started (k_trunk k') \<and> scheduling env k' \<and>
    pci_devices (k_trunk k') = pci_devices (k_trunk k) \<and> pci_device_count (k_trunk k') = pci_device_count (k_trunk k) \<and> k_gdt k' = k_gdt k"
proof -
  have w: "timer_initialized (with_proc k)" "\<not> timer_callbacks_lock (with_proc k)" "timer_callbacks (with_proc k) = replicate 16 empty_callback"
    using assms(2) by (simp_all add: with_proc_def proc_branch proc_truncate timer_ready_def)
  then have none: "slot_entries tc_active (timer_callbacks (with_proc k)) = {#}" by (simp add: slot_entries_def empty_callback_def)
  with w init_processes_result [of "with_proc k" env] assms(3,4) obtain t tc where
    t: "kernel_init_processes env (with_proc k) = Some (True, t)" "slot_entries tc_active tc = {#sched_entry env (with_proc k), sched_entry env (with_proc k)#}"
      "lock_only ((with_proc k)\<lparr>timer_callbacks := tc, process_table := idle_entry (kvm (with_proc k)) # replicate 63 zero_process, idle_process := Some 0,
         current_process := Some 0\<rparr>) t" by auto
  define k' where "k' = k\<lparr>k_trunk := kernel_state.extend (kernel_state.truncate t) (kernel_state.more (k_trunk k)), k_proc := kernel_state.more t\<rparr>"
  have "in_proc (kernel_init_processes env) k = Some (True, k')" by (simp add: in_proc_def t(1) k'_def)
  moreover have f: "interrupt_flag t = interrupt_flag (k_trunk k)" "io_log t = io_log (k_trunk k)" "pic_initialized t = pic_initialized (k_trunk k)"
    "irq_enabled_mask t = irq_enabled_mask (k_trunk k)" "pic_master_mask t = pic_master_mask (k_trunk k)" "pic_slave_mask t = pic_slave_mask (k_trunk k)"
    "timer_callbacks t = tc" "current_process t = Some 0" "idle_process t = Some 0"
    using t(3) unfolding lock_only_def by (elim exE; simp add: with_proc_def proc_branch proc_truncate)+
  have "started (k_trunk k')" by (rule started_cong [OF assms(1)]) (simp_all add: k'_def proc_branch proc_truncate f)
  moreover have "with_proc k' = kernel_state.extend (kernel_state.truncate t) (kernel_state.more t)" by (simp add: with_proc_def k'_def proc_truncate)
  then have "with_proc k' = t" by (cases t) (simp add: kernel_state.defs)
  then have "scheduling env k'" using t(2) f by (auto simp: scheduling_def k'_def proc_branch proc_truncate sched_entry_def)
  moreover have "pci_devices (k_trunk k') = pci_devices (k_trunk k)" "pci_device_count (k_trunk k') = pci_device_count (k_trunk k)" "k_gdt k' = k_gdt k"
    by (simp_all add: k'_def pci_branch)
  ultimately show ?thesis by blast
qed

text \<open>The branches at the root of the trunk.\<close>

definition with_serial :: "kernel \<Rightarrow> serial_state" where
  "with_serial k = machine.extend (machine.truncate (k_trunk k)) (k_serial k)"

definition with_gdt :: "kernel \<Rightarrow> gdt_state" where
  "with_gdt k = machine.extend (machine.truncate (k_trunk k)) (k_gdt k)"

lemma machine_branch: "machine.more (machine.extend r m) = m"
  by (simp add: machine.defs)

lemma machine_more:
  "machine.more s = machine.more t \<Longrightarrow> gdt_initialized s = gdt_initialized t \<and> recovery_in_progress s = recovery_in_progress t \<and> gdt_checksum s = gdt_checksum t \<and>
     loaded_gdtr s = loaded_gdtr t \<and> gdt_ready env x y s = gdt_ready env x y t"
  "machine.more u = machine.more v \<Longrightarrow> fresh_hardware be u = fresh_hardware be v \<and> mouse_state.more u = mouse_state.more v"
  by (cases s; cases t; simp add: gdt_ready_def) (cases u; cases v; simp add: fresh_hardware_def)

lemma mouse_more: "mouse_state.more s = mouse_state.more t \<Longrightarrow> pci_devices s = pci_devices t \<and> kvm s = kvm t"
  by (cases s; cases t; simp)

lemma kernel_more: "kernel_state.more s = kernel_state.more t \<Longrightarrow> pci_devices s = pci_devices t"
  by (cases s; cases t; simp)

lemma serial_start:
  assumes "drains dev (stdio_port (with_serial k))" "cstr (stdio_mem (streams (with_serial k))) message xs"
  shows "\<exists>k'. in_serial (serial_init_stdio dev g p ep message) k = Some k' \<and> machine.more (k_trunk k') = machine.more (k_trunk k) \<and> k_gdt k' = k_gdt k"
proof -
  define s where "s = with_serial k"
  define s2 where "s2 = (serial_init (stdio_port s) SERIAL_BAUD_115200 s)\<lparr>streams := stdio_set_stderr_putchar ep (stdio_set_stdout_putchar p
    (stdio_set_stdin_getchar g (streams (serial_init (stdio_port s) SERIAL_BAUD_115200 s))))\<rparr>"
  have f: "stdio_port s2 = stdio_port s" "stdio_mem (streams s2) = stdio_mem (streams s)"
    by (simp_all add: s2_def serial_init_def Let_def port_defs stdio_set_stderr_putchar_def stdio_set_stdout_putchar_def stdio_set_stdin_getchar_def)
  obtain es where "serial_string_loop dev (stdio_port s) message s2 = Some (s2\<lparr>io_log := es\<rparr>)"
    using serial_string_sent [of dev "stdio_port s" s2 message xs] assms f by (auto simp: s_def)
  then obtain t where "serial_init_stdio dev g p ep message s = Some t"
    unfolding serial_init_stdio_def Let_def s2_def [symmetric] by (cases "message = 0") (auto simp: serial_write_string_def f)
  then show ?thesis by (simp add: in_serial_def s_def with_serial_def machine_branch)
qed

lemma gdt_start:
  assumes "\<not> gdt_initialized (with_gdt k)" "\<not> recovery_in_progress (with_gdt k)" "gdt_checksum (with_gdt k) = 0" "\<not> carry_lgdt env" "\<not> carry_ltr env"
  shows "\<exists>k' n m. in_gdt (gdt_init env) k = Some k' \<and> machine.more (k_trunk k') = machine.more (k_trunk k) \<and>
    (\<forall>r. gdt_ready env n m (machine.extend r (k_gdt k')) \<and> loaded_gdtr (machine.extend r (k_gdt k')) = Some \<lparr>gdtr_limit = 55, gdtr_base = gdt_addr env\<rparr>)"
proof -
  obtain t where t: "gdt_init env (with_gdt k) = Inr t" "gdt_ready env (gdt_verification_errors (with_gdt k)) (recovery_attempts (with_gdt k)) t"
    "loaded_gdtr t = Some \<lparr>gdtr_limit = 55, gdtr_base = gdt_addr env\<rparr>" by (rule gdt_init_ready [OF assms]) (rule that)
  have "gdt_ready env (gdt_verification_errors (with_gdt k)) (recovery_attempts (with_gdt k)) (machine.extend r (machine.more t)) \<and>
      loaded_gdtr (machine.extend r (machine.more t)) = Some \<lparr>gdtr_limit = 55, gdtr_base = gdt_addr env\<rparr>" for r
    using machine_more(1) [of "machine.extend r (machine.more t)" t] t by (auto simp: machine_branch)
  moreover from t(1) have "in_gdt (gdt_init env) k = Some (k\<lparr>k_trunk := machine.extend (machine.truncate t) (machine.more (k_trunk k)), k_gdt := machine.more t\<rparr>)"
    by (simp add: in_gdt_def with_gdt_def)
  ultimately show ?thesis
    by (intro exI [of _ "k\<lparr>k_trunk := machine.extend (machine.truncate t) (machine.more (k_trunk k)), k_gdt := machine.more t\<rparr>"]
        exI [of _ "gdt_verification_errors (with_gdt k)"] exI [of _ "recovery_attempts (with_gdt k)"]) (simp add: machine_branch)
qed

text \<open>The static variables before the start, with the addresses that the linker has assigned.\<close>

definition fresh_kernel :: "kmain_env \<Rightarrow> kernel \<Rightarrow> bool" where
  "fresh_kernel e k \<longleftrightarrow> fresh_hardware (ke_boot e) (k_trunk k) \<and> length (pci_devices (k_trunk k)) = MAX_PCI_DEVICES \<and>
     \<not> gdt_initialized (with_gdt k) \<and> \<not> recovery_in_progress (with_gdt k) \<and> gdt_checksum (with_gdt k) = 0 \<and>
     process_lock (ke_process e) \<noteq> 0 \<and> timer_callback_addr (ke_process e) \<noteq> 0"

text \<open>A machine on which no initialisation waits or fails: the serial port drains and the boot loader's memory map fits the bitmap of the page allocator.\<close>

definition calm_machine :: "kmain_env \<Rightarrow> (u32 \<Rightarrow> u32) \<Rightarrow> kernel \<Rightarrow> bool" where
  "calm_machine e cfg k \<longleftrightarrow> drains (be_dev (ke_boot e)) (stdio_port (with_serial k)) \<and> answers cfg (be_dev (ke_boot e)) \<and> undriven_bus cfg \<and>
     \<not> carry_lgdt (ke_gdt e) \<and> \<not> carry_ltr (ke_gdt e) \<and>
     pred_option (\<lambda>(usable, memmap). pmm_init usable memmap 0 (vmm_pmm (kvm (k_trunk k))) \<noteq> None) (bi_memmap (ke_info e))"

lemma hardware_memory_start:
  assumes "fresh_hardware env s" "pred_option (\<lambda>(usable, memmap). pmm_init usable memmap 0 (vmm_pmm (kvm s)) \<noteq> None) (bi_memmap info)"
  shows "\<exists>t u. hardware_init env s = Some t \<and> memory_init env info t = Some u \<and> started u \<and> timer_ready u \<and> pci_devices u = pci_devices s"
proof -
  obtain t where t: "hardware_init env s = Some t" "started t" "timer_ready t" "mouse_state.more t = mouse_state.more s"
    using hardware_init_lines [OF assms(1)] unfolding started_def by blast
  have v: "pci_devices t = pci_devices s" "kvm t = kvm s" using mouse_more [OF t(4)] by simp_all
  obtain u where u: "memory_init env info t = Some u"
  proof (cases "bi_memmap info")
    case None
    then show thesis using that by (simp add: memory_init_def)
  next
    case (Some um)
    with assms(2) v(2) obtain pm where "pmm_init (fst um) (snd um) 0 (vmm_pmm (kvm t)) = Some pm" by (auto simp: split_beta)
    with Some show thesis using that by (simp add: memory_init_def split_beta)
  qed
  note m = started_memory_init [OF u]
  show ?thesis using t m v(1) kernel_more [OF m(3)] u by auto
qed

lemma kmain_early:
  assumes "fresh_kernel e k" "calm_machine e cfg k" "cstr (stdio_mem (streams (with_serial k))) (ke_message e) xs"
  obtains k5 n m where "kmain e k = do {
       (storage_available, k6) \<leftarrow> storage_init (ke_nvme e) (ke_sata e) k5;
       k7 \<leftarrow> in_ext4 (ext4_init (disk_queries (ke_sata e) (ke_info_buffer e) (ke_drivers e))) k6;
       (_, k8) \<leftarrow> in_proc (kernel_init_processes (ke_process e)) k7;
       (network_available, k9) \<leftarrow> in_net (network_init (ke_net e) (ke_net_checker e)) k8;
       Some (storage_available, network_available, k9) }"
    "started (k_trunk k5)" "timer_ready (k_trunk k5)" "no_cards (k_trunk k5)"
    "\<forall>r. gdt_ready (ke_gdt e) n m (machine.extend r (k_gdt k5)) \<and> loaded_gdtr (machine.extend r (k_gdt k5)) = Some \<lparr>gdtr_limit = 55, gdtr_base = gdt_addr (ke_gdt e)\<rparr>"
proof -
  note F = assms(1) [unfolded fresh_kernel_def] and C = assms(2) [unfolded calm_machine_def]
  have d: "drains (be_dev (ke_boot e)) (stdio_port (with_serial k))" using C by blast
  obtain k1 where 1: "in_serial (serial_init_stdio (be_dev (ke_boot e)) (ke_getc e) (ke_putc e) (ke_eputc e) (ke_message e)) k = Some k1"
    "machine.more (k_trunk k1) = machine.more (k_trunk k)" "k_gdt k1 = k_gdt k" using serial_start [OF d assms(3)] by blast
  have "machine.more (with_gdt k1) = machine.more (with_gdt k)" by (simp add: with_gdt_def machine_branch 1(3))
  note g = machine_more(1) [OF this]
  have gs: "\<not> gdt_initialized (with_gdt k1)" "\<not> recovery_in_progress (with_gdt k1)" "gdt_checksum (with_gdt k1) = 0" "\<not> carry_lgdt (ke_gdt e)" "\<not> carry_ltr (ke_gdt e)"
    using F C g by simp_all
  obtain k2 n m where 2: "in_gdt (gdt_init (ke_gdt e)) k1 = Some k2" "machine.more (k_trunk k2) = machine.more (k_trunk k1)"
    "\<forall>r. gdt_ready (ke_gdt e) n m (machine.extend r (k_gdt k2)) \<and> loaded_gdtr (machine.extend r (k_gdt k2)) = Some \<lparr>gdtr_limit = 55, gdtr_base = gdt_addr (ke_gdt e)\<rparr>"
    using gdt_start [OF gs] by blast
  have mm: "machine.more (k_trunk k2) = machine.more (k_trunk k)" using 1(2) 2(2) by simp
  have fh: "fresh_hardware (ke_boot e) (k_trunk k2)" using machine_more(2) [OF mm] F by blast
  note mo = mouse_more [OF machine_more(2) [OF mm, THEN conjunct2]]
  have pm: "pred_option (\<lambda>(usable, memmap). pmm_init usable memmap 0 (vmm_pmm (kvm (k_trunk k2))) \<noteq> None) (bi_memmap (ke_info e))" using C mo by simp
  obtain t u where h: "hardware_init (ke_boot e) (k_trunk k2) = Some t" "memory_init (ke_boot e) (ke_info e) t = Some u" "started u" "timer_ready u" "pci_devices u = pci_devices (k_trunk k2)"
    using hardware_memory_start [OF fh pm] by blast
  define k5 where "k5 = k2\<lparr>k_trunk := pci_init (be_dev (ke_boot e)) u\<rparr>"
  have "length (pci_devices u) = MAX_PCI_DEVICES" using h(5) mo F by simp
  then have nc: "no_cards (k_trunk k5)" using undriven_no_cards C by (auto simp: k5_def)
  show thesis
  proof (rule that [of k5 n m])
    show "started (k_trunk k5)" "timer_ready (k_trunk k5)" "no_cards (k_trunk k5)" using h(3,4) nc by (simp_all add: k5_def started_pci_init)
    show "\<forall>r. gdt_ready (ke_gdt e) n m (machine.extend r (k_gdt k5)) \<and> loaded_gdtr (machine.extend r (k_gdt k5)) = Some \<lparr>gdtr_limit = 55, gdtr_base = gdt_addr (ke_gdt e)\<rparr>"
      using 2(3) by (simp add: k5_def)
  qed (simp add: kmain_def 1(1) 2(1) in_trunk_def h(1,2) k5_def)
qed


text \<open>A machine with an empty bus, a serial port that is always ready and one region of memory.\<close>

definition empty_machine :: device where
  "empty_machine log port = (if port = 0x3FD then 0x20 else host_bridge (\<lambda>_. 0xFFFFFFFF) log port)"

definition kmain_env_demo :: kmain_env where
  "kmain_env_demo = \<lparr>ke_getc = 0x100, ke_putc = 0x200, ke_eputc = 0x300, ke_message = 0x8000,
     ke_boot = \<lparr>be_dev = empty_machine, be_isr_stubs = replicate 32 0x1000, be_idt_table = 0x2000, be_irq_stubs = replicate 16 0x3000,
       be_timer_handler = 0x4100, be_keyboard_handler = 0x4200, be_mouse_handler = 0x4300, be_page_fault_handler = 0x4400\<rparr>,
     ke_info = \<lparr>bi_memmap = Some (0, [\<lparr>me_base = 0x200000, me_length = 0x1000000, me_type = 0\<rparr>]), bi_hhdm = Some 0xffff800000000000,
       bi_kernel_address = None, bi_cpuid_edx = 0x100000\<rparr>,
     ke_gdt = gdt_env_demo, ke_nvme = nvme_env_demo, ke_sata = sata_env_demo,
     ke_drivers = drivers.make (\<lambda>_ _ _ buf _ d. ((False, buf), d)) (\<lambda>_ _ _ _ _ d. (False, d)) (\<lambda>_ _ d. (False, d)) (\<lambda>_ _ d. (None, d)) (\<lambda>_. 0)
       (\<lambda>_ _ buf _ d. ((False, buf), d)) (\<lambda>_ _ _ _ d. (False, d)) (\<lambda>_ d. (False, d)) (\<lambda>_. 0) (\<lambda>_ d. (False, d)),
     ke_info_buffer = 0x9000, ke_process = env_demo, ke_net = net_demo_env, ke_net_checker = 0x4500\<rparr>"

definition kernel_start_demo :: kernel where
  "kernel_start_demo = \<lparr>k_trunk = pci_demo\<lparr>timer_initialized := False\<rparr>, k_serial = machine.more serial_demo, k_gdt = machine.more gdt_demo,
     k_proc = kernel_state.more boot_demo, k_mmio = pci_state.more mmio_demo, k_net = pci_state.more net_demo,
     k_nvme = \<lparr>nd_controllers = [], nd_device_count = 0, nd_write_cmd_id = 0\<rparr>, k_sata = zero_driver, k_detected = [], k_storage_count = 0\<rparr>"

lemma empty_machine_drains: "drains empty_machine COM1_PORT"
  unfolding drains_def by (intro allI exI [of _ 0]) (simp add: empty_machine_def COM1_PORT_def)

lemma empty_machine_answers: "answers (\<lambda>_. 0xFFFFFFFF) empty_machine"
proof -
  have "PCI_CONFIG_DATA + of_nat k \<noteq> 0x3FD" if k: "k < 4" for k
  proof -
    consider "k = 0" | "k = 1" | "k = 2" | "k = 3" using k by linarith
    then show ?thesis by cases (simp_all add: PCI_CONFIG_DATA_def)
  qed
  then show ?thesis using host_bridge_answers [of "\<lambda>_. 0xFFFFFFFF"] by (simp add: answers_def empty_machine_def)
qed

lemma kernel_start_demo_fields:
  "machine.more (with_serial kernel_start_demo) = machine.more serial_demo" "machine.more (with_gdt kernel_start_demo) = machine.more gdt_demo"
  by (simp_all add: with_serial_def with_gdt_def machine_branch kernel_start_demo_def)

lemma serial_more: "machine.more s = machine.more t \<Longrightarrow> stdio_port s = stdio_port t \<and> streams s = streams t"
  by (cases s; cases t; simp)

lemma kernel_start_fresh: "fresh_kernel kmain_env_demo kernel_start_demo"
proof -
  have "fresh_hardware (ke_boot kmain_env_demo) (k_trunk kernel_start_demo)"
    by (simp add: fresh_hardware_def free_row_def kmain_env_demo_def kernel_start_demo_def pci_demo_def kernel_state.defs kernel_demo_def lock_state.defs lock_demo_def
        mouse_state.defs mouse_demo_def keyboard_state.defs keyboard_demo_def timer_state.defs timer_demo_def irq_state.defs irq_demo_def idt_state.defs idt_demo_def)
  moreover have "length (pci_devices (k_trunk kernel_start_demo)) = MAX_PCI_DEVICES"
    by (simp add: kernel_start_demo_def pci_demo_def kernel_state.defs MAX_PCI_DEVICES_def)
  ultimately show ?thesis
    using machine_more(1) [OF kernel_start_demo_fields(2)] gdt_demo_hyps by (simp add: fresh_kernel_def) (simp add: kmain_env_demo_def env_demo_def)
qed

lemma kernel_start_calm: "calm_machine kmain_env_demo (\<lambda>_. 0xFFFFFFFF) kernel_start_demo"
  using serial_more [OF kernel_start_demo_fields(1)] gdt_demo_hyps empty_machine_drains empty_machine_answers
  by (simp add: calm_machine_def kmain_env_demo_def undriven_bus_def present_function_def)
     (simp add: serial_demo_def pmm_init_def mark_entry_def Let_def split_beta)


end
