(* ===== verification/Spec2Isabelle.thy ===== *)
theory Spec2Isabelle
  imports Kernel_Start
begin

text \<open>
  \<^bold>\<open>SyncOS\<close> is a small kernel for x86-64 computers, written in C with a few assembly stubs. The boot loader hands it a map of the physical memory and calls \<open>kmain\<close>, which
  starts the components one after the other and then halts between interrupts. This development models the C code under \<open>src/src/src/\<close>, function by function, and proves
  what the components guarantee, alone and together. File names below are relative to that directory.

  \<^bold>\<open>The parts of the program and the theories that model them.\<close>

  \<^item> Shared code. \<open>Prelude\<close>: integer types, bitmaps, the search for the first matching table entry. \<open>Machine\<close>: port input and output (\<open>kstd/io.h\<close>). \<open>Kstring\<close>: \<open>kstd/string.c\<close>.
    \<open>Stdio\<close>: formatted output (\<open>kstd/stdio.c\<close>). \<open>Byte_Fields\<close>: fields of packed structures. \<open>Spinlock\<close>: \<open>syncos/spinlock.c\<close>, for one thread and, as a step relation, for any number.
  \<^item> Memory. \<open>Pmm\<close>: the bitmap of physical pages (\<open>syncos/pmm.c\<close>), a provider of the contract in \<open>Page_Allocator\<close>. \<open>Paging\<close>: page tables as a radix tree. \<open>Vmm\<close>,
    \<open>Vmm_Correct\<close>, \<open>Vmm_Spaces\<close>: mapping, the area allocator and address spaces (\<open>syncos/vmm.c\<close>), which take their pages from the former.
  \<^item> Processor tables. \<open>Gdt\<close>: \<open>syncos/gdt.c\<close>. \<open>Idt\<close>: \<open>syncos/idt.c\<close>. \<open>Idt_Extensions\<close>: \<open>syncos/idt_extensions.c\<close> and the exception handler \<open>syncos/isr.c\<close> with the frame that
    \<open>isr_stubs.S\<close> builds.
  \<^item> Interrupts. \<open>Pic\<close>: the two 8259 controllers (\<open>syncos/pic.c\<close>). \<open>Irq\<close>: handlers and dispatch (\<open>syncos/irq.c\<close>). \<open>Timer\<close>: \<open>syncos/timer.c\<close>. \<open>Keyboard\<close>, \<open>Mouse\<close>: \<open>syncos/keyboard.c\<close>,
    \<open>syncos/mouse.c\<close>, whose rings and callback tables are in \<open>Input_Queue\<close>. \<open>Slot_Table\<close>: the tables of callbacks that four of these files keep.
  \<^item> Processes. \<open>Elf\<close>: the loader (\<open>syncos/elf.c\<close>). \<open>Proc_Queue\<close>, \<open>Process\<close>: the process table, its queues, scheduling, creation and termination (\<open>syncos/process.c\<close>, with the context
    switch of \<open>process_switch.S\<close>). \<open>Scheduler\<close>, \<open>Proc_Correct\<close>: their correctness.
  \<^item> Devices. \<open>Pci\<close>: the bus (\<open>core/drivers/pci.c\<close>). \<open>Mmio\<close>: device registers in memory and buffers for direct access. \<open>Sata\<close>, \<open>Sata_Correct\<close>: \<open>core/drivers/sata.c\<close>.
    \<open>Nvme\<close>, \<open>Nvme_Correct\<close>: \<open>core/drivers/nvme.c\<close>. \<open>E1000\<close>: \<open>core/drivers/net/e1000.c\<close>. \<open>Serial\<close>: \<open>syncos/serial.c\<close>.
  \<^item> Services. \<open>Net\<close>: Ethernet, IPv4, TCP and HTTP (\<open>syncos/net/net.c\<close>). \<open>Ext4\<close>, \<open>Ext4_Correct\<close>: the file system on either disk driver (\<open>syncos/fs/ext4.c\<close>).
  \<^item> Start. \<open>Kernel_Main\<close>: \<open>core/main.c\<close>, on the static variables of all components. \<open>Kernel_Start\<close>: what holds when the start is over.

  \<^bold>\<open>State.\<close> The static variables of a file are the fields of a record, and the record of a file extends that of the files it calls: \<open>machine\<close> (port log and interrupt flag), \<open>idt_state\<close>,
  \<open>pic_state\<close>, \<open>irq_state\<close>, \<open>timer_state\<close>, \<open>keyboard_state\<close>, \<open>mouse_state\<close>, \<open>lock_state\<close>, \<open>kernel_state\<close> (with the state \<open>vmm_state\<close> of the memory managers and the byte memory) and \<open>pci_state\<close>
  form the trunk; \<open>gdt_state\<close> and \<open>serial_state\<close> branch off \<open>machine\<close>, \<open>ext_state\<close> off \<open>pic_state\<close>, \<open>proc_state\<close> off \<open>kernel_state\<close>, \<open>mmio_state\<close> and \<open>e1000_state\<close> with \<open>net_state\<close> off \<open>pci_state\<close>.
  Every operation is polymorphic in the extension of its record, so a caller runs it on its own state. The record \<open>kernel\<close> of \<open>Kernel_Main\<close> holds the trunk and all branches that the start uses.
  The structures of the disk drivers and of an opened file system are values that the functions return updated.

  \<^bold>\<open>Effects.\<close> Integers are words of the width they have in C and wrap around. Pointers are 64-bit addresses, 0 the null pointer. A function pointer is an address, and
  what the code there does is a parameter (\<open>call\<close>). Port reads, device registers, direct memory access by devices, the time stamp counter, \<open>hlt\<close>, the addresses of static objects and the answers
  of the boot loader are parameters too. A result \<open>None\<close> is a run that does not come back: a halt, a division by zero, a call of a null pointer, an access
  outside of a table, or a loop that never ends. Loops that may not end are partial functions, so that a theorem that says that a function
  returns says that its value is \<open>Some\<close>; loops that the code bounds by a counter or a timeout recurse on that bound, and no fuel is used beyond what the code counts itself. What reaches its
  end on every input is a total function with a termination proof.

  \<^bold>\<open>Interfaces.\<close> \<open>page_allocator\<close> is the contract of the page allocator, interpreted by \<open>Pmm\<close>. \<open>slot_table\<close> is the table of callbacks, interpreted by \<open>Irq\<close>, \<open>Timer\<close>,
  \<open>Input_Queue\<close> and \<open>Idt_Extensions\<close>. \<open>ring_queue\<close> is the ring of 256 entries, interpreted by \<open>Keyboard\<close> and \<open>Mouse\<close>. \<open>rotation\<close> is a step that moves the head of a list to its end, interpreted by the
  scheduler. The functions of the disk drivers that the file system calls are the record \<open>drivers\<close>, with the contracts \<open>disk_reads\<close> and \<open>disk_writes\<close>.

  \<^bold>\<open>What is proved.\<close>

  \<^item> The whole: \<open>kmain\<close> reaches its final loop on a machine without disks and network cards, and what then holds of interrupts, descriptor table and scheduler (\<open>Kernel_Start\<close>).
  \<^item> Memory: initialisation of the page bitmap, first fit, and that pages are neither lost nor handed out twice (\<open>Pmm\<close>); mapping and unmapping change exactly the leaf they are
    asked to change of the translation that the page tables encode, creation and deletion of an address space give back its pages (\<open>Vmm_Correct\<close>, \<open>Vmm_Spaces\<close>).
  \<^item> Interrupts: the table of enabled lines agrees with the hardware masks along every run, every dispatch ends with the right acknowledgement, timer callbacks come once per period, keyboard and
    mouse are bounded queues of decoded events (\<open>Irq\<close>, \<open>Timer\<close>, \<open>Keyboard\<close>, \<open>Mouse\<close>).
  \<^item> Processes: the invariant of the table and its queues along every run from the start, round robin, blocking and unblocking, creation, termination and the user stack (\<open>Proc_Correct\<close>); loading
    of segments (\<open>Elf\<close>); mutual exclusion of spinlocks (\<open>Spinlock\<close>).
  \<^item> Devices: enumeration of the bus (\<open>Pci\<close>); a SATA transfer asks for exactly the sectors of the request, and the ports after initialisation (\<open>Sata_Correct\<close>); the state of the NVMe driver after
    initialisation, the consumption of a completion queue, and a read from a disk that does not answer (\<open>Nvme_Correct\<close>); the text that reaches the serial line (\<open>Serial\<close>).
  \<^item> Services: headers of sent packets and the transitions of a connection (\<open>Net\<close>); the block cache against a table of blocks, inode round trip, directory scan and path
    walk (\<open>Ext4_Correct\<close>).
  \<^item> Library: \<open>memcpy\<close> and \<open>memmove\<close>, bounds of formatted output (\<open>Kstring\<close>, \<open>Stdio\<close>).

  Several theorems state behaviour that the code has and its comments do not mean it to have; they describe the code as it is.

  \<^bold>\<open>Not modelled.\<close> Messages on the console, except those of the debugging functions, which are lists of printed lines; the assembly that saves registers around interrupt handlers
  (\<open>irq_stubs.S\<close>, \<open>timer_irq_stub.S\<close>) and the three one-instruction functions of \<open>kstd/asm.c\<close>, which nothing calls; interrupts between two statements of sequential code, other than in a wait; caches and
  reordering by the processor; the boot loader's structures beyond the fields the code reads.
\<close>

end
